(* ===== verification/Py_Float.thy ===== *)
theory Py_Float
  imports Complex_Main "HOL-Library.Log_Nat"
begin

text \<open>
  Python's \<open>float\<close>: IEEE 754 binary64 with round-half-to-even.  A finite value is the
  rational number it stands for, so comparisons are exact; arithmetic computes the exact
  rational result and rounds it (\<open>fl\<close>).  The sign of zero is not kept: the modelled code
  never divides a float by a zero float without Python raising, and never formats one.
\<close>

section \<open>Values and comparisons\<close>

datatype pyfloat = Fin rat | PosInf | NegInf | NaN

fun flt :: "pyfloat \<Rightarrow> pyfloat \<Rightarrow> bool" where
  "flt NaN _ = False"
| "flt _ NaN = False"
| "flt (Fin a) (Fin b) = (a < b)"
| "flt PosInf _ = False"
| "flt _ PosInf = True"
| "flt _ NegInf = False"
| "flt NegInf (Fin _) = True"

fun feq :: "pyfloat \<Rightarrow> pyfloat \<Rightarrow> bool" where
  "feq NaN _ = False"
| "feq x y = (x = y)"

definition fle :: "pyfloat \<Rightarrow> pyfloat \<Rightarrow> bool" where
  "fle x y = (flt x y \<or> feq x y)"

fun isfinite :: "pyfloat \<Rightarrow> bool" where
  "isfinite (Fin _) = True"
| "isfinite _ = False"

lemma fle_Fin [simp]: "fle (Fin a) (Fin b) = (a \<le> b)"
  by (auto simp: fle_def)

lemma fle_Inf [simp]: "fle (Fin a) PosInf" "fle NegInf (Fin a)" "\<not> fle PosInf (Fin a)" "\<not> fle (Fin a) NegInf"
  by (simp_all add: fle_def)

lemma fle_NaN [simp]: "\<not> fle NaN y" "\<not> fle x NaN"
  by (auto simp: fle_def) (cases x; simp)+

lemma flt_irrefl [simp]: "\<not> flt x x"
  by (cases x) auto

lemma flt_trans: "flt x y \<Longrightarrow> flt y z \<Longrightarrow> flt x z"
  by (cases x; cases y; cases z) auto

lemma flt_fle_trans: "flt x y \<Longrightarrow> fle y z \<Longrightarrow> flt x z"
  by (cases x; cases y; cases z) (auto simp: fle_def)

lemma fle_flt_trans: "fle x y \<Longrightarrow> flt y z \<Longrightarrow> flt x z"
  by (cases x; cases y; cases z) (auto simp: fle_def)

lemma fle_trans: "fle x y \<Longrightarrow> fle y z \<Longrightarrow> fle x z"
  by (cases x; cases y; cases z) (auto simp: fle_def)

lemma flt_imp_fle: "flt x y \<Longrightarrow> fle x y"
  by (simp add: fle_def)

lemma flt_imp_not_fle: "flt x y \<Longrightarrow> \<not> fle y x"
  by (cases x; cases y) (auto simp: fle_def)

lemma not_flt_imp_fle: "x \<noteq> NaN \<Longrightarrow> y \<noteq> NaN \<Longrightarrow> \<not> flt x y \<Longrightarrow> fle y x"
  by (cases x; cases y) (auto simp: fle_def)

section \<open>Rounding to 53 bits\<close>

text \<open>\<open>round_div p q\<close> is the integer nearest to \<open>p / q\<close>, ties to even, for a positive \<open>q\<close>.\<close>

definition round_div :: "int \<Rightarrow> int \<Rightarrow> int" where
  "round_div p q = (let d = p div q; m = p mod q in
     if 2 * m < q then d else if q < 2 * m then d + 1 else if even d then d else d + 1)"

text \<open>\<open>scaled p q k\<close> is \<open>p / q\<close> divided by \<open>2 ^ k\<close>, as numerator and denominator.\<close>

definition scaled :: "int \<Rightarrow> int \<Rightarrow> int \<Rightarrow> int \<times> int" where
  "scaled p q k = (if 0 \<le> k then (p, q * 2 ^ nat k) else (p * 2 ^ nat (- k), q))"

text \<open>\<open>ilog2 p q\<close> is the exponent of the binade of the positive rational \<open>p / q\<close>.\<close>

definition ilog2 :: "int \<Rightarrow> int \<Rightarrow> int" where
  "ilog2 p q = (let e = bitlen p - bitlen q; (n, d) = scaled p q e in if d \<le> n then e else e - 1)"

text \<open>
  \<open>fl r\<close> is the double nearest to \<open>r\<close>: 53 bits of mantissa \<open>m\<close>, a least exponent of
  \<open>- 1074\<close>, and infinity from \<open>2 ^ 1024\<close> on.
\<close>

definition fl :: "rat \<Rightarrow> pyfloat" where
  "fl r = (if r = 0 then Fin 0 else
     let (p, q) = quotient_of \<bar>r\<bar>; k = max (ilog2 p q - 52) (- 1074);
         (n, d) = scaled p q k; m = round_div n d;
         v = (if 0 \<le> k then of_int (m * 2 ^ nat k) else of_int m / of_int (2 ^ nat (- k)))
     in if 971 < k \<or> k = 971 \<and> 2 ^ 53 \<le> m then (if r < 0 then NegInf else PosInf)
        else Fin (if r < 0 then - v else v))"

lemma round_div_nonneg: "0 \<le> p \<Longrightarrow> 0 < q \<Longrightarrow> 0 \<le> round_div p q"
  by (auto simp: round_div_def Let_def pos_imp_zdiv_nonneg_iff intro: add_nonneg_nonneg)

lemma scaled_pos:
  "0 < p \<Longrightarrow> 0 < q \<Longrightarrow> 0 < fst (scaled p q k) \<and> 0 < snd (scaled p q k)"
  by (simp add: scaled_def)

text \<open>Rounding keeps the sign and never gives NaN.\<close>

lemma fl_nonneg:
  assumes "0 \<le> r"
  shows "fle (Fin 0) (fl r)"
proof (cases "r = 0")
  case True
  then show ?thesis by (simp add: fl_def)
next
  case False
  obtain p q where pq: "quotient_of r = (p, q)" by fastforce
  have q: "0 < q" using quotient_of_denom_pos[OF pq] .
  have "r = of_int p / of_int q" using quotient_of_div[OF pq] .
  with False assms q have p: "0 < p" by (simp add: zero_le_divide_iff order_less_le)
  define k where "k = max (ilog2 p q - 52) (- 1074)"
  obtain n d where nd: "scaled p q k = (n, d)" by fastforce
  have "0 < n" "0 < d" using scaled_pos[OF p q, of k] nd by auto
  then have m: "0 \<le> round_div n d" by (simp add: round_div_nonneg)
  show ?thesis
    using False assms m by (simp add: fl_def pq nd k_def[symmetric] Let_def)
qed

lemma fl_not_NaN [simp]: "fl r \<noteq> NaN"
  by (simp add: fl_def Let_def split: prod.splits)

section \<open>Arithmetic\<close>

fun fneg :: "pyfloat \<Rightarrow> pyfloat" where
  "fneg (Fin a) = Fin (- a)"
| "fneg PosInf = NegInf"
| "fneg NegInf = PosInf"
| "fneg NaN = NaN"

fun fadd :: "pyfloat \<Rightarrow> pyfloat \<Rightarrow> pyfloat" where
  "fadd (Fin a) (Fin b) = fl (a + b)"
| "fadd NaN _ = NaN"
| "fadd _ NaN = NaN"
| "fadd PosInf NegInf = NaN"
| "fadd NegInf PosInf = NaN"
| "fadd PosInf _ = PosInf"
| "fadd NegInf _ = NegInf"
| "fadd _ PosInf = PosInf"
| "fadd _ NegInf = NegInf"

definition fsub :: "pyfloat \<Rightarrow> pyfloat \<Rightarrow> pyfloat" where
  "fsub x y = fadd x (fneg y)"

text \<open>The sign of a float, for products and quotients with infinities.\<close>

fun fsgn :: "pyfloat \<Rightarrow> rat" where
  "fsgn (Fin a) = sgn a"
| "fsgn PosInf = 1"
| "fsgn NegInf = - 1"
| "fsgn NaN = 0"

definition inf_of_sign :: "rat \<Rightarrow> pyfloat" where
  "inf_of_sign s = (if s = 0 then NaN else if s < 0 then NegInf else PosInf)"

fun fmul :: "pyfloat \<Rightarrow> pyfloat \<Rightarrow> pyfloat" where
  "fmul (Fin a) (Fin b) = fl (a * b)"
| "fmul NaN _ = NaN"
| "fmul _ NaN = NaN"
| "fmul x y = inf_of_sign (fsgn x * fsgn y)"

text \<open>
  Division by a nonzero divisor; Python raises \<open>ZeroDivisionError\<close> for a zero one, so the
  callers test for it first and \<open>None\<close> is that exception.
\<close>

fun fdiv :: "pyfloat \<Rightarrow> pyfloat \<Rightarrow> pyfloat option" where
  "fdiv x (Fin b) =
     (if b = 0 then None
      else Some (case x of Fin a \<Rightarrow> fl (a / b) | NaN \<Rightarrow> NaN | _ \<Rightarrow> inf_of_sign (fsgn x * sgn b)))"
| "fdiv (Fin a) NaN = Some NaN"
| "fdiv (Fin a) _ = Some (Fin 0)"
| "fdiv _ _ = Some NaN"

text \<open>\<open>max\<close> and \<open>min\<close> of two floats keep the first argument unless the second is larger (smaller).\<close>

definition fmax :: "pyfloat \<Rightarrow> pyfloat \<Rightarrow> pyfloat" where
  "fmax x y = (if flt x y then y else x)"

definition fmin :: "pyfloat \<Rightarrow> pyfloat \<Rightarrow> pyfloat" where
  "fmin x y = (if flt y x then y else x)"

text \<open>\<open>trunc\<close>: what \<open>int(x)\<close> does to a finite float; \<open>None\<close> is the exception it raises on others.\<close>

definition rat_trunc :: "rat \<Rightarrow> int" where
  "rat_trunc r = (if r < 0 then - \<lfloor>- r\<rfloor> else \<lfloor>r\<rfloor>)"

fun ftrunc :: "pyfloat \<Rightarrow> int option" where
  "ftrunc (Fin r) = Some (rat_trunc r)"
| "ftrunc _ = None"

text \<open>\<open>float(n)\<close> of an integer; \<open>None\<close> is the \<open>OverflowError\<close> of one that is too large.\<close>

definition float_of_int :: "int \<Rightarrow> pyfloat option" where
  "float_of_int n = (case fl (of_int n) of Fin r \<Rightarrow> Some (Fin r) | _ \<Rightarrow> None)"

text \<open>Comparison of an \<open>int\<close> with a float is exact in Python.\<close>

abbreviation fint :: "int \<Rightarrow> pyfloat" where
  "fint n \<equiv> Fin (of_int n)"

lemma rat_trunc_nonneg: "0 \<le> r \<Longrightarrow> 0 \<le> rat_trunc r"
  by (simp add: rat_trunc_def)

lemma rat_trunc_of_int [simp]: "rat_trunc (of_int n) = n"
  by (simp add: rat_trunc_def floor_minus ceiling_of_int)

lemma rat_trunc_le: "0 \<le> r \<Longrightarrow> of_int (rat_trunc r) \<le> r"
  by (simp add: rat_trunc_def)

lemma rat_trunc_mono: "0 \<le> r \<Longrightarrow> r \<le> s \<Longrightarrow> rat_trunc r \<le> rat_trunc s"
  by (simp add: rat_trunc_def floor_mono)

text \<open>The doubles nearest to the decimal literals of the source.\<close>

definition lit :: "rat \<Rightarrow> pyfloat" where
  "lit r = fl r"

end
