(* ===== verification/Py_Base.thy ===== *)
theory Py_Base
  imports Py_Float "HOL-Library.Multiset" "HOL-Library.Char_ord" "HOL-Library.List_Lexorder" "HOL-Library.Product_Lexorder"
begin

text \<open>
  The Python the data plane is written in: exceptions as values, dynamically typed values
  (JSON payloads and unchecked arguments), dictionaries in insertion order, the loops that
  stop at the first exception, \<open>max\<close> with a key, and \<open>sorted\<close>.

  A record field or argument whose type the code tests at run time is a \<open>pyval\<close>; one whose
  type it never tests has the HOL type of its annotation (\<open>str\<close> is \<open>string\<close>, \<open>int\<close> is
  \<open>int\<close>, \<open>float\<close> is \<open>pyfloat\<close>, \<open>T | None\<close> is \<open>T option\<close>).
\<close>

named_theorems py_unfold \<open>definitions of the Python operations\<close>

section \<open>Exceptions and results\<close>

datatype py_exc =
    ValueError string
  | TypeError string
  | KeyError string
  | RuntimeError string
  | OSError string
  | FileNotFoundError string
  | OverflowError string
  | IndexError string
  | AttributeError string
  | TimeoutExpired
  | StopIteration
  | ZeroDivisionError

type_synonym 'a res = "py_exc + 'a"

text \<open>\<open>except OSError\<close> also catches its subclass \<open>FileNotFoundError\<close>.\<close>

fun is_os_error :: "py_exc \<Rightarrow> bool" where
  "is_os_error (OSError _) = True"
| "is_os_error (FileNotFoundError _) = True"
| "is_os_error _ = False"

fun is_value_error :: "py_exc \<Rightarrow> bool" where
  "is_value_error (ValueError _) = True"
| "is_value_error _ = False"

fun is_runtime_error :: "py_exc \<Rightarrow> bool" where
  "is_runtime_error (RuntimeError _) = True"
| "is_runtime_error _ = False"

fun exc_message :: "py_exc \<Rightarrow> string" where
  "exc_message (ValueError m) = m"
| "exc_message (TypeError m) = m"
| "exc_message (KeyError m) = m"
| "exc_message (RuntimeError m) = m"
| "exc_message (OSError m) = m"
| "exc_message (FileNotFoundError m) = m"
| "exc_message (OverflowError m) = m"
| "exc_message (IndexError m) = m"
| "exc_message (AttributeError m) = m"
| "exc_message StopIteration = []"
| "exc_message TimeoutExpired = ''timed out''"
| "exc_message ZeroDivisionError = ''division by zero''"

fun rbind :: "('e + 'a) \<Rightarrow> ('a \<Rightarrow> 'e + 'b) \<Rightarrow> 'e + 'b" where
  "rbind (Inl e) f = Inl e"
| "rbind (Inr x) f = f x"

lemma rbind_eq_Inr [simp]: "rbind r f = Inr y \<longleftrightarrow> (\<exists>x. r = Inr x \<and> f x = Inr y)"
  by (cases r) auto

lemma rbind_eq_Inl: "rbind r f = Inl e \<longleftrightarrow> r = Inl e \<or> (\<exists>x. r = Inr x \<and> f x = Inl e)"
  by (cases r) auto

lemma rbind_assoc: "rbind (rbind r f) g = rbind r (\<lambda>x. rbind (f x) g)"
  by (cases r) auto

lemma if_Inl_eq_Inr [simp]:
  "(if b then Inl e else r) = Inr x \<longleftrightarrow> \<not> b \<and> r = Inr x"
  "(if b then r else Inl e) = Inr x \<longleftrightarrow> b \<and> r = Inr x"
  by auto

text \<open>The result of a test that raises when a value is missing.\<close>

fun opt_res :: "'e \<Rightarrow> 'a option \<Rightarrow> 'e + 'a" where
  "opt_res e None = Inl e"
| "opt_res e (Some x) = Inr x"

lemma opt_res_eq_Inr [simp]: "opt_res e x = Inr y \<longleftrightarrow> x = Some y"
  by (cases x) auto

lemma opt_res_eq_Inl: "opt_res e x = Inl e' \<longleftrightarrow> x = None \<and> e' = e"
  by (cases x) auto

text \<open>A call that returns, and what holds of the result; evaluated by the witnesses.\<close>

definition ok_with :: "'e + 'a \<Rightarrow> ('a \<Rightarrow> bool) \<Rightarrow> bool" where
  "ok_with r P = (case r of Inl e \<Rightarrow> False | Inr x \<Rightarrow> P x)"

lemma ok_withE:
  assumes "ok_with r P"
  obtains x where "r = Inr x" "P x"
  using assms by (cases r) (auto simp: ok_with_def)

lemma ok_with_iff: "ok_with r P \<longleftrightarrow> (\<exists>x. r = Inr x \<and> P x)"
  by (cases r) (auto simp: ok_with_def)

text \<open>A \<open>for\<close> loop over a list whose body may raise.\<close>

fun fold_res :: "('s \<Rightarrow> 'a \<Rightarrow> 'e + 's) \<Rightarrow> 's \<Rightarrow> 'a list \<Rightarrow> 'e + 's" where
  "fold_res f s [] = Inr s"
| "fold_res f s (x # xs) = rbind (f s x) (\<lambda>s'. fold_res f s' xs)"

fun map_res :: "('a \<Rightarrow> 'e + 'b) \<Rightarrow> 'a list \<Rightarrow> 'e + 'b list" where
  "map_res f [] = Inr []"
| "map_res f (x # xs) = rbind (f x) (\<lambda>y. rbind (map_res f xs) (\<lambda>ys. Inr (y # ys)))"

lemma fold_res_append:
  "fold_res f s (xs @ ys) = rbind (fold_res f s xs) (\<lambda>s'. fold_res f s' ys)"
  by (induction xs arbitrary: s) (auto simp: rbind_assoc)

text \<open>An invariant of the body is an invariant of the loop.\<close>

lemma fold_res_invariant:
  assumes "fold_res f s xs = Inr t" and "P s"
    and "\<And>s x s'. P s \<Longrightarrow> x \<in> set xs \<Longrightarrow> f s x = Inr s' \<Longrightarrow> P s'"
  shows "P t"
  using assms
proof (induction xs arbitrary: s)
  case Nil
  then show ?case by simp
next
  case (Cons x xs)
  from Cons.prems(1) obtain s' where s': "f s x = Inr s'" "fold_res f s' xs = Inr t" by auto
  have "P s'" using Cons.prems(2,3) s'(1) by auto
  show ?case
    by (rule Cons.IH[OF s'(2) \<open>P s'\<close>]) (use Cons.prems(3) in auto)
qed

lemma map_res_length: "map_res f xs = Inr ys \<Longrightarrow> length ys = length xs"
  by (induction xs arbitrary: ys) auto

lemma map_res_Inr_iff:
  "map_res f xs = Inr ys \<longleftrightarrow> list_all2 (\<lambda>x y. f x = Inr y) xs ys"
proof (induction xs arbitrary: ys)
  case Nil
  then show ?case by auto
next
  case (Cons x xs)
  show ?case by (simp add: list_all2_Cons1 Cons.IH) blast
qed

section \<open>Dynamically typed values\<close>

datatype pyval =
    PyNone
  | PyBool bool
  | PyInt int
  | PyFloat pyfloat
  | PyStr string
  | PyList "pyval list"
  | PyDict "(string \<times> pyval) list"

definition py_strs :: "string list \<Rightarrow> pyval" where
  "py_strs xs = PyList (List.map PyStr xs)"

definition py_opt_str :: "string option \<Rightarrow> pyval" where
  "py_opt_str x = (case x of None \<Rightarrow> PyNone | Some s \<Rightarrow> PyStr s)"

text \<open>\<open>isinstance(v, int)\<close> holds for booleans too; they count as 0 and 1.\<close>

fun py_int :: "pyval \<Rightarrow> int option" where
  "py_int (PyInt n) = Some n"
| "py_int (PyBool b) = Some (if b then 1 else 0)"
| "py_int _ = None"

text \<open>\<open>isinstance(v, int) and not isinstance(v, bool)\<close>.\<close>

fun strict_int :: "pyval \<Rightarrow> int option" where
  "strict_int (PyInt n) = Some n"
| "strict_int _ = None"

fun py_string :: "pyval \<Rightarrow> string option" where
  "py_string (PyStr s) = Some s"
| "py_string _ = None"

fun py_dict :: "pyval \<Rightarrow> (string \<times> pyval) list option" where
  "py_dict (PyDict d) = Some d"
| "py_dict _ = None"

fun py_list :: "pyval \<Rightarrow> pyval list option" where
  "py_list (PyList xs) = Some xs"
| "py_list _ = None"

fun py_bool :: "pyval \<Rightarrow> bool option" where
  "py_bool (PyBool b) = Some b"
| "py_bool _ = None"

text \<open>\<open>isinstance(v, (int, float))\<close>, as the exact number compared.\<close>

fun py_number :: "pyval \<Rightarrow> pyfloat option" where
  "py_number (PyInt n) = Some (fint n)"
| "py_number (PyBool b) = Some (fint (if b then 1 else 0))"
| "py_number (PyFloat x) = Some x"
| "py_number _ = None"

fun truthy :: "pyval \<Rightarrow> bool" where
  "truthy PyNone = False"
| "truthy (PyBool b) = b"
| "truthy (PyInt n) = (n \<noteq> 0)"
| "truthy (PyFloat x) = (x \<noteq> Fin 0)"
| "truthy (PyStr s) = (s \<noteq> [])"
| "truthy (PyList xs) = (xs \<noteq> [])"
| "truthy (PyDict d) = (d \<noteq> [])"

text \<open>
  The test \<open>any(isinstance(v, bool) or not isinstance(v, int) or v < bound)\<close> the planners
  make of their integer arguments.
\<close>

definition bad_int :: "int \<Rightarrow> pyval \<Rightarrow> bool" where
  "bad_int lo v = (case strict_int v of None \<Rightarrow> True | Some n \<Rightarrow> n < lo)"

definition int_of_val :: "pyval \<Rightarrow> int" where
  "int_of_val v = (case strict_int v of None \<Rightarrow> 0 | Some n \<Rightarrow> n)"

lemma int_of_val_PyInt [simp]: "int_of_val (PyInt n) = n"
  by (simp add: int_of_val_def)

lemma bad_int_PyInt [simp]: "bad_int lo (PyInt n) = (n < lo)"
  by (simp add: bad_int_def)

lemma not_bad_int_iff: "\<not> bad_int lo v \<longleftrightarrow> (\<exists>n. v = PyInt n \<and> lo \<le> n)"
  by (cases v) (auto simp: bad_int_def)

lemma not_bad_int_le: "\<not> bad_int lo v \<Longrightarrow> lo \<le> int_of_val v"
  by (auto simp: not_bad_int_iff)

lemma all_good_int:
  "\<not> list_ex (bad_int lo) vs \<Longrightarrow> v \<in> set vs \<Longrightarrow> lo \<le> int_of_val v"
  by (auto simp: list_ex_iff not_bad_int_le)

section \<open>Dictionaries\<close>

text \<open>Keyed by strings, in insertion order; assigning to a present key keeps its place.\<close>

abbreviation dget :: "('k \<times> 'v) list \<Rightarrow> 'k \<Rightarrow> 'v option" where
  "dget \<equiv> map_of"

definition dget_or :: "('k \<times> 'v) list \<Rightarrow> 'k \<Rightarrow> 'v \<Rightarrow> 'v" where
  "dget_or d k v = (case map_of d k of None \<Rightarrow> v | Some w \<Rightarrow> w)"

text \<open>\<open>d.get(k)\<close> of a payload: an absent key reads as \<open>None\<close>.\<close>

definition jget :: "(string \<times> pyval) list \<Rightarrow> string \<Rightarrow> pyval" where
  "jget d k = dget_or d k PyNone"

fun dput :: "'k \<Rightarrow> 'v \<Rightarrow> ('k \<times> 'v) list \<Rightarrow> ('k \<times> 'v) list" where
  "dput k v [] = [(k, v)]"
| "dput k v ((k', v') # d) = (if k = k' then (k, v) # d else (k', v') # dput k v d)"

fun dpop :: "'k \<Rightarrow> ('k \<times> 'v) list \<Rightarrow> ('k \<times> 'v) list" where
  "dpop k [] = []"
| "dpop k ((k', v') # d) = (if k = k' then d else (k', v') # dpop k d)"

abbreviation dkeys :: "('k \<times> 'v) list \<Rightarrow> 'k list" where
  "dkeys d \<equiv> List.map fst d"

definition dict_ok :: "('k \<times> 'v) list \<Rightarrow> bool" where
  "dict_ok d = distinct (dkeys d)"

lemma map_of_dput: "map_of (dput k v d) = (map_of d)(k \<mapsto> v)"
  by (induction d) (auto simp: fun_eq_iff)

lemma set_dkeys_dput: "set (dkeys (dput k v d)) = insert k (set (dkeys d))"
  by (induction k v d rule: dput.induct) (simp_all add: insert_commute)

lemma dput_dict_ok: "dict_ok d \<Longrightarrow> dict_ok (dput k v d)"
  unfolding dict_ok_def
proof (induction d)
  case Nil
  then show ?case by simp
next
  case (Cons kv d)
  obtain k' v' where kv: "kv = (k', v')" by fastforce
  have eq: "fst ` set (dput k v d) = insert k (fst ` set d)"
    using set_dkeys_dput[of k v d] by simp
  show ?case using Cons by (auto simp: kv eq)
qed

lemma dput_new: "k \<notin> set (dkeys d) \<Longrightarrow> dput k v d = d @ [(k, v)]"
  by (induction d) auto

lemma dput_length: "length (dput k v d) = (if k \<in> set (dkeys d) then length d else Suc (length d))"
  by (induction k v d rule: dput.induct) simp_all

lemma dpop_absent: "k \<notin> set (dkeys d) \<Longrightarrow> dpop k d = d"
  by (induction d) auto

lemma dpop_set_subset: "set (dpop k d) \<subseteq> set d"
  by (induction k d rule: dpop.induct) auto

lemma dkeys_dpop: "dkeys (dpop k d) = remove1 k (dkeys d)"
  by (induction d) auto

lemma dpop_dict_ok: "dict_ok d \<Longrightarrow> dict_ok (dpop k d)"
  by (simp add: dict_ok_def dkeys_dpop distinct_remove1)

lemma map_of_dpop: "dict_ok d \<Longrightarrow> map_of (dpop k d) = (map_of d)(k := None)"
proof (induction k d rule: dpop.induct)
  case (2 k k' v' d)
  show ?case
  proof (cases "k = k'")
    case True
    with 2 show ?thesis by (auto simp: dict_ok_def fun_eq_iff map_of_eq_None_iff)
  next
    case False
    with 2 show ?thesis by (auto simp: dict_ok_def fun_eq_iff)
  qed
qed simp

lemma map_of_None_keys: "map_of d k = None \<longleftrightarrow> k \<notin> set (dkeys d)"
  by (simp add: map_of_eq_None_iff)

lemma dict_ok_Nil [simp]: "dict_ok []"
  by (simp add: dict_ok_def)

section \<open>Lists of equal blocks\<close>

lemma length_concat_blocks:
  "(\<And>i. i < n \<Longrightarrow> length (f i) = k) \<Longrightarrow> length (concat (List.map f [0..<n])) = n * k"
  by (induction n) auto

lemma nth_concat_blocks:
  "(\<And>i. i < n \<Longrightarrow> length (f i) = k) \<Longrightarrow> i < n \<Longrightarrow> j < k \<Longrightarrow> concat (List.map f [0..<n]) ! (i * k + j) = f i ! j"
proof (induction n)
  case (Suc n)
  have l: "length (concat (List.map f [0..<n])) = n * k" using Suc.prems(1) by (intro length_concat_blocks) simp
  show ?case
  proof (cases "i = n")
    case True
    then show ?thesis using l by (simp add: nth_append)
  next
    case False
    then have "i < n" using Suc.prems(2) by simp
    moreover have "i * k + j < n * k"
    proof -
      have "i * k + j < Suc i * k" using Suc.prems(3) by simp
      also have "\<dots> \<le> n * k" using \<open>i < n\<close> by (intro mult_le_mono1) simp
      finally show ?thesis .
    qed
    ultimately show ?thesis using Suc l by (simp add: nth_append)
  qed
qed simp

section \<open>Floor division\<close>

lemma int_div_mult_le: "0 < d \<Longrightarrow> u div d * d \<le> u" for u :: int
  using div_mult_mod_eq[of u d] pos_mod_sign[of d u] by linarith

lemma int_le_div_iff: "0 < d \<Longrightarrow> m \<le> u div d \<longleftrightarrow> m * d \<le> u" for u :: int
proof
  assume d: "0 < d" and "m \<le> u div d"
  then have "m * d \<le> u div d * d" by (intro mult_right_mono) simp_all
  then show "m * d \<le> u" using int_div_mult_le[OF d, of u] by linarith
next
  assume "0 < d" and "m * d \<le> u"
  then show "m \<le> u div d" using zdiv_mono1[of "m * d" u d] by simp
qed

text \<open>\<open>int(n * x)\<close> of an integer and a float.\<close>

definition int_times_float :: "int \<Rightarrow> pyfloat \<Rightarrow> int res" where
  "int_times_float n x = (case float_of_int n of
      None \<Rightarrow> Inl (OverflowError ''int too large to convert to float'')
    | Some y \<Rightarrow> (case ftrunc (fmul y x) of
        None \<Rightarrow> Inl (OverflowError ''cannot convert float to integer'')
      | Some m \<Rightarrow> Inr m))"

text \<open>\<open>a() or b()\<close> of two integer results.\<close>

definition or_res :: "int res \<Rightarrow> int res \<Rightarrow> int res" where
  "or_res a b = rbind a (\<lambda>x. if x = 0 then b else Inr x)"

text \<open>\<open>x or y\<close> of two integers.\<close>

definition or_int :: "int \<Rightarrow> int \<Rightarrow> int" where
  "or_int x y = (if x = 0 then y else x)"

section \<open>max with a key, sorted\<close>

text \<open>
  \<open>max(xs, key=...)\<close> returns the first element no other one beats; \<open>gt x y\<close> is
  \<open>key(x) > key(y)\<close>.
\<close>

fun py_max_from :: "('a \<Rightarrow> 'a \<Rightarrow> bool) \<Rightarrow> 'a \<Rightarrow> 'a list \<Rightarrow> 'a" where
  "py_max_from gt b [] = b"
| "py_max_from gt b (x # xs) = py_max_from gt (if gt x b then x else b) xs"

fun py_max :: "('a \<Rightarrow> 'a \<Rightarrow> bool) \<Rightarrow> 'a list \<Rightarrow> 'a option" where
  "py_max gt [] = None"
| "py_max gt (x # xs) = Some (py_max_from gt x xs)"

lemma py_max_from_mem: "py_max_from gt b xs \<in> insert b (set xs)"
proof (induction xs arbitrary: b)
  case (Cons x xs)
  show ?case using Cons[of "if gt x b then x else b"] by (auto split: if_splits)
qed simp

lemma py_max_mem: "py_max gt xs = Some x \<Longrightarrow> x \<in> set xs"
  by (cases xs) (use py_max_from_mem[of gt] in fastforce)+

lemma py_max_None [simp]: "py_max gt xs = None \<longleftrightarrow> xs = []"
  by (cases xs) auto

lemma py_max_from_key:
  fixes key :: "'a \<Rightarrow> 'k::linorder"
  shows "y \<in> insert b (set xs) \<Longrightarrow> key y \<le> key (py_max_from (\<lambda>x z. key z < key x) b xs)"
proof (induction xs arbitrary: b y)
  case Nil
  then show ?case by simp
next
  case (Cons x xs)
  let ?b = "if key b < key x then x else b"
  have b: "key ?b \<le> key (py_max_from (\<lambda>x z. key z < key x) ?b xs)" using Cons.IH by blast
  have "key b \<le> key ?b" "key x \<le> key ?b" by auto
  then show ?case using Cons b by (auto intro: order_trans)
qed

lemma py_max_key:
  fixes key :: "'a \<Rightarrow> 'k::linorder"
  shows "py_max (\<lambda>x z. key z < key x) xs = Some m \<Longrightarrow> x \<in> set xs \<Longrightarrow> key x \<le> key m"
  using py_max_from_key[of x _ _ key] by (cases xs) auto

text \<open>For any comparison that is total on the elements.\<close>

lemma py_max_from_le:
  assumes "\<And>x. x \<in> A \<Longrightarrow> le x x" and "\<And>x y z. le x y \<Longrightarrow> le y z \<Longrightarrow> le x z"
    and "\<And>x z. gt x z \<Longrightarrow> le z x" and "\<And>x z. \<not> gt x z \<Longrightarrow> x \<in> A \<Longrightarrow> z \<in> A \<Longrightarrow> le x z"
    and "insert b (set xs) \<subseteq> A" and "y \<in> insert b (set xs)"
  shows "le y (py_max_from gt b xs)"
  using assms(5,6)
proof (induction xs arbitrary: b y)
  case Nil
  then show ?case using assms(1) by auto
next
  case (Cons x xs)
  let ?b = "if gt x b then x else b"
  have A: "insert ?b (set xs) \<subseteq> A" using Cons.prems(1) by auto
  have b: "le ?b (py_max_from gt ?b xs)" using Cons.IH[OF A] by blast
  have "le x ?b" "le b ?b" using assms(1,3,4) Cons.prems(1) by auto
  from assms(2)[OF this(1) b] assms(2)[OF this(2) b]
  have "le x (py_max_from gt ?b xs)" "le b (py_max_from gt ?b xs)" by this+
  then show ?case using Cons.prems(2) Cons.IH[OF A, of y] by auto
qed

text \<open>\<open>sorted\<close> is stable, as \<open>sort_key\<close> is.\<close>

lemma sort_key_subset: "set (sort_key f xs) = set xs"
  by simp

lemma sum_list_sort_key: "sum_list (List.map g (sort_key f xs)) = sum_list (List.map g (xs :: 'a list))"
  for g :: "'a \<Rightarrow> 'b::comm_monoid_add"
  by (metis mset_map mset_sort sum_mset_sum_list)

text \<open>\<open>sorted\<close> by a comparison on keys that are no linear order in HOL (floats): stable insertion.\<close>

fun insert_by :: "('a \<Rightarrow> 'a \<Rightarrow> bool) \<Rightarrow> 'a \<Rightarrow> 'a list \<Rightarrow> 'a list" where
  "insert_by lt x [] = [x]"
| "insert_by lt x (y # ys) = (if lt y x then y # insert_by lt x ys else x # y # ys)"

definition sort_by :: "('a \<Rightarrow> 'a \<Rightarrow> bool) \<Rightarrow> 'a list \<Rightarrow> 'a list" where
  "sort_by lt xs = foldr (insert_by lt) xs []"

lemma mset_insert_by: "mset (insert_by lt x ys) = add_mset x (mset ys)"
  by (induction ys) auto

lemma mset_sort_by [simp]: "mset (sort_by lt xs) = mset xs"
  unfolding sort_by_def by (induction xs) (auto simp: mset_insert_by)

lemma set_sort_by [simp]: "set (sort_by lt xs) = set xs"
  by (metis mset_sort_by set_mset_mset)

lemma length_sort_by [simp]: "length (sort_by lt xs) = length xs"
  by (metis mset_sort_by size_mset)

section \<open>Strings\<close>

text \<open>\<open>str.strip()\<close> over the ASCII whitespace Python strips, \<open>lower()\<close> and \<open>casefold()\<close> over ASCII.\<close>

definition is_space :: "char \<Rightarrow> bool" where
  "is_space c = (let n = of_char c :: int in n = 32 \<or> (9 \<le> n \<and> n \<le> 13) \<or> (28 \<le> n \<and> n \<le> 31) \<or> n = 133 \<or> n = 160)"

definition strip :: "string \<Rightarrow> string" where
  "strip s = rev (dropWhile is_space (rev (dropWhile is_space s)))"

text \<open>\<open>s.split()\<close>: the runs of other characters between whitespace.\<close>

fun split_words :: "string \<Rightarrow> string \<Rightarrow> string list" where
  "split_words w [] = (if w = [] then [] else [rev w])"
| "split_words w (c # cs) =
     (if is_space c then (if w = [] then split_words [] cs else rev w # split_words [] cs)
      else split_words (c # w) cs)"

definition split :: "string \<Rightarrow> string list" where
  "split s = split_words [] s"

lemma split_blank: "list_all is_space s \<Longrightarrow> split s = []"
  unfolding split_def by (induction s) simp_all

definition lower_char :: "char \<Rightarrow> char" where
  "lower_char c = (let n = of_char c :: int in
     if 65 \<le> n \<and> n \<le> 90 \<or> 192 \<le> n \<and> n \<le> 222 \<and> n \<noteq> 215 then char_of (n + 32) else c)"

definition lower :: "string \<Rightarrow> string" where
  "lower s = List.map lower_char s"

definition starts_with :: "string \<Rightarrow> string \<Rightarrow> bool" where
  "starts_with p s = (take (length p) s = p)"

fun str_join :: "string \<Rightarrow> string list \<Rightarrow> string" where
  "str_join sep [] = []"
| "str_join sep [x] = x"
| "str_join sep (x # y # xs) = x @ sep @ str_join sep (y # xs)"

text \<open>Decimal rendering of an integer (\<open>str(n)\<close>).\<close>

fun digits_of_nat :: "nat \<Rightarrow> string" where
  "digits_of_nat n = (if n < 10 then [char_of (48 + n)]
     else digits_of_nat (n div 10) @ [char_of (48 + n mod 10)])"

declare digits_of_nat.simps [simp del]

definition str_of_int :: "int \<Rightarrow> string" where
  "str_of_int n = (if n < 0 then ''-'' @ digits_of_nat (nat (- n)) else digits_of_nat (nat n))"

text \<open>
  \<open>int(s)\<close> of a string: whitespace around it, a sign, and digits with single underscores between
  them.  \<open>digits_value base d ok\<close> reads the digits; \<open>ok\<close> says an underscore may come next.
\<close>

definition digit_value :: "char \<Rightarrow> int option" where
  "digit_value c = (let n = of_char c :: int in
     if 48 \<le> n \<and> n \<le> 57 then Some (n - 48) else if 97 \<le> n \<and> n \<le> 122 then Some (n - 87)
     else if 65 \<le> n \<and> n \<le> 90 then Some (n - 55) else None)"

fun digits_value :: "int \<Rightarrow> int \<Rightarrow> bool \<Rightarrow> string \<Rightarrow> int option" where
  "digits_value base acc after_digit [] = (if after_digit then Some acc else None)"
| "digits_value base acc after_digit (c # cs) =
     (if c = CHR ''_'' then (if after_digit then (case cs of [] \<Rightarrow> None | _ \<Rightarrow> digits_value base acc False cs) else None)
      else case digit_value c of
          None \<Rightarrow> None
        | Some d \<Rightarrow> if d < base then digits_value base (acc * base + d) True cs else None)"

fun split_sign :: "string \<Rightarrow> int \<times> string" where
  "split_sign (c # cs) = (if c = CHR ''-'' then (-1, cs) else if c = CHR ''+'' then (1, cs) else (1, c # cs))"
| "split_sign [] = (1, [])"

definition int10 :: "string \<Rightarrow> int option" where
  "int10 s = (let (sg, ds) = split_sign (strip s) in map_option (\<lambda>n. sg * n) (digits_value 10 0 False ds))"

text \<open>\<open>int(s, 16)\<close> also takes a \<open>0x\<close> prefix, which an underscore may follow.\<close>

fun drop_0x :: "string \<Rightarrow> string" where
  "drop_0x (a # b # cs) = (if a = CHR ''0'' \<and> (b = CHR ''x'' \<or> b = CHR ''X'')
     then (case cs of d # ds \<Rightarrow> if d = CHR ''_'' then ds else cs | [] \<Rightarrow> []) else a # b # cs)"
| "drop_0x s = s"

definition int16 :: "string \<Rightarrow> int option" where
  "int16 s = (let (sg, ds) = split_sign (strip s) in map_option (\<lambda>n. sg * n) (digits_value 16 0 False (drop_0x ds)))"

text \<open>
  \<open>float(s)\<close> of a string: \<open>inf\<close>, \<open>nan\<close>, or a decimal with an optional fraction and exponent.
\<close>

definition digit_run :: "string \<Rightarrow> int option" where
  "digit_run ds = (if ds = [] then Some 0 else digits_value 10 0 False ds)"

definition parse_decimal :: "string \<Rightarrow> string \<Rightarrow> string \<Rightarrow> rat option" where
  "parse_decimal ip fp ex =
     (if ip = [] \<and> fp = [] then None
      else Option.bind (digit_run ip) (\<lambda>i. Option.bind (digit_run fp) (\<lambda>f.
        Option.bind (if ex = [] then Some 0 else (let (sg, ds) = split_sign (tl ex) in map_option (\<lambda>n. sg * n) (digits_value 10 0 False ds)))
          (\<lambda>e. let k = int (length (filter (\<lambda>c. c \<noteq> CHR ''_'') fp)); m = of_int (i * 10 ^ nat k + f); x = e - k in
            Some (if 0 \<le> x then m * 10 ^ nat x else m / 10 ^ nat (- x))))))"

definition parse_float :: "string \<Rightarrow> pyfloat option" where
  "parse_float s =
     (let (sg, b) = split_sign (lower (strip s));
          mant = takeWhile (\<lambda>c. c \<noteq> CHR ''e'') b; ex = dropWhile (\<lambda>c. c \<noteq> CHR ''e'') b;
          ip = takeWhile (\<lambda>c. c \<noteq> CHR ''.'') mant; rest = dropWhile (\<lambda>c. c \<noteq> CHR ''.'') mant in
      if b = ''inf'' \<or> b = ''infinity'' then Some (if sg < 0 then NegInf else PosInf)
      else if b = ''nan'' then Some NaN
      else map_option (\<lambda>r. fl (of_int sg * r)) (parse_decimal ip (tl rest) ex))"

definition py_float :: "pyval \<Rightarrow> pyfloat res" where
  "py_float v = (case v of
      PyFloat x \<Rightarrow> Inr x
    | PyInt n \<Rightarrow> opt_res (OverflowError ''int too large to convert to float'') (float_of_int n)
    | PyBool b \<Rightarrow> Inr (Fin (if b then 1 else 0))
    | PyStr s \<Rightarrow> opt_res (ValueError ''could not convert string to float'') (parse_float s)
    | _ \<Rightarrow> Inl (TypeError ''float() argument must be a string or a real number''))"

text \<open>\<open>int(v)\<close> of a value.\<close>

definition to_int :: "pyval \<Rightarrow> int res" where
  "to_int v = (case v of
      PyInt n \<Rightarrow> Inr n
    | PyBool b \<Rightarrow> Inr (if b then 1 else 0)
    | PyFloat x \<Rightarrow> (case x of Fin r \<Rightarrow> Inr (rat_trunc r) | NaN \<Rightarrow> Inl (ValueError ''cannot convert float NaN to integer'')
        | _ \<Rightarrow> Inl (OverflowError ''cannot convert float infinity to integer''))
    | PyStr s \<Rightarrow> (case int10 s of Some n \<Rightarrow> Inr n | None \<Rightarrow> Inl (ValueError ''invalid literal for int()''))
    | _ \<Rightarrow> Inl (TypeError ''int() argument must be a string or a real number''))"

lemma digits_of_nat_nonempty [simp]: "digits_of_nat n \<noteq> []"
  by (subst digits_of_nat.simps) simp

end
