(* ===== verification/Bytes.thy ===== *)
theory Bytes
  imports Py_Base "HOL-Library.Word"
begin

text \<open>
  What the data plane uses of \<open>struct\<close>, \<open>str.encode\<close>/\<open>bytes.decode\<close> (UTF-8, strict) and
  \<open>zlib.crc32\<close>: bytes are \<open>8 word\<close>, texts are lists of code points.
\<close>

unbundle bit_operations_syntax

type_synonym byte = "8 word"
type_synonym utext = "nat list"

section \<open>Big-endian fields\<close>

fun be :: "nat \<Rightarrow> nat \<Rightarrow> byte list" where
  "be 0 n = []"
| "be (Suc k) n = word_of_nat (n div 256 ^ k) # be k n"

fun unbe_acc :: "nat \<Rightarrow> byte list \<Rightarrow> nat" where
  "unbe_acc a [] = a"
| "unbe_acc a (b # bs) = unbe_acc (a * 256 + unat b) bs"

definition unbe :: "byte list \<Rightarrow> nat" where
  "unbe bs = unbe_acc 0 bs"

lemma length_be [simp]: "length (be k n) = k"
  by (induction k) auto

lemma unbe_acc_be: "unbe_acc a (be k n) = a * 256 ^ k + n mod 256 ^ k"
proof (induction k arbitrary: a)
  case 0
  then show ?case by simp
next
  case (Suc k)
  have u: "unat (word_of_nat (n div 256 ^ k) :: byte) = n div 256 ^ k mod 256"
    by (simp add: unat_of_nat)
  have "n mod (256 * 256 ^ k) = 256 ^ k * (n div 256 ^ k mod 256) + n mod 256 ^ k"
    using mod_mult2_eq[of n "256 ^ k" 256] by (simp add: mult.commute)
  then show ?case by (simp add: Suc u algebra_simps)
qed

lemma unbe_be: "n < 256 ^ k \<Longrightarrow> unbe (be k n) = n"
  by (simp add: unbe_def unbe_acc_be)

lemma unbe_acc_bound: "unbe_acc a bs < (a + 1) * 256 ^ length bs"
proof (induction bs arbitrary: a)
  case Nil
  then show ?case by simp
next
  case (Cons b bs)
  have "unat b < 256" using unsigned_less[of b, where ?'a = nat] by simp
  then have le: "a * 256 + unat b + 1 \<le> (a + 1) * 256" by simp
  have "unbe_acc (a * 256 + unat b) bs < (a * 256 + unat b + 1) * 256 ^ length bs" by (rule Cons)
  also have "\<dots> \<le> ((a + 1) * 256) * 256 ^ length bs" using le by (rule mult_le_mono1)
  finally show ?case by (simp add: algebra_simps)
qed

lemma unbe_bound: "unbe bs < 256 ^ length bs"
  using unbe_acc_bound[of 0 bs] by (simp add: unbe_def)

section \<open>UTF-8\<close>

definition byte_of :: "nat \<Rightarrow> byte" where
  "byte_of n = word_of_nat n"

text \<open>
  The encoder raises \<open>UnicodeEncodeError\<close> (here \<open>None\<close>) on a surrogate; no Python string
  holds a code point past \<open>0x10FFFF\<close>.
\<close>

definition utf8_char :: "nat \<Rightarrow> byte list option" where
  "utf8_char c =
     (if c < 0x80 then Some [byte_of c]
      else if c < 0x800 then Some [byte_of (0xC0 + c div 64), byte_of (0x80 + c mod 64)]
      else if 0xD800 \<le> c \<and> c \<le> 0xDFFF then None
      else if c < 0x10000 then
        Some [byte_of (0xE0 + c div 4096), byte_of (0x80 + c div 64 mod 64), byte_of (0x80 + c mod 64)]
      else if c < 0x110000 then
        Some [byte_of (0xF0 + c div 262144), byte_of (0x80 + c div 4096 mod 64),
              byte_of (0x80 + c div 64 mod 64), byte_of (0x80 + c mod 64)]
      else None)"

fun utf8_encode :: "utext \<Rightarrow> byte list option" where
  "utf8_encode [] = Some []"
| "utf8_encode (c # cs) =
     (case utf8_char c of None \<Rightarrow> None
      | Some bs \<Rightarrow> map_option (\<lambda>rest. bs @ rest) (utf8_encode cs))"

text \<open>A continuation byte, and the six bits it carries.\<close>

definition cont :: "nat \<Rightarrow> bool" where
  "cont x = (0x80 \<le> x \<and> x < 0xC0)"

definition cons_checked :: "bool \<Rightarrow> nat \<Rightarrow> utext option \<Rightarrow> utext option" where
  "cons_checked ok c rest = (if ok then map_option (Cons c) rest else None)"

text \<open>
  The strict decoder: overlong forms, surrogates, code points past \<open>0x10FFFF\<close>, stray and
  missing continuation bytes are refused.
\<close>

fun utf8_decode_nat :: "nat list \<Rightarrow> utext option" where
  "utf8_decode_nat [] = Some []"
| "utf8_decode_nat [x] = (if x < 0x80 then Some [x] else None)"
| "utf8_decode_nat (x # y # zs) =
     (if x < 0x80 then map_option (Cons x) (utf8_decode_nat (y # zs))
      else if x < 0xC2 then None
      else if x < 0xE0 then
        cons_checked (cont y) ((x - 0xC0) * 64 + (y - 0x80)) (utf8_decode_nat zs)
      else if x < 0xF0 then
        (case zs of z # zs' \<Rightarrow>
           let c = (x - 0xE0) * 4096 + (y - 0x80) * 64 + (z - 0x80)
           in cons_checked (cont y \<and> cont z \<and> 0x800 \<le> c \<and> \<not> (0xD800 \<le> c \<and> c \<le> 0xDFFF)) c
                (utf8_decode_nat zs')
         | [] \<Rightarrow> None)
      else if x < 0xF5 then
        (case zs of z # w # zs' \<Rightarrow>
           let c = (x - 0xF0) * 262144 + (y - 0x80) * 4096 + (z - 0x80) * 64 + (w - 0x80)
           in cons_checked (cont y \<and> cont z \<and> cont w \<and> 0x10000 \<le> c \<and> c < 0x110000) c
                (utf8_decode_nat zs')
         | _ \<Rightarrow> None)
      else None)"

definition utf8_decode :: "byte list \<Rightarrow> utext option" where
  "utf8_decode bs = utf8_decode_nat (List.map unat bs)"

lemma unat_byte_of: "n < 256 \<Longrightarrow> unat (byte_of n) = n"
  by (simp add: byte_of_def unat_of_nat)

lemma split64: "(c div 64) * 64 + c mod 64 = (c::nat)"
  by simp

lemma split4096: "(c div 4096) * 4096 + (c div 64 mod 64) * 64 + c mod 64 = (c::nat)"
proof -
  have "c div 4096 * 64 + c div 64 mod 64 = c div 64" using div_mult2_eq[of c 64 64] by simp
  then have "c div 4096 * 4096 + (c div 64 mod 64) * 64 = c div 64 * 64" by linarith
  then show ?thesis using split64[of c] by linarith
qed

lemma split262144:
  "(c div 262144) * 262144 + (c div 4096 mod 64) * 4096 + (c div 64 mod 64) * 64 + c mod 64 = (c::nat)"
proof -
  have "c div 262144 * 64 + c div 4096 mod 64 = c div 4096"
    using div_mult2_eq[of c 4096 64] by simp
  then have "c div 262144 * 262144 + (c div 4096 mod 64) * 4096 = c div 4096 * 4096" by linarith
  then show ?thesis using split4096[of c] by linarith
qed

lemma utf8_char_decode:
  assumes "utf8_char c = Some bs"
  shows "utf8_decode_nat (List.map unat bs @ rest) = map_option (Cons c) (utf8_decode_nat rest)"
proof -
  consider "c < 0x80" | "0x80 \<le> c" "c < 0x800"
    | "0x800 \<le> c" "c < 0x10000" "\<not> (0xD800 \<le> c \<and> c \<le> 0xDFFF)"
    | "0x10000 \<le> c" "c < 0x110000"
    using assms by (fastforce simp: utf8_char_def split: if_splits)
  then show ?thesis
  proof cases
    case 1
    then have bs: "bs = [byte_of c]" using assms by (simp add: utf8_char_def)
    with 1 show ?thesis by (cases rest) (simp_all add: unat_byte_of)
  next
    case 2
    then have bs: "bs = [byte_of (0xC0 + c div 64), byte_of (0x80 + c mod 64)]"
      using assms by (simp add: utf8_char_def)
    have q: "2 \<le> c div 64" "c div 64 < 32" "c mod 64 < 64" using 2 by auto
    show ?thesis
      using q by (simp add: bs unat_byte_of cont_def cons_checked_def)
  next
    case 3
    then have bs: "bs = [byte_of (0xE0 + c div 4096), byte_of (0x80 + c div 64 mod 64), byte_of (0x80 + c mod 64)]"
      using assms by (auto simp: utf8_char_def split: if_splits)
    have q: "c div 4096 < 16" "c div 64 mod 64 < 64" "c mod 64 < 64" using 3 by auto
    show ?thesis
      using q 3 split4096[of c] by (simp add: bs unat_byte_of cont_def cons_checked_def)
  next
    case 4
    then have bs: "bs = [byte_of (0xF0 + c div 262144), byte_of (0x80 + c div 4096 mod 64),
        byte_of (0x80 + c div 64 mod 64), byte_of (0x80 + c mod 64)]"
      using assms by (simp add: utf8_char_def)
    have q: "c div 262144 < 5" "c div 4096 mod 64 < 64" "c div 64 mod 64 < 64" "c mod 64 < 64"
      using 4 by auto
    show ?thesis
      using q 4 split262144[of c] by (simp add: bs unat_byte_of cont_def cons_checked_def)
  qed
qed

text \<open>Decoding what the encoder wrote gives the text back.\<close>

lemma utf8_round_trip: "utf8_encode t = Some bs \<Longrightarrow> utf8_decode bs = Some t"
  unfolding utf8_decode_def
proof (induction t arbitrary: bs)
  case Nil
  then show ?case by simp
next
  case (Cons c cs)
  from Cons.prems obtain b rest where b: "utf8_char c = Some b"
    and rest: "utf8_encode cs = Some rest" and bs: "bs = b @ rest"
    by (auto split: option.splits)
  show ?case using utf8_char_decode[OF b] Cons.IH[OF rest] by (simp add: bs)
qed

section \<open>CRC-32\<close>

text \<open>The reflected CRC-32 of zlib, bit by bit.\<close>

definition crc_bit :: "32 word \<Rightarrow> 32 word" where
  "crc_bit c = (if bit c 0 then drop_bit 1 c XOR 0xEDB88320 else drop_bit 1 c)"

definition crc_byte :: "32 word \<Rightarrow> byte \<Rightarrow> 32 word" where
  "crc_byte c b = (crc_bit ^^ 8) (c XOR ucast b)"

definition crc32 :: "byte list \<Rightarrow> 32 word" where
  "crc32 bs = NOT (foldl crc_byte 0xFFFFFFFF bs)"

text \<open>
  One step is injective: the polynomial has its top bit set, so the top bit of the result
  tells which branch was taken, and the remaining bits give the argument back.
\<close>

lemma xor_left_cancel: "x XOR y = x XOR z \<Longrightarrow> y = z" for x :: "'a::len word"
  by (metis xor.assoc xor.left_neutral xor_self_eq)

lemma xor_right_cancel: "y XOR x = z XOR x \<Longrightarrow> y = z" for x :: "'a::len word"
  by (metis xor.commute xor_left_cancel)

lemma crc_bit_inj: "crc_bit a = crc_bit b \<Longrightarrow> a = b"
proof -
  assume eq: "crc_bit a = crc_bit b"
  have top: "bit (crc_bit x) 31 = bit x 0" for x :: "32 word"
    using bit_imp_le_length[of x 32] by (auto simp: crc_bit_def bit_xor_iff bit_drop_bit_eq)
  have low: "bit a 0 = bit b 0" using eq top[of a] top[of b] by simp
  have "drop_bit 1 a = drop_bit 1 b"
    using eq low by (auto simp: crc_bit_def split: if_splits dest: xor_right_cancel)
  then have "bit a (Suc n) = bit b (Suc n)" for n
    by (metis bit_drop_bit_eq comp_apply plus_1_eq_Suc)
  then show "a = b"
    using low by (intro bit_word_eqI) (metis not0_implies_Suc)
qed

lemma crc_bits_inj: "(crc_bit ^^ n) a = (crc_bit ^^ n) b \<Longrightarrow> a = b"
  by (induction n) (auto dest: crc_bit_inj)

lemma crc_byte_inj_state: "crc_byte a b = crc_byte a' b \<Longrightarrow> a = a'"
  unfolding crc_byte_def by (metis crc_bits_inj xor.commute xor_left_cancel)

lemma crc_byte_inj_byte: "crc_byte a b = crc_byte a b' \<Longrightarrow> b = b'"
proof -
  assume "crc_byte a b = crc_byte a b'"
  then have "(ucast b :: 32 word) = ucast b'"
    unfolding crc_byte_def by (metis crc_bits_inj xor_left_cancel)
  then have "(ucast (ucast b :: 32 word) :: byte) = ucast (ucast b' :: 32 word)" by simp
  then show "b = b'" by (simp add: ucast_up_ucast_id is_up)
qed

lemma crc_fold_inj: "foldl crc_byte a bs = foldl crc_byte a' bs \<Longrightarrow> a = a'"
  by (induction bs arbitrary: a a') (auto dest: crc_byte_inj_state)

text \<open>Changing one byte changes the checksum.\<close>

lemma crc32_single_byte:
  assumes "b \<noteq> b'"
  shows "crc32 (xs @ b # ys) \<noteq> crc32 (xs @ b' # ys)"
proof
  assume "crc32 (xs @ b # ys) = crc32 (xs @ b' # ys)"
  then have "foldl crc_byte 0xFFFFFFFF (xs @ b # ys) = foldl crc_byte 0xFFFFFFFF (xs @ b' # ys)"
    unfolding crc32_def by (metis bit.double_compl)
  then show False using assms by (auto dest: crc_fold_inj crc_byte_inj_byte)
qed

end
