(* ===== verification/Interfaces.thy ===== *)
theory Interfaces
  imports Py_Base
begin

text \<open>
  The contracts components share: a machine whose steps keep an invariant, a dictionary, and
  a self-delimiting encoding read from a stream.  Each is interpreted on the model of every
  component that provides it.
\<close>

section \<open>Machines\<close>

text \<open>
  \<open>step\<close> is one operation of the component (an operation that raises leaves the state as it
  was), \<open>start\<close> the states its constructor gives.
\<close>

locale machine =
  fixes start :: "'s \<Rightarrow> bool"
    and step :: "'o \<Rightarrow> 's \<Rightarrow> 's"
    and inv :: "'s \<Rightarrow> bool"
  assumes start_inv: "start s \<Longrightarrow> inv s"
    and step_inv: "inv s \<Longrightarrow> inv (step op s)"
begin

lemma run_inv: "inv s \<Longrightarrow> inv (fold step ops s)"
  by (induction ops arbitrary: s) (auto simp: step_inv)

lemma reach_inv: "start s \<Longrightarrow> inv (fold step ops s)"
  by (simp add: run_inv start_inv)

lemma run_invariant_prefix: "start s \<Longrightarrow> inv (fold step (take n ops) s)"
  by (rule reach_inv)

end

section \<open>Dictionaries\<close>

locale dictionary =
  fixes lookup :: "'m \<Rightarrow> 'k \<Rightarrow> 'v option"
    and put :: "'k \<Rightarrow> 'v \<Rightarrow> 'm \<Rightarrow> 'm"
    and pop :: "'k \<Rightarrow> 'm \<Rightarrow> 'm"
    and ok :: "'m \<Rightarrow> bool"
  assumes lookup_put: "lookup (put k v m) = (lookup m)(k \<mapsto> v)"
    and lookup_pop: "ok m \<Longrightarrow> lookup (pop k m) = (lookup m)(k := None)"
    and ok_put: "ok m \<Longrightarrow> ok (put k v m)"
    and ok_pop: "ok m \<Longrightarrow> ok (pop k m)"
begin

lemma lookup_put_same: "lookup (put k v m) k = Some v"
  by (simp add: lookup_put)

lemma lookup_put_other: "k \<noteq> k' \<Longrightarrow> lookup (put k v m) k' = lookup m k'"
  by (simp add: lookup_put)

lemma lookup_pop_same: "ok m \<Longrightarrow> lookup (pop k m) k = None"
  by (simp add: lookup_pop)

lemma lookup_pop_other: "ok m \<Longrightarrow> k \<noteq> k' \<Longrightarrow> lookup (pop k m) k' = lookup m k'"
  by (simp add: lookup_pop)

lemma put_put_same: "lookup (put k v (put k w m)) = lookup (put k v m)"
  by (simp add: lookup_put)

end

interpretation pydict: dictionary map_of dput dpop dict_ok
  by unfold_locales (simp_all add: map_of_dput map_of_dpop dput_dict_ok dpop_dict_ok)

section \<open>Self-delimiting encodings\<close>

text \<open>
  \<open>enc\<close> may refuse a value; \<open>dec\<close> reads one encoding off the front of a stream and returns the
  value (in the form \<open>norm\<close> a reader sees) and the rest, \<open>None\<close> at the end of the stream.
\<close>

locale framing =
  fixes enc :: "'a \<Rightarrow> 'e + 'b list"
    and dec :: "'b list \<Rightarrow> 'e + 'c option \<times> 'b list"
    and norm :: "'a \<Rightarrow> 'c"
    and good :: "'a \<Rightarrow> bool"
  assumes dec_enc: "good x \<Longrightarrow> enc x = Inr bs \<Longrightarrow> dec (bs @ rest) = Inr (Some (norm x), rest)"
    and dec_end: "dec [] = Inr (None, [])"
begin

text \<open>\<open>reads xs s\<close>: reading \<open>s\<close> to its end yields the values \<open>xs\<close>.\<close>

fun reads :: "'c list \<Rightarrow> 'b list \<Rightarrow> bool" where
  "reads [] s = (dec s = Inr (None, []))"
| "reads (y # ys) s = (\<exists>s'. dec s = Inr (Some y, s') \<and> reads ys s')"

lemma reads_written:
  "list_all good xs \<Longrightarrow> map_res enc xs = Inr bss \<Longrightarrow> reads (List.map norm xs) (concat bss)"
proof (induction xs arbitrary: bss)
  case Nil
  then show ?case by (auto simp: dec_end)
next
  case (Cons x xs)
  then obtain b bs where "enc x = Inr b" "map_res enc xs = Inr bs" "bss = b # bs" by auto
  then show ?case using Cons by (auto simp: dec_enc)
qed

end

end
