(* ===== verification/Binary_Codec.thy ===== *)
theory Binary_Codec
  imports Bytes Interfaces
begin

text \<open>
  \<open>local_data_plane/binary.py\<close>: the tagged binary value codec and the frame envelope of the
  private Local protocol.  \<open>encode_value\<close> and the \<open>_Reader\<close> class are modelled branch by
  branch; exceptions are values.  A text is its list of code points, a float its 64-bit
  pattern (\<open>struct\<close> copies it), a \<open>dict\<close> its list of entries in insertion order.  An object
  the codec has no tag for (a set, a dict with a key that is not text) is \<open>VOther\<close> with the
  message of the \<open>FrameError\<close> it raises.
\<close>

section \<open>Limits, values and errors\<close>

definition MAGIC :: "byte list" where "MAGIC = [0x53, 0x4C, 0x56, 0x32]"
definition VERSION :: nat where "VERSION = 2"
definition HEADER_SIZE :: nat where "HEADER_SIZE = 24"
definition MAX_FRAME_BYTES :: nat where "MAX_FRAME_BYTES = 8388608"
definition MAX_DEPTH :: nat where "MAX_DEPTH = 32"
definition MAX_ITEMS :: nat where "MAX_ITEMS = 100000"

definition REQUEST :: int where "REQUEST = 1"
definition RESPONSE :: int where "RESPONSE = 2"
definition EVENT :: int where "EVENT = 3"
definition ERROR :: int where "ERROR = 4"

datatype bin_error = FrameError string | StructError | UnicodeEncodeError

datatype val =
    VNone
  | VBool bool
  | VInt int
  | VFloat "64 word"
  | VStr utext
  | VBytes "byte list"
  | VList "val list"
  | VMap "(utext \<times> val) list"
  | VOther string

text \<open>Entries of a dictionary in the order of \<open>sorted(value)\<close>: by key, code point by code point.\<close>

definition sort_entries :: "(utext \<times> 'a) list \<Rightarrow> (utext \<times> 'a) list" where
  "sort_entries kvs = sort_key fst kvs"

lemma set_sort_entries [simp]: "set (sort_entries kvs) = set kvs"
  by (simp add: sort_entries_def)

lemma map_res_cong [fundef_cong]:
  "xs = ys \<Longrightarrow> (\<And>x. x \<in> set ys \<Longrightarrow> f x = g x) \<Longrightarrow> map_res f xs = map_res g ys"
  by (induction ys arbitrary: xs) auto

lemma val_size_list: "x \<in> set xs \<Longrightarrow> size x < Suc (size_list size xs)" for x :: val
  by (simp add: less_Suc_eq_le size_list_estimation')

lemma val_size_map:
  "(k, v) \<in> set kvs \<Longrightarrow> size v < Suc (size_list (size_prod (\<lambda>x. 0) size) kvs)" for v :: val
  by (simp add: less_Suc_eq_le) (erule size_list_estimation', simp)

section \<open>Encoding\<close>

definition pack_text :: "utext \<Rightarrow> bin_error + byte list" where
  "pack_text t = (case utf8_encode t of
      None \<Rightarrow> Inl UnicodeEncodeError
    | Some data \<Rightarrow>
        if MAX_FRAME_BYTES < length data then Inl (FrameError ''text value exceeds frame limit'')
        else Inr (0x53 # be 4 (length data) @ data))"

text \<open>\<open>struct.pack("!q", n)\<close> raises \<open>struct.error\<close> outside 64 bits.\<close>

definition pack_q :: "int \<Rightarrow> bin_error + byte list" where
  "pack_q n = (if - (2 ^ 63) \<le> n \<and> n < 2 ^ 63 then Inr (be 8 (nat (n mod 2 ^ 64))) else Inl StructError)"

function encode_value :: "val \<Rightarrow> nat \<Rightarrow> bin_error + byte list" where
  "encode_value v depth =
     (if MAX_DEPTH < depth then Inl (FrameError ''value nesting exceeds limit'')
      else case v of
        VNone \<Rightarrow> Inr [0x4E]
      | VBool b \<Rightarrow> Inr [if b then 0x54 else 0x46]
      | VInt n \<Rightarrow> rbind (pack_q n) (\<lambda>bs. Inr (0x49 # bs))
      | VFloat w \<Rightarrow> Inr (0x44 # be 8 (unat w))
      | VStr t \<Rightarrow> pack_text t
      | VBytes bs \<Rightarrow>
          if MAX_FRAME_BYTES < length bs then Inl (FrameError ''byte value exceeds frame limit'')
          else Inr (0x42 # be 4 (length bs) @ bs)
      | VList xs \<Rightarrow>
          if MAX_ITEMS < length xs then Inl (FrameError ''list exceeds item limit'')
          else rbind (map_res (\<lambda>x. encode_value x (Suc depth)) xs)
                 (\<lambda>bss. Inr (0x4C # be 4 (length xs) @ concat bss))
      | VMap kvs \<Rightarrow>
          if MAX_ITEMS < length kvs then Inl (FrameError ''map exceeds item limit or has a non-text key'')
          else rbind (map_res (\<lambda>kv. rbind (pack_text (fst kv)) (\<lambda>k.
                         rbind (encode_value (snd kv) (Suc depth)) (\<lambda>b. Inr (k @ b))))
                       (sort_entries kvs))
                 (\<lambda>bss. Inr (0x4D # be 4 (length bss) @ concat bss))
      | VOther msg \<Rightarrow> Inl (FrameError msg))"
  by pat_completeness auto
termination
  by (relation "measure (\<lambda>(v, d). size v)"; clarsimp simp: val_size_list val_size_map)

declare encode_value.simps [simp del]

text \<open>\<open>encode_frame\<close>: the header \<open>!4sBBHQII\<close> and the body.\<close>

definition encode_frame :: "int \<Rightarrow> int \<Rightarrow> val \<Rightarrow> bin_error + byte list" where
  "encode_frame kind request_id payload =
     rbind (encode_value payload 0) (\<lambda>body.
       if MAX_FRAME_BYTES < length body then Inl (FrameError ''frame exceeds maximum size'')
       else if kind < 0 \<or> 256 \<le> kind \<or> request_id < 0 \<or> 2 ^ 64 \<le> request_id then Inl StructError
       else Inr (MAGIC @ be 1 VERSION @ be 1 (nat kind) @ be 2 0 @ be 8 (nat request_id)
                 @ be 4 (length body) @ be 4 (unat (crc32 body)) @ body))"

section \<open>The reader\<close>

record reader =
  rdata :: "byte list"
  offset :: nat
  items :: nat

definition rd_take :: "nat \<Rightarrow> reader \<Rightarrow> bin_error + byte list \<times> reader" where
  "rd_take n r = (if length (rdata r) < offset r + n then Inl (FrameError ''truncated value'')
     else Inr (take n (drop (offset r) (rdata r)), r\<lparr>offset := offset r + n\<rparr>))"

definition rd_u32 :: "reader \<Rightarrow> bin_error + nat \<times> reader" where
  "rd_u32 r = rbind (rd_take 4 r) (\<lambda>(bs, r). Inr (unbe bs, r))"

definition rd_text :: "reader \<Rightarrow> bin_error + utext \<times> reader" where
  "rd_text r = rbind (rd_u32 r) (\<lambda>(size, r).
     if MAX_FRAME_BYTES < size then Inl (FrameError ''text value exceeds frame limit'')
     else rbind (rd_take size r) (\<lambda>(bs, r).
       case utf8_decode bs of None \<Rightarrow> Inl (FrameError ''invalid UTF-8 text'') | Some t \<Rightarrow> Inr (t, r)))"

text \<open>The list and map loops, over the reader for one value.\<close>

fun rd_list :: "nat \<Rightarrow> (reader \<Rightarrow> bin_error + val \<times> reader) \<Rightarrow> reader \<Rightarrow> bin_error + val list \<times> reader" where
  "rd_list 0 rv r = Inr ([], r)"
| "rd_list (Suc n) rv r = rbind (rv r) (\<lambda>(x, r). rbind (rd_list n rv r) (\<lambda>(xs, r). Inr (x # xs, r)))"

fun rd_map :: "nat \<Rightarrow> (reader \<Rightarrow> bin_error + val \<times> reader) \<Rightarrow> (utext \<times> val) list \<Rightarrow> reader
    \<Rightarrow> bin_error + (utext \<times> val) list \<times> reader" where
  "rd_map 0 rv result r = Inr (result, r)"
| "rd_map (Suc n) rv result r =
     rbind (rd_take 1 r) (\<lambda>(tag, r).
       if tag \<noteq> [0x53] then Inl (FrameError ''map key is not text'')
       else rbind (rd_text r) (\<lambda>(key, r).
         if key \<in> set (dkeys result) then Inl (FrameError ''duplicate map key'')
         else rbind (rv r) (\<lambda>(v, r). rd_map n rv (result @ [(key, v)]) r)))"

definition unpack_q :: "byte list \<Rightarrow> int" where
  "unpack_q bs = (let n = int (unbe bs) in if 2 ^ 63 \<le> n then n - 2 ^ 64 else n)"

text \<open>\<open>_Reader.value\<close>; it stops because the depth limit is tested before anything is read.\<close>

function rd_value :: "reader \<Rightarrow> nat \<Rightarrow> bin_error + val \<times> reader" where
  "rd_value r depth =
     (if MAX_DEPTH < depth then Inl (FrameError ''value nesting exceeds limit'')
      else let r = r\<lparr>items := Suc (items r)\<rparr> in
      if MAX_ITEMS < items r then Inl (FrameError ''value item limit exceeded'')
      else rbind (rd_take 1 r) (\<lambda>(tag, r).
        if tag = [0x4E] then Inr (VNone, r)
        else if tag = [0x46] then Inr (VBool False, r)
        else if tag = [0x54] then Inr (VBool True, r)
        else if tag = [0x49] then rbind (rd_take 8 r) (\<lambda>(bs, r). Inr (VInt (unpack_q bs), r))
        else if tag = [0x44] then rbind (rd_take 8 r) (\<lambda>(bs, r). Inr (VFloat (word_of_nat (unbe bs)), r))
        else if tag = [0x53] then rbind (rd_text r) (\<lambda>(t, r). Inr (VStr t, r))
        else if tag = [0x42] then rbind (rd_u32 r) (\<lambda>(size, r).
          if MAX_FRAME_BYTES < size then Inl (FrameError ''byte value exceeds frame limit'')
          else rbind (rd_take size r) (\<lambda>(bs, r). Inr (VBytes bs, r)))
        else if tag = [0x4C] then rbind (rd_u32 r) (\<lambda>(count, r).
          if MAX_ITEMS < count then Inl (FrameError ''list exceeds item limit'')
          else rbind (rd_list count (\<lambda>r. rd_value r (Suc depth)) r) (\<lambda>(xs, r). Inr (VList xs, r)))
        else if tag = [0x4D] then rbind (rd_u32 r) (\<lambda>(count, r).
          if MAX_ITEMS < count then Inl (FrameError ''map exceeds item limit'')
          else rbind (rd_map count (\<lambda>r. rd_value r (Suc depth)) [] r) (\<lambda>(kvs, r). Inr (VMap kvs, r)))
        else Inl (FrameError ''unknown value tag'')))"
  by pat_completeness auto
termination
  by (relation "measure (\<lambda>(r, d). Suc MAX_DEPTH - d)") auto

declare rd_value.simps [simp del]

definition decode_value :: "byte list \<Rightarrow> bin_error + val" where
  "decode_value data =
     rbind (rd_value \<lparr>rdata = data, offset = 0, items = 0\<rparr> 0) (\<lambda>(v, r).
       if offset r \<noteq> length data then Inl (FrameError ''trailing bytes after value'') else Inr v)"

section \<open>Frames\<close>

text \<open>The header fields \<open>(magic, version, kind, flags, request_id, size, checksum)\<close>.\<close>

definition unpack_header ::
    "byte list \<Rightarrow> byte list \<times> nat \<times> int \<times> nat \<times> int \<times> nat \<times> nat" where
  "unpack_header h = (take 4 h, unbe (take 1 (drop 4 h)), int (unbe (take 1 (drop 5 h))),
     unbe (take 2 (drop 6 h)), int (unbe (take 8 (drop 8 h))), unbe (take 4 (drop 16 h)),
     unbe (take 4 (drop 20 h)))"

definition decode_frame :: "byte list \<Rightarrow> bin_error + int \<times> int \<times> val" where
  "decode_frame data =
     (if length data < HEADER_SIZE then Inl (FrameError ''truncated frame header'')
      else let (magic, version, kind, flags, request_id, size, checksum) =
                 unpack_header (take HEADER_SIZE data) in
      if magic \<noteq> MAGIC \<or> version \<noteq> VERSION \<or> flags \<noteq> 0 then Inl (FrameError ''unsupported frame header'')
      else if MAX_FRAME_BYTES < size \<or> length data \<noteq> HEADER_SIZE + size
      then Inl (FrameError ''invalid frame length'')
      else let body = drop HEADER_SIZE data in
      if unat (crc32 body) \<noteq> checksum then Inl (FrameError ''frame checksum mismatch'')
      else rbind (decode_value body) (\<lambda>v. Inr (kind, request_id, v)))"

text \<open>
  \<open>read_frame\<close> on a stream: the stream is the bytes still to come, \<open>read(n)\<close> takes at most
  \<open>n\<close> of them; \<open>None\<close> is the end of the stream, and the rest is the stream afterwards.
\<close>

definition read_frame :: "byte list \<Rightarrow> bin_error + (int \<times> int \<times> val) option \<times> byte list" where
  "read_frame stream =
     (let header = take HEADER_SIZE stream; stream = drop HEADER_SIZE stream in
      if header = [] then Inr (None, stream)
      else if length header \<noteq> HEADER_SIZE then Inl (FrameError ''truncated frame header'')
      else let (magic, version, kind, flags, request_id, size, checksum) = unpack_header header in
      if magic \<noteq> MAGIC \<or> version \<noteq> VERSION \<or> flags \<noteq> 0 then Inl (FrameError ''unsupported frame header'')
      else if MAX_FRAME_BYTES < size then Inl (FrameError ''frame exceeds maximum size'')
      else let body = take size stream; stream = drop size stream in
      if length body \<noteq> size then Inl (FrameError ''truncated frame body'')
      else if unat (crc32 body) \<noteq> checksum then Inl (FrameError ''frame checksum mismatch'')
      else rbind (decode_value body) (\<lambda>v. Inr (Some (kind, request_id, v), stream)))"

text \<open>\<open>write_frame\<close> appends a frame to the output; a failed encoding writes nothing.\<close>

definition write_frame :: "byte list \<Rightarrow> int \<Rightarrow> int \<Rightarrow> val \<Rightarrow> bin_error + byte list" where
  "write_frame out kind request_id payload =
     rbind (encode_frame kind request_id payload) (\<lambda>frame. Inr (out @ frame))"

definition utext_of :: "string \<Rightarrow> utext" where
  "utext_of s = List.map of_char s"

definition golden_vector :: "bin_error + byte list" where
  "golden_vector = encode_frame REQUEST 7
     (VMap [(utext_of ''method'', VStr (utext_of ''handshake'')), (utext_of ''ok'', VBool True),
            (utext_of ''limits'', VList [VInt 1, VInt 2, VInt 3])])"

section \<open>What the decoder gives back\<close>

text \<open>The value a round trip returns: every map with its entries in key order.\<close>

function canon :: "val \<Rightarrow> val" where
  "canon v = (case v of
      VList xs \<Rightarrow> VList (List.map canon xs)
    | VMap kvs \<Rightarrow> VMap (List.map (\<lambda>kv. (fst kv, canon (snd kv))) (sort_entries kvs))
    | _ \<Rightarrow> v)"
  by pat_completeness auto
termination
  by (relation "measure size"; clarsimp simp: val_size_list val_size_map)

declare canon.simps [simp del]

text \<open>The number of values in a value: what \<open>_Reader.items\<close> counts.\<close>

function nodes :: "val \<Rightarrow> nat" where
  "nodes v = (case v of
      VList xs \<Rightarrow> Suc (sum_list (List.map nodes xs))
    | VMap kvs \<Rightarrow> Suc (sum_list (List.map (\<lambda>kv. nodes (snd kv)) kvs))
    | _ \<Rightarrow> 1)"
  by pat_completeness auto
termination
  by (relation "measure size"; clarsimp simp: val_size_list val_size_map)

declare nodes.simps [simp del]

text \<open>Containers below containers.\<close>

function nesting :: "val \<Rightarrow> nat" where
  "nesting v = (case v of
      VList xs \<Rightarrow> (if xs = [] then 0 else Suc (Max (set (List.map nesting xs))))
    | VMap kvs \<Rightarrow> (if kvs = [] then 0 else Suc (Max (set (List.map (\<lambda>kv. nesting (snd kv)) kvs))))
    | _ \<Rightarrow> 0)"
  by pat_completeness auto
termination
  by (relation "measure size"; clarsimp simp: val_size_list val_size_map)

declare nesting.simps [simp del]

text \<open>A Python dictionary has distinct keys.\<close>

function wf_val :: "val \<Rightarrow> bool" where
  "wf_val v = (case v of
      VList xs \<Rightarrow> list_all wf_val xs
    | VMap kvs \<Rightarrow> dict_ok kvs \<and> list_all (\<lambda>kv. wf_val (snd kv)) kvs
    | _ \<Rightarrow> True)"
  by pat_completeness auto
termination
  by (relation "measure size"; clarsimp simp: val_size_list val_size_map)

declare wf_val.simps [simp del]

lemmas val_fun_simps = canon.simps nodes.simps wf_val.simps

subsection \<open>Reading what was written\<close>

text \<open>
  \<open>adv r n k\<close> is the reader \<open>n\<close> bytes and \<open>k\<close> values further; \<open>ahead r bs rest\<close> says that
  \<open>bs\<close> and then \<open>rest\<close> are what it reads next.
\<close>

definition adv :: "reader \<Rightarrow> nat \<Rightarrow> nat \<Rightarrow> reader" where
  "adv r n k = r\<lparr>offset := offset r + n, items := items r + k\<rparr>"

definition ahead :: "reader \<Rightarrow> byte list \<Rightarrow> byte list \<Rightarrow> bool" where
  "ahead r bs rest = (offset r \<le> length (rdata r) \<and> drop (offset r) (rdata r) = bs @ rest)"

lemma adv_adv [simp]: "adv (adv r n k) m l = adv r (n + m) (k + l)"
  by (simp add: adv_def add.assoc)

lemma adv_items [simp]: "items (adv r n k) = items r + k"
  by (simp add: adv_def)

lemma items_update_adv: "r\<lparr>items := Suc (items r)\<rparr> = adv r 0 1"
  by (simp add: adv_def)

lemma ahead_append: "ahead r (xs @ ys) rest \<longleftrightarrow> ahead r xs (ys @ rest)"
  by (simp add: ahead_def)

lemma ahead_Cons: "ahead r (x # ys) rest \<longleftrightarrow> ahead r [x] (ys @ rest)"
  by (simp add: ahead_def)

lemma ahead_adv: "ahead r xs rest \<Longrightarrow> n = length xs \<Longrightarrow> ahead (adv r n k) [] rest"
proof -
  assume a: "ahead r xs rest" and n: "n = length xs"
  have "length (drop (offset r) (rdata r)) = length xs + length rest"
    using a by (simp add: ahead_def)
  then have "offset r + n \<le> length (rdata r)" using a n by (auto simp: ahead_def)
  moreover have "drop (offset r + n) (rdata r) = rest"
  proof -
    have "drop n (drop (offset r) (rdata r)) = rest" using a n by (simp add: ahead_def del: drop_drop)
    then show ?thesis by (simp add: add.commute)
  qed
  ultimately show ?thesis using a n by (simp add: ahead_def adv_def)
qed

lemma ahead_adv_split:
  "ahead r xs (ys @ rest) \<Longrightarrow> n = length xs \<Longrightarrow> ahead (adv r n k) ys rest"
  using ahead_adv[of r xs "ys @ rest" n k] by (simp add: ahead_def)

lemma rd_take_ahead: "ahead r xs rest \<Longrightarrow> n = length xs \<Longrightarrow> rd_take n r = Inr (xs, adv r n 0)"
proof -
  assume a: "ahead r xs rest" and n: "n = length xs"
  have "length (drop (offset r) (rdata r)) = length xs + length rest"
    using a by (simp add: ahead_def)
  then show ?thesis using a n by (auto simp: rd_take_def ahead_def adv_def)
qed

lemma rd_u32_ahead:
  "ahead r (be 4 n) rest \<Longrightarrow> n < 2 ^ 32 \<Longrightarrow> rd_u32 r = Inr (n, adv r 4 0)"
  by (simp add: rd_u32_def rd_take_ahead unbe_be)

lemma rd_text_ahead:
  assumes "ahead r (be 4 (length data) @ data) rest" and "utf8_encode t = Some data"
    and "length data \<le> MAX_FRAME_BYTES"
  shows "rd_text r = Inr (t, adv r (4 + length data) 0)"
proof -
  have a: "ahead r (be 4 (length data)) (data @ rest)" using assms(1) by (simp add: ahead_append)
  have b: "ahead (adv r 4 0) data rest" by (rule ahead_adv_split[OF a]) simp
  have n: "length data < 2 ^ 32" using assms(3) by (simp add: MAX_FRAME_BYTES_def)
  show ?thesis
    using assms(2,3) by (simp add: rd_text_def rd_u32_ahead[OF a n] rd_take_ahead[OF b] utf8_round_trip)
qed

lemma pack_text_cases:
  "pack_text t = Inr bs \<longleftrightarrow>
    (\<exists>data. utf8_encode t = Some data \<and> length data \<le> MAX_FRAME_BYTES
      \<and> bs = 0x53 # be 4 (length data) @ data)"
  by (auto simp: pack_text_def split: option.splits if_splits)

lemma unpack_q_be:
  assumes "- (2 ^ 63) \<le> n" "n < 2 ^ 63"
  shows "unpack_q (be 8 (nat (n mod 2 ^ 64))) = n"
proof -
  have "nat (n mod 2 ^ 64) < 256 ^ 8" by (simp add: nat_less_iff)
  then have u: "int (unbe (be 8 (nat (n mod 2 ^ 64)))) = n mod 2 ^ 64" by (simp add: unbe_be)
  show ?thesis
  proof (cases "0 \<le> n")
    case True
    then show ?thesis using assms u by (simp add: unpack_q_def Let_def)
  next
    case False
    have "n mod 2 ^ 64 = (n + 2 ^ 64) mod 2 ^ 64" by simp
    also have "\<dots> = n + 2 ^ 64" using False assms by (intro mod_pos_pos_trivial) auto
    finally have "n mod 2 ^ 64 = n + 2 ^ 64" .
    then show ?thesis using False assms u by (simp add: unpack_q_def Let_def)
  qed
qed

text \<open>The loops read back a list of encoded elements, if the element reader does.\<close>

definition reads_back :: "(reader \<Rightarrow> bin_error + val \<times> reader) \<Rightarrow> val \<Rightarrow> byte list \<Rightarrow> bool" where
  "reads_back rv v bs = (\<forall>r rest. ahead r bs rest \<longrightarrow> items r + nodes v \<le> MAX_ITEMS \<longrightarrow>
     rv r = Inr (canon v, adv r (length bs) (nodes v)))"

lemma rd_list_reads_back:
  assumes "list_all2 (reads_back rv) xs bss" and "ahead r (concat bss) rest"
    and "items r + sum_list (List.map nodes xs) \<le> MAX_ITEMS"
  shows "rd_list (length xs) rv r =
    Inr (List.map canon xs, adv r (length (concat bss)) (sum_list (List.map nodes xs)))"
  using assms
proof (induction xs bss arbitrary: r rule: list_all2_induct)
  case Nil
  then show ?case by (simp add: adv_def)
next
  case (Cons x xs b bss)
  have a: "ahead r b (concat bss @ rest)" using Cons.prems(1) by (simp add: ahead_append)
  have "rv r = Inr (canon x, adv r (length b) (nodes x))"
    using Cons.hyps(1) a Cons.prems(2) by (auto simp: reads_back_def)
  moreover have "ahead (adv r (length b) (nodes x)) (concat bss) rest"
    using ahead_adv_split[OF a] by simp
  then have "rd_list (length xs) rv (adv r (length b) (nodes x)) =
      Inr (List.map canon xs, adv (adv r (length b) (nodes x)) (length (concat bss)) (sum_list (List.map nodes xs)))"
    using Cons.prems(2) by (intro Cons.IH) auto
  ultimately show ?case by (simp add: add.assoc)
qed

definition encodes_entry :: "(reader \<Rightarrow> bin_error + val \<times> reader) \<Rightarrow> utext \<times> val \<Rightarrow> byte list \<Rightarrow> bool" where
  "encodes_entry rv kv bs =
     (\<exists>k b. pack_text (fst kv) = Inr k \<and> bs = k @ b \<and> reads_back rv (snd kv) b)"

lemma rd_map_reads_back:
  assumes "list_all2 (encodes_entry rv) kvs bss" and "ahead r (concat bss) rest"
    and "items r + sum_list (List.map (\<lambda>kv. nodes (snd kv)) kvs) \<le> MAX_ITEMS"
    and "distinct (dkeys acc @ dkeys kvs)"
  shows "rd_map (length kvs) rv acc r =
    Inr (acc @ List.map (\<lambda>kv. (fst kv, canon (snd kv))) kvs,
         adv r (length (concat bss)) (sum_list (List.map (\<lambda>kv. nodes (snd kv)) kvs)))"
  using assms
proof (induction kvs bss arbitrary: r acc rule: list_all2_induct)
  case Nil
  then show ?case by (simp add: adv_def)
next
  case (Cons kv kvs b bss)
  from Cons.hyps(1) obtain data c where data: "utf8_encode (fst kv) = Some data"
      "length data \<le> MAX_FRAME_BYTES" "b = (0x53 # be 4 (length data) @ data) @ c"
      "reads_back rv (snd kv) c"
    by (auto simp: encodes_entry_def pack_text_cases)
  define t where "t = be 4 (length data) @ data"
  have tag: "ahead r [0x53] (t @ c @ concat bss @ rest)"
    using Cons.prems(1) by (simp add: data t_def ahead_def)
  have tx: "ahead (adv r (Suc 0) 0) t (c @ concat bss @ rest)" by (rule ahead_adv_split[OF tag]) simp
  have key: "rd_text (adv r (Suc 0) 0) = Inr (fst kv, adv r (5 + length data) 0)"
    using rd_text_ahead[OF tx[unfolded t_def] data(1,2)] by simp
  have cc: "ahead (adv r (5 + length data) 0) c (concat bss @ rest)"
    using ahead_adv_split[OF tx, of "4 + length data" 0] by (simp add: t_def)
  have v: "rv (adv r (5 + length data) 0) = Inr (canon (snd kv), adv r (length b) (nodes (snd kv)))"
    using data(4) cc Cons.prems(2) by (auto simp: reads_back_def data(3) algebra_simps)
  have "ahead (adv r (length b) (nodes (snd kv))) (concat bss) rest"
    using ahead_adv_split[OF cc, of "length c" "nodes (snd kv)"] by (simp add: data(3) algebra_simps)
  then have IH: "rd_map (length kvs) rv (acc @ [(fst kv, canon (snd kv))]) (adv r (length b) (nodes (snd kv)))
     = Inr ((acc @ [(fst kv, canon (snd kv))]) @ List.map (\<lambda>kv. (fst kv, canon (snd kv))) kvs,
         adv (adv r (length b) (nodes (snd kv))) (length (concat bss)) (sum_list (List.map (\<lambda>kv. nodes (snd kv)) kvs)))"
    using Cons.prems(2,3) by (intro Cons.IH) auto
  show ?case
    using Cons.prems(3) IH by (simp add: rd_take_ahead[OF tag] key v add.assoc)
qed

lemma nodes_pos: "1 \<le> nodes v"
  by (subst nodes.simps) (auto split: val.splits)

lemma rd_tag:
  assumes "ahead r (t # bs) rest"
  shows "rd_take (Suc 0) (r\<lparr>items := Suc (items r)\<rparr>) = Inr ([t], adv r 1 1)"
    and "ahead (adv r 1 1) bs rest"
proof -
  have a: "ahead (adv r 0 1) [t] (bs @ rest)" using assms by (simp add: ahead_def adv_def)
  show "rd_take (Suc 0) (r\<lparr>items := Suc (items r)\<rparr>) = Inr ([t], adv r 1 1)"
    using rd_take_ahead[OF a, of "Suc 0"] by (simp add: items_update_adv)
  show "ahead (adv r 1 1) bs rest" using ahead_adv_split[OF a, of 1 0] by simp
qed

lemma list_all2_map_res:
  assumes "map_res f xs = Inr ys" and "\<And>x y. x \<in> set xs \<Longrightarrow> f x = Inr y \<Longrightarrow> P x y"
  shows "list_all2 P xs ys"
  using assms by (auto simp: map_res_Inr_iff elim!: list.rel_mono_strong)

lemma sum_nodes_sort:
  "sum_list (List.map (\<lambda>kv. nodes (snd kv)) (sort_entries kvs)) = sum_list (List.map (\<lambda>kv. nodes (snd kv)) kvs)"
  by (simp add: sort_entries_def sum_list_sort_key)

lemma distinct_keys_sort: "dict_ok kvs \<Longrightarrow> distinct (dkeys (sort_entries kvs))"
  unfolding dict_ok_def sort_entries_def
  by (metis distinct_map distinct_sort set_sort)

lemma reads_back_leaf:
  assumes "encode_value v d = Inr bs" and "\<forall>xs. v \<noteq> VList xs" and "\<forall>kvs. v \<noteq> VMap kvs"
  shows "reads_back (\<lambda>r. rd_value r d) v bs"
  unfolding reads_back_def
proof (intro allI impI)
  fix r rest
  assume a: "ahead r bs rest" and i: "items r + nodes v \<le> MAX_ITEMS"
  have d: "\<not> MAX_DEPTH < d" using assms(1) by (auto simp: encode_value.simps split: if_splits)
  have i': "\<not> MAX_ITEMS < Suc (items r)" using i nodes_pos[of v] by linarith
  note enc = assms(1)[unfolded encode_value.simps[of v d]]
  show "rd_value r d = Inr (canon v, adv r (length bs) (nodes v))"
  proof (cases v)
    case VNone
    then have bs: "bs = [0x4E]" using enc d by simp
    show ?thesis using VNone bs d i' rd_tag(1)[OF a[unfolded bs]] by (simp add: rd_value.simps[of r d] val_fun_simps)
  next
    case (VBool b)
    then have bs: "bs = [if b then 0x54 else 0x46]" using enc d by simp
    show ?thesis using VBool bs d i' rd_tag(1)[OF a[unfolded bs]] by (simp add: rd_value.simps[of r d] val_fun_simps)
  next
    case (VInt n)
    then obtain q where bs: "bs = 0x49 # q" and q: "pack_q n = Inr q" using enc d by auto
    then have q': "q = be 8 (nat (n mod 2 ^ 64))" "- (2 ^ 63) \<le> n" "n < 2 ^ 63"
      by (auto simp: pack_q_def split: if_splits)
    have b: "ahead (adv r 1 1) q rest" using rd_tag(2)[OF a[unfolded bs]] .
    then have "rd_take 8 (adv r 1 1) = Inr (q, adv r 9 1)"
      using rd_take_ahead[OF b] q'(1) by simp
    then show ?thesis using VInt bs q' d i' rd_tag(1)[OF a[unfolded bs]] unpack_q_be[of n]
      by (simp add: rd_value.simps[of r d] val_fun_simps)
  next
    case (VFloat w)
    then have bs: "bs = 0x44 # be 8 (unat w)" using enc d by auto
    have b: "ahead (adv r 1 1) (be 8 (unat w)) rest" using rd_tag(2)[OF a[unfolded bs]] .
    have w: "unat w < 256 ^ 8" using unsigned_less[of w, where ?'a = nat] by simp
    have "rd_take 8 (adv r 1 1) = Inr (be 8 (unat w), adv r 9 1)" using rd_take_ahead[OF b] by simp
    then show ?thesis using VFloat bs d i' rd_tag(1)[OF a[unfolded bs]] unbe_be[OF w]
      by (simp add: rd_value.simps[of r d] val_fun_simps)
  next
    case (VStr t)
    then obtain data where data: "utf8_encode t = Some data" "length data \<le> MAX_FRAME_BYTES"
      and bs: "bs = 0x53 # be 4 (length data) @ data" using enc d by (auto simp: pack_text_cases)
    have b: "ahead (adv r 1 1) (be 4 (length data) @ data) rest" using rd_tag(2)[OF a[unfolded bs]] .
    show ?thesis using VStr bs d i' rd_tag(1)[OF a[unfolded bs]] rd_text_ahead[OF b data]
      by (simp add: rd_value.simps[of r d] val_fun_simps)
  next
    case (VBytes x)
    then have x: "length x \<le> MAX_FRAME_BYTES" and bs: "bs = 0x42 # be 4 (length x) @ x"
      using enc d by (auto split: if_splits)
    have b: "ahead (adv r 1 1) (be 4 (length x)) (x @ rest)"
    using rd_tag(2)[OF a[unfolded bs]] by (simp add: ahead_append)
    have c: "ahead (adv r 5 1) x rest" using ahead_adv_split[OF b, of 4 0] by simp
    have n: "length x < 2 ^ 32" using x by (simp add: MAX_FRAME_BYTES_def)
    show ?thesis using VBytes bs x d i' rd_tag(1)[OF a[unfolded bs]] rd_u32_ahead[OF b n] rd_take_ahead[OF c]
      by (simp add: rd_value.simps[of r d] val_fun_simps)
  qed (use enc d assms(2,3) in auto)
qed

lemma reads_back_list:
  assumes enc: "encode_value (VList xs) d = Inr bs"
    and IH: "\<And>x b. x \<in> set xs \<Longrightarrow> encode_value x (Suc d) = Inr b \<Longrightarrow> reads_back (\<lambda>r. rd_value r (Suc d)) x b"
  shows "reads_back (\<lambda>r. rd_value r d) (VList xs) bs"
  unfolding reads_back_def
proof (intro allI impI)
  fix r rest
  assume a: "ahead r bs rest" and i: "items r + nodes (VList xs) \<le> MAX_ITEMS"
  from enc obtain bss where d: "\<not> MAX_DEPTH < d" and len: "length xs \<le> MAX_ITEMS"
    and bss: "map_res (\<lambda>x. encode_value x (Suc d)) xs = Inr bss"
    and bs: "bs = 0x4C # be 4 (length xs) @ concat bss"
    by (auto simp: encode_value.simps[of "VList xs"] split: if_splits)
  have i': "Suc (items r) + sum_list (List.map nodes xs) \<le> MAX_ITEMS"
    using i by (simp add: nodes.simps[of "VList xs"])
  have b: "ahead (adv r 1 1) (be 4 (length xs)) (concat bss @ rest)"
    using rd_tag(2)[OF a[unfolded bs]] by (simp add: ahead_append)
  have c: "ahead (adv r 5 1) (concat bss) rest" using ahead_adv_split[OF b, of 4 0] by simp
  have n: "length xs < 2 ^ 32" using len by (simp add: MAX_ITEMS_def)
  have "list_all2 (reads_back (\<lambda>r. rd_value r (Suc d))) xs bss"
    using list_all2_map_res[OF bss] IH by blast
  then have "rd_list (length xs) (\<lambda>r. rd_value r (Suc d)) (adv r 5 1) =
      Inr (List.map canon xs, adv (adv r 5 1) (length (concat bss)) (sum_list (List.map nodes xs)))"
    using rd_list_reads_back[OF _ c] i' by simp
  then show "rd_value r d = Inr (canon (VList xs), adv r (length bs) (nodes (VList xs)))"
    using d i' len bs rd_tag(1)[OF a[unfolded bs]] rd_u32_ahead[OF b n]
    by (simp add: rd_value.simps[of r d] canon.simps[of "VList xs"] nodes.simps[of "VList xs"])
qed

lemma reads_back_map:
  assumes enc: "encode_value (VMap kvs) d = Inr bs" and ok: "dict_ok kvs"
    and IH: "\<And>k x b. (k, x) \<in> set kvs \<Longrightarrow> encode_value x (Suc d) = Inr b \<Longrightarrow> reads_back (\<lambda>r. rd_value r (Suc d)) x b"
  shows "reads_back (\<lambda>r. rd_value r d) (VMap kvs) bs"
  unfolding reads_back_def
proof (intro allI impI)
  fix r rest
  let ?kvs = "sort_entries kvs"
  assume a: "ahead r bs rest" and i: "items r + nodes (VMap kvs) \<le> MAX_ITEMS"
  from enc obtain bss where d: "\<not> MAX_DEPTH < d" and len: "length kvs \<le> MAX_ITEMS"
    and bss: "map_res (\<lambda>kv. rbind (pack_text (fst kv)) (\<lambda>k.
                rbind (encode_value (snd kv) (Suc d)) (\<lambda>b. Inr (k @ b)))) ?kvs = Inr bss"
    and bs: "bs = 0x4D # be 4 (length bss) @ concat bss"
    by (auto simp: encode_value.simps[of "VMap kvs"] split: if_splits)
  have lk: "length bss = length ?kvs" using map_res_length[OF bss] .
  have len': "length ?kvs = length kvs" by (simp add: sort_entries_def)
  have i': "Suc (items r) + sum_list (List.map (\<lambda>kv. nodes (snd kv)) ?kvs) \<le> MAX_ITEMS"
    using i by (simp add: nodes.simps[of "VMap kvs"] sum_nodes_sort)
  have b: "ahead (adv r 1 1) (be 4 (length bss)) (concat bss @ rest)"
    using rd_tag(2)[OF a[unfolded bs]] by (simp add: ahead_append)
  have c: "ahead (adv r 5 1) (concat bss) rest" using ahead_adv_split[OF b, of 4 0] by simp
  have n: "length bss < 2 ^ 32" using len lk len' by (simp add: MAX_ITEMS_def)
  have "list_all2 (encodes_entry (\<lambda>r. rd_value r (Suc d))) ?kvs bss"
    by (rule list_all2_map_res[OF bss]) (use IH in \<open>fastforce simp: encodes_entry_def\<close>)
  then have "rd_map (length bss) (\<lambda>r. rd_value r (Suc d)) [] (adv r 5 1) =
      Inr ([] @ List.map (\<lambda>kv. (fst kv, canon (snd kv))) ?kvs,
        adv (adv r 5 1) (length (concat bss)) (sum_list (List.map (\<lambda>kv. nodes (snd kv)) ?kvs)))"
    unfolding lk using distinct_keys_sort[OF ok] i' by (intro rd_map_reads_back[OF _ c]) auto
  then show "rd_value r d = Inr (canon (VMap kvs), adv r (length bs) (nodes (VMap kvs)))"
    using d i' len lk len' bs rd_tag(1)[OF a[unfolded bs]] rd_u32_ahead[OF b n]
    by (simp add: rd_value.simps[of r d] canon.simps[of "VMap kvs"] nodes.simps[of "VMap kvs"] sum_nodes_sort)
qed

lemma encode_reads_back:
  "encode_value v d = Inr bs \<Longrightarrow> wf_val v \<Longrightarrow> reads_back (\<lambda>r. rd_value r d) v bs"
proof (induction v arbitrary: d bs rule: wf_val.induct)
  case (1 v)
  show ?case
  proof (cases v)
    case (VList xs)
    then have "list_all wf_val xs" using "1.prems"(2) by (simp add: wf_val.simps)
    then show ?thesis using "1.prems"(1) "1.IH"(1)[OF VList] VList
      by (auto simp: list_all_iff intro!: reads_back_list)
  next
    case (VMap kvs)
    then have "dict_ok kvs" "list_all (\<lambda>kv. wf_val (snd kv)) kvs"
      using "1.prems"(2) by (simp_all add: wf_val.simps)
    then show ?thesis using "1.prems"(1) "1.IH"(2)[OF VMap] VMap
      by (fastforce simp: list_all_iff intro!: reads_back_map)
  qed (use "1.prems" reads_back_leaf in auto)
qed

lemma decode_encode_value:
  assumes "encode_value v 0 = Inr bs" "wf_val v" "nodes v \<le> MAX_ITEMS"
  shows "decode_value bs = Inr (canon v)"
proof -
  have "ahead \<lparr>rdata = bs, offset = 0, items = 0\<rparr> bs []" by (simp add: ahead_def)
  then have "rd_value \<lparr>rdata = bs, offset = 0, items = 0\<rparr> 0 =
      Inr (canon v, adv \<lparr>rdata = bs, offset = 0, items = 0\<rparr> (length bs) (nodes v))"
    using encode_reads_back[OF assms(1,2)] assms(3) by (auto simp: reads_back_def)
  then show ?thesis by (simp add: decode_value_def adv_def)
qed

subsection \<open>What the decoder accepts\<close>

text \<open>A value the reader returned is counted, within the limits, and a well-formed Python value.\<close>

definition read_ok :: "nat \<Rightarrow> reader \<Rightarrow> val \<Rightarrow> reader \<Rightarrow> bool" where
  "read_ok d r v r' = (items r' = items r + nodes v \<and> items r' \<le> MAX_ITEMS
     \<and> nesting v + d \<le> MAX_DEPTH \<and> wf_val v)"

lemma rd_take_items: "rd_take n r = Inr (bs, r') \<Longrightarrow> items r' = items r"
  by (auto simp: rd_take_def split: if_splits)

lemma rd_u32_items: "rd_u32 r = Inr (n, r') \<Longrightarrow> items r' = items r"
  by (auto simp: rd_u32_def dest: rd_take_items)

lemma rd_text_items: "rd_text r = Inr (t, r') \<Longrightarrow> items r' = items r"
  by (auto simp: rd_text_def split: if_splits option.splits dest!: rd_take_items rd_u32_items)

lemma rd_list_ok:
  assumes "\<And>r x r'. rv r = Inr (x, r') \<Longrightarrow> read_ok d r x r'"
  shows "rd_list n rv r = Inr (xs, r') \<Longrightarrow>
     items r' = items r + sum_list (List.map nodes xs) \<and> (xs \<noteq> [] \<longrightarrow> items r' \<le> MAX_ITEMS)
     \<and> (\<forall>x \<in> set xs. nesting x + d \<le> MAX_DEPTH \<and> wf_val x)"
proof (induction n arbitrary: r xs)
  case 0
  then show ?case by simp
next
  case (Suc n)
  from Suc.prems obtain x r1 ys where x: "rv r = Inr (x, r1)"
    and ys: "rd_list n rv r1 = Inr (ys, r')" and xs: "xs = x # ys" by auto
  show ?case using assms[OF x] Suc.IH[OF ys] by (cases n) (use ys in \<open>auto simp: xs read_ok_def\<close>)
qed

lemma rd_map_ok:
  assumes "\<And>r x r'. rv r = Inr (x, r') \<Longrightarrow> read_ok d r x r'"
  shows "rd_map n rv acc r = Inr (kvs, r') \<Longrightarrow> dict_ok acc \<Longrightarrow>
     \<exists>new. kvs = acc @ new \<and> dict_ok kvs
       \<and> items r' = items r + sum_list (List.map (\<lambda>kv. nodes (snd kv)) new)
       \<and> (new \<noteq> [] \<longrightarrow> items r' \<le> MAX_ITEMS)
       \<and> (\<forall>kv \<in> set new. nesting (snd kv) + d \<le> MAX_DEPTH \<and> wf_val (snd kv))"
proof (induction n arbitrary: r acc)
  case 0
  then show ?case by simp
next
  case (Suc n)
  from Suc.prems(1) obtain tag r1 key r2 v r3 where
    tag: "rd_take (Suc 0) r = Inr (tag, r1)" and key: "rd_text r1 = Inr (key, r2)"
    and new: "key \<notin> set (dkeys acc)" and v: "rv r2 = Inr (v, r3)"
    and rest: "rd_map n rv (acc @ [(key, v)]) r3 = Inr (kvs, r')"
    by (auto split: if_splits)
  have "dict_ok (acc @ [(key, v)])" using Suc.prems(2) new by (auto simp: dict_ok_def)
  then obtain new' where IH: "kvs = (acc @ [(key, v)]) @ new'" "dict_ok kvs"
     "items r' = items r3 + sum_list (List.map (\<lambda>kv. nodes (snd kv)) new')"
     "new' \<noteq> [] \<longrightarrow> items r' \<le> MAX_ITEMS"
     "\<forall>kv \<in> set new'. nesting (snd kv) + d \<le> MAX_DEPTH \<and> wf_val (snd kv)"
    using Suc.IH[OF rest] by blast
  have i: "items r2 = items r" using rd_take_items[OF tag] rd_text_items[OF key] by simp
  show ?case
    using assms[OF v] IH i
    by (intro exI[of _ "(key, v) # new'"]) (cases new', auto simp: read_ok_def)
qed

lemma nesting_list: "(\<forall>x \<in> set xs. nesting x + Suc d \<le> m) \<Longrightarrow> d \<le> m \<Longrightarrow> nesting (VList xs) + d \<le> m"
proof (cases "xs = []")
  case False
  assume "\<forall>x \<in> set xs. nesting x + Suc d \<le> m" and "d \<le> m"
  then have "Max (nesting ` set xs) \<le> m - Suc d \<and> Suc d \<le> m"
    using False by (cases xs) (auto intro!: Max.boundedI)
  then have "Suc (Max (nesting ` set xs)) + d \<le> m" by linarith
  then show ?thesis using False by (simp add: nesting.simps[of "VList xs"])
qed (simp add: nesting.simps)

lemma nesting_map:
  "(\<forall>kv \<in> set kvs. nesting (snd kv) + Suc d \<le> m) \<Longrightarrow> d \<le> m \<Longrightarrow> nesting (VMap kvs) + d \<le> m"
proof (cases "kvs = []")
  case False
  assume "\<forall>kv \<in> set kvs. nesting (snd kv) + Suc d \<le> m" and "d \<le> m"
  then have "Max ((\<lambda>kv. nesting (snd kv)) ` set kvs) \<le> m - Suc d \<and> Suc d \<le> m"
    using False by (cases kvs) (auto intro!: Max.boundedI)
  then have "Suc (Max ((\<lambda>kv. nesting (snd kv)) ` set kvs)) + d \<le> m" by linarith
  then show ?thesis using False by (simp add: nesting.simps[of "VMap kvs"])
qed (simp add: nesting.simps)

lemma rd_value_ok: "rd_value r d = Inr (v, r') \<Longrightarrow> read_ok d r v r'"
proof (induction "Suc MAX_DEPTH - d" arbitrary: r d v r' rule: less_induct)
  case less
  define r0 where "r0 = r\<lparr>items := Suc (items r)\<rparr>"
  have d: "\<not> MAX_DEPTH < d" and i: "\<not> MAX_ITEMS < items r0"
    using less.prems by (auto simp: rd_value.simps[of r d] r0_def split: if_splits)
  obtain tag r1 where tag: "rd_take 1 r0 = Inr (tag, r1)"
    using less.prems d i by (auto simp: rd_value.simps[of r d] r0_def[symmetric])
  have i1: "items r1 = Suc (items r)" using rd_take_items[OF tag] by (simp add: r0_def)
  have IH: "read_ok (Suc d) q x q'" if "rd_value q (Suc d) = Inr (x, q')" for q x q'
    using less.hyps[of "Suc d"] that d by simp
  note leaf_simps = nodes.simps nesting.simps wf_val.simps
  consider (l) xs count r2 where "v = VList xs" "rd_u32 r1 = Inr (count, r2)"
      "rd_list count (\<lambda>r. rd_value r (Suc d)) r2 = Inr (xs, r')"
    | (m) kvs count r2 where "v = VMap kvs" "rd_u32 r1 = Inr (count, r2)"
      "rd_map count (\<lambda>r. rd_value r (Suc d)) [] r2 = Inr (kvs, r')"
    | (leaf) "items r' = items r1" "nodes v = 1" "nesting v = 0" "wf_val v"
    using less.prems[unfolded rd_value.simps[of r d] Let_def, folded r0_def] d i tag
    by (auto simp: leaf_simps split: if_splits dest: rd_take_items rd_u32_items rd_text_items) (metis rd_take_items rd_u32_items)
  then show ?case
  proof cases
    case l
    have *: "items r' = items r2 + sum_list (List.map nodes xs) \<and> (xs \<noteq> [] \<longrightarrow> items r' \<le> MAX_ITEMS)
       \<and> (\<forall>x \<in> set xs. nesting x + Suc d \<le> MAX_DEPTH \<and> wf_val x)"
      using rd_list_ok[OF IH l(3)] by blast
    have "nesting v + d \<le> MAX_DEPTH" using * d unfolding l(1) by (intro nesting_list) auto
    then show ?thesis
      using * i i1 rd_u32_items[OF l(2)]
      by (cases xs) (auto simp: read_ok_def l(1) nodes.simps[of "VList _"] wf_val.simps[of "VList _"] list_all_iff r0_def)
  next
    case m
    have *: "dict_ok kvs \<and> items r' = items r2 + sum_list (List.map (\<lambda>kv. nodes (snd kv)) kvs)
       \<and> (kvs \<noteq> [] \<longrightarrow> items r' \<le> MAX_ITEMS)
       \<and> (\<forall>kv \<in> set kvs. nesting (snd kv) + Suc d \<le> MAX_DEPTH \<and> wf_val (snd kv))"
      using rd_map_ok[OF IH m(3)] by auto
    have "nesting v + d \<le> MAX_DEPTH" using * d unfolding m(1) by (intro nesting_map) auto
    then show ?thesis
      using * i i1 rd_u32_items[OF m(2)]
      by (cases kvs) (auto simp: read_ok_def m(1) nodes.simps[of "VMap _"] wf_val.simps[of "VMap _"] list_all_iff r0_def)
  next
    case leaf
    then show ?thesis using d i i1 by (simp add: read_ok_def r0_def)
  qed
qed

section \<open>Frames\<close>

lemma HEADER_fields:
  assumes "length h = HEADER_SIZE" "h = MAGIC @ be 1 VERSION @ be 1 k @ be 2 0 @ be 8 i @ be 4 n @ be 4 c"
    and "k < 256" "i < 2 ^ 64" "n < 2 ^ 32" "c < 2 ^ 32"
  shows "unpack_header h = (MAGIC, VERSION, int k, 0, int i, n, c)"
  using assms(3-6)
  by (simp add: assms(2) unpack_header_def MAGIC_def VERSION_def unbe_be del: be.simps)

lemma length_header:
  "length (MAGIC @ be 1 VERSION @ be 1 k @ be 2 0 @ be 8 i @ be 4 n @ be 4 c) = HEADER_SIZE"
  by (simp add: MAGIC_def HEADER_SIZE_def del: be.simps)

text \<open>The shape of an encoded frame.\<close>

lemma encode_frame_cases:
  assumes "encode_frame kind rid v = Inr f"
  obtains body h where "encode_value v 0 = Inr body" "f = h @ body" "length h = HEADER_SIZE"
    "unpack_header h = (MAGIC, VERSION, kind, 0, rid, length body, unat (crc32 body))"
    "length body \<le> MAX_FRAME_BYTES"
proof -
  from assms obtain body where body: "encode_value v 0 = Inr body" "length body \<le> MAX_FRAME_BYTES"
    and k: "0 \<le> kind" "kind < 256" "0 \<le> rid" "rid < 2 ^ 64"
    and f: "f = (MAGIC @ be 1 VERSION @ be 1 (nat kind) @ be 2 0 @ be 8 (nat rid)
                 @ be 4 (length body) @ be 4 (unat (crc32 body))) @ body"
    by (auto simp: encode_frame_def simp del: be.simps)
  have n: "length body < 2 ^ 32" using body(2) by (simp add: MAX_FRAME_BYTES_def)
  have c: "unat (crc32 body) < 2 ^ 32" using unsigned_less[of "crc32 body", where ?'a = nat] by simp
  have i: "nat rid < 2 ^ 64" "nat kind < 256" using k by (auto simp: nat_less_iff)
  show ?thesis
    using that[OF body(1) f length_header _ body(2)] HEADER_fields[OF length_header refl i(2,1) n c] k by simp
qed

lemma decode_frame_split:
  assumes "length h = HEADER_SIZE"
    and "unpack_header h = (MAGIC, VERSION, kind, 0, rid, length body, c)" and "length body \<le> MAX_FRAME_BYTES"
  shows "decode_frame (h @ body) = (if unat (crc32 body) \<noteq> c then Inl (FrameError ''frame checksum mismatch'')
     else rbind (decode_value body) (\<lambda>v. Inr (kind, rid, v)))"
  using assms by (simp add: decode_frame_def)

lemma decode_encode_frame:
  assumes "encode_frame kind rid v = Inr f" and "wf_val v" and "nodes v \<le> MAX_ITEMS"
  shows "decode_frame f = Inr (kind, rid, canon v)"
proof -
  from assms(1) obtain body h where b: "encode_value v 0 = Inr body" "f = h @ body"
      "length h = HEADER_SIZE"
      "unpack_header h = (MAGIC, VERSION, kind, 0, rid, length body, unat (crc32 body))"
      "length body \<le> MAX_FRAME_BYTES" by (rule encode_frame_cases)
  show ?thesis
    using decode_frame_split[OF b(3-5)] decode_encode_value[OF b(1) assms(2,3)] by (simp add: b(2))
qed

lemma read_encode_frame:
  assumes "encode_frame kind rid v = Inr f" and "wf_val v" and "nodes v \<le> MAX_ITEMS"
  shows "read_frame (f @ rest) = Inr (Some (kind, rid, canon v), rest)"
proof -
  from assms(1) obtain body h where b: "encode_value v 0 = Inr body" "f = h @ body"
      "length h = HEADER_SIZE"
      "unpack_header h = (MAGIC, VERSION, kind, 0, rid, length body, unat (crc32 body))"
      "length body \<le> MAX_FRAME_BYTES" by (rule encode_frame_cases)
  have "h \<noteq> []" using b(3) by (auto simp: HEADER_SIZE_def)
  then show ?thesis
    using decode_encode_frame[OF assms] decode_encode_value[OF b(1) assms(2,3)] b(3-5)
    by (simp add: read_frame_def b(2))
qed

text \<open>A message as it is written, the form its reader sees, and the messages that survive.\<close>

definition encode_message :: "int \<times> int \<times> val \<Rightarrow> bin_error + byte list" where
  "encode_message m = (case m of (kind, rid, v) \<Rightarrow> encode_frame kind rid v)"

definition canon_message :: "int \<times> int \<times> val \<Rightarrow> int \<times> int \<times> val" where
  "canon_message m = (case m of (kind, rid, v) \<Rightarrow> (kind, rid, canon v))"

definition sendable :: "int \<times> int \<times> val \<Rightarrow> bool" where
  "sendable m = (wf_val (snd (snd m)) \<and> nodes (snd (snd m)) \<le> MAX_ITEMS)"

interpretation frames: framing encode_message read_frame canon_message sendable
proof unfold_locales
  show "read_frame (bs @ rest) = Inr (Some (canon_message m), rest)"
    if "sendable m" "encode_message m = Inr bs" for m bs rest
    using that read_encode_frame by (cases m) (auto simp: sendable_def encode_message_def canon_message_def)
  show "read_frame [] = Inr (None, [])" by (simp add: read_frame_def)
qed

definition write_message :: "byte list \<Rightarrow> int \<times> int \<times> val \<Rightarrow> bin_error + byte list" where
  "write_message stream m = (case m of (kind, rid, v) \<Rightarrow> write_frame stream kind rid v)"

lemma write_messages:
  "fold_res write_message s ms = Inr t \<Longrightarrow> \<exists>fs. map_res encode_message ms = Inr fs \<and> t = s @ concat fs"
proof (induction ms arbitrary: s)
  case (Cons m ms)
  then obtain s' where s': "write_message s m = Inr s'" "fold_res write_message s' ms = Inr t" by auto
  moreover obtain f where "encode_message m = Inr f" "s' = s @ f"
    using s'(1) by (cases m) (auto simp: write_message_def encode_message_def write_frame_def)
  ultimately show ?case using Cons.IH by fastforce
qed simp

text \<open>
  C5: sendable messages (a value that counts, with every value nested in it, at most \<open>MAX_ITEMS\<close>, as the
  decoder counts them, and whose maps have distinct keys) written to a stream one after the other are
  read back one by one: the same kinds, request ids and values (maps in key order), then the end of
  the stream.
\<close>

theorem frame_stream_round_trip:
  assumes "fold_res write_message [] ms = Inr stream" and "list_all sendable ms"
  shows "frames.reads (List.map canon_message ms) stream"
  using write_messages[OF assms(1)] frames.reads_written[OF assms(2)] by auto

theorem frame_stream_round_trip_witness:
  "\<exists>s. fold_res write_message [] [(1, 7, VMap [([98], VNone), ([97], VBool True)]), (2, 7, VNone)] = Inr s
     \<and> frames.reads [(1, 7, VMap [([97], VBool True), ([98], VNone)]), (2, 7, VNone)] s"
proof -
  let ?ms = "[(1, 7, VMap [([98], VNone), ([97], VBool True)]), (2, 7, VNone)] :: (int \<times> int \<times> val) list"
  have ok: "list_all sendable ?ms"
    by (simp add: sendable_def wf_val.simps nodes.simps dict_ok_def MAX_ITEMS_def)
  have c: "List.map canon_message ?ms = [(1, 7, VMap [([97], VBool True), ([98], VNone)]), (2, 7, VNone)]"
    by (simp add: canon_message_def canon.simps sort_entries_def)
  obtain s where s: "fold_res write_message [] ?ms = Inr s"
    by (simp add: write_message_def write_frame_def encode_frame_def encode_value.simps sort_entries_def
        pack_text_def utf8_char_def MAX_DEPTH_def MAX_ITEMS_def MAX_FRAME_BYTES_def)
  show ?thesis using frame_stream_round_trip[OF s ok] s c by auto
qed

text \<open>
  C19: whatever bytes it is given, a value the decoder returns has at most \<open>MAX_ITEMS\<close> values,
  at most \<open>MAX_DEPTH\<close> nested containers, and maps whose keys are distinct.
\<close>

theorem decoded_value_bounded:
  assumes "decode_value data = Inr v"
  shows "nodes v \<le> MAX_ITEMS \<and> nesting v \<le> MAX_DEPTH \<and> wf_val v"
proof -
  from assms obtain r where "rd_value \<lparr>rdata = data, offset = 0, items = 0\<rparr> 0 = Inr (v, r)"
    by (auto simp: decode_value_def split: if_splits)
  from rd_value_ok[OF this] show ?thesis by (simp add: read_ok_def)
qed

theorem decoded_value_bounded_witness:
  "decode_value [0x4C, 0, 0, 0, 1, 0x54] = Inr (VList [VBool True]) \<and> nesting (VList [VBool True]) \<le> MAX_DEPTH"
proof -
  have "decode_value [0x4C, 0, 0, 0, 1, 0x54] = Inr (VList [VBool True])"
    by (simp add: decode_value_def rd_value.simps rd_take_def rd_u32_def unbe_def MAX_DEPTH_def MAX_ITEMS_def)
  with decoded_value_bounded[OF this] show ?thesis by blast
qed

text \<open>
  C20: if one byte of the body of an accepted frame is changed, the frame is refused for its
  checksum: CRC-32 detects every single-byte error.
\<close>

theorem single_byte_corruption_rejected:
  assumes "decode_frame f = Inr z" and "HEADER_SIZE \<le> j" and "j < length f" and "b \<noteq> f ! j"
  shows "decode_frame (f[j := b]) = Inl (FrameError ''frame checksum mismatch'')"
proof -
  define h body i where "h = take HEADER_SIZE f" and "body = drop HEADER_SIZE f" and "i = j - HEADER_SIZE"
  have f: "f = h @ body" and lh: "length h = HEADER_SIZE" and j: "j = HEADER_SIZE + i"
    and i: "i < length body"
    using assms(2,3) by (auto simp: h_def body_def i_def)
  obtain magic version kind flags rid size c where u: "unpack_header h = (magic, version, kind, flags, rid, size, c)"
    using prod_cases7 by blast
  have ok: "magic = MAGIC" "version = VERSION" "flags = 0" "size = length body" "length body \<le> MAX_FRAME_BYTES"
      "unat (crc32 body) = c"
    using assms(1) lh u by (auto simp: decode_frame_def f Let_def split: if_splits)
  have fj: "f[j := b] = h @ body[i := b]" using lh by (simp add: f j list_update_append)
  have bi: "b \<noteq> body ! i" using assms(4) lh by (simp add: f j nth_append)
  have "crc32 (body[i := b]) \<noteq> crc32 body"
    using crc32_single_byte[OF bi, of "take i body" "drop (Suc i) body"] i
    by (simp add: upd_conv_take_nth_drop id_take_nth_drop[symmetric])
  then have "unat (crc32 (body[i := b])) \<noteq> c" using ok(6) by (metis unsigned_word_eqI)
  then show ?thesis
    using decode_frame_split[OF lh, of kind rid "body[i := b]" c] u ok by (simp add: fj)
qed

lemma crc_N: "crc32 [0x4E] = 0x4366831A"
  by code_simp

theorem single_byte_corruption_rejected_witness:
  "decode_frame (([0x53, 0x4C, 0x56, 0x32, 2, 1, 0, 0, 0, 0, 0, 0, 0, 0, 0, 7, 0, 0, 0, 1, 67, 102, 131, 26, 0x4E]) [24 := 0x54])
    = Inl (FrameError ''frame checksum mismatch'')"
proof -
  have "decode_frame [0x53, 0x4C, 0x56, 0x32, 2, 1, 0, 0, 0, 0, 0, 0, 0, 0, 0, 7, 0, 0, 0, 1, 67, 102, 131, 26, 0x4E]
     = Inr (1, 7, VNone)"
    by (simp add: decode_frame_def unpack_header_def decode_value_def rd_value.simps rd_take_def unbe_def crc_N
        MAGIC_def VERSION_def HEADER_SIZE_def MAX_FRAME_BYTES_def MAX_DEPTH_def MAX_ITEMS_def)
  from single_byte_corruption_rejected[OF this, of 24 "0x54"] show ?thesis by (simp add: HEADER_SIZE_def)
qed

lemma rd_list_overflow:
  assumes "ahead r (replicate n 0x4E) rest" and "items r \<le> MAX_ITEMS" and "MAX_ITEMS < items r + n"
    and "d \<le> MAX_DEPTH"
  shows "rd_list n (\<lambda>r. rd_value r d) r = Inl (FrameError ''value item limit exceeded'')"
  using assms(1-3)
proof (induction n arbitrary: r)
  case 0
  then show ?case by simp
next
  case (Suc n)
  show ?case
  proof (cases "items r = MAX_ITEMS")
    case True
    then show ?thesis using assms(4) by (simp add: rd_value.simps)
  next
    case False
    have a: "ahead r (0x4E # replicate n 0x4E) rest" using Suc.prems(1) by simp
    have "rd_value r d = Inr (VNone, adv r 1 1)"
      using False Suc.prems(2) assms(4) rd_tag(1)[OF a] by (simp add: rd_value.simps[of r d])
    then show ?thesis
      using False Suc.prems Suc.IH[OF rd_tag(2)[OF a]] by simp
  qed
qed

lemma encode_nones: "d \<le> MAX_DEPTH \<Longrightarrow>
   map_res (\<lambda>x. encode_value x d) (replicate n VNone) = Inr (replicate n [0x4E])"
  by (induction n) (simp_all add: encode_value.simps)

text \<open>
  The limits of the two directions differ by one: the list of \<open>MAX_ITEMS\<close> values, which the
  encoder accepts, is refused by the decoder, whose count includes the list itself.
\<close>

theorem item_limit_off_by_one:
  "\<exists>bs. encode_value (VList (replicate MAX_ITEMS VNone)) 0 = Inr bs
     \<and> decode_value bs = Inl (FrameError ''value item limit exceeded'')"
proof -
  let ?bs = "0x4C # be 4 MAX_ITEMS @ replicate MAX_ITEMS (0x4E :: byte)"
  have e: "encode_value (VList (replicate MAX_ITEMS VNone)) 0 = Inr ?bs"
    by (subst encode_value.simps) (simp add: encode_nones MAX_DEPTH_def concat_replicate_single)
  define r where "r = \<lparr>rdata = ?bs, offset = 0, items = 0\<rparr>"
  have a: "ahead r ?bs []" by (simp add: ahead_def r_def)
  have b: "ahead (adv r 1 1) (be 4 MAX_ITEMS) (replicate MAX_ITEMS 0x4E @ [])"
    using rd_tag(2)[OF a] by (simp add: ahead_append)
  have u: "rd_u32 (adv r 1 1) = Inr (MAX_ITEMS, adv r 5 1)"
    using rd_u32_ahead[OF b] by (simp add: MAX_ITEMS_def)
  have c: "ahead (adv r 5 1) (replicate MAX_ITEMS 0x4E) []" using ahead_adv_split[OF b, of 4 0] by simp
  have "items r = 0" by (simp add: r_def)
  then have l: "rd_list MAX_ITEMS (\<lambda>r. rd_value r (Suc 0)) (adv r 5 1) = Inl (FrameError ''value item limit exceeded'')"
    by (intro rd_list_overflow[OF c]) (simp_all add: MAX_ITEMS_def MAX_DEPTH_def)
  have "rd_value r 0 = Inl (FrameError ''value item limit exceeded'')"
    using rd_tag(1)[OF a] u l \<open>items r = 0\<close> by (simp add: rd_value.simps[of r 0] MAX_ITEMS_def)
  then show ?thesis using e by (auto simp: decode_value_def r_def)
qed

end
