(* ===== verification/Session_Scheduler.thy ===== *)
theory Session_Scheduler
  imports Interfaces
begin

text \<open>
  \<open>local_data_plane/session_scheduler.py\<close>: admission of sessions against a KV and a memory
  budget, cancellation, batch formation and status.  The admitted sessions are a dictionary
  from session id to request.
\<close>

section \<open>State and operations\<close>

record session_request =
  session_id :: string
  kv_bytes :: int
  model_id :: string
  template_hash :: string
  priority :: int

record admission_decision =
  accepted :: bool
  status :: string
  retry_after_ms :: "int option"
  reason :: string

record scheduler =
  memory_budget_bytes :: int
  kv_budget_bytes :: int
  max_sessions :: int
  batch_evidence :: "(string \<times> pyfloat) list"
  sessions :: "(string \<times> session_request) list"

definition new_scheduler :: "int \<Rightarrow> int \<Rightarrow> int \<Rightarrow> (string \<times> pyfloat) list \<Rightarrow> scheduler res" where
  "new_scheduler memory_budget kv_budget max_s evidence =
     (if min memory_budget kv_budget < 0 \<or> max_s < 1
      then Inl (ValueError ''budgets must be non-negative and max_sessions positive'')
      else Inr \<lparr>memory_budget_bytes = memory_budget, kv_budget_bytes = kv_budget, max_sessions = max_s,
                batch_evidence = evidence, sessions = []\<rparr>)"

definition used_bytes :: "scheduler \<Rightarrow> int" where
  "used_bytes s = sum_list (List.map (\<lambda>(_, r). kv_bytes r) (sessions s))"

definition admit :: "session_request \<Rightarrow> scheduler \<Rightarrow> (admission_decision \<times> scheduler) res" where
  "admit request s =
     (if session_id request = [] \<or> kv_bytes request < 0
      then Inl (ValueError ''session_id and non-negative kv_bytes are required'')
      else if session_id request \<in> set (dkeys (sessions s))
      then Inr (\<lparr>accepted = True, status = ''reused'', retry_after_ms = None,
                 reason = ''session already owns an isolated KV budget''\<rparr>, s)
      else if max_sessions s \<le> int (length (sessions s))
      then Inr (\<lparr>accepted = False, status = ''busy'', retry_after_ms = Some 250,
                 reason = ''session limit reached; retry after a bounded delay''\<rparr>, s)
      else let used = used_bytes s in
      if kv_budget_bytes s < used + kv_bytes request \<or> memory_budget_bytes s < used + kv_bytes request
      then Inr (\<lparr>accepted = False, status = ''busy'', retry_after_ms = Some 500,
                 reason = ''KV/memory budget reached; request was not admitted''\<rparr>, s)
      else Inr (\<lparr>accepted = True, status = ''accepted'', retry_after_ms = None,
                 reason = ''session admitted with isolated KV allocation''\<rparr>,
                s\<lparr>sessions := dput (session_id request) request (sessions s)\<rparr>))"

definition cancel :: "string \<Rightarrow> scheduler \<Rightarrow> bool \<times> scheduler" where
  "cancel sid s = (map_of (sessions s) sid \<noteq> None, s\<lparr>sessions := dpop sid (sessions s)\<rparr>)"

text \<open>The sort key \<open>(-priority, session_id)\<close> of an admitted session.\<close>

definition batch_key :: "scheduler \<Rightarrow> string \<Rightarrow> int \<times> string" where
  "batch_key s sid = (case map_of (sessions s) sid of None \<Rightarrow> 0 | Some r \<Rightarrow> - priority r, sid)"

definition form_batch :: "string list \<Rightarrow> scheduler \<Rightarrow> string list" where
  "form_batch session_ids s =
     (if session_ids = [] \<or> list_ex (\<lambda>sid. sid \<notin> set (dkeys (sessions s))) session_ids then []
      else let speedup = dget_or (batch_evidence s) ''throughput_gain'' (Fin 0);
               p95 = dget_or (batch_evidence s) ''p95_regression'' (Fin 1) in
      if flt speedup (lit (2 / 100)) \<or> flt (lit (10 / 100)) p95 then take 1 session_ids
      else sort_key (batch_key s) session_ids)"

record scheduler_status =
  active_sessions :: int
  kv_used_bytes :: int
  status_kv_budget_bytes :: int
  status_sessions :: "(string \<times> string \<times> string) list"

definition scheduler_status_of :: "scheduler \<Rightarrow> scheduler_status" where
  "scheduler_status_of s =
     \<lparr>active_sessions = int (length (sessions s)), kv_used_bytes = used_bytes s,
      status_kv_budget_bytes = kv_budget_bytes s,
      status_sessions = List.map (\<lambda>(sid, r). (sid, model_id r, template_hash r)) (sessions s)\<rparr>"

section \<open>The budget invariant\<close>

definition sched_inv :: "scheduler \<Rightarrow> bool" where
  "sched_inv s = (dict_ok (sessions s)
     \<and> list_all (\<lambda>(sid, r). session_id r = sid \<and> sid \<noteq> [] \<and> 0 \<le> kv_bytes r) (sessions s)
     \<and> int (length (sessions s)) \<le> max_sessions s
     \<and> used_bytes s \<le> kv_budget_bytes s \<and> used_bytes s \<le> memory_budget_bytes s)"

datatype sched_op = Admit session_request | Cancel string

fun sched_step :: "sched_op \<Rightarrow> scheduler \<Rightarrow> scheduler" where
  "sched_step (Admit r) s = (case admit r s of Inl _ \<Rightarrow> s | Inr (_, s') \<Rightarrow> s')"
| "sched_step (Cancel sid) s = snd (cancel sid s)"

lemma used_dput:
  "sid \<notin> set (dkeys (sessions s)) \<Longrightarrow> used_bytes (s\<lparr>sessions := dput sid r (sessions s)\<rparr>) = used_bytes s + kv_bytes r"
  by (simp add: used_bytes_def dput_new)

lemma dpop_used:
  "list_all (\<lambda>(sid, r). 0 \<le> kv_bytes r) d \<Longrightarrow>
   sum_list (List.map (\<lambda>(_, r). kv_bytes r) (dpop k d)) \<le> sum_list (List.map (\<lambda>(_, r). kv_bytes r) d)"
  by (induction k d rule: dpop.induct) auto

lemma dpop_length: "length (dpop k d) \<le> length d"
  by (induction k d rule: dpop.induct) auto

lemma sched_inv_add:
  assumes "sched_inv s" and "session_id r \<notin> set (dkeys (sessions s))" and "session_id r \<noteq> []" and "0 \<le> kv_bytes r"
    and "int (length (sessions s)) < max_sessions s"
    and "used_bytes s + kv_bytes r \<le> kv_budget_bytes s" and "used_bytes s + kv_bytes r \<le> memory_budget_bytes s"
  shows "sched_inv (s\<lparr>sessions := dput (session_id r) r (sessions s)\<rparr>)"
proof -
  have d: "dict_ok (dput (session_id r) r (sessions s))"
    using assms(1) by (auto simp: sched_inv_def intro: dput_dict_ok)
  have e: "dput (session_id r) r (sessions s) = sessions s @ [(session_id r, r)]"
    by (rule dput_new[OF assms(2)])
  have u: "used_bytes (s\<lparr>sessions := dput (session_id r) r (sessions s)\<rparr>) = used_bytes s + kv_bytes r"
    by (rule used_dput[OF assms(2)])
  show ?thesis
    using assms d u unfolding sched_inv_def by (simp add: e)
qed

lemma admit_inv: "sched_inv s \<Longrightarrow> admit r s = Inr (dec, s') \<Longrightarrow> sched_inv s'"
  by (auto simp: admit_def Let_def split: if_splits intro!: sched_inv_add)

lemma cancel_inv: "sched_inv s \<Longrightarrow> sched_inv (snd (cancel sid s))"
proof -
  assume inv: "sched_inv s"
  have nonneg: "list_all (\<lambda>(sid, r). 0 \<le> kv_bytes r) (sessions s)"
    using inv by (auto simp: sched_inv_def list_all_iff)
  have "list_all P (dpop sid (sessions s))" if "list_all P (sessions s)" for P
    using that dpop_set_subset[of sid "sessions s"] by (auto simp: list_all_iff)
  then show ?thesis
    using inv dpop_used[OF nonneg, of sid] dpop_length[of sid "sessions s"]
    by (auto simp: cancel_def sched_inv_def used_bytes_def dpop_dict_ok)
qed

lemma sched_step_inv: "sched_inv s \<Longrightarrow> sched_inv (sched_step op s)"
  by (cases op) (auto split: sum.splits prod.splits dest: admit_inv intro: cancel_inv)

lemma new_scheduler_inv: "new_scheduler m k n e = Inr s \<Longrightarrow> sched_inv s"
  by (auto simp: new_scheduler_def sched_inv_def used_bytes_def split: if_splits)

lemma sched_step_budgets:
  "memory_budget_bytes (sched_step op s) = memory_budget_bytes s
   \<and> kv_budget_bytes (sched_step op s) = kv_budget_bytes s \<and> max_sessions (sched_step op s) = max_sessions s"
  by (cases op) (auto simp: admit_def cancel_def Let_def split: sum.splits if_splits)

lemma fold_sched_budgets:
  "memory_budget_bytes (fold sched_step ops s) = memory_budget_bytes s
   \<and> kv_budget_bytes (fold sched_step ops s) = kv_budget_bytes s
   \<and> max_sessions (fold sched_step ops s) = max_sessions s"
  by (induction ops arbitrary: s) (simp_all add: sched_step_budgets)

interpretation sched: machine "\<lambda>s. \<exists>m k n e. new_scheduler m k n e = Inr s" sched_step sched_inv
  by unfold_locales (auto intro: sched_step_inv new_scheduler_inv)

text \<open>
  C6: however admissions and cancellations interleave, the admitted sessions never hold more
  KV bytes than either budget, never exceed the session limit, and are pairwise distinct.
\<close>

theorem budgets_never_exceeded:
  assumes "new_scheduler m k n e = Inr s0"
  shows "let s = fold sched_step ops s0 in
     used_bytes s \<le> k \<and> used_bytes s \<le> m \<and> int (length (sessions s)) \<le> n \<and> distinct (dkeys (sessions s))"
proof -
  have "sched_inv (fold sched_step ops s0)" using sched.reach_inv assms by blast
  moreover have "kv_budget_bytes s0 = k" "memory_budget_bytes s0 = m" "max_sessions s0 = n"
    using assms by (auto simp: new_scheduler_def split: if_splits)
  ultimately show ?thesis
    using fold_sched_budgets[of ops s0] by (auto simp: sched_inv_def dict_ok_def Let_def)
qed

definition demo_session :: "string \<Rightarrow> int \<Rightarrow> int \<Rightarrow> session_request" where
  "demo_session sid kv prio = \<lparr>session_id = sid, kv_bytes = kv, model_id = ''m'', template_hash = ''t'', priority = prio\<rparr>"

theorem budgets_never_exceeded_witness:
  "\<exists>s0. new_scheduler 100 80 2 [] = Inr s0 \<and>
     (let s = fold sched_step [Admit (demo_session ''a'' 50 0), Admit (demo_session ''b'' 40 0)] s0
      in used_bytes s = 50 \<and> used_bytes s \<le> 80)"
proof -
  obtain s0 where s0: "new_scheduler 100 80 2 [] = Inr s0" by (simp add: new_scheduler_def)
  have "used_bytes (fold sched_step [Admit (demo_session ''a'' 50 0), Admit (demo_session ''b'' 40 0)] s0) = 50"
    using s0 by (auto simp: new_scheduler_def admit_def used_bytes_def demo_session_def Let_def)
  then show ?thesis
    using budgets_never_exceeded[OF s0, of "[Admit (demo_session ''a'' 50 0), Admit (demo_session ''b'' 40 0)]"] s0
    by (auto simp: Let_def)
qed

section \<open>Admission and batches\<close>

text \<open>
  Admission is exact: a new, valid session is admitted if and only if a slot is free and both
  budgets still hold its KV bytes; otherwise nothing changes and a retry delay is given.
\<close>

theorem admit_exact:
  assumes "session_id r \<noteq> []" and "0 \<le> kv_bytes r" and "session_id r \<notin> set (dkeys (sessions s))"
  shows "\<exists>d s'. admit r s = Inr (d, s') \<and>
     (if int (length (sessions s)) < max_sessions s \<and> used_bytes s + kv_bytes r \<le> kv_budget_bytes s
         \<and> used_bytes s + kv_bytes r \<le> memory_budget_bytes s
      then accepted d \<and> map_of (sessions s') = (map_of (sessions s))(session_id r \<mapsto> r)
        \<and> used_bytes s' = used_bytes s + kv_bytes r
      else \<not> accepted d \<and> retry_after_ms d \<noteq> None \<and> s' = s)"
  using assms by (auto simp: admit_def Let_def used_dput map_of_dput)

theorem admit_exact_witness:
  "\<exists>d s'. admit (demo_session ''b'' 40 0) \<lparr>memory_budget_bytes = 100, kv_budget_bytes = 80, max_sessions = 2,
       batch_evidence = [], sessions = [(''a'', demo_session ''a'' 50 0)]\<rparr> = Inr (d, s') \<and> \<not> accepted d"
proof -
  let ?s = "\<lparr>memory_budget_bytes = 100, kv_budget_bytes = 80, max_sessions = 2,
       batch_evidence = [], sessions = [(''a'', demo_session ''a'' 50 0)]\<rparr>"
  have "session_id (demo_session ''b'' 40 0) \<noteq> []" "0 \<le> kv_bytes (demo_session ''b'' 40 0)"
    "session_id (demo_session ''b'' 40 0) \<notin> set (dkeys (sessions ?s))"
    by (simp_all add: demo_session_def)
  from admit_exact[OF this] show ?thesis by (auto simp: used_bytes_def demo_session_def)
qed

lemma form_batch_unknown: "\<exists>sid \<in> set ids. sid \<notin> set (dkeys (sessions s)) \<Longrightarrow> form_batch ids s = []"
  by (auto simp: form_batch_def list_ex_iff)

text \<open>
  A batch holds only requested, admitted sessions; it is empty, the first session, or all of
  them, and a batch of all is ordered by descending priority with ties broken by id.
\<close>

theorem form_batch_sound:
  "let b = form_batch ids s in
     set b \<subseteq> set ids \<inter> set (dkeys (sessions s))
     \<and> (b = [] \<or> b = take 1 ids \<or> mset b = mset ids \<and> sorted (List.map (batch_key s) b))"
  by (auto simp: form_batch_def Let_def list_ex_iff dest: in_set_takeD)

end
