(* ===== verification/Sha256.thy ===== *)
theory Sha256
  imports Bytes Py_Base
begin

text \<open>
  \<open>hashlib.sha256(data)\<close> (FIPS 180-4): the padded message in blocks of 64 bytes, the message
  schedule and the 64 rounds, and \<open>hexdigest()\<close>.
\<close>

unbundle bit_operations_syntax

type_synonym w32 = "32 word"

definition K256 :: "w32 list" where
  "K256 = [
     1116352408, 1899447441, 3049323471, 3921009573, 961987163, 1508970993, 2453635748, 2870763221,
     3624381080, 310598401, 607225278, 1426881987, 1925078388, 2162078206, 2614888103, 3248222580,
     3835390401, 4022224774, 264347078, 604807628, 770255983, 1249150122, 1555081692, 1996064986,
     2554220882, 2821834349, 2952996808, 3210313671, 3336571891, 3584528711, 113926993, 338241895,
     666307205, 773529912, 1294757372, 1396182291, 1695183700, 1986661051, 2177026350, 2456956037,
     2730485921, 2820302411, 3259730800, 3345764771, 3516065817, 3600352804, 4094571909, 275423344,
     430227734, 506948616, 659060556, 883997877, 958139571, 1322822218, 1537002063, 1747873779,
     1955562222, 2024104815, 2227730452, 2361852424, 2428436474, 2756734187, 3204031479, 3329325298]"

definition H256 :: "w32 list" where
  "H256 = [1779033703, 3144134277, 1013904242, 2773480762, 1359893119, 2600822924, 528734635, 1541459225]"

definition rotr :: "nat \<Rightarrow> w32 \<Rightarrow> w32" where
  "rotr n w = drop_bit n w OR push_bit (32 - n) w"

fun words_be :: "byte list \<Rightarrow> w32 list" where
  "words_be (a # b # c # d # bs) =
     (push_bit 24 (ucast a) OR push_bit 16 (ucast b) OR push_bit 8 (ucast c) OR ucast d) # words_be bs"
| "words_be _ = []"

definition sha_pad :: "byte list \<Rightarrow> byte list" where
  "sha_pad m = m @ [0x80] @ replicate ((119 - length m mod 64) mod 64) 0 @ be 8 (8 * length m)"

text \<open>The schedule, newest word first: \<open>w\<^sub>t = s1(w\<^sub>t\<^sub>-\<^sub>2) + w\<^sub>t\<^sub>-\<^sub>7 + s0(w\<^sub>t\<^sub>-\<^sub>1\<^sub>5) + w\<^sub>t\<^sub>-\<^sub>1\<^sub>6\<close>.\<close>

fun schedule :: "nat \<Rightarrow> w32 list \<Rightarrow> w32 list" where
  "schedule 0 ws = ws"
| "schedule (Suc n) ws =
     (let s0 = (let x = ws ! 14 in rotr 7 x XOR rotr 18 x XOR drop_bit 3 x);
          s1 = (let x = ws ! 1 in rotr 17 x XOR rotr 19 x XOR drop_bit 10 x)
      in schedule n ((s1 + ws ! 6 + s0 + ws ! 15) # ws))"

fun sha_round :: "w32 list \<Rightarrow> w32 \<times> w32 \<Rightarrow> w32 list" where
  "sha_round [a, b, c, d, e, f, g, h] (k, w) =
     (let S1 = rotr 6 e XOR rotr 11 e XOR rotr 25 e;
          ch = (e AND f) XOR (NOT e AND g);
          t1 = h + S1 + ch + k + w;
          S0 = rotr 2 a XOR rotr 13 a XOR rotr 22 a;
          maj = (a AND b) XOR (a AND c) XOR (b AND c)
      in [t1 + (S0 + maj), a, b, c, d + t1, e, f, g])"
| "sha_round s _ = s"

definition sha_block :: "w32 list \<Rightarrow> w32 list \<Rightarrow> w32 list" where
  "sha_block hs ws = map2 (+) hs (foldl sha_round hs (zip K256 (rev (schedule 48 (rev ws)))))"

fun sha_blocks :: "w32 list \<Rightarrow> w32 list \<Rightarrow> w32 list" where
  "sha_blocks hs [] = hs"
| "sha_blocks hs (w # ws) = sha_blocks (sha_block hs (take 16 (w # ws))) (drop 15 ws)"

definition bytes_of_w32 :: "w32 \<Rightarrow> byte list" where
  "bytes_of_w32 w = [ucast (drop_bit 24 w), ucast (drop_bit 16 w), ucast (drop_bit 8 w), ucast w]"

definition sha256 :: "byte list \<Rightarrow> byte list" where
  "sha256 m = concat (List.map bytes_of_w32 (sha_blocks H256 (words_be (sha_pad m))))"

definition hex_alphabet :: string where
  "hex_alphabet = ''0123456789abcdef''"

definition hex_digit :: "nat \<Rightarrow> char" where
  "hex_digit n = hex_alphabet ! n"

definition hex :: "byte list \<Rightarrow> string" where
  "hex bs = concat (List.map (\<lambda>b. [hex_digit (unat b div 16), hex_digit (unat b mod 16)]) bs)"

definition sha256_hex :: "byte list \<Rightarrow> string" where
  "sha256_hex m = hex (sha256 m)"

text \<open>The bytes of a text of code points below 128, and of any text in UTF-8.\<close>

definition ascii_bytes :: "string \<Rightarrow> byte list" where
  "ascii_bytes s = List.map of_char s"

definition utf8_bytes :: "string \<Rightarrow> byte list" where
  "utf8_bytes s = (case utf8_encode (List.map of_char s) of Some bs \<Rightarrow> bs | None \<Rightarrow> [])"

section \<open>Shape of a digest\<close>

lemma sha_round_length: "length s = 8 \<Longrightarrow> length (sha_round s kw) = 8"
  by (induction s kw rule: sha_round.induct) (simp_all add: Let_def)

lemma foldl_sha_round_length: "length s = 8 \<Longrightarrow> length (foldl sha_round s kws) = 8"
  by (induction kws arbitrary: s) (simp_all add: sha_round_length)

lemma sha_blocks_length: "length hs = 8 \<Longrightarrow> length (sha_blocks hs ws) = 8"
  by (induction hs ws rule: sha_blocks.induct) (simp_all add: sha_block_def foldl_sha_round_length)

lemma sha256_length [simp]: "length (sha256 m) = 32"
  by (simp add: sha256_def bytes_of_w32_def length_concat comp_def sum_list_triv sha_blocks_length H256_def)

lemma hex_length [simp]: "length (hex bs) = 2 * length bs"
  by (induction bs) (simp_all add: hex_def)

lemma sha256_hex_length [simp]: "length (sha256_hex m) = 64"
  by (simp add: sha256_hex_def)

lemma hex_digit_range: "n < 16 \<Longrightarrow> hex_digit n \<in> set hex_alphabet"
  unfolding hex_digit_def by (rule nth_mem) (simp add: hex_alphabet_def)

lemma hex_digits: "set (hex bs) \<subseteq> set hex_alphabet"
proof -
  have "hex_digit (unat b div 16) \<in> set hex_alphabet" "hex_digit (unat b mod 16) \<in> set hex_alphabet"
    for b :: byte
    using unsigned_less[of b, where ?'a = nat] by (auto intro!: hex_digit_range)
  then show ?thesis by (auto simp: hex_def)
qed

lemma sha256_hex_digits: "set (sha256_hex m) \<subseteq> set hex_alphabet"
  by (simp add: sha256_hex_def hex_digits)

end
