(* ===== verification/Py_Json.thy ===== *)
theory Py_Json
  imports Sha256
begin

text \<open>
  \<open>json.dumps\<close> as the data plane calls it: strings escaped to ASCII (code points below 256),
  integers in decimal, floats by \<open>repr\<close> (the shortest decimal that reads back), containers with
  the given separators, keys sorted when \<open>sort_keys\<close> is set.  \<open>canonical_json\<close> is the compact
  sorted form whose SHA-256 the identities are made of.
\<close>

section \<open>Strings\<close>

definition hex4 :: "nat \<Rightarrow> string" where
  "hex4 n = [hex_digit (n div 4096 mod 16), hex_digit (n div 256 mod 16), hex_digit (n div 16 mod 16), hex_digit (n mod 16)]"

definition short_escapes :: "(nat \<times> char) list" where
  "short_escapes = [(34, CHR 0x22), (92, CHR 0x5C), (10, CHR ''n''), (13, CHR ''r''), (9, CHR ''t''),
     (12, CHR ''f''), (8, CHR ''b'')]"

definition json_char :: "char \<Rightarrow> string" where
  "json_char c = (let n = of_char c in case map_of short_escapes n of
       Some e \<Rightarrow> [CHR 0x5C, e]
     | None \<Rightarrow> if n < 32 \<or> 126 < n then CHR 0x5C # CHR ''u'' # hex4 n else [c])"

definition json_char_raw :: "char \<Rightarrow> string" where
  "json_char_raw c = (if (of_char c :: int) < 127 \<or> map_of short_escapes (of_char c) \<noteq> None then json_char c else [c])"

definition json_str :: "string \<Rightarrow> string" where
  "json_str s = CHR 0x22 # concat (List.map json_char s) @ [CHR 0x22]"

text \<open>With \<open>ensure_ascii=False\<close> only quotes, backslashes and control characters are escaped.\<close>

definition json_str_raw :: "string \<Rightarrow> string" where
  "json_str_raw s = CHR 0x22 # concat (List.map json_char_raw s) @ [CHR 0x22]"

section \<open>Numbers\<close>

definition ilog10 :: "int \<Rightarrow> int \<Rightarrow> int" where
  "ilog10 p q = (let e = int (length (digits_of_nat (nat p))) - int (length (digits_of_nat (nat q)))
     in if (if 0 \<le> e then q * 10 ^ nat e \<le> p else q \<le> p * 10 ^ nat (- e)) then e else e - 1)"

definition pow10 :: "int \<Rightarrow> rat" where
  "pow10 k = (if 0 \<le> k then 10 ^ nat k else 1 / 10 ^ nat (- k))"

text \<open>\<open>r\<close> rounded to \<open>n\<close> significant digits (half to even), as an integer times \<open>10 ^ k\<close>.\<close>

definition round_digits :: "nat \<Rightarrow> rat \<Rightarrow> int \<times> int" where
  "round_digits n r = (let (p, q) = quotient_of r; k = ilog10 p q - int n + 1;
     (a, b) = (if 0 \<le> k then (p, q * 10 ^ nat k) else (p * 10 ^ nat (- k), q)) in (round_div a b, k))"

fun shortest :: "nat list \<Rightarrow> rat \<Rightarrow> int \<times> int" where
  "shortest [] r = round_digits 17 r"
| "shortest (n # ns) r = (let (m, k) = round_digits n r in
     if fl (of_int m * pow10 k) = Fin r then (m, k) else shortest ns r)"

definition strip_zeros :: "string \<Rightarrow> string" where
  "strip_zeros s = rev (dropWhile (\<lambda>c. c = CHR ''0'') (rev s))"

definition exp_text :: "int \<Rightarrow> string" where
  "exp_text e = (if e < 0 then ''-'' else ''+'')
     @ (if \<bar>e\<bar> < 10 then ''0'' else []) @ digits_of_nat (nat \<bar>e\<bar>)"

definition repr_pos :: "rat \<Rightarrow> string" where
  "repr_pos r = (let (m, k) = shortest [1..<17] r; raw = digits_of_nat (nat m);
     pt = int (length raw) + k; ds = strip_zeros raw; n = int (length ds) in
     if - 4 < pt \<and> pt \<le> 16 then
       (if pt \<le> 0 then ''0.'' @ replicate (nat (- pt)) CHR ''0'' @ ds
        else if n \<le> pt then ds @ replicate (nat (pt - n)) CHR ''0'' @ ''.0''
        else take (nat pt) ds @ ''.'' @ drop (nat pt) ds)
     else take 1 ds @ (if n = 1 then [] else CHR ''.'' # drop 1 ds) @ ''e'' @ exp_text (pt - 1))"

text \<open>The text \<open>json.dumps\<close> gives a float.\<close>

fun float_json :: "pyfloat \<Rightarrow> string" where
  "float_json NaN = ''NaN''"
| "float_json PosInf = ''Infinity''"
| "float_json NegInf = ''-Infinity''"
| "float_json (Fin r) = (if r = 0 then ''0.0'' else if r < 0 then ''-'' @ repr_pos (- r) else repr_pos r)"

text \<open>\<open>format(x, ".<n>g")\<close> of a positive number: \<open>n\<close> significant digits without trailing zeros.\<close>

definition general_pos :: "nat \<Rightarrow> rat \<Rightarrow> string" where
  "general_pos n r = (let (m, k) = round_digits n r; raw = digits_of_nat (nat m);
     pt = int (length raw) + k; ds = strip_zeros raw; l = int (length ds) in
     if - 4 < pt \<and> pt \<le> int n then
       (if pt \<le> 0 then ''0.'' @ replicate (nat (- pt)) CHR ''0'' @ ds
        else if l \<le> pt then ds @ replicate (nat (pt - l)) CHR ''0''
        else take (nat pt) ds @ ''.'' @ drop (nat pt) ds)
     else take 1 ds @ (if l = 1 then [] else CHR ''.'' # drop 1 ds) @ ''e'' @ exp_text (pt - 1))"

fun general :: "nat \<Rightarrow> pyfloat \<Rightarrow> string" where
  "general n NaN = ''nan''"
| "general n PosInf = ''inf''"
| "general n NegInf = ''-inf''"
| "general n (Fin r) = (if r = 0 then ''0'' else if r < 0 then ''-'' @ general_pos n (- r) else general_pos n r)"

section \<open>Values\<close>

definition sort_items :: "(string \<times> 'a) list \<Rightarrow> (string \<times> 'a) list" where
  "sort_items d = sort_key fst d"

lemma set_sort_items [simp]: "set (sort_items d) = set d"
  by (simp add: sort_items_def)

lemma pyval_size_list: "x \<in> set xs \<Longrightarrow> size x < Suc (size_list size xs)" for x :: pyval
  by (simp add: size_list_estimation' less_Suc_eq_le)

lemma pyval_size_dict:
  "(k, x) \<in> set d \<Longrightarrow> size x < Suc (size_list (size_prod (\<lambda>x. 0) size) d)" for x :: pyval
  using size_list_estimation'[of "(k, x)" d "size x" "size_prod (\<lambda>x. 0) size"] by auto

function json_dumps :: "(string \<Rightarrow> string) \<Rightarrow> string \<Rightarrow> string \<Rightarrow> bool \<Rightarrow> pyval \<Rightarrow> string" where
  "json_dumps esc isep ksep sorted_keys v = (case v of
      PyNone \<Rightarrow> ''null''
    | PyBool b \<Rightarrow> if b then ''true'' else ''false''
    | PyInt n \<Rightarrow> str_of_int n
    | PyFloat x \<Rightarrow> float_json x
    | PyStr s \<Rightarrow> esc s
    | PyList xs \<Rightarrow> ''['' @ str_join isep (List.map (\<lambda>x. json_dumps esc isep ksep sorted_keys x) xs) @ '']''
    | PyDict d \<Rightarrow> [CHR 0x7B] @ str_join isep
        (List.map (\<lambda>kv. esc (fst kv) @ ksep @ json_dumps esc isep ksep sorted_keys (snd kv))
           (if sorted_keys then sort_items d else d)) @ [CHR 0x7D])"
  by pat_completeness auto
termination
  by (relation "measure (\<lambda>(e, i, k, s, v). size v)")
     (auto simp: pyval_size_list pyval_size_dict split: if_splits)

declare json_dumps.simps [simp del]

text \<open>\<open>json.dumps(v, sort_keys=True, separators=(",", ":"))\<close>, and the digest of its bytes.\<close>

definition canonical_json :: "pyval \<Rightarrow> string" where
  "canonical_json v = json_dumps json_str '','' '':'' True v"

definition json_digest :: "pyval \<Rightarrow> string" where
  "json_digest v = sha256_hex (ascii_bytes (canonical_json v))"

text \<open>\<open>json.dumps(v, sort_keys=True, separators=(",", ":"), ensure_ascii=False)\<close>, in UTF-8.\<close>

definition unicode_json :: "pyval \<Rightarrow> string" where
  "unicode_json v = json_dumps json_str_raw '','' '':'' True v"

definition unicode_digest :: "pyval \<Rightarrow> string" where
  "unicode_digest v = sha256_hex (utf8_bytes (unicode_json v))"

section \<open>str and repr\<close>

text \<open>The quotes and escapes of \<open>repr(s)\<close>.\<close>

definition hex2 :: "nat \<Rightarrow> string" where
  "hex2 n = [hex_digit (n div 16 mod 16), hex_digit (n mod 16)]"

definition repr_char :: "char \<Rightarrow> char \<Rightarrow> string" where
  "repr_char q c = (let n = of_char c :: int in
     if c = q \<or> n = 92 then [CHR 0x5C, c]
     else if n = 10 then [CHR 0x5C, CHR ''n''] else if n = 13 then [CHR 0x5C, CHR ''r'']
     else if n = 9 then [CHR 0x5C, CHR ''t'']
     else if n < 32 \<or> (127 \<le> n \<and> n \<le> 160) \<or> n = 173 then CHR 0x5C # CHR ''x'' # hex2 (of_char c)
     else [c])"

definition repr_str :: "string \<Rightarrow> string" where
  "repr_str s = (let q = (if CHR 0x27 \<in> set s \<and> CHR 0x22 \<notin> set s then CHR 0x22 else CHR 0x27)
     in q # concat (List.map (repr_char q) s) @ [q])"

fun float_repr :: "pyfloat \<Rightarrow> string" where
  "float_repr NaN = ''nan''"
| "float_repr PosInf = ''inf''"
| "float_repr NegInf = ''-inf''"
| "float_repr x = float_json x"

function py_repr :: "pyval \<Rightarrow> string" where
  "py_repr v = (case v of
      PyNone \<Rightarrow> ''None''
    | PyBool b \<Rightarrow> if b then ''True'' else ''False''
    | PyInt n \<Rightarrow> str_of_int n
    | PyFloat x \<Rightarrow> float_repr x
    | PyStr s \<Rightarrow> repr_str s
    | PyList xs \<Rightarrow> ''['' @ str_join '', '' (List.map py_repr xs) @ '']''
    | PyDict d \<Rightarrow> [CHR 0x7B] @ str_join '', ''
        (List.map (\<lambda>kv. repr_str (fst kv) @ '': '' @ py_repr (snd kv)) d) @ [CHR 0x7D])"
  by pat_completeness auto
termination
  by (relation "measure size") (auto simp: pyval_size_list pyval_size_dict)

declare py_repr.simps [simp del]

text \<open>\<open>str(v)\<close>.\<close>

fun py_str :: "pyval \<Rightarrow> string" where
  "py_str (PyStr s) = s"
| "py_str v = py_repr v"

section \<open>An escaped string reads back\<close>

lemma of_char_bound: "(of_char c :: nat) < 256"
  using nat_of_char_less_256 by blast

lemma hex_digit_inj: "m < 16 \<Longrightarrow> n < 16 \<Longrightarrow> hex_digit m = hex_digit n \<longleftrightarrow> m = n"
  unfolding hex_digit_def by (rule nth_eq_iff_index_eq) (simp_all add: hex_alphabet_def)

lemma hex4_inj:
  assumes "m < 256" and "n < 256" and "hex4 m = hex4 n"
  shows "m = n"
proof -
  have "m div 16 mod 16 = n div 16 mod 16" "m mod 16 = n mod 16"
    using assms(3) by (simp_all add: hex4_def hex_digit_inj)
  moreover have "m div 16 < 16" "n div 16 < 16" using assms by auto
  ultimately have "m div 16 = n div 16" "m mod 16 = n mod 16" by simp_all
  then show ?thesis by (metis div_mod_decomp)
qed

lemma short_escapes_inj:
  "map_of short_escapes m = Some e \<Longrightarrow> map_of short_escapes n = Some e \<Longrightarrow> m = n"
  by (auto simp: short_escapes_def split: if_splits)

lemma short_escapes_not_u: "map_of short_escapes m \<noteq> Some (CHR ''u'')"
  by (simp add: short_escapes_def)

lemma plain_not_escape: "map_of short_escapes (of_char c) = None \<Longrightarrow> c \<noteq> CHR 0x5C \<and> c \<noteq> CHR 0x22"
  by (auto simp: short_escapes_def)

text \<open>The three forms of an escape, told apart by their first two characters.\<close>

lemma json_char_cases:
  obtains (short) e where "json_char c = [CHR 0x5C, e]" "map_of short_escapes (of_char c) = Some e"
  | (unicode) "json_char c = CHR 0x5C # CHR ''u'' # hex4 (of_char c)"
  | (plain) "json_char c = [c]" "c \<noteq> CHR 0x5C" "c \<noteq> CHR 0x22"
proof (cases "map_of short_escapes (of_char c)")
  case None
  then show thesis
    using plain unicode plain_not_escape[OF None]
    by (cases "of_char c < (32::nat) \<or> 126 < (of_char c :: nat)") (auto simp: json_char_def Let_def)
next
  case (Some e)
  then show thesis using short by (simp add: json_char_def)
qed

lemma json_char_first: "\<exists>d ds. json_char c = d # ds \<and> d \<noteq> CHR 0x22"
  by (rule json_char_cases[of c]) simp_all

text \<open>No escape is a prefix of another one.\<close>

lemma json_char_prefix:
  assumes eq: "json_char c @ s = json_char d @ t"
  shows "c = d \<and> s = t"
proof (rule json_char_cases[of c]; rule json_char_cases[of d])
  fix e f
  assume "json_char c = [CHR 0x5C, e]" "map_of short_escapes (of_char c) = Some e"
    "json_char d = [CHR 0x5C, f]" "map_of short_escapes (of_char d) = Some f"
  with eq short_escapes_inj show ?thesis by fastforce
next
  assume c: "json_char c = CHR 0x5C # CHR ''u'' # hex4 (of_char c)"
    and d: "json_char d = CHR 0x5C # CHR ''u'' # hex4 (of_char d)"
  have "length (hex4 m) = length (hex4 n)" for m n by (simp add: hex4_def)
  then have "hex4 (of_char c) = hex4 (of_char d)" "s = t"
    using eq c d by (auto simp: append_eq_append_conv)
  then show ?thesis using hex4_inj[OF of_char_bound of_char_bound] by simp
qed (use eq short_escapes_not_u in auto)

lemma json_str_prefix_inj:
  "concat (List.map json_char s) @ CHR 0x22 # u = concat (List.map json_char t) @ CHR 0x22 # v \<Longrightarrow> s = t \<and> u = v"
proof (induction s arbitrary: t)
  case Nil
  then show ?case
  proof (cases t)
    case (Cons c t')
    then show ?thesis using Nil json_char_first[of c] by auto
  qed simp
next
  case (Cons c s)
  show ?case
  proof (cases t)
    case Nil
    then show ?thesis using Cons.prems json_char_first[of c] by auto
  next
    case t: (Cons d t')
    have "json_char c @ (concat (List.map json_char s) @ CHR 0x22 # u)
        = json_char d @ (concat (List.map json_char t') @ CHR 0x22 # v)"
      using Cons.prems t by simp
    from json_char_prefix[OF this] Cons.IH show ?thesis using t by blast
  qed
qed

lemma json_str_inj: "json_str s @ u = json_str t @ v \<longleftrightarrow> s = t \<and> u = v"
  using json_str_prefix_inj[of s u t v] by (auto simp: json_str_def)

lemma json_str_eq_iff [simp]: "json_str s = json_str t \<longleftrightarrow> s = t"
  using json_str_inj[of s "[]" t "[]"] by simp

end
