(* ===== verification/KV_Policy.thy ===== *)
theory KV_Policy
  imports Py_Json
begin

text \<open>
  \<open>local_data_plane/kv_policy.py\<close>: the KV-cache planner, the fair share of a budget between
  sessions, and the identity of a reusable prefix.
\<close>

section \<open>Requests, formats and plans\<close>

record kv_format =
  format_name :: string
  bytes_per_token :: int
  format_device :: string
  quantized :: bool

record kv_request =
  requested_context :: pyval
  minimum_context :: pyval
  full_precision_bytes_per_token :: pyval
  available_bytes :: pyval
  reserved_bytes :: pyval
  request_device :: string
  quantized_bytes_per_token :: "int option"
  quantization_supported :: bool
  paged_supported :: bool
  requested_policy :: string

record kv_plan =
  kv_format :: kv_format
  max_context :: int
  total_bytes :: int
  headroom_bytes :: int
  accepted :: bool
  tier :: string
  eviction :: string
  reason :: string

definition KV_POLICY_SCHEMA_V1 :: string where
  "KV_POLICY_SCHEMA_V1 = ''simplicio-local.kv-policy/v1''"

definition kv_format_dict :: "kv_format \<Rightarrow> pyval" where
  "kv_format_dict f = PyDict [(''name'', PyStr (format_name f)), (''bytes_per_token'', PyInt (bytes_per_token f)),
     (''device'', PyStr (format_device f)), (''quantized'', PyBool (quantized f))]"

definition kv_plan_dict :: "kv_plan \<Rightarrow> (string \<times> pyval) list" where
  "kv_plan_dict p = [(''schema'', PyStr KV_POLICY_SCHEMA_V1), (''format'', kv_format_dict (kv_format p)),
     (''max_context'', PyInt (max_context p)), (''total_bytes'', PyInt (total_bytes p)),
     (''headroom_bytes'', PyInt (headroom_bytes p)), (''accepted'', PyBool (accepted p)),
     (''tier'', PyStr (tier p)), (''eviction'', PyStr (eviction p)), (''reason'', PyStr (reason p))]"

section \<open>Planning\<close>

text \<open>Floor division by a positive divisor is Isabelle's \<open>div\<close>.\<close>

definition kv_context :: "int \<Rightarrow> int \<Rightarrow> kv_format \<Rightarrow> int" where
  "kv_context requested usable f = min requested (usable div max 1 (bytes_per_token f))"

definition kv_select :: "kv_request \<Rightarrow> kv_format list \<Rightarrow> kv_format res" where
  "kv_select r candidates =
     (if requested_policy r = ''quantized'' \<and> 1 < length candidates then Inr (candidates ! 1)
      else if requested_policy r = ''paged'' \<and> paged_supported r
      then Inr \<lparr>format_name = ''paged'', bytes_per_token = int_of_val (full_precision_bytes_per_token r),
                format_device = request_device r, quantized = False\<rparr>
      else if requested_policy r \<notin> {''auto'', ''full_precision'', ''quantized'', ''paged''}
      then Inl (ValueError ''unsupported KV policy'')
      else Inr (candidates ! 0))"

definition kv_candidates :: "kv_request \<Rightarrow> kv_format list" where
  "kv_candidates r =
     \<lparr>format_name = ''full_precision'', bytes_per_token = int_of_val (full_precision_bytes_per_token r),
      format_device = request_device r, quantized = False\<rparr>
     # (case quantized_bytes_per_token r of
          None \<Rightarrow> []
        | Some b \<Rightarrow> if quantization_supported r \<and> b \<noteq> 0
            then [\<lparr>format_name = ''quantized'', bytes_per_token = b, format_device = request_device r,
                   quantized = True\<rparr>] else [])"

definition kv_usable :: "kv_request \<Rightarrow> int" where
  "kv_usable r = max 0 (int_of_val (available_bytes r) - int_of_val (reserved_bytes r))"

text \<open>The format a context is planned with: the selected one, or the quantized one if the full one is too small.\<close>

definition kv_settle :: "kv_request \<Rightarrow> kv_format list \<Rightarrow> kv_format \<Rightarrow> kv_format" where
  "kv_settle r candidates selected =
     (if kv_context (int_of_val (requested_context r)) (kv_usable r) selected < int_of_val (minimum_context r)
         \<and> format_name selected = ''full_precision'' \<and> 1 < length candidates
      then candidates ! 1 else selected)"

definition plan :: "kv_request \<Rightarrow> kv_plan res" where
  "plan r =
     (if list_ex (bad_int 0) [requested_context r, minimum_context r, full_precision_bytes_per_token r,
          available_bytes r, reserved_bytes r]
      then Inl (ValueError ''KV dimensions must be non-negative integers'')
      else if int_of_val (minimum_context r) < 1
          \<or> int_of_val (requested_context r) < int_of_val (minimum_context r)
      then Inl (ValueError ''requested_context must be at least minimum_context'')
      else rbind (kv_select r (kv_candidates r)) (\<lambda>selected.
        let selected = kv_settle r (kv_candidates r) selected;
            context = kv_context (int_of_val (requested_context r)) (kv_usable r) selected;
            accepted = (int_of_val (minimum_context r) \<le> context);
            total = context * bytes_per_token selected
        in Inr \<lparr>kv_format = selected, max_context = if accepted then context else 0,
             total_bytes = if accepted then total else 0,
             headroom_bytes = if accepted then max 0 (kv_usable r - total) else 0,
             accepted = accepted, tier = if accepted then ''hot-device'' else ''unavailable'',
             eviction = if accepted then ''deterministic-oldest-session'' else ''none'',
             reason = (if accepted then ''KV fits reserved budget'' else ''KV minimum context exceeds reserved budget'')
               @ (if quantized selected then ''; quantized format selected with explicit backend support'' else [])\<rparr>))"

definition fair_share :: "int \<Rightarrow> int \<Rightarrow> int list res" where
  "fair_share available sessions =
     (if available < 0 \<or> sessions < 1
      then Inl (ValueError ''available_bytes must be non-negative and sessions positive'')
      else Inr (List.map (\<lambda>i. available div sessions + (if int i < available mod sessions then 1 else 0))
                  [0..<nat sessions]))"

section \<open>Prefix identity\<close>

record prefix_identity =
  model_id :: string
  tokenizer_hash :: string
  chat_template_hash :: string
  generation_identity :: string

definition prefix_dict :: "prefix_identity \<Rightarrow> pyval" where
  "prefix_dict p = PyDict [(''model_id'', PyStr (model_id p)), (''tokenizer_hash'', PyStr (tokenizer_hash p)),
     (''chat_template_hash'', PyStr (chat_template_hash p)), (''generation_identity'', PyStr (generation_identity p))]"

definition prefix_key :: "prefix_identity \<Rightarrow> string" where
  "prefix_key p = json_digest (prefix_dict p)"

definition can_reuse_prefix :: "prefix_identity \<Rightarrow> prefix_identity \<Rightarrow> bool" where
  "can_reuse_prefix existing requested = (prefix_key existing = prefix_key requested)"

section \<open>Properties of plans\<close>

lemma kv_context_fits:
  assumes "0 \<le> usable"
  shows "kv_context n usable f * bytes_per_token f \<le> usable \<or> kv_context n usable f < 0"
proof (cases "0 \<le> bytes_per_token f")
  case True
  have "kv_context n usable f * bytes_per_token f \<le> usable" if "0 \<le> kv_context n usable f"
  proof -
    have "kv_context n usable f * bytes_per_token f \<le> kv_context n usable f * max 1 (bytes_per_token f)"
      using that by (intro mult_left_mono) auto
    also have "\<dots> \<le> (usable div max 1 (bytes_per_token f)) * max 1 (bytes_per_token f)"
      by (intro mult_right_mono) (auto simp: kv_context_def)
    also have "\<dots> \<le> usable" by (simp add: int_div_mult_le)
    finally show ?thesis .
  qed
  then show ?thesis by linarith
next
  case False
  then have "kv_context n usable f * bytes_per_token f \<le> 0" if "0 \<le> kv_context n usable f"
    using that by (simp add: mult_nonneg_nonpos)
  then show ?thesis using assms by linarith
qed

lemma plan_cases:
  assumes "plan r = Inr p"
  obtains sel where "kv_select r (kv_candidates r) = Inr sel" "kv_format p = kv_settle r (kv_candidates r) sel"
    "1 \<le> int_of_val (minimum_context r)" "int_of_val (minimum_context r) \<le> int_of_val (requested_context r)"
    "0 \<le> int_of_val (available_bytes r)" "0 \<le> int_of_val (reserved_bytes r)"
    "accepted p = (int_of_val (minimum_context r)
        \<le> kv_context (int_of_val (requested_context r)) (kv_usable r) (kv_format p))"
    "accepted p \<Longrightarrow> max_context p = kv_context (int_of_val (requested_context r)) (kv_usable r) (kv_format p)"
    "accepted p \<Longrightarrow> total_bytes p = max_context p * bytes_per_token (kv_format p)"
    "accepted p \<Longrightarrow> headroom_bytes p = max 0 (kv_usable r - total_bytes p)"
    "\<not> accepted p \<Longrightarrow> max_context p = 0 \<and> total_bytes p = 0 \<and> headroom_bytes p = 0"
  using assms by (auto simp: plan_def Let_def not_bad_int_le)

text \<open>
  C13: an accepted KV plan gives a context between the minimum and the requested one whose KV
  bytes, with the reserve, fit the available bytes; the headroom is what is left of them.
\<close>

theorem plan_fits_budget:
  assumes "plan r = Inr p" and "accepted p"
  shows "int_of_val (minimum_context r) \<le> max_context p \<and> max_context p \<le> int_of_val (requested_context r)
     \<and> total_bytes p = max_context p * bytes_per_token (kv_format p)
     \<and> total_bytes p \<le> max 0 (int_of_val (available_bytes r) - int_of_val (reserved_bytes r))
     \<and> headroom_bytes p + total_bytes p = max 0 (int_of_val (available_bytes r) - int_of_val (reserved_bytes r))"
proof -
  obtain sel where p: "kv_format p = kv_settle r (kv_candidates r) sel"
      "1 \<le> int_of_val (minimum_context r)"
      "accepted p = (int_of_val (minimum_context r)
        \<le> kv_context (int_of_val (requested_context r)) (kv_usable r) (kv_format p))"
      "max_context p = kv_context (int_of_val (requested_context r)) (kv_usable r) (kv_format p)"
      "total_bytes p = max_context p * bytes_per_token (kv_format p)"
      "headroom_bytes p = max 0 (kv_usable r - total_bytes p)"
    using plan_cases[OF assms(1)] assms(2) by metis
  have u: "0 \<le> kv_usable r" by (simp add: kv_usable_def)
  have lo: "int_of_val (minimum_context r) \<le> max_context p" using p(3,4) assms(2) by simp
  then have "\<not> max_context p < 0" using p(2) by linarith
  then have t: "total_bytes p \<le> kv_usable r"
    using kv_context_fits[OF u, of "int_of_val (requested_context r)" "kv_format p"] by (simp add: p(4,5))
  have hi: "max_context p \<le> int_of_val (requested_context r)" unfolding p(4) kv_context_def by simp
  have h: "headroom_bytes p + total_bytes p = kv_usable r" using t p(6) by linarith
  show ?thesis using lo hi p(5) t h unfolding kv_usable_def by blast
qed

definition demo_kv :: "int \<Rightarrow> string \<Rightarrow> kv_request" where
  "demo_kv available policy = \<lparr>requested_context = PyInt 4096, minimum_context = PyInt 1024,
     full_precision_bytes_per_token = PyInt 100, available_bytes = PyInt available, reserved_bytes = PyInt 1000,
     request_device = ''cuda'', quantized_bytes_per_token = Some 25, quantization_supported = True,
     paged_supported = False, requested_policy = policy\<rparr>"

theorem plan_fits_budget_witness:
  "\<exists>p. plan (demo_kv 101000 ''auto'') = Inr p \<and> format_name (kv_format p) = ''quantized''
     \<and> max_context p = 4000 \<and> total_bytes p \<le> 100000"
proof -
  have "ok_with (plan (demo_kv 101000 ''auto''))
      (\<lambda>p. accepted p \<and> format_name (kv_format p) = ''quantized'' \<and> max_context p = 4000)"
    by code_simp
  then obtain p where p: "plan (demo_kv 101000 ''auto'') = Inr p" "accepted p"
      "format_name (kv_format p) = ''quantized''" "max_context p = 4000"
    by (blast elim: ok_withE)
  with plan_fits_budget[OF p(1,2)] show ?thesis by (auto simp: demo_kv_def)
qed

lemma kv_candidates_hd: "kv_candidates r ! 0 = \<lparr>format_name = ''full_precision'',
    bytes_per_token = int_of_val (full_precision_bytes_per_token r), format_device = request_device r, quantized = False\<rparr>"
  by (simp add: kv_candidates_def)

lemma kv_context_min: "m \<le> n \<Longrightarrow> m \<le> kv_context n u f \<longleftrightarrow> m * max 1 (bytes_per_token f) \<le> u"
proof -
  assume "m \<le> n"
  then have "m \<le> kv_context n u f \<longleftrightarrow> m \<le> u div max 1 (bytes_per_token f)" by (simp add: kv_context_def)
  also have "\<dots> \<longleftrightarrow> m * max 1 (bytes_per_token f) \<le> u"
    by (rule int_le_div_iff) simp
  finally show ?thesis .
qed

text \<open>
  Under the automatic policy a valid request is refused only when no format the backend
  supports holds the minimum context in the bytes left after the reserve.
\<close>

theorem plan_auto_complete:
  assumes "plan r = Inr p" and "requested_policy r = ''auto''"
  shows "accepted p \<longleftrightarrow> (\<exists>f \<in> set (kv_candidates r). int_of_val (minimum_context r) * max 1 (bytes_per_token f) \<le> kv_usable r)"
proof -
  obtain sel where sel: "kv_select r (kv_candidates r) = Inr sel" "kv_format p = kv_settle r (kv_candidates r) sel"
      and le: "int_of_val (minimum_context r) \<le> int_of_val (requested_context r)"
      and acc: "accepted p = (int_of_val (minimum_context r)
        \<le> kv_context (int_of_val (requested_context r)) (kv_usable r) (kv_format p))"
    using plan_cases[OF assms(1)] by metis
  have "sel = kv_candidates r ! 0" using sel(1) assms(2) by (simp add: kv_select_def)
  then have full: "format_name sel = ''full_precision''" "sel = hd (kv_candidates r)"
    by (simp_all add: kv_candidates_def)
  define fits where "fits f = (int_of_val (minimum_context r) * max 1 (bytes_per_token f) \<le> kv_usable r)" for f :: kv_format
  have fits: "int_of_val (minimum_context r)
      \<le> kv_context (int_of_val (requested_context r)) (kv_usable r) f \<longleftrightarrow> fits f" for f
    by (simp add: kv_context_min[OF le] fits_def)
  have two: "kv_candidates r = [sel] \<or> (\<exists>g. kv_candidates r = [sel, g])"
    using full by (auto simp: kv_candidates_def split: option.splits)
  have "fits (kv_settle r (kv_candidates r) sel) \<longleftrightarrow> (\<exists>f \<in> set (kv_candidates r). fits f)"
    using two full(1) by (auto simp: kv_settle_def fits[symmetric] not_less[symmetric])
  then show ?thesis unfolding acc sel(2) fits by (simp add: fits_def)
qed

theorem plan_auto_complete_witness:
  "\<exists>p. plan (demo_kv 10000 ''auto'') = Inr p \<and> \<not> accepted p"
proof -
  have "ok_with (plan (demo_kv 10000 ''auto'')) (\<lambda>p. True)" by code_simp
  then obtain p where p: "plan (demo_kv 10000 ''auto'') = Inr p" by (blast elim: ok_withE)
  have "requested_policy (demo_kv 10000 ''auto'') = ''auto''" by (simp add: demo_kv_def)
  from plan_auto_complete[OF p this] p show ?thesis
    by (auto simp: demo_kv_def kv_candidates_def kv_usable_def)
qed

section \<open>Fair shares\<close>

lemma sum_first_extra:
  "k \<le> n \<Longrightarrow> (\<Sum>i\<leftarrow>[0..<n]. b + (if int i < int k then 1 else 0)) = int n * b + int k"
proof (induction n)
  case (Suc n)
  show ?case
  proof (cases "k \<le> n")
    case True
    with Suc show ?thesis by (simp add: algebra_simps)
  next
    case False
    with Suc.prems have k: "k = Suc n" by simp
    have "(\<Sum>i\<leftarrow>[0..<n]. b + (if int i < int k then 1 else 0)) = (\<Sum>i\<leftarrow>[0..<n]. b + 1)"
      by (rule arg_cong[where f = sum_list]) (auto simp: k)
    then show ?thesis by (simp add: k sum_list_triv algebra_simps)
  qed
qed simp

text \<open>
  The shares of a budget between sessions add up to exactly the budget, there is one per
  session, and no two differ by more than one byte.
\<close>

theorem fair_share_exact:
  assumes "fair_share available sessions = Inr xs"
  shows "sum_list xs = available \<and> int (length xs) = sessions \<and> (\<forall>x \<in> set xs. \<forall>y \<in> set xs. 0 \<le> x \<and> x - y \<le> 1)"
proof -
  have a: "0 \<le> available" "1 \<le> sessions" and xs: "xs = List.map (\<lambda>i. available div sessions
      + (if int i < available mod sessions then 1 else 0)) [0..<nat sessions]"
    using assms by (auto simp: fair_share_def split: if_splits)
  have r: "available mod sessions = int (nat (available mod sessions))" "nat (available mod sessions) \<le> nat sessions"
    using a by (auto simp: nat_mono less_imp_le)
  have "sum_list xs = int (nat sessions) * (available div sessions) + int (nat (available mod sessions))"
    unfolding xs by (subst r(1)) (rule sum_first_extra[OF r(2)])
  then have "sum_list xs = available" using a by simp
  then show ?thesis using a by (auto simp: xs pos_imp_zdiv_nonneg_iff)
qed

theorem fair_share_exact_witness:
  "\<exists>xs. fair_share 10 3 = Inr xs \<and> sum_list xs = 10 \<and> int (length xs) = 3"
proof -
  obtain xs where "fair_share 10 3 = Inr xs" by (simp add: fair_share_def)
  with fair_share_exact[OF this] show ?thesis by blast
qed

section \<open>Prefix identities\<close>

text \<open>
  Two prefix identities have the same canonical payload only if they agree in all four
  fields, so a reused prefix differs from the requested one only by a SHA-256 collision.
\<close>

theorem prefix_payload_injective:
  "canonical_json (prefix_dict p) = canonical_json (prefix_dict q) \<longleftrightarrow> p = q"
  by (cases p; cases q)
     (auto simp: prefix_dict_def canonical_json_def json_dumps.simps sort_items_def json_str_inj)

end
