(* ===== verification/Residency.thy ===== *)
theory Residency
  imports Py_Base
begin

text \<open>
  \<open>local_data_plane/residency.py\<close>: on which device weights, KV cache, scratch and draft live,
  and what is transferred per token.
\<close>

section \<open>Categories and plans\<close>

record residency_category =
  device :: string
  cat_bytes :: int
  invariant_per_token :: bool

record residency_plan =
  backend :: string
  weights :: residency_category
  kv :: residency_category
  scratch :: residency_category
  draft :: residency_category
  accepted :: bool
  transfers_per_token :: int
  transfer_bytes_per_token :: int
  reason :: string
  evidence :: "string list"

record residency_sizes =
  weights_bytes :: pyval
  kv_bytes :: pyval
  scratch_bytes :: pyval
  draft_bytes :: pyval
  device_available_bytes :: pyval
  system_available_bytes :: pyval

definition residency_total :: "residency_sizes \<Rightarrow> int" where
  "residency_total z = int_of_val (weights_bytes z) + int_of_val (kv_bytes z) + int_of_val (scratch_bytes z)
     + int_of_val (draft_bytes z)"

definition target_total :: "residency_sizes \<Rightarrow> int" where
  "target_total z = int_of_val (weights_bytes z) + int_of_val (kv_bytes z) + int_of_val (scratch_bytes z)"

text \<open>A plan with the target categories on one device and the draft on another (or the same) one.\<close>

definition layout :: "string \<Rightarrow> residency_sizes \<Rightarrow> string \<Rightarrow> string \<Rightarrow> bool \<Rightarrow> int \<Rightarrow> int \<Rightarrow> string \<Rightarrow> string list
    \<Rightarrow> residency_plan" where
  "layout be z target_dev draft_dev ok transfers transfer_bytes why ev =
     \<lparr>backend = be,
      weights = \<lparr>device = target_dev, cat_bytes = int_of_val (weights_bytes z), invariant_per_token = True\<rparr>,
      kv = \<lparr>device = target_dev, cat_bytes = int_of_val (kv_bytes z), invariant_per_token = False\<rparr>,
      scratch = \<lparr>device = target_dev, cat_bytes = int_of_val (scratch_bytes z), invariant_per_token = False\<rparr>,
      draft = \<lparr>device = draft_dev, cat_bytes = int_of_val (draft_bytes z), invariant_per_token = False\<rparr>,
      accepted = ok, transfers_per_token = transfers, transfer_bytes_per_token = transfer_bytes,
      reason = why, evidence = ev\<rparr>"

text \<open>\<open>evidence.get("hybrid_throughput_delta", 0) >= 0\<close>.\<close>

definition delta_ok :: "(string \<times> pyval) list \<Rightarrow> bool res" where
  "delta_ok ev = (case py_number (dget_or ev ''hybrid_throughput_delta'' (PyInt 0)) of
      None \<Rightarrow> Inl (TypeError ''not supported between instances'')
    | Some x \<Rightarrow> Inr (fle (Fin 0) x))"

text \<open>A GPU backend whose device cannot hold everything.\<close>

definition gpu_overflow :: "string \<Rightarrow> residency_sizes \<Rightarrow> (string \<times> pyval) list \<Rightarrow> bool \<Rightarrow> residency_plan res" where
  "gpu_overflow be z ev separate_draft =
     (let system = int_of_val (system_available_bytes z); d = int_of_val (draft_bytes z) in
      rbind (if separate_draft \<and> 0 < d \<and> residency_total z \<le> system then delta_ok ev else Inr False) (\<lambda>hybrid.
        if hybrid then
          Inr (layout be z be ''cpu'' True 1 d
                 ''draft moved to CPU after measured non-regressive hybrid evidence'' [''hybrid-break-even'', ''draft-cpu''])
        else if target_total z \<le> system then
          Inr (layout be z ''cpu'' ''cpu'' True 0 0
                 ''device budget or transfer evidence is insufficient; CPU fallback'' [''safe-fallback''])
        else Inr (layout be z ''none'' ''none'' False 0 0
                 ''weights, KV, scratch, and draft exceed all available memory'' [''oom-prevention''])))"

definition plan_residency :: "string \<Rightarrow> residency_sizes \<Rightarrow> (string \<times> pyval) list \<Rightarrow> bool \<Rightarrow> residency_plan res" where
  "plan_residency be z ev separate_draft =
     (if be \<notin> {''cuda'', ''metal'', ''unified'', ''cpu''}
      then Inl (ValueError ''unsupported residency backend'')
      else if list_ex (bad_int 0) [weights_bytes z, kv_bytes z, scratch_bytes z, draft_bytes z,
          device_available_bytes z, system_available_bytes z]
      then Inl (ValueError ''residency sizes must be non-negative integers'')
      else let total = residency_total z; dev = int_of_val (device_available_bytes z);
               system = int_of_val (system_available_bytes z);
               device_ok = (total \<le> dev) in
      if be = ''unified'' then
        Inr (if device_ok then
               layout be z ''unified'' ''unified'' True 0 0
                 ''unified-memory residency avoids artificial CUDA-style copies'' [''unified-memory-policy'']
             else layout be z ''none'' ''none'' False 0 0
                 ''unified-memory pressure exceeds reserved budget'' [''oom-prevention''])
      else if be = ''cpu'' then
        Inr (let ok = (total \<le> system) in layout be z ''cpu'' ''cpu'' ok 0 0
               (if ok then ''CPU-only residency'' else ''CPU memory pressure exceeds budget'') [''cpu-fallback''])
      else if device_ok then
        Inr (layout be z be be True 0 0
               ''all categories fit device headroom; invariant weights stay resident''
               [''device-headroom'', ''no-weight-transfer-per-token''])
      else gpu_overflow be z ev separate_draft)"

section \<open>What an accepted plan guarantees\<close>

text \<open>The bytes a plan puts on a device.\<close>

definition bytes_on :: "string \<Rightarrow> residency_plan \<Rightarrow> int" where
  "bytes_on dev p = sum_list (List.map cat_bytes (filter (\<lambda>c. device c = dev) [weights p, kv p, scratch p, draft p]))"

text \<open>
  \<open>residency_ok be z p\<close>: a plan accepted on one device outside the CPU fallback holds every byte
  within that device; a refused plan names no GPU and its working set exceeds the memory of the
  backend; tokens cost no transfer unless the draft is on another device.
\<close>

definition residency_ok :: "string \<Rightarrow> residency_sizes \<Rightarrow> residency_plan \<Rightarrow> bool" where
  "residency_ok be z p =
     (let room = int_of_val (if be = ''cpu'' then system_available_bytes z else device_available_bytes z) in
      (accepted p \<and> device (draft p) = device (weights p) \<and> evidence p \<noteq> [''safe-fallback'']
         \<longrightarrow> bytes_on (device (weights p)) p \<le> room)
      \<and> (\<not> accepted p \<longrightarrow> device (weights p) \<in> {''none'', ''cpu''} \<and> room < residency_total z)
      \<and> (device (draft p) = device (weights p) \<longrightarrow> transfers_per_token p = 0 \<and> transfer_bytes_per_token p = 0))"

lemma layout_fields [simp]:
  "device (weights (layout be z t d ok n b why ev)) = t" "device (draft (layout be z t d ok n b why ev)) = d"
  "accepted (layout be z t d ok n b why ev) = ok" "evidence (layout be z t d ok n b why ev) = ev"
  "transfers_per_token (layout be z t d ok n b why ev) = n"
  "transfer_bytes_per_token (layout be z t d ok n b why ev) = b"
  by (simp_all add: layout_def)

lemma bytes_on_layout [simp]: "bytes_on t (layout be z t t ok n b why ev) = residency_total z"
  by (simp add: bytes_on_def layout_def residency_total_def)

lemma residency_ok_whole:
  "residency_total z \<le> int_of_val (device_available_bytes z) \<Longrightarrow> be \<noteq> ''cpu'' \<Longrightarrow> residency_ok be z (layout be z t t True 0 0 why ev)"
  by (simp add: residency_ok_def)

lemma residency_ok_cpu:
  "residency_ok ''cpu'' z (layout ''cpu'' z ''cpu'' ''cpu'' (residency_total z \<le> int_of_val (system_available_bytes z)) 0 0 why ev)"
  by (simp add: residency_ok_def)

lemma residency_ok_refused:
  "int_of_val (device_available_bytes z) < residency_total z \<Longrightarrow> be \<noteq> ''cpu'' \<Longrightarrow>
     residency_ok be z (layout be z ''none'' ''none'' False 0 0 why ev)"
  by (simp add: residency_ok_def)

lemma residency_ok_fallback: "residency_ok be z (layout be z ''cpu'' ''cpu'' True 0 0 why [''safe-fallback''])"
  by (simp add: residency_ok_def)

lemma residency_ok_split: "be \<noteq> ''cpu'' \<Longrightarrow> residency_ok be z (layout be z be ''cpu'' True n b why ev)"
  by (simp add: residency_ok_def)

lemmas residency_ok_layout = residency_ok_whole residency_ok_cpu residency_ok_refused residency_ok_fallback residency_ok_split

lemma if_InrE: "(if b then Inr x else r) = Inr p \<Longrightarrow> (p = x \<Longrightarrow> Q) \<Longrightarrow> (r = Inr p \<Longrightarrow> Q) \<Longrightarrow> Q"
  by (metis sum.inject(2))

lemma gpu_overflow_ok:
  assumes "gpu_overflow be z ev sd = Inr p" and "int_of_val (device_available_bytes z) < residency_total z" and "be \<noteq> ''cpu''"
  shows "residency_ok be z p"
proof -
  note ok = residency_ok_layout(3)[OF assms(2,3)] residency_ok_layout(4) residency_ok_layout(5)[OF assms(3)]
  from assms(1) show ?thesis
    unfolding gpu_overflow_def Let_def rbind_eq_Inr
  proof (elim exE conjE)
    fix hybrid assume "(if hybrid then Inr (layout be z be ''cpu'' True 1 (int_of_val (draft_bytes z))
          ''draft moved to CPU after measured non-regressive hybrid evidence'' [''hybrid-break-even'', ''draft-cpu''])
        else if target_total z \<le> int_of_val (system_available_bytes z) then Inr (layout be z ''cpu'' ''cpu'' True 0 0
          ''device budget or transfer evidence is insufficient; CPU fallback'' [''safe-fallback''])
        else Inr (layout be z ''none'' ''none'' False 0 0
          ''weights, KV, scratch, and draft exceed all available memory'' [''oom-prevention''])) = Inr p"
    then show ?thesis by (elim if_InrE) (erule ssubst, rule ok, erule ssubst, rule ok, drule sum.inject(2)[THEN iffD1], erule subst, rule ok)
  qed
qed

text \<open>
  Every plan the residency planner returns is sound in this sense.
\<close>

theorem residency_sound:
  assumes "plan_residency be z ev sd = Inr p"
  shows "residency_ok be z p"
proof (cases "be = ''cpu''")
  case True
  then show ?thesis using assms residency_ok_layout(2) by (auto simp: plan_residency_def Let_def)
next
  case cpu: False
  show ?thesis
  proof (cases "residency_total z \<le> int_of_val (device_available_bytes z)")
    case True
    with assms cpu have "\<exists>t why ev. p = layout be z t t True 0 0 why ev"
      unfolding plan_residency_def Let_def by (simp only: if_True if_False if_Inl_eq_Inr) (auto split: if_splits)
    then show ?thesis using residency_ok_whole[OF True cpu] by (elim exE) (erule ssubst)
  next
    case False
    then have lt: "int_of_val (device_available_bytes z) < residency_total z" by simp
    show ?thesis
    proof (cases "be = ''unified''")
      case True
      have "Inr (layout be z ''none'' ''none'' False 0 0
          ''unified-memory pressure exceeds reserved budget'' [''oom-prevention'']) = (Inr p :: residency_plan res)"
        using assms True lt by (simp add: plan_residency_def)
      then show ?thesis using residency_ok_layout(3)[OF lt cpu] by (metis sum.inject(2))
    next
      case False
      have "gpu_overflow be z ev sd = Inr p"
        using assms False cpu lt by (simp add: plan_residency_def Let_def)
      then show ?thesis by (rule gpu_overflow_ok[OF _ lt cpu])
    qed
  qed
qed

definition demo_sizes :: "int \<Rightarrow> int \<Rightarrow> int \<Rightarrow> int \<Rightarrow> residency_sizes" where
  "demo_sizes w d dev system = \<lparr>weights_bytes = PyInt w, kv_bytes = PyInt 0, scratch_bytes = PyInt 0,
     draft_bytes = PyInt d, device_available_bytes = PyInt dev, system_available_bytes = PyInt system\<rparr>"

theorem residency_sound_witness:
  "\<exists>p. plan_residency ''cuda'' (demo_sizes 6 2 8 0) [] False = Inr p \<and> bytes_on ''cuda'' p \<le> 8"
proof -
  have "ok_with (plan_residency ''cuda'' (demo_sizes 6 2 8 0) [] False)
      (\<lambda>p. accepted p \<and> device (draft p) = ''cuda'' \<and> device (weights p) = ''cuda'' \<and> evidence p \<noteq> [''safe-fallback''])"
    by code_simp
  then obtain p where p: "plan_residency ''cuda'' (demo_sizes 6 2 8 0) [] False = Inr p" "accepted p"
      "device (draft p) = ''cuda''" "device (weights p) = ''cuda''" "evidence p \<noteq> [''safe-fallback'']"
    by (blast elim: ok_withE)
  with residency_sound[OF p(1)] show ?thesis by (simp add: demo_sizes_def residency_ok_def Let_def)
qed

text \<open>
  The CPU fallback of a GPU backend is accepted with more bytes on the CPU than the system
  has, and the hybrid plan with more bytes on the GPU than the device has.
\<close>

theorem residency_overcommits:
  "(\<exists>p. plan_residency ''cuda'' (demo_sizes 6 6 0 8) [] False = Inr p \<and> accepted p \<and> 8 < bytes_on ''cpu'' p)
   \<and> (\<exists>p. plan_residency ''cuda'' (demo_sizes 20 1 2 64) [] True = Inr p \<and> accepted p \<and> 2 < bytes_on ''cuda'' p)"
proof -
  have "ok_with (plan_residency ''cuda'' (demo_sizes 6 6 0 8) [] False) (\<lambda>p. accepted p \<and> 8 < bytes_on ''cpu'' p)"
    by code_simp
  moreover have "ok_with (plan_residency ''cuda'' (demo_sizes 20 1 2 64) [] True) (\<lambda>p. accepted p \<and> 2 < bytes_on ''cuda'' p)"
    by code_simp
  ultimately show ?thesis by (simp add: ok_with_iff)
qed

end
