(* ===== verification/Memory_Placement.thy ===== *)
theory Memory_Placement
  imports Py_Base
begin

text \<open>
  \<open>local_data_plane/memory_placement.py\<close>: where a target model, its draft, KV cache and working
  set are placed, given a hardware report.  The report is a dictionary of dynamically typed
  values, as are the sizes of the requirements, which \<open>validate\<close> checks.
\<close>

section \<open>Requirements and plans\<close>

record memory_requirements =
  target_bytes :: pyval
  draft_bytes :: pyval
  kv_cache_bytes :: pyval
  working_bytes :: pyval

definition total_bytes :: "memory_requirements \<Rightarrow> int" where
  "total_bytes r = int_of_val (target_bytes r) + int_of_val (draft_bytes r)
     + int_of_val (kv_cache_bytes r) + int_of_val (working_bytes r)"

definition validate :: "memory_requirements \<Rightarrow> unit res" where
  "validate r =
     (if list_ex (bad_int 0) [target_bytes r, draft_bytes r, kv_cache_bytes r, working_bytes r]
      then Inl (ValueError ''memory requirements must be non-negative integers'')
      else if int_of_val (target_bytes r) = 0 then Inl (ValueError ''target_bytes must be positive'')
      else Inr ())"

record memory_observation =
  observed_target :: "int option"
  observed_draft :: "int option"
  observed_kv_cache :: "int option"
  observed_working :: "int option"

definition no_observation :: memory_observation where
  "no_observation = \<lparr>observed_target = None, observed_draft = None, observed_kv_cache = None, observed_working = None\<rparr>"

record placement_plan =
  target_device :: string
  draft_device :: string
  mode :: string
  accepted :: bool
  reason :: string
  usable_memory_bytes :: int
  estimated_total_bytes :: int
  headroom_bytes :: int
  estimated :: memory_requirements
  observed :: memory_observation

section \<open>The planner\<close>

record placement_planner =
  hardware :: "(string \<times> pyval) list"
  reserve_fraction :: pyfloat
  minimum_reserve_bytes :: int

definition positive :: "pyval \<Rightarrow> string \<Rightarrow> int res" where
  "positive v name = (if bad_int 0 v then Inl (ValueError (name @ '' must be a non-negative integer''))
     else Inr (int_of_val v))"

definition new_planner :: "(string \<times> pyval) list \<Rightarrow> pyfloat \<Rightarrow> pyval \<Rightarrow> placement_planner res" where
  "new_planner hw fraction minimum =
     (if \<not> (fle (Fin 0) fraction \<and> flt fraction (lit (9 / 10)))
      then Inl (ValueError ''reserve_fraction must be in [0, 0.9)'')
      else rbind (positive minimum ''minimum_reserve_bytes'') (\<lambda>m.
        Inr \<lparr>hardware = hw, reserve_fraction = fraction, minimum_reserve_bytes = m\<rparr>))"

definition capacity :: "placement_planner \<Rightarrow> string \<Rightarrow> int res" where
  "capacity p key = positive (dget_or (hardware p) key (PyInt 0)) key"

definition usable :: "placement_planner \<Rightarrow> int \<Rightarrow> int res" where
  "usable p cap = rbind (int_times_float cap (reserve_fraction p)) (\<lambda>share.
     Inr (max 0 (cap - max (minimum_reserve_bytes p) share)))"

definition devices :: "string list" where
  "devices = [''cpu'', ''cuda'', ''metal'', ''unified'']"

text \<open>\<open>str(hardware.get("backend", "cpu")).lower()\<close>; the text of a value that is not a string names no device.\<close>

definition backend_of :: "placement_planner \<Rightarrow> string res" where
  "backend_of p = (case dget_or (hardware p) ''backend'' (PyStr ''cpu'') of
      PyStr s \<Rightarrow> if lower s \<in> set devices then Inr (lower s) else Inl (ValueError (''unsupported backend: '' @ lower s))
    | _ \<Rightarrow> Inl (ValueError ''unsupported backend''))"

text \<open>The decision, once the backend, the system memory and the two usable budgets are known.\<close>

definition place :: "string \<Rightarrow> bool \<Rightarrow> int \<Rightarrow> int \<Rightarrow> memory_requirements \<Rightarrow> memory_observation \<Rightarrow> placement_plan" where
  "place backend separate_draft usable_now system_usable r obs =
     (let total = total_bytes r;
          target_only = int_of_val (target_bytes r) + int_of_val (kv_cache_bytes r) + int_of_val (working_bytes r);
          draft = int_of_val (draft_bytes r) in
      if total \<le> usable_now then
        \<lparr>target_device = backend, draft_device = if draft \<noteq> 0 then backend else ''none'', mode = ''full-device'',
         accepted = True, reason = ''estimated working set fits reserved device memory'',
         usable_memory_bytes = usable_now, estimated_total_bytes = total, headroom_bytes = usable_now - total,
         estimated = r, observed = obs\<rparr>
      else if backend \<in> {''cuda'', ''metal''} \<and> separate_draft \<and> total \<le> system_usable then
        \<lparr>target_device = backend, draft_device = ''cpu'', mode = ''hybrid-target-device-draft-cpu'',
         accepted = True, reason = ''draft moved to CPU after device budget check'',
         usable_memory_bytes = system_usable, estimated_total_bytes = total, headroom_bytes = system_usable - total,
         estimated = r, observed = obs\<rparr>
      else if target_only \<le> system_usable then
        \<lparr>target_device = ''cpu'', draft_device = if draft \<noteq> 0 then ''cpu'' else ''none'', mode = ''cpu-fallback'',
         accepted = True, reason = ''device budget is insufficient; CPU working set fits'',
         usable_memory_bytes = system_usable, estimated_total_bytes = total, headroom_bytes = system_usable - target_only,
         estimated = r, observed = obs\<rparr>
      else
        \<lparr>target_device = ''none'', draft_device = ''none'', mode = ''rejected'', accepted = False,
         reason = ''target, draft, KV cache, and headroom exceed every available placement'',
         usable_memory_bytes = max usable_now system_usable, estimated_total_bytes = total, headroom_bytes = 0,
         estimated = r, observed = obs\<rparr>)"

definition plan :: "placement_planner \<Rightarrow> memory_requirements \<Rightarrow> memory_observation option \<Rightarrow> placement_plan res" where
  "plan p r obs =
     rbind (validate r) (\<lambda>_.
     rbind (backend_of p) (\<lambda>backend.
     rbind (or_res (capacity p ''available_system_bytes'') (capacity p ''system_memory_bytes'')) (\<lambda>system.
     rbind (or_res (capacity p ''available_gpu_bytes'') (capacity p ''gpu_memory_bytes'')) (\<lambda>gpu.
     rbind (or_res (capacity p ''available_unified_bytes'') (capacity p ''unified_memory_bytes'')) (\<lambda>unified.
     let cap = (if backend = ''unified'' then or_int unified system
                else if backend \<in> {''cuda'', ''metal''} then gpu else system) in
     rbind (usable p cap) (\<lambda>u.
     rbind (if total_bytes r \<le> u then Inr 0 else usable p system) (\<lambda>su.
       Inr (place backend (truthy (dget_or (hardware p) ''separate_draft_device_supported'' (PyBool False))) u su r
              (case obs of None \<Rightarrow> no_observation | Some ob \<Rightarrow> ob)))))))))"

text \<open>\<open>plan_memory_placement\<close>: the default reserve of 15 percent, at least 512 MiB.\<close>

definition minimum_reserve :: int where
  "minimum_reserve = 512 * 1024 * 1024"

definition plan_memory_placement ::
    "(string \<times> pyval) list \<Rightarrow> memory_requirements \<Rightarrow> memory_observation option \<Rightarrow> placement_plan res" where
  "plan_memory_placement hw r obs =
     rbind (new_planner hw (lit (15 / 100)) (PyInt minimum_reserve)) (\<lambda>p. plan p r obs)"

section \<open>Soundness and completeness of the decision\<close>

lemma validate_ok:
  "validate r = Inr u \<Longrightarrow> 0 < int_of_val (target_bytes r) \<and> 0 \<le> int_of_val (draft_bytes r)
     \<and> 0 \<le> int_of_val (kv_cache_bytes r) \<and> 0 \<le> int_of_val (working_bytes r)"
  using not_bad_int_le[of 0] by (auto simp: validate_def order_less_le split: if_splits)

text \<open>What the hardware reports: the memory of the device a backend runs on, and what of it the reserve leaves.\<close>

definition reported :: "placement_planner \<Rightarrow> string \<Rightarrow> string \<Rightarrow> int" where
  "reported p available whole = (let a = int_of_val (dget_or (hardware p) available (PyInt 0)) in
     if a \<noteq> 0 then a else int_of_val (dget_or (hardware p) whole (PyInt 0)))"

definition system_memory :: "placement_planner \<Rightarrow> int" where
  "system_memory p = reported p ''available_system_bytes'' ''system_memory_bytes''"

definition device_memory :: "placement_planner \<Rightarrow> string \<Rightarrow> int" where
  "device_memory p backend =
     (let gpu = reported p ''available_gpu_bytes'' ''gpu_memory_bytes'';
          unified = reported p ''available_unified_bytes'' ''unified_memory_bytes'' in
      if backend = ''unified'' then (if unified \<noteq> 0 then unified else system_memory p)
      else if backend = ''cuda'' \<or> backend = ''metal'' then gpu else system_memory p)"

definition left_by_reserve :: "placement_planner \<Rightarrow> int \<Rightarrow> int \<Rightarrow> bool" where
  "left_by_reserve p memory u \<longleftrightarrow>
     (\<exists>share. int_times_float memory (reserve_fraction p) = Inr share \<and> u = memory - max (minimum_reserve_bytes p) share)"

lemma capacity_or:
  "or_res (capacity p a) (capacity p b) = Inr c \<Longrightarrow> c = reported p a b"
  by (auto simp: or_res_def capacity_def positive_def reported_def Let_def split: if_splits sum.splits)

lemma usable_left: "usable p c = Inr u \<Longrightarrow> 0 < u \<Longrightarrow> left_by_reserve p c u"
  by (auto simp: usable_def left_by_reserve_def max_def split: if_splits)

lemma placement_cases:
  assumes "plan p r obs = Inr pl"
  obtains backend draft u su ob where "validate r = Inr ()" "backend_of p = Inr backend" "usable p (device_memory p backend) = Inr u"
    "total_bytes r \<le> u \<or> usable p (system_memory p) = Inr su" "pl = place backend draft u su r ob"
proof -
  from assms obtain x backend system gpu unified u su draft ob where
    v: "validate r = Inr x" and b: "backend_of p = Inr backend"
    and m: "or_res (capacity p ''available_system_bytes'') (capacity p ''system_memory_bytes'') = Inr system"
      "or_res (capacity p ''available_gpu_bytes'') (capacity p ''gpu_memory_bytes'') = Inr gpu"
      "or_res (capacity p ''available_unified_bytes'') (capacity p ''unified_memory_bytes'') = Inr unified"
    and u: "usable p (if backend = ''unified'' then or_int unified system else if backend \<in> {''cuda'', ''metal''} then gpu else system) = Inr u"
    and su: "(if total_bytes r \<le> u then Inr 0 else usable p system) = Inr su" and pl: "Inr (place backend draft u su r ob) = Inr pl"
    unfolding plan_def Let_def rbind_eq_Inr by (elim exE conjE) blast
  note c = m[THEN capacity_or]
  have "(if backend = ''unified'' then or_int unified system else if backend \<in> {''cuda'', ''metal''} then gpu else system)
      = device_memory p backend"
    by (simp add: device_memory_def Let_def system_memory_def or_int_def c)
  then have u': "usable p (device_memory p backend) = Inr u" using u by simp
  have "total_bytes r \<le> u \<or> usable p (system_memory p) = Inr su" using su by (auto simp: system_memory_def c split: if_splits)
  then show thesis using that[of backend u su draft ob] v b u' pl by simp
qed

text \<open>
  C21: a plan is in one of four modes.  A full-device plan names the requested backend, and its whole
  working set is within what the reserve leaves of that device's reported memory; a hybrid plan is for a
  GPU backend with its draft on the CPU, and the whole set is within what the reserve leaves of the system
  memory; a CPU fallback is only promised that its target, KV cache and working set (its draft is not
  counted) are within that; and a refused plan names no device, and the memory it reports is smaller than
  the whole working set.  The headroom is the rest of what was compared.
\<close>

theorem placement_sound:
  assumes "plan p r obs = Inr pl"
  shows "\<exists>backend. backend_of p = Inr backend
     \<and> (let whole = int_of_val (target_bytes r) + int_of_val (draft_bytes r) + int_of_val (kv_cache_bytes r) + int_of_val (working_bytes r);
            undrafted = int_of_val (target_bytes r) + int_of_val (kv_cache_bytes r) + int_of_val (working_bytes r);
            u = usable_memory_bytes pl in
       mode pl = ''full-device'' \<and> accepted pl \<and> target_device pl = backend \<and> draft_device pl \<in> {backend, ''none''}
         \<and> left_by_reserve p (device_memory p backend) u \<and> whole \<le> u \<and> headroom_bytes pl = u - whole
     \<or> mode pl = ''hybrid-target-device-draft-cpu'' \<and> accepted pl \<and> target_device pl = backend \<and> backend \<in> {''cuda'', ''metal''}
         \<and> draft_device pl = ''cpu'' \<and> left_by_reserve p (system_memory p) u \<and> whole \<le> u \<and> headroom_bytes pl = u - whole
     \<or> mode pl = ''cpu-fallback'' \<and> accepted pl \<and> target_device pl = ''cpu'' \<and> draft_device pl \<in> {''cpu'', ''none''}
         \<and> left_by_reserve p (system_memory p) u \<and> undrafted \<le> u \<and> headroom_bytes pl = u - undrafted
     \<or> mode pl = ''rejected'' \<and> \<not> accepted pl \<and> target_device pl = ''none'' \<and> draft_device pl = ''none''
         \<and> headroom_bytes pl = 0 \<and> u < whole)"
proof -
  from assms obtain backend draft u su ob where v: "validate r = Inr ()" and b: "backend_of p = Inr backend"
    and u: "usable p (device_memory p backend) = Inr u" and su: "total_bytes r \<le> u \<or> usable p (system_memory p) = Inr su"
    and pl: "pl = place backend draft u su r ob" by (rule placement_cases)
  note ok = validate_ok[OF v]
  show ?thesis
  proof (cases "total_bytes r \<le> u")
    case True
    then have "left_by_reserve p (device_memory p backend) u" using usable_left[OF u] ok by (simp add: total_bytes_def)
    then show ?thesis using True b by (simp add: pl place_def Let_def total_bytes_def)
  next
    case False
    then have "usable p (system_memory p) = Inr su" using su by simp
    note left = usable_left[OF this]
    have pos: "0 < int_of_val (target_bytes r) + int_of_val (kv_cache_bytes r) + int_of_val (working_bytes r)" using ok by simp
    show ?thesis
    proof (cases "backend \<in> {''cuda'', ''metal''} \<and> draft \<and> total_bytes r \<le> su")
      case True
      then have "left_by_reserve p (system_memory p) su" using left ok by (simp add: total_bytes_def)
      then show ?thesis using False True b by (simp add: pl place_def Let_def total_bytes_def)
    next
      case no: False
      show ?thesis
      proof (cases "int_of_val (target_bytes r) + int_of_val (kv_cache_bytes r) + int_of_val (working_bytes r) \<le> su")
        case True
        then have "left_by_reserve p (system_memory p) su" using left pos by simp
        then show ?thesis using False no True b by (simp add: pl place_def Let_def total_bytes_def)
      next
        case refused: False
        then show ?thesis using False no b ok by (simp add: pl place_def Let_def total_bytes_def)
      qed
    qed
  qed
qed

definition demo_requirements :: "int \<Rightarrow> int \<Rightarrow> memory_requirements" where
  "demo_requirements target draft = \<lparr>target_bytes = PyInt target, draft_bytes = PyInt draft,
     kv_cache_bytes = PyInt 0, working_bytes = PyInt 0\<rparr>"

definition demo_hardware :: "string \<Rightarrow> int \<Rightarrow> int \<Rightarrow> bool \<Rightarrow> (string \<times> pyval) list" where
  "demo_hardware backend system gpu separate = [(''backend'', PyStr backend),
     (''available_system_bytes'', PyInt system), (''available_gpu_bytes'', PyInt gpu),
     (''separate_draft_device_supported'', PyBool separate)]"

definition demo_planner :: "string \<Rightarrow> int \<Rightarrow> int \<Rightarrow> bool \<Rightarrow> placement_planner" where
  "demo_planner backend system gpu separate = \<lparr>hardware = demo_hardware backend system gpu separate,
     reserve_fraction = lit (15 / 100), minimum_reserve_bytes = minimum_reserve\<rparr>"

theorem placement_sound_witness:
  "\<exists>pl. plan (demo_planner ''cuda'' 4000000000 2000000000 False) (demo_requirements 1000000000 100000000) None = Inr pl
     \<and> mode pl = ''full-device'' \<and> headroom_bytes pl = usable_memory_bytes pl - 1100000000"
proof -
  have "ok_with (plan (demo_planner ''cuda'' 4000000000 2000000000 False) (demo_requirements 1000000000 100000000) None)
      (\<lambda>pl. mode pl = ''full-device'' \<and> accepted pl)" by code_simp
  then obtain pl where pl: "plan (demo_planner ''cuda'' 4000000000 2000000000 False)
      (demo_requirements 1000000000 100000000) None = Inr pl" "mode pl = ''full-device''" "accepted pl"
    by (blast elim: ok_withE)
  with placement_sound[OF pl(1)] show ?thesis by (auto simp: Let_def demo_requirements_def)
qed

section \<open>What the accepted plans overlook\<close>

text \<open>
  The CPU fallback does not count the draft it places on the CPU: a 3 GB target with a 3 GB
  draft is accepted on 4 GB of system memory, and the hybrid mode does not check that the
  target fits the device: a 20 GB target is accepted on a 2 GB GPU.
\<close>

theorem placement_overcommits:
  "(\<exists>pl. plan_memory_placement (demo_hardware ''cpu'' 4000000000 0 False) (demo_requirements 3000000000 3000000000) None = Inr pl
      \<and> accepted pl \<and> target_device pl = ''cpu'' \<and> draft_device pl = ''cpu''
      \<and> usable_memory_bytes pl < total_bytes (demo_requirements 3000000000 3000000000))
   \<and> (\<exists>pl. plan_memory_placement (demo_hardware ''cuda'' 64000000000 2000000000 True) (demo_requirements 20000000000 1000000000) None = Inr pl
      \<and> accepted pl \<and> target_device pl = ''cuda'' \<and> 2000000000 < int_of_val (target_bytes (demo_requirements 20000000000 1000000000)))"
proof -
  have "ok_with (plan_memory_placement (demo_hardware ''cpu'' 4000000000 0 False) (demo_requirements 3000000000 3000000000) None)
      (\<lambda>pl. accepted pl \<and> target_device pl = ''cpu'' \<and> draft_device pl = ''cpu''
        \<and> usable_memory_bytes pl < total_bytes (demo_requirements 3000000000 3000000000))" by code_simp
  moreover have "ok_with (plan_memory_placement (demo_hardware ''cuda'' 64000000000 2000000000 True) (demo_requirements 20000000000 1000000000) None)
      (\<lambda>pl. accepted pl \<and> target_device pl = ''cuda''
        \<and> 2000000000 < int_of_val (target_bytes (demo_requirements 20000000000 1000000000)))" by code_simp
  ultimately show ?thesis by (simp add: ok_with_iff)
qed

end
