(* ===== verification/Runtime_Config.thy ===== *)
theory Runtime_Config
  imports Memory_Placement
begin

text \<open>
  \<open>local_data_plane/runtime_config.py\<close>: the automatic choice of backend, context length and
  runtime settings for a hardware profile, on top of the placement planner.
\<close>

section \<open>Profiles, footprints and plans\<close>

record hardware_profile =
  platform :: string
  architecture :: string
  system_memory_bytes :: int
  available_system_bytes :: int
  gpu_memory_bytes :: int
  available_gpu_bytes :: int
  unified_memory_bytes :: int
  available_unified_bytes :: int
  has_cuda :: bool
  has_metal :: bool
  separate_draft_device_supported :: bool
  cpu_threads :: int

record model_footprint =
  footprint_target :: int
  footprint_draft :: int
  kv_bytes_per_token :: int
  footprint_working :: int

record execution_plan =
  plan_backend :: string
  context_tokens :: int
  gpu_offload :: string
  kv_cache_policy :: string
  threads :: int
  batch_size :: int
  fast_strategy :: string
  plan_accepted :: bool
  explanation :: string
  placement :: placement_plan

section \<open>The planner\<close>

definition new_runtime_planner :: "int \<Rightarrow> int res" where
  "new_runtime_planner minimum_context_tokens =
     (if minimum_context_tokens < 1 then Inl (ValueError ''minimum_context_tokens must be positive'')
      else Inr minimum_context_tokens)"

definition choose_backend :: "hardware_profile \<Rightarrow> string option \<Rightarrow> string res" where
  "choose_backend h requested =
     (if requested \<noteq> None \<and> requested \<noteq> Some [] then
        (let r = the requested in
         if r = ''cuda'' \<and> \<not> has_cuda h then Inl (ValueError ''requested CUDA backend is unavailable'')
         else if r = ''metal'' \<and> \<not> has_metal h then Inl (ValueError ''requested Metal backend is unavailable'')
         else if r \<notin> {''cuda'', ''metal'', ''cpu'', ''unified''} then Inl (ValueError ''unsupported backend override'')
         else Inr r)
      else if has_cuda h \<and> available_gpu_bytes h \<noteq> 0 then Inr ''cuda''
      else if has_metal h \<and> (available_unified_bytes h \<noteq> 0 \<or> unified_memory_bytes h \<noteq> 0)
      then Inr (if platform h = ''darwin'' then ''unified'' else ''metal'')
      else Inr ''cpu'')"

definition hardware_map :: "hardware_profile \<Rightarrow> string \<Rightarrow> (string \<times> pyval) list" where
  "hardware_map h be =
     [(''backend'', PyStr be),
      (''available_system_bytes'', PyInt (available_system_bytes h)),
      (''system_memory_bytes'', PyInt (system_memory_bytes h)),
      (''available_gpu_bytes'', PyInt (available_gpu_bytes h)),
      (''gpu_memory_bytes'', PyInt (gpu_memory_bytes h)),
      (''available_unified_bytes'', PyInt (available_unified_bytes h)),
      (''unified_memory_bytes'', PyInt (unified_memory_bytes h)),
      (''separate_draft_device_supported'', PyBool (separate_draft_device_supported h))]"

definition available_for :: "hardware_profile \<Rightarrow> string \<Rightarrow> int" where
  "available_for h be =
     (if be \<in> {''cuda'', ''metal''} then available_gpu_bytes h
      else if be = ''unified'' then or_int (available_unified_bytes h) (available_system_bytes h)
      else or_int (available_system_bytes h) (system_memory_bytes h))"

text \<open>The context the memory left after the reserve and the other tensors holds; 0 below the minimum.\<close>

definition context_for :: "int \<Rightarrow> model_footprint \<Rightarrow> int \<Rightarrow> int \<Rightarrow> int \<Rightarrow> int" where
  "context_for minimum f requested available reserve =
     (let room = max 0 (available - reserve - footprint_target f - footprint_draft f - footprint_working f);
          context = (if kv_bytes_per_token f = 0 then requested else min requested (room div kv_bytes_per_token f))
      in if context < minimum then 0 else context)"

definition requirements_for :: "model_footprint \<Rightarrow> int \<Rightarrow> memory_requirements" where
  "requirements_for f context =
     \<lparr>target_bytes = PyInt (footprint_target f), draft_bytes = PyInt (footprint_draft f),
      kv_cache_bytes = PyInt (context * kv_bytes_per_token f), working_bytes = PyInt (footprint_working f)\<rparr>"

definition plan_runtime :: "int \<Rightarrow> hardware_profile \<Rightarrow> model_footprint \<Rightarrow> pyval \<Rightarrow> string option \<Rightarrow> string \<Rightarrow> bool
    \<Rightarrow> execution_plan res" where
  "plan_runtime minimum h f requested_context requested_backend strategy dry_run =
     rbind (positive requested_context ''requested_context'') (\<lambda>requested.
     if requested = 0 \<or> kv_bytes_per_token f < 0
     then Inl (ValueError ''requested_context must be positive and KV cost cannot be negative'')
     else
     rbind (choose_backend h requested_backend) (\<lambda>be.
     rbind (int_times_float (available_for h be) (lit (15 / 100))) (\<lambda>share.
     let context = context_for minimum f requested (available_for h be) (max minimum_reserve share) in
     rbind (plan_memory_placement (hardware_map h be) (requirements_for f context) None) (\<lambda>pl.
       let ok = (accepted pl \<and> minimum \<le> context) in
       Inr \<lparr>plan_backend = be, context_tokens = context,
         gpu_offload = (if mode pl = ''full-device'' then ''full'' else if accepted pl then ''hybrid'' else ''none''),
         kv_cache_policy = (if target_device pl \<in> {''cuda'', ''metal'', ''unified''} then ''device'' else ''cpu''),
         threads = max 1 (min (cpu_threads h) 32),
         batch_size = (if 2048 \<le> context then 512 else 128),
         fast_strategy = strategy, plan_accepted = ok,
         explanation = ''backend='' @ be @ ''; context='' @ (if context = 0 then ''rejected'' else str_of_int context)
           @ ''; '' @ (if ok then reason pl else ''requested model and context exceed reserved memory'')
           @ ''; Fast strategy='' @ strategy @ ''; dry_run='' @ (if dry_run then ''true'' else ''false''),
         placement = pl\<rparr>))))"

section \<open>What an accepted plan guarantees\<close>

lemma context_for_fits:
  assumes "context_for m f n a r = c" and "1 \<le> m" and "m \<le> c" and "0 \<le> kv_bytes_per_token f"
  shows "c \<le> n" and "0 < kv_bytes_per_token f \<Longrightarrow>
    footprint_target f + footprint_draft f + footprint_working f + c * kv_bytes_per_token f + r \<le> a"
proof -
  define room where "room = max 0 (a - r - footprint_target f - footprint_draft f - footprint_working f)"
  have c: "c = (if kv_bytes_per_token f = 0 then n else min n (room div kv_bytes_per_token f))"
    using assms(1-3) by (auto simp: context_for_def Let_def room_def split: if_splits)
  show "c \<le> n" by (simp add: c)
  assume kv: "0 < kv_bytes_per_token f"
  have le: "c * kv_bytes_per_token f \<le> room"
    using kv by (simp add: int_le_div_iff[symmetric] c)
  have "1 * 1 \<le> c * kv_bytes_per_token f" using assms(2,3) kv by (intro mult_mono) auto
  with le show "footprint_target f + footprint_draft f + footprint_working f + c * kv_bytes_per_token f + r \<le> a"
    by (simp add: room_def max_def split: if_splits)
qed

lemma plan_runtime_cases:
  assumes "plan_runtime m h f rc rb st dry = Inr p"
  obtains be share where "choose_backend h rb = Inr be" "int_times_float (available_for h be) (lit (15 / 100)) = Inr share"
    "0 \<le> kv_bytes_per_token f" "plan_backend p = be"
    "context_tokens p = context_for m f (int_of_val rc) (available_for h be) (max minimum_reserve share)"
    "plan_memory_placement (hardware_map h be) (requirements_for f (context_tokens p)) None = Inr (placement p)"
    "plan_accepted p = (accepted (placement p) \<and> m \<le> context_tokens p)"
  using assms by (auto simp: plan_runtime_def positive_def Let_def)

lemma choose_backend_set: "choose_backend h rb = Inr be \<Longrightarrow> be \<in> {''cuda'', ''metal'', ''cpu'', ''unified''}"
  by (auto simp: choose_backend_def Let_def split: if_splits)

text \<open>
  An accepted execution plan has a context between the minimum and the requested one, and
  when the KV cache costs anything, the target, draft, working and KV bytes together with the
  reserve (at least 512 MiB) fit the memory the backend reports as available.
\<close>

theorem runtime_plan_fits:
  assumes "plan_runtime m h f rc rb st dry = Inr p" and "plan_accepted p" and "1 \<le> m"
  shows "m \<le> context_tokens p \<and> context_tokens p \<le> int_of_val rc
     \<and> plan_backend p \<in> {''cuda'', ''metal'', ''cpu'', ''unified''}
     \<and> (0 < kv_bytes_per_token f \<longrightarrow>
        footprint_target f + footprint_draft f + footprint_working f + context_tokens p * kv_bytes_per_token f
          + minimum_reserve \<le> available_for h (plan_backend p))"
proof -
  from assms(1) obtain be share where c: "choose_backend h rb = Inr be"
    "0 \<le> kv_bytes_per_token f" "plan_backend p = be"
    "context_tokens p = context_for m f (int_of_val rc) (available_for h be) (max minimum_reserve share)"
    "plan_accepted p = (accepted (placement p) \<and> m \<le> context_tokens p)" by (rule plan_runtime_cases)
  have le: "m \<le> context_tokens p" using c(5) assms(2) by simp
  show ?thesis
    using context_for_fits[OF c(4)[symmetric] assms(3) le c(2)] le choose_backend_set[OF c(1)] c(3) by auto
qed

definition demo_profile :: hardware_profile where
  "demo_profile = \<lparr>platform = ''linux'', architecture = ''x86_64'', system_memory_bytes = 32000000000,
     available_system_bytes = 16000000000, gpu_memory_bytes = 12000000000, available_gpu_bytes = 8000000000,
     unified_memory_bytes = 0, available_unified_bytes = 0, has_cuda = True, has_metal = False,
     separate_draft_device_supported = False, cpu_threads = 8\<rparr>"

definition demo_footprint :: model_footprint where
  "demo_footprint = \<lparr>footprint_target = 4000000000, footprint_draft = 500000000, kv_bytes_per_token = 131072,
     footprint_working = 1000000\<rparr>"

theorem runtime_plan_fits_witness:
  "\<exists>p. plan_runtime 512 demo_profile demo_footprint (PyInt 4096) None ''baseline'' False = Inr p
     \<and> plan_backend p = ''cuda'' \<and> 512 \<le> context_tokens p \<and> context_tokens p \<le> 4096"
proof -
  have "ok_with (plan_runtime 512 demo_profile demo_footprint (PyInt 4096) None ''baseline'' False)
      (\<lambda>p. plan_accepted p \<and> plan_backend p = ''cuda'')" by code_simp
  then obtain p where p: "plan_runtime 512 demo_profile demo_footprint (PyInt 4096) None ''baseline'' False = Inr p"
      "plan_accepted p" "plan_backend p = ''cuda''" by (blast elim: ok_withE)
  with runtime_plan_fits[OF p(1,2)] show ?thesis by auto
qed

end
