(* ===== verification/Fast_Policy.thy ===== *)
theory Fast_Policy
  imports Py_Json
begin

text \<open>
  \<open>local_data_plane/fast_policy.py\<close>: the choice of a speculative strategy.  The policy service is
  a parameter: a function from the request to its response (a dictionary) or the exception it
  raises.
\<close>

section \<open>Requests and plans\<close>

definition FAST_POLICY_SCHEMA_V1 :: string where
  "FAST_POLICY_SCHEMA_V1 = ''simplicio-local.fast-policy/v1''"

definition STRATEGIES :: "string list" where
  "STRATEGIES = [''baseline'', ''ngram_prompt_lookup'', ''draft_model'', ''dflash'', ''mtp'']"

record fast_request =
  model_id :: string
  backend :: string
  workload :: string
  capabilities :: "string list"
  hardware :: "(string \<times> pyval) list"
  mode :: string
  explicit_strategy :: pyval
  request_max_draft :: pyval

definition request_dict :: "fast_request \<Rightarrow> (string \<times> pyval) list" where
  "request_dict r =
     [(''schema'', PyStr FAST_POLICY_SCHEMA_V1), (''model_id'', PyStr (model_id r)), (''backend'', PyStr (backend r)),
      (''workload'', PyStr (workload r)), (''capabilities'', py_strs (capabilities r)),
      (''hardware'', PyDict (hardware r)), (''mode'', PyStr (mode r)),
      (''explicit_strategy'', explicit_strategy r), (''max_draft_tokens'', request_max_draft r)]"

record fast_plan =
  strategy :: string
  fallback :: string
  max_draft_tokens :: int
  explanation :: string
  evidence :: "string list"
  used_fallback :: bool

definition plan_dict :: "fast_plan \<Rightarrow> (string \<times> pyval) list" where
  "plan_dict p =
     [(''schema'', PyStr FAST_POLICY_SCHEMA_V1), (''strategy'', PyStr (strategy p)), (''fallback'', PyStr (fallback p)),
      (''max_draft_tokens'', PyInt (max_draft_tokens p)), (''explanation'', PyStr (explanation p)),
      (''evidence'', py_strs (evidence p)), (''used_fallback'', PyBool (used_fallback p))]"

section \<open>Checks\<close>

definition check_strategy :: "pyval \<Rightarrow> string \<Rightarrow> string res" where
  "check_strategy v field = (case v of
      PyStr s \<Rightarrow> if s \<in> set STRATEGIES then Inr s else Inl (ValueError (field @ '' must be one of the strategies''))
    | _ \<Rightarrow> Inl (ValueError (field @ '' must be one of the strategies'')))"

definition bounded_tokens :: "pyval \<Rightarrow> int res" where
  "bounded_tokens v = (case strict_int v of
      Some n \<Rightarrow> if 1 \<le> n \<and> n \<le> 64 then Inr n else Inl (ValueError ''max_draft_tokens must be an integer from 1 to 64'')
    | None \<Rightarrow> Inl (ValueError ''max_draft_tokens must be an integer from 1 to 64''))"

definition string_items :: "pyval \<Rightarrow> string list option" where
  "string_items v = (case v of
      PyList xs \<Rightarrow> if list_all (\<lambda>x. py_string x \<noteq> None) xs then Some (List.map (\<lambda>x. the (py_string x)) xs) else None
    | _ \<Rightarrow> None)"

definition parse_plan :: "(string \<times> pyval) list \<Rightarrow> fast_request \<Rightarrow> fast_plan res" where
  "parse_plan payload r =
     rbind (check_strategy (jget payload ''strategy'') ''strategy'') (\<lambda>selected.
     rbind (check_strategy (dget_or payload ''fallback'' (PyStr ''baseline'')) ''fallback'') (\<lambda>fb.
     rbind (bounded_tokens (dget_or payload ''max_draft_tokens'' (request_max_draft r))) (\<lambda>tokens.
     rbind (opt_res (ValueError ''evidence must be a list of strings'')
              (string_items (dget_or payload ''evidence'' (PyList [])))) (\<lambda>ev.
     rbind (opt_res (ValueError ''explanation is required'') (py_string (jget payload ''explanation''))) (\<lambda>e.
       if strip e = [] then Inl (ValueError ''explanation is required'')
       else Inr \<lparr>strategy = selected, fallback = fb, max_draft_tokens = tokens, explanation = strip e,
                 evidence = ev, used_fallback = False\<rparr>)))))"

definition baseline :: "string \<Rightarrow> fast_plan" where
  "baseline why = \<lparr>strategy = ''baseline'', fallback = ''baseline'', max_draft_tokens = 1, explanation = why,
     evidence = [''local-fail-closed''], used_fallback = True\<rparr>"

section \<open>The client\<close>

text \<open>The installed policy command: its exit status and the JSON value it printed.\<close>

definition bridge_call :: "(pyval \<Rightarrow> (int \<times> pyval res) res) \<Rightarrow> fast_request \<Rightarrow> (string \<times> pyval) list res" where
  "bridge_call run r =
     rbind (run (PyDict (request_dict r))) (\<lambda>(code, output).
       if code \<noteq> 0 then Inl (RuntimeError (''Fast policy command exited with '' @ str_of_int code))
       else rbind output (\<lambda>v. case v of PyDict d \<Rightarrow> Inr d | _ \<Rightarrow> Inl (ValueError ''Fast policy response must be a JSON object'')))"

definition request_from_env :: "string option \<Rightarrow> string option \<Rightarrow> pyval \<Rightarrow> fast_request \<Rightarrow> fast_request res" where
  "request_from_env mode_arg env explicit rest =
     (let m = lower (case mode_arg of Some m \<Rightarrow> m | None \<Rightarrow> (case env of Some e \<Rightarrow> e | None \<Rightarrow> ''auto'')) in
      if m \<notin> set ([''auto'', ''off''] @ STRATEGIES)
      then Inl (ValueError ''SIMPLICIO_FAST must be auto, off, or a supported strategy'')
      else let explicit = (if m \<notin> {''auto'', ''off''} then PyStr m else explicit);
               m = (if m \<notin> {''auto'', ''off''} then ''explicit'' else m) in
      rbind (if explicit = PyNone then Inr [] else check_strategy explicit ''explicit_strategy'') (\<lambda>_.
        Inr (rest\<lparr>mode := m, explicit_strategy := explicit\<rparr>)))"

definition is_caught :: "py_exc \<Rightarrow> bool" where
  "is_caught e = (is_os_error e \<or> is_runtime_error e \<or> is_value_error e \<or> e = TimeoutExpired)"

type_synonym provider = "fast_request \<Rightarrow> (string \<times> pyval) list res"

text \<open>The branches of \<open>select\<close> for an explicit strategy and for the policy service.\<close>

definition select_explicit :: "fast_request \<Rightarrow> fast_plan res" where
  "select_explicit r =
     rbind (check_strategy (explicit_strategy r) ''explicit_strategy'') (\<lambda>selected.
       if selected \<notin> set (capabilities r)
       then Inr (baseline (''Explicit strategy '' @ selected @ '' is not proven for this model/backend''))
       else rbind (bounded_tokens (request_max_draft r)) (\<lambda>tokens.
         Inr \<lparr>strategy = selected, fallback = ''baseline'', max_draft_tokens = tokens,
              explanation = ''Explicit Fast strategy selected: '' @ selected, evidence = [''explicit-override''],
              used_fallback = False\<rparr>))"

definition select_auto :: "provider \<Rightarrow> fast_request \<Rightarrow> fast_plan res" where
  "select_auto call r =
     (case rbind (call r) (\<lambda>payload. parse_plan payload r) of
       Inl e \<Rightarrow> if is_caught e then Inr (baseline (''Fast policy failed safely: '' @ exc_message e)) else Inl e
     | Inr p \<Rightarrow>
         if strategy p \<noteq> ''baseline'' \<and> strategy p \<notin> set (capabilities r)
         then Inr (baseline (''Fast returned unproven strategy '' @ strategy p @ ''; baseline selected''))
         else Inr p)"

definition select :: "provider option \<Rightarrow> fast_request \<Rightarrow> fast_plan res" where
  "select provider r =
     (if strip (model_id r) = [] \<or> strip (backend r) = [] then Inl (ValueError ''model_id and backend are required'')
      else if mode r = ''off'' then
        Inr \<lparr>strategy = ''baseline'', fallback = ''baseline'', max_draft_tokens = 1,
             explanation = ''Fast disabled by explicit override'', evidence = [''fast-off''], used_fallback = False\<rparr>
      else if mode r = ''explicit'' then select_explicit r
      else if mode r \<noteq> ''auto'' then Inl (ValueError ''mode must be auto, explicit, or off'')
      else case provider of
          None \<Rightarrow> Inr (baseline ''Fast policy is unavailable; baseline decoding selected'')
        | Some call \<Rightarrow> select_auto call r)"

record fast_receipt =
  receipt_request :: fast_request
  receipt_plan :: fast_plan
  receipt_status :: string

definition receipt :: "provider option \<Rightarrow> fast_request \<Rightarrow> fast_receipt res" where
  "receipt provider r = rbind (select provider r) (\<lambda>p.
     Inr \<lparr>receipt_request = r, receipt_plan = p, receipt_status = ''planned''\<rparr>)"

definition receipt_dict :: "fast_receipt \<Rightarrow> (string \<times> pyval) list" where
  "receipt_dict r = [(''schema'', PyStr FAST_POLICY_SCHEMA_V1), (''status'', PyStr (receipt_status r)),
     (''request'', PyDict (request_dict (receipt_request r))), (''plan'', PyDict (plan_dict (receipt_plan r)))]"

section \<open>Fail-closed selection\<close>

lemma check_strategy_ok: "check_strategy v f = Inr s \<Longrightarrow> s \<in> set STRATEGIES"
  by (auto simp: check_strategy_def split: pyval.splits if_splits)

lemma bounded_tokens_ok: "bounded_tokens v = Inr n \<Longrightarrow> 1 \<le> n \<and> n \<le> 64"
  by (auto simp: bounded_tokens_def split: option.splits if_splits)

definition plan_ok :: "fast_request \<Rightarrow> fast_plan \<Rightarrow> bool" where
  "plan_ok r p = ((strategy p = ''baseline'' \<or> strategy p \<in> set (capabilities r)) \<and> strategy p \<in> set STRATEGIES
     \<and> 1 \<le> max_draft_tokens p \<and> max_draft_tokens p \<le> 64)"

lemma baseline_ok: "plan_ok r (baseline why)"
  by (simp add: plan_ok_def baseline_def STRATEGIES_def)

lemma parse_plan_ok:
  "parse_plan d r = Inr p \<Longrightarrow> strategy p \<in> set STRATEGIES \<and> 1 \<le> max_draft_tokens p \<and> max_draft_tokens p \<le> 64"
  unfolding parse_plan_def
  by (auto dest: check_strategy_ok bounded_tokens_ok)

lemma select_explicit_ok:
  assumes "select_explicit r = Inr p"
  shows "plan_ok r p"
proof -
  from assms obtain sel where sel: "check_strategy (explicit_strategy r) ''explicit_strategy'' = Inr sel"
    and p: "(if sel \<notin> set (capabilities r)
       then Inr (baseline (''Explicit strategy '' @ sel @ '' is not proven for this model/backend''))
       else rbind (bounded_tokens (request_max_draft r)) (\<lambda>tokens.
         Inr \<lparr>strategy = sel, fallback = ''baseline'', max_draft_tokens = tokens,
              explanation = ''Explicit Fast strategy selected: '' @ sel, evidence = [''explicit-override''],
              used_fallback = False\<rparr>)) = Inr p"
    unfolding select_explicit_def rbind_eq_Inr by blast
  show ?thesis
  proof (cases "sel \<in> set (capabilities r)")
    case True
    with p check_strategy_ok[OF sel] bounded_tokens_ok show ?thesis by (auto simp: plan_ok_def)
  next
    case False
    with p have "p = baseline (''Explicit strategy '' @ sel @ '' is not proven for this model/backend'')" by simp
    then show ?thesis by (simp add: baseline_ok)
  qed
qed

lemma select_auto_ok:
  assumes "select_auto call r = Inr p"
  shows "plan_ok r p"
proof (cases "rbind (call r) (\<lambda>payload. parse_plan payload r)")
  case (Inl e)
  with assms have "p = baseline (''Fast policy failed safely: '' @ exc_message e)"
    by (simp add: select_auto_def split: if_splits)
  then show ?thesis by (simp add: baseline_ok)
next
  case (Inr q)
  then obtain d where "parse_plan d r = Inr q" by auto
  then have q: "strategy q \<in> set STRATEGIES" "1 \<le> max_draft_tokens q" "max_draft_tokens q \<le> 64"
    by (simp_all add: parse_plan_ok)
  show ?thesis
  proof (cases "strategy q \<noteq> ''baseline'' \<and> strategy q \<notin> set (capabilities r)")
    case True
    with assms have "p = baseline (''Fast returned unproven strategy '' @ strategy q @ ''; baseline selected'')"
      unfolding select_auto_def Inr by simp
    then show ?thesis by (simp only: baseline_ok)
  next
    case False
    with assms have "p = q" unfolding select_auto_def Inr by auto
    with q False show ?thesis by (auto simp: plan_ok_def)
  qed
qed

lemma parse_plan_caught: "parse_plan d r = Inl e \<Longrightarrow> is_caught e"
  by (auto simp: parse_plan_def check_strategy_def bounded_tokens_def rbind_eq_Inl opt_res_eq_Inl is_caught_def
      split: pyval.splits option.splits if_splits)

lemma select_auto_fails: "select_auto call r = Inl e \<Longrightarrow> call r = Inl e \<and> \<not> is_caught e"
  using parse_plan_caught by (cases "call r") (auto simp: select_auto_def split: sum.splits if_splits)

text \<open>
  C22: whatever the policy service answers, a selected strategy other than the baseline is one of
  the capabilities of the request, with 1 to 64 draft tokens; in automatic mode selection fails
  only with an exception of the service that the client does not catch.
\<close>

theorem select_fail_closed:
  "(select provider r = Inr p \<longrightarrow> plan_ok r p)
   \<and> (mode r = ''auto'' \<and> strip (model_id r) \<noteq> [] \<and> strip (backend r) \<noteq> [] \<and> select provider r = Inl e \<longrightarrow>
        (\<exists>call. provider = Some call \<and> call r = Inl e \<and> \<not> is_caught e))"
proof -
  have "plan_ok r p" if sel: "select provider r = Inr p"
  proof (cases "mode r = ''explicit''")
    case True
    with sel select_explicit_ok show ?thesis by (simp add: select_def split: if_splits)
  next
    case False
    have off: "plan_ok r \<lparr>strategy = ''baseline'', fallback = ''baseline'', max_draft_tokens = 1,
        explanation = ''Fast disabled by explicit override'', evidence = [''fast-off''], used_fallback = False\<rparr>"
      by (simp add: plan_ok_def STRATEGIES_def)
    with False sel select_auto_ok baseline_ok show ?thesis
      by (cases provider) (auto simp: select_def split: if_splits)
  qed
  moreover have "\<exists>call. provider = Some call \<and> call r = Inl e \<and> \<not> is_caught e"
    if "mode r = ''auto''" "strip (model_id r) \<noteq> []" "strip (backend r) \<noteq> []" "select provider r = Inl e"
    using that select_auto_fails by (cases provider) (auto simp: select_def)
  ultimately show ?thesis by blast
qed

definition demo_request :: "string \<Rightarrow> string list \<Rightarrow> fast_request" where
  "demo_request m caps = \<lparr>model_id = ''m'', backend = ''b'', workload = ''w'', capabilities = caps, hardware = [],
     mode = m, explicit_strategy = PyNone, request_max_draft = PyInt 4\<rparr>"

definition demo_provider :: provider where
  "demo_provider r = Inr [(''strategy'', PyStr ''mtp''), (''fallback'', PyStr ''dflash''), (''explanation'', PyStr ''fast'')]"

theorem select_fail_closed_witness:
  "\<exists>p. select (Some demo_provider) (demo_request ''auto'' [''mtp'']) = Inr p \<and> strategy p = ''mtp''
     \<and> plan_ok (demo_request ''auto'' [''mtp'']) p"
proof -
  have "ok_with (select (Some demo_provider) (demo_request ''auto'' [''mtp''])) (\<lambda>p. strategy p = ''mtp'')" by code_simp
  then obtain p where "select (Some demo_provider) (demo_request ''auto'' [''mtp'']) = Inr p" "strategy p = ''mtp''"
    by (blast elim: ok_withE)
  with select_fail_closed[of "Some demo_provider" "demo_request ''auto'' [''mtp'']" p] show ?thesis by blast
qed

text \<open>
  The fallback strategy is not held to the capabilities: a plan is selected whose fallback the
  model and backend have not proven.
\<close>

theorem fallback_may_be_unproven:
  "\<exists>p. select (Some demo_provider) (demo_request ''auto'' [''mtp'']) = Inr p
     \<and> fallback p = ''dflash'' \<and> fallback p \<notin> set (capabilities (demo_request ''auto'' [''mtp'']))"
proof -
  have "ok_with (select (Some demo_provider) (demo_request ''auto'' [''mtp'']))
      (\<lambda>p. fallback p = ''dflash'' \<and> fallback p \<notin> set (capabilities (demo_request ''auto'' [''mtp''])))" by code_simp
  then show ?thesis by (simp add: ok_with_iff)
qed

end
