(* ===== verification/Protocol.thy ===== *)
theory Protocol
  imports Py_Json
begin

text \<open>
  \<open>local_data_plane/protocol.py\<close>: the names of the private protocol and the two response shapes;
  the frame kinds are those of \<open>binary.py\<close>.
\<close>

definition PROTOCOL_NAME :: string where
  "PROTOCOL_NAME = ''simplicio.inference-backend/v2''"

definition PROTOCOL_VERSION :: int where
  "PROTOCOL_VERSION = 2"

definition METHODS :: "string list" where
  "METHODS = [''handshake'', ''capabilities'', ''estimate'', ''load'', ''warm'', ''generate'', ''runtime_generate'',
     ''turboquant_compress'', ''turboquant_decompress'', ''cancel'', ''status'', ''drain'', ''unload'', ''shutdown'']"

type_synonym payload = "(string \<times> pyval) list"
type_synonym event = "int \<times> payload"

definition ok :: "string \<Rightarrow> payload \<Rightarrow> payload" where
  "ok method values = [(''ok'', PyBool True), (''method'', PyStr method)] @ values"

definition error :: "string \<Rightarrow> string \<Rightarrow> string \<Rightarrow> payload \<Rightarrow> payload" where
  "error method code message values =
     [(''ok'', PyBool False), (''method'', PyStr method),
      (''error'', PyDict [(''code'', PyStr code), (''message'', PyStr message)])] @ values"

lemma ok_fields [simp]:
  "map_of (ok m vs) ''ok'' = Some (PyBool True)" "map_of (ok m vs) ''method'' = Some (PyStr m)"
  "map_of (error m c t vs) ''ok'' = Some (PyBool False)"
  "map_of (error m c t vs) ''error'' = Some (PyDict [(''code'', PyStr c), (''message'', PyStr t)])"
  by (simp_all add: ok_def error_def)

text \<open>\<open>x or y\<close> of two values; a value read as a dictionary.\<close>

definition py_or :: "pyval \<Rightarrow> pyval \<Rightarrow> pyval" where
  "py_or x y = (if truthy x then x else y)"

definition as_dict :: "pyval \<Rightarrow> payload" where
  "as_dict v = (case v of PyDict d \<Rightarrow> d | _ \<Rightarrow> [])"

text \<open>\<open>v in {...}\<close> for a set of strings: a list or dictionary is not hashable.\<close>

definition in_names :: "pyval \<Rightarrow> string list \<Rightarrow> bool res" where
  "in_names v names = (case v of
      PyStr s \<Rightarrow> Inr (s \<in> set names)
    | PyList _ \<Rightarrow> Inl (TypeError ''unhashable type'')
    | PyDict _ \<Rightarrow> Inl (TypeError ''unhashable type'')
    | _ \<Rightarrow> Inr False)"

end
