(* ===== verification/Registry.thy ===== *)
theory Registry
  imports Py_Json
begin

text \<open>
  \<open>local_data_plane/registry.py\<close>: the backends the data plane knows, each with an evidence
  level.  What \<open>default\<close> observes of the host is a record: the platform, which paths exist,
  environment variables, the presence of NumPy and of \<open>llama-server\<close>, and the result of the
  TurboQuant probe.
\<close>

section \<open>Evidence levels and capabilities\<close>

datatype evidence_level = SOURCE_PRESENT | LINKED | FIXTURE_EXECUTED | REAL_MODEL_EXECUTED | BENCHMARKED_ON_TARGET

fun level_rank :: "evidence_level \<Rightarrow> nat" where
  "level_rank SOURCE_PRESENT = 1"
| "level_rank LINKED = 2"
| "level_rank FIXTURE_EXECUTED = 3"
| "level_rank REAL_MODEL_EXECUTED = 4"
| "level_rank BENCHMARKED_ON_TARGET = 5"

fun name_value :: "evidence_level \<Rightarrow> string" where
  "name_value SOURCE_PRESENT = ''source-present''"
| "name_value LINKED = ''linked''"
| "name_value FIXTURE_EXECUTED = ''fixture-executed''"
| "name_value REAL_MODEL_EXECUTED = ''real-model-executed''"
| "name_value BENCHMARKED_ON_TARGET = ''benchmarked-on-target''"

lemma level_rank_inj: "level_rank a = level_rank b \<longleftrightarrow> a = b"
  by (cases a; cases b) auto

text \<open>The levels are ordered as the integers of the enumeration are.\<close>

instantiation evidence_level :: linorder
begin

definition less_eq_evidence_level :: "evidence_level \<Rightarrow> evidence_level \<Rightarrow> bool" where
  "less_eq_evidence_level a b = (level_rank a \<le> level_rank b)"

definition less_evidence_level :: "evidence_level \<Rightarrow> evidence_level \<Rightarrow> bool" where
  "less_evidence_level a b = (level_rank a < level_rank b)"

instance
  by standard (auto simp: less_eq_evidence_level_def less_evidence_level_def level_rank_inj)

end

record backend_capability =
  backend :: string
  kind :: string
  platform :: string
  isa :: string
  device :: string
  evidence :: evidence_level
  available :: bool
  supported :: bool
  tested :: bool
  preferred :: bool
  requested_backend :: "string option"
  effective_backend :: "string option"
  version :: string
  build_hash :: string
  license :: string
  model_families :: "string list"
  formats :: "string list"
  methods :: "string list"
  reason :: "string option"
  artifact_refs :: "string list"

definition capability_dict :: "backend_capability \<Rightarrow> (string \<times> pyval) list" where
  "capability_dict c =
     [(''backend'', PyStr (backend c)), (''kind'', PyStr (kind c)), (''platform'', PyStr (platform c)),
      (''isa'', PyStr (isa c)), (''device'', PyStr (device c)), (''evidence_level'', PyStr (name_value (evidence c))),
      (''available'', PyBool (available c)), (''supported'', PyBool (supported c)), (''tested'', PyBool (tested c)),
      (''preferred'', PyBool (preferred c)), (''requested_backend'', py_opt_str (requested_backend c)),
      (''effective_backend'', py_opt_str (effective_backend c)), (''version'', PyStr (version c)),
      (''build_hash'', PyStr (build_hash c)), (''license'', PyStr (license c)),
      (''model_families'', py_strs (model_families c)), (''formats'', py_strs (formats c)),
      (''methods'', py_strs (methods c)), (''reason'', py_opt_str (reason c)),
      (''artifact_refs'', py_strs (artifact_refs c))]"

section \<open>The registry\<close>

type_synonym registry = "(string \<times> backend_capability) list"

definition register :: "registry \<Rightarrow> backend_capability \<Rightarrow> registry res" where
  "register r c = (if backend c \<in> set (dkeys r) then Inl (ValueError (''duplicate backend id: '' @ backend c))
     else Inr (dput (backend c) c r))"

definition new_registry :: "backend_capability list \<Rightarrow> registry res" where
  "new_registry cs = fold_res register [] cs"

definition get :: "registry \<Rightarrow> string \<Rightarrow> backend_capability option" where
  "get r b = map_of r b"

definition catalog :: "registry \<Rightarrow> (string \<times> pyval) list list" where
  "catalog r = List.map (\<lambda>k. capability_dict (the (map_of r k))) (sort (dkeys r))"

definition release_matrix :: "registry \<Rightarrow> (string \<times> pyval) list list" where
  "release_matrix r = List.map (\<lambda>item. List.map (\<lambda>k. (k, jget item k))
     [''platform'', ''backend'', ''evidence_level'', ''available'', ''reason'']) (catalog r)"

section \<open>Runtime discovery\<close>

definition discovery_state :: "backend_capability \<Rightarrow> string \<times> string \<times> string option" where
  "discovery_state c =
     (let or_else = (\<lambda>d. case reason c of None \<Rightarrow> d | Some r \<Rightarrow> if r = [] then d else r) in
      if available c then
        (''ready'', if FIXTURE_EXECUTED \<le> evidence c then ''measured'' else ''probed'', None)
      else if supported c then
        (''degraded'', ''advertised'', Some (or_else ''backend is not executable on this host''))
      else (''absent'', ''unknown'', Some (or_else ''backend is not present'')))"

definition sorted_set :: "string list \<Rightarrow> string list" where
  "sorted_set xs = sort (remdups xs)"

definition discovery :: "int \<Rightarrow> string \<Rightarrow> backend_capability \<Rightarrow> (string \<times> pyval) list" where
  "discovery now_ms model c =
     (let (state, ev, why) = discovery_state c;
          dev = (if device c \<in> {''cpu'', ''metal'', ''mlx'', ''cuda'', ''vulkan'', ''npu''} then device c else ''auto'');
          hash = (\<lambda>s. PyStr (sha256_hex (utf8_bytes s)));
          eff = (case effective_backend c of None \<Rightarrow> backend c | Some b \<Rightarrow> if b = [] then backend c else b);
          storage = [''resident'', ''auto''] @ (if ''gguf'' \<in> set (formats c) then [''mmap''] else [])
      in [(''schema'', PyStr ''simplicio.inference-backend/v2''), (''state'', PyStr state),
          (''identity'', PyDict
             [(''protocol_min'', PyInt 2), (''protocol_max'', PyInt 2), (''daemon_version'', PyStr ''python-data-plane''),
              (''build_commit'', PyStr ''unknown''), (''build_hash'', hash ''simplicio-local-python-data-plane''),
              (''license'', PyStr (license c)),
              (''backend'', PyDict [(''id'', PyStr (backend c)), (''revision'', PyStr (version c)),
                 (''sha256'', hash (backend c)), (''architecture'', PyStr (isa c))]),
              (''model'', PyDict [(''id'', PyStr model), (''revision'', PyStr ''unresolved''),
                 (''sha256'', hash model), (''architecture'', PyStr (isa c))]),
              (''tokenizer_hash'', PyStr ''unknown''), (''chat_template_hash'', PyStr ''unknown''),
              (''requested_backend'', PyStr (backend c)), (''effective_backend'', PyStr eff),
              (''requested_model'', PyStr model), (''effective_model'', PyStr model),
              (''requested_device'', PyStr dev), (''effective_device'', PyStr dev),
              (''profile_hash'', hash ''compatibility'')]),
          (''capabilities'', PyDict
             [(''lifecycle_methods'', py_strs (sorted_set (methods c @ [''handshake'', ''capabilities'', ''estimate'']))),
              (''formats'', py_strs (sort (formats c))), (''model_families'', py_strs (sort (model_families c))),
              (''streaming'', PyBool (''generate'' \<in> set (methods c))),
              (''grammar'', PyBool False), (''embeddings'', PyBool False), (''vision'', PyBool False),
              (''kv_codecs'', PyList []), (''recurrent_codecs'', PyList []), (''mtp_codecs'', PyList []),
              (''storage_modes'', py_strs (sort storage)), (''devices'', py_strs [dev]),
              (''evidence_level'', PyStr ev), (''unavailable_reason'', py_opt_str why)]),
          (''estimate'', PyNone), (''generated_at_unix_ms'', PyInt now_ms),
          (''extensions'', PyDict [(''local_evidence_level'', PyStr (name_value (evidence c))),
             (''kind'', PyStr (kind c)), (''preferred'', PyBool (preferred c))])])"

definition effective_of :: "backend_capability \<Rightarrow> string" where
  "effective_of c = (case effective_backend c of None \<Rightarrow> backend c | Some b \<Rightarrow> if b = [] then backend c else b)"

definition runtime_discovery :: "int \<Rightarrow> string \<Rightarrow> registry \<Rightarrow> (string \<times> pyval) list list" where
  "runtime_discovery now_ms model r =
     List.map (discovery now_ms model) (sort_key effective_of (List.map snd r))"

section \<open>The default registry\<close>

record turbo_probe =
  probe_linked :: bool
  probe_turboquant :: bool
  probe_version :: "string option"
  probe_reason :: "string option"
  probe_executable :: "string option"

record host =
  host_system :: string
  host_machine :: string
  path_exists :: "string \<Rightarrow> bool"
  has_numpy :: bool
  ollama_host :: "string option"
  openai_url :: "string option"
  llama_server :: "string option"
  host_probe :: turbo_probe

definition blank_capability :: "host \<Rightarrow> string \<Rightarrow> backend_capability" where
  "blank_capability h b = \<lparr>backend = b, kind = ''engine'', platform = lower (host_system h), isa = lower (host_machine h),
     device = ''cpu'', evidence = SOURCE_PRESENT, available = False, supported = False, tested = False,
     preferred = False, requested_backend = None, effective_backend = None, version = ''unknown'',
     build_hash = ''unknown'', license = ''unknown'', model_families = [], formats = [], methods = [],
     reason = None, artifact_refs = []\<rparr>"

definition is_apple :: "host \<Rightarrow> bool" where
  "is_apple h = (lower (host_system h) = ''darwin'')"

definition source_capability ::
    "host \<Rightarrow> string \<Rightarrow> string \<Rightarrow> string list \<Rightarrow> string \<Rightarrow> string list \<Rightarrow> string list \<Rightarrow> string option \<Rightarrow> backend_capability" where
  "source_capability h repo b markers knd fmts families why =
     (let found = filter (path_exists h) (List.map (\<lambda>m. repo @ ''/'' @ m) markers) in
      (blank_capability h b)\<lparr>kind := knd, device := (if is_apple h then ''apple-silicon'' else ''cpu''),
        supported := (found \<noteq> []), formats := fmts, model_families := families,
        methods := [''load'', ''warm'', ''generate'', ''cancel''],
        reason := Some (case why of Some w \<Rightarrow> w | None \<Rightarrow>
          if found \<noteq> [] then ''source present; executable probe not run'' else ''source not found''),
        artifact_refs := found\<rparr>)"

definition set_and_nonempty :: "string option \<Rightarrow> bool" where
  "set_and_nonempty v = (v \<noteq> None \<and> v \<noteq> Some [])"

definition llama_capability :: "host \<Rightarrow> string \<Rightarrow> backend_capability" where
  "llama_capability h repo =
     (let c = source_capability h repo ''llama-cpp'' [''runtime/adapters/llama'', ''docs/protocols''] ''engine''
                [''gguf''] [''llama'', ''qwen'', ''gemma''] None in
      case llama_server h of
        Some exe \<Rightarrow> if exe = [] then c else
          c\<lparr>evidence := LINKED, available := True, reason := Some ''llama-server executable discovered'',
            artifact_refs := [exe]\<rparr>
      | None \<Rightarrow> c)"

definition turboquant_capability :: "host \<Rightarrow> backend_capability" where
  "turboquant_capability h =
     (let p = host_probe h in
      (blank_capability h ''llama-cpp-turboquant'')\<lparr>
        device := (if lower (host_system h) = ''linux'' then ''vulkan'' else if is_apple h then ''metal'' else ''cpu''),
        evidence := (if probe_linked p then LINKED else SOURCE_PRESENT),
        available := probe_turboquant p, supported := probe_linked p,
        version := (case probe_version p of None \<Rightarrow> ''unknown'' | Some v \<Rightarrow> if v = [] then ''unknown'' else v),
        formats := [''gguf''], model_families := [''llama'', ''qwen'', ''gemma''],
        methods := [''load'', ''warm'', ''generate'', ''cancel''], reason := probe_reason p,
        artifact_refs := (case probe_executable p of None \<Rightarrow> [] | Some e \<Rightarrow> if e = [] then [] else [e])\<rparr>)"

definition default_items :: "host \<Rightarrow> string \<Rightarrow> backend_capability list" where
  "default_items h repo =
     (let src = source_capability h repo; blank = blank_capability h in
     [(blank ''fixture'')\<lparr>evidence := FIXTURE_EXECUTED, available := True, supported := True, tested := True,
        formats := [''fixture''], methods := [''handshake'', ''load'', ''warm'', ''generate'', ''cancel''],
        reason := Some ''bounded deterministic fixture'', artifact_refs := [''tests/local_data_plane/test_daemon.py'']\<rparr>,
      llama_capability h repo,
      src ''mlx-lm'' [''runtime/mlx'', ''scripts/openai_serve.py''] ''engine'' [''safetensors''] [''qwen'', ''llama'']
        (if is_apple h then None else Some ''source present; MLX is unavailable on this host''),
      src ''mlx-native'' [''runtime/mlx/native_mlx_backend.cpp''] ''engine'' [''safetensors''] [''qwen'', ''llama''] None,
      src ''metal-native'' [''runtime/metal''] ''engine'' [''gguf'', ''safetensors''] [] None,
      src ''colibri'' [''engine/c'', ''runtime/moe''] ''engine'' [''safetensors''] [''deepseek'', ''glm'', ''kimi''] None,
      src ''litert-lm'' [''runtime''] ''adapter'' [] [] (Some ''LiteRT provider is not linked in this build''),
      src ''dense-stream'' [''runtime/dense/layer_stream.cpp''] ''engine'' [''stream-container''] []
        (Some ''experimental source path; real-model probe required''),
      (blank ''ollama-proxy'')\<lparr>kind := ''proxy'', device := ''external'', evidence := LINKED,
        available := set_and_nonempty (ollama_host h), supported := True, methods := [''generate''],
        reason := Some ''external proxy; never an engine capability''\<rparr>,
      (blank ''custom-openai'')\<lparr>kind := ''proxy'', device := ''external'', evidence := LINKED,
        available := set_and_nonempty (openai_url h), supported := True, methods := [''generate''],
        reason := Some ''external adapter; never an engine capability''\<rparr>,
      (blank ''turboquant-kv'')\<lparr>kind := ''cache-codec'', evidence := FIXTURE_EXECUTED, available := has_numpy h,
        supported := True, tested := has_numpy h, formats := [''kv-cache'', ''fp32''],
        methods := [''turboquant_compress'', ''turboquant_decompress''],
        reason := Some (if has_numpy h then ''CPU NumPy reference executor'' else ''NumPy is not installed'')\<rparr>,
      turboquant_capability h])"

definition default_registry :: "host \<Rightarrow> string \<Rightarrow> registry res" where
  "default_registry h repo = new_registry (default_items h repo)"

section \<open>Properties\<close>

definition registry_ok :: "registry \<Rightarrow> bool" where
  "registry_ok r = (dict_ok r \<and> list_all (\<lambda>(k, c). backend c = k) r)"

lemma register_ok: "registry_ok r \<Longrightarrow> register r c = Inr r' \<Longrightarrow> registry_ok r' \<and> r' = r @ [(backend c, c)]"
  by (auto simp: register_def registry_ok_def dput_new dict_ok_def split: if_splits)

lemma fold_register:
  "registry_ok r \<Longrightarrow> distinct (dkeys r @ List.map backend cs) \<Longrightarrow>
   fold_res register r cs = Inr (r @ List.map (\<lambda>c. (backend c, c)) cs)"
proof (induction cs arbitrary: r)
  case (Cons c cs)
  have nin: "backend c \<notin> set (dkeys r)" using Cons.prems(2) by auto
  then have r: "register r c = Inr (r @ [(backend c, c)])" by (simp add: register_def dput_new)
  have "registry_ok (r @ [(backend c, c)])" using register_ok[OF Cons.prems(1) r] by simp
  with Cons show ?case by (simp add: r)
qed simp

lemma new_registry_ok: "new_registry cs = Inr r \<Longrightarrow> registry_ok r"
  unfolding new_registry_def
  by (erule fold_res_invariant[where P = registry_ok]) (simp add: registry_ok_def, blast dest: register_ok)

lemma blank_fields [simp]: "backend (blank_capability h b) = b" "available (blank_capability h b) = False"
  by (simp_all add: blank_capability_def)

lemma source_fields [simp]:
  "backend (source_capability h d b ms knd fs fams why) = b"
  "available (source_capability h d b ms knd fs fams why) = False"
  by (simp_all add: source_capability_def Let_def)

lemma llama_fields [simp]:
  "backend (llama_capability h d) = ''llama-cpp''"
  "available (llama_capability h d) \<longleftrightarrow> set_and_nonempty (llama_server h)"
  by (simp_all add: llama_capability_def Let_def set_and_nonempty_def split: option.splits)

lemma turboquant_fields [simp]:
  "backend (turboquant_capability h) = ''llama-cpp-turboquant''"
  "available (turboquant_capability h) = probe_turboquant (host_probe h)"
  by (simp_all add: turboquant_capability_def Let_def)

lemma default_backends:
  "List.map backend (default_items h repo) = [''fixture'', ''llama-cpp'', ''mlx-lm'', ''mlx-native'', ''metal-native'',
     ''colibri'', ''litert-lm'', ''dense-stream'', ''ollama-proxy'', ''custom-openai'', ''turboquant-kv'', ''llama-cpp-turboquant'']"
  by (simp add: default_items_def Let_def)

lemma catalog_backends: "registry_ok r \<Longrightarrow> List.map (\<lambda>d. jget d ''backend'') (catalog r) = List.map PyStr (sort (dkeys r))"
proof -
  assume ok: "registry_ok r"
  have "backend (the (map_of r k)) = k" if k: "k \<in> set (dkeys r)" for k
  proof -
    obtain c where "(k, c) \<in> set r" using k by auto
    then have "map_of r k = Some c" "backend c = k" using ok by (auto simp: registry_ok_def dict_ok_def list_all_iff)
    then show ?thesis by simp
  qed
  then show ?thesis by (simp add: catalog_def capability_dict_def jget_def dget_or_def)
qed

text \<open>
  Building the default registry never fails, whatever the host reports; its catalogue lists
  the twelve backends in alphabetical order, and an engine other than the fixture is available
  only with an executable found on the host (\<open>llama-server\<close> or the TurboQuant probe).
\<close>

theorem default_registry_honest:
  "\<exists>r. default_registry h repo = Inr r
     \<and> List.map (\<lambda>d. jget d ''backend'') (catalog r) = List.map PyStr
         [''colibri'', ''custom-openai'', ''dense-stream'', ''fixture'', ''litert-lm'', ''llama-cpp'',
          ''llama-cpp-turboquant'', ''metal-native'', ''mlx-lm'', ''mlx-native'', ''ollama-proxy'', ''turboquant-kv'']
     \<and> (\<forall>c \<in> snd ` set r. available c \<and> kind c = ''engine'' \<longrightarrow>
          backend c = ''fixture'' \<or> backend c = ''llama-cpp'' \<and> llama_server h \<noteq> None
          \<or> backend c = ''llama-cpp-turboquant'' \<and> probe_turboquant (host_probe h))"
proof -
  let ?items = "default_items h repo"
  let ?r = "List.map (\<lambda>c. (backend c, c)) ?items"
  have d: "distinct (List.map backend ?items)" unfolding default_backends by simp
  have r: "default_registry h repo = Inr ?r"
    using fold_register[of "[]" ?items] d
    by (simp add: default_registry_def new_registry_def registry_ok_def)
  have ok: "registry_ok ?r" using new_registry_ok r by (simp add: default_registry_def)
  have keys: "dkeys ?r = List.map backend ?items" by simp
  have "List.map (\<lambda>d. jget d ''backend'') (catalog ?r) = List.map PyStr (sort (List.map backend ?items))"
    using catalog_backends[OF ok] unfolding keys .
  also have "sort (List.map backend ?items) = [''colibri'', ''custom-openai'', ''dense-stream'', ''fixture'', ''litert-lm'', ''llama-cpp'',
          ''llama-cpp-turboquant'', ''metal-native'', ''mlx-lm'', ''mlx-native'', ''ollama-proxy'', ''turboquant-kv'']"
    unfolding default_backends by code_simp
  finally have cat: "List.map (\<lambda>d. jget d ''backend'') (catalog ?r) = List.map PyStr
         [''colibri'', ''custom-openai'', ''dense-stream'', ''fixture'', ''litert-lm'', ''llama-cpp'',
          ''llama-cpp-turboquant'', ''metal-native'', ''mlx-lm'', ''mlx-native'', ''ollama-proxy'', ''turboquant-kv'']" .
  have "\<forall>c \<in> set ?items. available c \<and> kind c = ''engine'' \<longrightarrow>
          backend c = ''fixture'' \<or> backend c = ''llama-cpp'' \<and> llama_server h \<noteq> None
          \<or> backend c = ''llama-cpp-turboquant'' \<and> probe_turboquant (host_probe h)"
    by (simp add: default_items_def Let_def set_and_nonempty_def)
  then have "\<forall>c \<in> snd ` set ?r. available c \<and> kind c = ''engine'' \<longrightarrow>
          backend c = ''fixture'' \<or> backend c = ''llama-cpp'' \<and> llama_server h \<noteq> None
          \<or> backend c = ''llama-cpp-turboquant'' \<and> probe_turboquant (host_probe h)"
    by (simp add: image_image)
  with r cat show ?thesis by blast
qed

definition demo_host :: host where
  "demo_host = \<lparr>host_system = ''Linux'', host_machine = ''x86_64'', path_exists = (\<lambda>p. True), has_numpy = False,
     ollama_host = None, openai_url = None, llama_server = None,
     host_probe = \<lparr>probe_linked = False, probe_turboquant = False, probe_version = None, probe_reason = None,
       probe_executable = None\<rparr>\<rparr>"

theorem default_registry_honest_witness:
  "\<exists>r. default_registry demo_host ''/repo'' = Inr r
     \<and> (\<forall>c \<in> snd ` set r. available c \<and> kind c = ''engine'' \<longrightarrow> backend c = ''fixture'')"
  using default_registry_honest[of demo_host "''/repo''"] by (auto simp: demo_host_def)

end
