(* ===== verification/Profiles.thy ===== *)
theory Profiles
  imports Registry
begin

text \<open>
  \<open>local_data_plane/profiles.py\<close>: inference profiles, the resolution of a requested TurboQuant
  profile against what a backend can execute, and the quality gate.
\<close>

section \<open>Inference profiles\<close>

record inference_profile =
  storage :: string
  weight_quantization :: string
  kv_quantization :: string
  offload :: string
  speculation :: string
  workload :: string
  experimental :: bool

fun first_unsupported :: "(string \<times> string \<times> string list) list \<Rightarrow> string option" where
  "first_unsupported [] = None"
| "first_unsupported ((name, v, allowed) # rest) = (if v \<in> set allowed then first_unsupported rest else Some name)"

definition validate_profile :: "inference_profile \<Rightarrow> unit res" where
  "validate_profile p =
     (case first_unsupported
        [(''storage'', storage p, [''resident'', ''mmap'', ''expert-stream'', ''layer-stream'']),
         (''weight_quantization'', weight_quantization p, [''native'', ''int8'', ''int4'', ''q4_k_m'', ''turboquant'']),
         (''kv_quantization'', kv_quantization p, [''native'', ''int8'', ''int4'', ''turboquant'']),
         (''offload'', offload p, [''none'', ''cpu'', ''metal'', ''cuda'', ''ane'']),
         (''speculation'', speculation p, [''disabled'', ''mtp'', ''draft'']),
         (''workload'', workload p, [''interactive'', ''background'', ''deep-offline''])] of
        Some name \<Rightarrow> Inl (ValueError (''unsupported '' @ name))
      | None \<Rightarrow>
          if storage p = ''layer-stream'' \<and> workload p = ''interactive''
          then Inl (ValueError ''layer-stream requires explicit background or deep-offline workload'')
          else if storage p = ''expert-stream'' \<and> workload p = ''interactive''
          then Inl (ValueError ''expert-stream is not an interactive profile'')
          else if weight_quantization p = ''turboquant'' \<and> kv_quantization p = ''turboquant''
          then Inl (ValueError ''weight and KV TurboQuant promotion must be evidenced independently'')
          else Inr ())"

section \<open>TurboQuant profiles\<close>

definition TURBOQUANT_PROFILES :: "string list" where
  "TURBOQUANT_PROFILES = [''compatibility'', ''quality'', ''balanced'', ''memory'', ''safe-compressed'']"

record turboquant_capabilities =
  caps_backend :: string
  executor_available :: bool
  weight_profiles :: "string list"
  cache_profiles :: "string list"
  kv_profiles :: "string list"
  caps_evidence :: evidence_level
  caps_reason :: string

definition validate_capabilities :: "turboquant_capabilities \<Rightarrow> unit res" where
  "validate_capabilities c =
     (if strip (caps_backend c) = [] then Inl (ValueError ''TurboQuant capability backend is required'')
      else if \<not> set (weight_profiles c) \<subseteq> set TURBOQUANT_PROFILES then Inl (ValueError ''unsupported TurboQuant weight profile'')
      else if \<not> set (cache_profiles c) \<subseteq> set TURBOQUANT_PROFILES then Inl (ValueError ''unsupported TurboQuant cache profile'')
      else if \<not> set (kv_profiles c) \<subseteq> set TURBOQUANT_PROFILES then Inl (ValueError ''unsupported TurboQuant KV profile'')
      else if \<not> executor_available c \<and> strip (caps_reason c) = []
      then Inl (ValueError ''unavailable TurboQuant capability requires a reason'')
      else Inr ())"

record resolved_profile =
  resolved_requested :: string
  resolved_effective :: string
  resolved_active :: bool
  resolved_degraded :: bool
  resolved_reason :: string
  resolved_backend :: string
  resolved_evidence :: evidence_level

definition resolved_dict :: "resolved_profile \<Rightarrow> (string \<times> pyval) list" where
  "resolved_dict p =
     [(''requested'', PyStr (resolved_requested p)), (''effective'', PyStr (resolved_effective p)),
      (''active'', PyBool (resolved_active p)), (''degraded'', PyBool (resolved_degraded p)),
      (''reason'', PyStr (resolved_reason p)), (''backend'', PyStr (resolved_backend p)),
      (''evidence_level'', PyStr (name_value (resolved_evidence p)))]"

definition resolve_turboquant_profile ::
    "string option \<Rightarrow> turboquant_capabilities \<Rightarrow> bool \<Rightarrow> resolved_profile res" where
  "resolve_turboquant_profile requested c allow_fallback =
     rbind (validate_capabilities c) (\<lambda>_.
     let profile = lower (strip (case requested of None \<Rightarrow> ''compatibility'' | Some r \<Rightarrow> if r = [] then ''compatibility'' else r));
         result = (\<lambda>eff act deg why. \<lparr>resolved_requested = profile, resolved_effective = eff, resolved_active = act,
            resolved_degraded = deg, resolved_reason = why, resolved_backend = caps_backend c,
            resolved_evidence = caps_evidence c\<rparr>) in
     if profile \<notin> set TURBOQUANT_PROFILES
     then Inl (ValueError (''unsupported TurboQuant profile: '' @ repr_str profile))
     else if profile = ''compatibility''
     then Inr (result profile False False ''compatibility profile does not require TurboQuant'')
     else if executor_available c \<and> profile \<in> set (weight_profiles c) \<union> set (cache_profiles c)
     then Inr (result profile True False ''TurboQuant executor and profile are available'')
     else let why = (if caps_reason c = [] then ''requested TurboQuant profile is unavailable'' else caps_reason c) in
     if \<not> allow_fallback
     then Inl (RuntimeError (''TurboQuant profile '' @ repr_str profile @ '' unavailable: '' @ why))
     else Inr (result ''compatibility'' False True (''fallback to compatibility: '' @ why)))"

text \<open>
  A resolved profile is active only when the backend has an executor that supports exactly
  the requested profile; in every other case the effective profile is \<open>compatibility\<close>, it is
  marked degraded exactly when something else was requested, and never without permission.
\<close>

theorem resolved_profile_honest:
  assumes "resolve_turboquant_profile requested c allow = Inr p"
  shows "if resolved_active p
     then executor_available c \<and> resolved_effective p = resolved_requested p \<and> \<not> resolved_degraded p
       \<and> resolved_effective p \<in> (set (weight_profiles c) \<union> set (cache_profiles c)) \<inter> set TURBOQUANT_PROFILES
     else resolved_effective p = ''compatibility''
       \<and> (resolved_degraded p \<longleftrightarrow> resolved_requested p \<noteq> ''compatibility'') \<and> (resolved_degraded p \<longrightarrow> allow)"
proof -
  define profile where
    "profile = lower (strip (case requested of None \<Rightarrow> ''compatibility'' | Some r \<Rightarrow> if r = [] then ''compatibility'' else r))"
  show ?thesis
    using assms unfolding resolve_turboquant_profile_def profile_def[symmetric] Let_def rbind_eq_Inr
    by (clarsimp split: if_splits)
qed

definition demo_caps :: "bool \<Rightarrow> turboquant_capabilities" where
  "demo_caps avail = \<lparr>caps_backend = ''b'', executor_available = avail, weight_profiles = [], cache_profiles = [''quality''],
     kv_profiles = [], caps_evidence = LINKED, caps_reason = ''no executor''\<rparr>"

theorem resolved_profile_honest_witness:
  "\<exists>p. resolve_turboquant_profile (Some '' Quality '') (demo_caps False) True = Inr p
     \<and> resolved_effective p = ''compatibility'' \<and> resolved_degraded p"
proof -
  have "ok_with (resolve_turboquant_profile (Some '' Quality '') (demo_caps False) True)
      (\<lambda>p. \<not> resolved_active p \<and> resolved_requested p \<noteq> ''compatibility'')" by code_simp
  then obtain p where p: "resolve_turboquant_profile (Some '' Quality '') (demo_caps False) True = Inr p"
      "\<not> resolved_active p" "resolved_requested p \<noteq> ''compatibility''" by (blast elim: ok_withE)
  with resolved_profile_honest[OF p(1)] show ?thesis by simp
qed

section \<open>The quality gate\<close>

record turboquant_result =
  tq_requested :: bool
  tq_active :: bool
  tq_evidence :: evidence_level
  tq_reason :: string
  tq_backend :: string
  quality_error :: "pyfloat option"

fun fabs :: "pyfloat \<Rightarrow> pyfloat" where
  "fabs (Fin a) = Fin \<bar>a\<bar>"
| "fabs NegInf = PosInf"
| "fabs x = x"

text \<open>\<open>abs(a - b) / max(1.0, abs(a))\<close>; the divisor is never zero.\<close>

definition relative_error :: "pyfloat \<Rightarrow> pyfloat \<Rightarrow> pyfloat" where
  "relative_error a b = (case fdiv (fabs (fsub a b)) (fmax (Fin 1) (fabs a)) of Some x \<Rightarrow> x | None \<Rightarrow> NaN)"

text \<open>\<open>max\<close> over floats keeps the running value unless the next one compares greater.\<close>

fun max_floats :: "pyfloat \<Rightarrow> pyfloat list \<Rightarrow> pyfloat" where
  "max_floats m [] = m"
| "max_floats m (x # xs) = max_floats (if flt m x then x else m) xs"

definition validate_turboquant ::
    "bool \<Rightarrow> string \<Rightarrow> evidence_level \<Rightarrow> pyfloat list option \<Rightarrow> pyfloat list option \<Rightarrow> pyfloat \<Rightarrow> turboquant_result" where
  "validate_turboquant requested bk ev reference candidate max_err =
     (let result = (\<lambda>r a l why e. \<lparr>tq_requested = r, tq_active = a, tq_evidence = l, tq_reason = why, tq_backend = bk,
            quality_error = e\<rparr>);
          missing = result True False ev ''reference and candidate quality vectors are required'' None in
      if \<not> requested then result False False ev ''not requested'' None
      else if ev < FIXTURE_EXECUTED then result True False ev ''backend has no observed execution evidence'' None
      else case (reference, candidate) of
          (Some rs, Some cs) \<Rightarrow>
            if length rs \<noteq> length cs \<or> rs = [] then missing
            else let errs = map2 relative_error rs cs; e = max_floats (hd errs) (tl errs) in
              if flt max_err e then result True False ev ''quality gate exceeded'' (Some e)
              else result True True (max ev FIXTURE_EXECUTED) ''quality gate passed'' (Some e)
        | _ \<Rightarrow> missing)"

lemma max_floats_bound:
  "m \<noteq> NaN \<Longrightarrow> NaN \<notin> set xs \<Longrightarrow> fle m (max_floats m xs) \<and> (\<forall>x \<in> set xs. fle x (max_floats m xs))"
proof (induction xs arbitrary: m)
  case Nil
  then show ?case by (cases m) (simp_all add: fle_def)
next
  case (Cons x xs)
  let ?m = "if flt m x then x else m"
  have n: "?m \<noteq> NaN" using Cons.prems by auto
  have r: "fle x x" using Cons.prems by (cases x) (auto simp: fle_def)
  have rm: "fle m m" using Cons.prems by (cases m) (auto simp: fle_def)
  have "fle m ?m \<and> fle x ?m"
    using Cons.prems not_flt_imp_fle[of m x] r rm by (cases "flt m x") (auto simp: flt_imp_fle)
  moreover have "fle ?m (max_floats ?m xs)" and rest: "\<forall>y \<in> set xs. fle y (max_floats ?m xs)"
    using Cons.IH[OF n] Cons.prems(2) by auto
  ultimately have "fle m (max_floats ?m xs)" "fle x (max_floats ?m xs)" by (blast intro: fle_trans)+
  with rest show ?case by simp
qed

lemma max_floats_not_NaN: "m \<noteq> NaN \<Longrightarrow> NaN \<notin> set xs \<Longrightarrow> max_floats m xs \<noteq> NaN"
proof (induction xs arbitrary: m)
  case (Cons x xs)
  have "(if flt m x then x else m) \<noteq> NaN" "NaN \<notin> set xs" using Cons.prems by auto
  from Cons.IH[OF this] show ?case by simp
qed simp

text \<open>
  When no relative error is NaN, TurboQuant becomes active only for a requested backend with
  execution evidence and with every element within the error bound.
\<close>

theorem quality_gate_sound:
  assumes "tq_active (validate_turboquant requested bk ev (Some rs) (Some cs) bound)"
    and "NaN \<notin> set (map2 relative_error rs cs)" and "bound \<noteq> NaN"
  shows "requested \<and> FIXTURE_EXECUTED \<le> ev \<and> length rs = length cs
     \<and> list_all2 (\<lambda>a b. fle (relative_error a b) bound) rs cs"
proof -
  have r: "requested" "\<not> ev < FIXTURE_EXECUTED" "length rs = length cs" "rs \<noteq> []"
      "\<not> flt bound (max_floats (hd (map2 relative_error rs cs)) (tl (map2 relative_error rs cs)))"
    using assms(1) by (auto simp: validate_turboquant_def Let_def split: if_splits)
  obtain e es where e: "map2 relative_error rs cs = e # es" using r(3,4) by (cases rs; cases cs) auto
  have nn: "e \<noteq> NaN" "NaN \<notin> set es" using assms(2) e by auto
  have "fle (max_floats e es) bound"
    using r(5) e not_flt_imp_fle[OF assms(3) max_floats_not_NaN[OF nn]] by simp
  then have "\<forall>x \<in> set (e # es). fle x bound"
    using max_floats_bound[OF nn] by (auto intro: fle_trans)
  then have "\<forall>x \<in> set (map2 relative_error rs cs). fle x bound" by (simp add: e)
  then show ?thesis using r by (auto simp: list_all2_iff not_less)
qed

theorem quality_gate_sound_witness:
  "fle (relative_error (Fin 4) (Fin 4)) (lit (2 / 100))
   \<and> tq_active (validate_turboquant True ''b'' LINKED (Some [Fin 4]) (Some [Fin 4]) (lit (2 / 100))) = False"
proof -
  have a: "tq_active (validate_turboquant True ''b'' FIXTURE_EXECUTED (Some [Fin 4]) (Some [Fin 4]) (lit (2 / 100)))"
    by code_simp
  have n: "NaN \<notin> set (map2 relative_error [Fin 4] [Fin 4])" by code_simp
  have b: "lit (2 / 100) \<noteq> NaN" by (simp add: lit_def)
  have "tq_active (validate_turboquant True ''b'' LINKED (Some [Fin 4]) (Some [Fin 4]) (lit (2 / 100))) = False"
    by code_simp
  with quality_gate_sound[OF a n b] show ?thesis by simp
qed

text \<open>
  A candidate vector of NaN passes the quality gate, since NaN does not compare greater than
  the bound.
\<close>

theorem quality_gate_accepts_nan:
  "tq_active (validate_turboquant True ''b'' FIXTURE_EXECUTED (Some [Fin 1]) (Some [NaN]) (lit (2 / 100)))"
  by code_simp

end
