(* ===== verification/Runtime_Bridge.thy ===== *)
theory Runtime_Bridge
  imports Protocol Profiles Binary_Codec
begin

text \<open>
  \<open>local_data_plane/runtime_bridge.py\<close>: a Runtime v2 request is validated, its prompt checked
  against its reference, executed once by the daemon's \<open>generate\<close> and answered with receipts;
  a repeated idempotency key replays the recorded answer.  The daemon is a parameter here (its
  \<open>handle\<close>), instantiated in \<open>Daemon\<close>.
\<close>

section \<open>Errors and checks\<close>

datatype bridge_exc = BridgeError string string | Raised py_exc

type_synonym 'a bres = "bridge_exc + 'a"

definition lift_exc :: "'a res \<Rightarrow> 'a bres" where
  "lift_exc r = (case r of Inl e \<Rightarrow> Inl (Raised e) | Inr x \<Rightarrow> Inr x)"

definition RUNTIME_BACKEND_SCHEMA :: string where
  "RUNTIME_BACKEND_SCHEMA = ''simplicio.inference-backend/v2''"

definition MAX_RUNTIME_OUTPUT_TOKENS :: int where "MAX_RUNTIME_OUTPUT_TOKENS = 4096"
definition MAX_LIST_ITEMS :: nat where "MAX_LIST_ITEMS = 256"

definition check :: "bool \<Rightarrow> string \<Rightarrow> string \<Rightarrow> unit bres" where
  "check b code message = (if b then Inr () else Inl (BridgeError code message))"

lemma check_Inr [simp]: "check b c m = Inr u \<longleftrightarrow> b"
  by (simp add: check_def)

definition required :: "payload \<Rightarrow> string \<Rightarrow> string bres" where
  "required d key = (case jget d key of
      PyStr s \<Rightarrow> if strip s = [] then Inl (BridgeError ''invalid_request'' (key @ '' is required'')) else Inr s
    | _ \<Rightarrow> Inl (BridgeError ''invalid_request'' (key @ '' is required'')))"

definition hex_digest :: "pyval \<Rightarrow> string \<Rightarrow> string bres" where
  "hex_digest v label = (case v of
      PyStr s \<Rightarrow>
        if length s \<noteq> 64 then Inl (BridgeError ''invalid_request'' (label @ '' must be a 64-character hex digest''))
        else if int16 s = None then Inl (BridgeError ''invalid_request'' (label @ '' must be hexadecimal''))
        else Inr s
    | _ \<Rightarrow> Inl (BridgeError ''invalid_request'' (label @ '' must be a 64-character hex digest'')))"

definition int_above :: "int \<Rightarrow> pyval \<Rightarrow> bool" where
  "int_above lo v = (case py_int v of Some n \<Rightarrow> lo < n | None \<Rightarrow> False)"

definition opt_number_in :: "pyfloat \<Rightarrow> pyfloat \<Rightarrow> pyval \<Rightarrow> bool" where
  "opt_number_in lo hi v = (v = PyNone \<or> (case py_number v of Some x \<Rightarrow> fle lo x \<and> fle x hi | None \<Rightarrow> False))"

text \<open>\<open>temperature is not None and (not a number or temperature < 0)\<close> is the refusal.\<close>

definition temperature_ok :: "pyval \<Rightarrow> bool" where
  "temperature_ok v = (v = PyNone \<or> (case py_number v of Some x \<Rightarrow> \<not> flt x (Fin 0) | None \<Rightarrow> False))"

definition mapping :: "pyval \<Rightarrow> string \<Rightarrow> payload bres" where
  "mapping v message = (case v of PyDict d \<Rightarrow> Inr d | _ \<Rightarrow> Inl (BridgeError ''invalid_request'' message))"

section \<open>Requests\<close>

record runtime_request =
  payload :: payload
  request_id :: string
  correlation_id :: string
  idempotency_key :: string
  owner :: string
  lease_id :: string
  fence :: pyval
  prompt :: payload
  limits :: payload
  intents :: payload
  deadline :: pyval
  cancellation_token :: string

definition intent_values :: "(string \<times> string list) list" where
  "intent_values =
     [(''weights_profile'', [''compatibility'', ''quality'', ''balanced'', ''memory'']),
      (''cache_profile'', [''compatibility'', ''quality'', ''balanced'', ''memory'']),
      (''storage_profile'', [''resident'', ''mmap'', ''expert_stream'', ''layer_stream'', ''auto'']),
      (''device_profile'', [''cpu'', ''metal'', ''mlx'', ''cuda'', ''vulkan'', ''npu'', ''auto'']),
      (''workload_class'', [''interactive'', ''background'', ''batch'', ''deep_offline''])]"

definition check_intent :: "payload \<Rightarrow> unit \<Rightarrow> string \<times> string list \<Rightarrow> unit bres" where
  "check_intent d u kv = rbind (lift_exc (in_names (jget d (fst kv)) (snd kv))) (\<lambda>b.
     check b ''invalid_intent'' (''unsupported intents.'' @ fst kv))"

definition parse_prompt :: "pyval \<Rightarrow> payload bres" where
  "parse_prompt v =
     rbind (mapping v ''prompt reference is required'') (\<lambda>p.
     rbind (required p ''locator'') (\<lambda>_.
     rbind (hex_digest (jget p ''sha256'') ''prompt.sha256'') (\<lambda>_.
     rbind (check (int_above (-1) (jget p ''byte_len'')) ''invalid_request'' ''prompt.byte_len must be non-negative'') (\<lambda>_.
       Inr p))))"

definition parse_limits :: "pyval \<Rightarrow> payload bres" where
  "parse_limits v =
     rbind (mapping v ''generation limits are required'') (\<lambda>l.
     rbind (check (int_above 0 (jget l ''max_output_tokens'')
              \<and> \<not> int_above MAX_RUNTIME_OUTPUT_TOKENS (jget l ''max_output_tokens''))
            ''invalid_argument'' ''max_output_tokens is outside the Local bound'') (\<lambda>_.
     rbind (check (temperature_ok (jget l ''temperature'')) ''invalid_argument'' ''temperature must be non-negative'') (\<lambda>_.
     rbind (check (opt_number_in (Fin 0) (Fin 1) (jget l ''top_p'')) ''invalid_argument'' ''top_p must be between 0 and 1'') (\<lambda>_.
     rbind (check (case dget_or l ''stop_sequences'' (PyList []) of
                PyList xs \<Rightarrow> length xs \<le> MAX_LIST_ITEMS \<and> list_all (\<lambda>x. py_string x \<noteq> None) xs | _ \<Rightarrow> False)
            ''invalid_argument'' ''stop_sequences is outside the bounded range'') (\<lambda>_.
       Inr l)))))"

definition parse_intents :: "pyval \<Rightarrow> payload bres" where
  "parse_intents v =
     rbind (mapping v ''inference intents are required'') (\<lambda>i.
     rbind (fold_res (check_intent i) () intent_values) (\<lambda>_.
     rbind (check (opt_number_in (Fin 0) (Fin 1) (jget i ''quality_floor'')) ''invalid_intent'' ''quality_floor must be between 0 and 1'') (\<lambda>_.
     rbind (check (jget i ''max_context'' = PyNone \<or> int_above 0 (jget i ''max_context'')) ''invalid_intent'' ''max_context must be positive'') (\<lambda>_.
     rbind (check (py_bool (jget i ''allow_fallback'') \<noteq> None) ''invalid_intent'' ''allow_fallback must be boolean'') (\<lambda>_.
       Inr i)))))"

definition parse :: "int \<Rightarrow> pyval \<Rightarrow> runtime_request bres" where
  "parse now v =
     rbind (case v of PyDict d \<Rightarrow> Inr d | _ \<Rightarrow> Inl (BridgeError ''invalid_request'' ''Runtime request must be an object'')) (\<lambda>d.
     rbind (check (jget d ''schema'' = PyStr RUNTIME_BACKEND_SCHEMA) ''invalid_schema'' ''request schema is not inference-backend/v2'') (\<lambda>_.
     rbind (required d ''request_id'') (\<lambda>rid.
     rbind (required d ''correlation_id'') (\<lambda>cid.
     rbind (required d ''idempotency_key'') (\<lambda>ikey.
     rbind (required d ''owner'') (\<lambda>own.
     rbind (required d ''lease_id'') (\<lambda>lease.
     rbind (required d ''cancellation_token'') (\<lambda>token.
     rbind (check (int_above 0 (jget d ''fence'') \<and> int_above 0 (jget d ''deadline_unix_ms'')) ''invalid_request'' ''request fence and deadline are required'') (\<lambda>_.
     rbind (check (int_above now (jget d ''deadline_unix_ms'')) ''deadline_expired'' ''Runtime inference deadline has expired'') (\<lambda>_.
     rbind (parse_prompt (jget d ''prompt'')) (\<lambda>p.
     rbind (parse_limits (jget d ''limits'')) (\<lambda>l.
     rbind (parse_intents (jget d ''intents'')) (\<lambda>i.
     rbind (check (jget d ''turboquant_profile'' = PyNone \<or> py_string (jget d ''turboquant_profile'') \<noteq> None)
            ''invalid_intent'' ''turboquant_profile must be a string'') (\<lambda>_.
       Inr \<lparr>payload = d, request_id = rid, correlation_id = cid, idempotency_key = ikey, owner = own, lease_id = lease,
            fence = jget d ''fence'', prompt = p, limits = l, intents = i, deadline = jget d ''deadline_unix_ms'',
            cancellation_token = token\<rparr>))))))))))))))"

definition prompt_text :: "runtime_request \<Rightarrow> string bres" where
  "prompt_text r = (case jget (payload r) ''prompt_text'' of
      PyStr s \<Rightarrow>
        rbind (check (py_int (jget (prompt r) ''byte_len'') = Some (int (length (utf8_bytes s)))
                 \<and> jget (prompt r) ''sha256'' = PyStr (sha256_hex (utf8_bytes s)))
               ''prompt_integrity_failure'' ''prompt_text does not match its Runtime reference'') (\<lambda>_. Inr s)
    | _ \<Rightarrow> Inl (BridgeError ''prompt_unavailable'' ''Local requires Runtime-resolved prompt_text''))"

section \<open>Receipts\<close>

definition metrics_from_local :: "payload \<Rightarrow> (string \<times> payload) list" where
  "metrics_from_local rc =
     concat (List.map (\<lambda>(name, v). case v of
        PyDict m \<Rightarrow> [(name, [(''value'', jget m ''value''), (''unit'', dget_or m ''unit'' (PyStr ''unknown'')),
           (''source'', py_or (jget m ''source'') (PyStr ''local-unknown'')), (''reason'', jget m ''reason'')])]
      | _ \<Rightarrow> []) (as_dict (jget rc ''metrics'')))"

definition metric_list :: "payload \<Rightarrow> pyval" where
  "metric_list rc = PyList (List.map (\<lambda>(name, m). PyDict [(''name'', PyStr name), (''metric'', PyDict m)]) (metrics_from_local rc))"

definition output_hash :: "payload \<Rightarrow> pyval" where
  "output_hash rc = py_or (jget (as_dict (jget rc ''redaction'')) ''output_sha256'') PyNone"

definition terminal_ok :: "payload \<Rightarrow> bool" where
  "terminal_ok t = truthy (dget_or t ''ok'' (PyBool False))"

definition failure_reason :: "payload \<Rightarrow> pyval" where
  "failure_reason t = (if terminal_ok t then PyNone else jget (as_dict (jget t ''error'')) ''message'')"

definition status_text :: "payload \<Rightarrow> pyval" where
  "status_text t = PyStr (if terminal_ok t then ''completed'' else ''failed'')"

definition runtime_event :: "runtime_request \<Rightarrow> payload \<Rightarrow> payload \<Rightarrow> pyval" where
  "runtime_event r t rc = PyDict
     [(''schema'', PyStr RUNTIME_BACKEND_SCHEMA), (''request_id'', PyStr (request_id r)),
      (''correlation_id'', PyStr (correlation_id r)), (''kind'', PyStr ''terminal''), (''sequence'', PyInt 1),
      (''terminal_status'', status_text t), (''observed_metrics'', metric_list rc),
      (''output_hash'', output_hash rc), (''reason'', failure_reason t)]"

definition effective_backend_text :: "payload \<Rightarrow> string" where
  "effective_backend_text t = py_str (py_or (jget t ''effective_backend'') (py_or (jget t ''requested_backend'') (PyStr ''unknown'')))"

definition with_hash :: "payload \<Rightarrow> payload" where
  "with_hash d = d @ [(''receipt_hash'', PyStr (unicode_digest (PyDict d)))]"

definition physical_receipt :: "runtime_request \<Rightarrow> payload \<Rightarrow> payload \<Rightarrow> resolved_profile \<Rightarrow> payload" where
  "physical_receipt r t rc prof =
     (let model = py_str (py_or (jget (payload r) ''effective_model'') (py_or (jget (payload r) ''model_id'')
                    (py_or (jget (as_dict (jget rc ''identity'')) ''model'') (PyStr ''unknown'')))) in
      with_hash
        [(''schema'', PyStr ''simplicio.local.physical-receipt/v1''), (''request_id'', PyStr (request_id r)),
         (''correlation_id'', PyStr (correlation_id r)), (''lease_id'', PyStr (lease_id r)), (''fence'', fence r),
         (''owner'', PyStr (owner r)), (''backend_hash'', PyStr (unicode_digest (PyStr (effective_backend_text t)))),
         (''model_hash'', PyStr (unicode_digest (PyStr model))),
         (''profile_hash'', PyStr (unicode_digest (PyDict (resolved_dict prof)))),
         (''effect_authority'', PyStr ''none''), (''metrics'', metric_list rc), (''output_hash'', output_hash rc),
         (''terminal_status'', status_text t), (''failure_reason'', failure_reason t)])"

definition hex_or_digest :: "pyval \<Rightarrow> pyval \<Rightarrow> string" where
  "hex_or_digest v fallback = (case v of
      PyStr s \<Rightarrow> if length s = 64 \<and> int16 s \<noteq> None then s else unicode_digest fallback
    | _ \<Rightarrow> unicode_digest fallback)"

definition runtime_receipt :: "runtime_request \<Rightarrow> payload \<Rightarrow> payload \<Rightarrow> payload \<Rightarrow> resolved_profile \<Rightarrow> payload" where
  "runtime_receipt r t rc phys prof =
     (let p = payload r; get = (\<lambda>k d. PyStr (py_str (py_or (jget p k) (PyStr d))));
          be_text = effective_backend_text t;
          model = py_str (py_or (jget p ''effective_model'') (py_or (jget p ''model_id'') (PyStr ''unknown'')));
          hash = jget phys ''receipt_hash'' in
      with_hash
        [(''schema'', PyStr ''simplicio.inference-receipt/v2''),
         (''runtime'', PyDict
            [(''request_id'', PyStr (request_id r)), (''correlation_id'', PyStr (correlation_id r)),
             (''attempt_id'', get ''attempt_id'' (request_id r)),
             (''coordinator_kind'', get ''coordinator_kind'' ''simplicio-runtime''),
             (''owner'', PyStr (owner r)), (''lease_id'', PyStr (lease_id r)), (''fence'', fence r),
             (''route_decision_digest'', PyStr (hex_or_digest (jget p ''route_decision_digest'') (jget p ''backend''))),
             (''policy_revision'', get ''policy_revision'' ''unversioned''),
             (''admission_digest'', PyStr (hex_or_digest (jget p ''admission_digest'')
                (PyDict [(''lease_id'', PyStr (lease_id r)), (''fence'', fence r)]))),
             (''requested_lane'', get ''requested_lane'' ''local_hot''), (''effective_lane'', PyStr ''local_hot''),
             (''requested_model'', get ''requested_model'' model), (''effective_model'', PyStr model),
             (''requested_backend'', get ''requested_backend'' be_text), (''effective_backend'', PyStr be_text),
             (''profile_hash'', PyStr (hex_or_digest (jget p ''profile_hash'') (PyDict (intents r))))]),
         (''local_receipt_hash'', PyStr (unicode_digest (PyDict rc))), (''physical_receipt_hash'', hash),
         (''status'', status_text t),
         (''metrics'', PyList (List.map (\<lambda>(name, m). PyDict (m @ [(''name'', PyStr name)])) (metrics_from_local rc))),
         (''estimate_observed_delta'', PyDict []), (''output_hash'', output_hash rc),
         (''failure_reason'', failure_reason t),
         (''evidence_refs'', py_strs [''local-physical-receipt:'' @ py_str hash]),
         (''previous_receipt_hash'', PyNone), (''profile_resolution'', PyDict (resolved_dict prof))])"

section \<open>One generation\<close>

type_synonym replays = "(string \<times> string \<times> event list) list"

datatype action = Replay "event list" | Run runtime_request string resolved_profile payload

definition mark_replayed :: "event list \<Rightarrow> event list" where
  "mark_replayed evs = butlast evs @ [(fst (last evs), dput ''replayed'' (PyBool True) (snd (last evs)))]"

definition requested_of :: "runtime_request \<Rightarrow> pyval" where
  "requested_of r = py_or (jget (payload r) ''backend'') (jget (payload r) ''requested_backend'')"

definition local_request :: "runtime_request \<Rightarrow> string \<Rightarrow> resolved_profile \<Rightarrow> payload" where
  "local_request r text prof =
     [(''method'', PyStr ''generate''), (''prompt'', PyStr text),
      (''max_tokens'', jget (limits r) ''max_output_tokens''), (''profile'', jget (intents r) ''cache_profile''),
      (''turboquant_profile'', PyStr (resolved_effective prof))]
     @ (if jget (payload r) ''handle_id'' = PyNone then [] else [(''handle_id'', jget (payload r) ''handle_id'')])
     @ (if requested_of r = PyNone then [] else [(''backend'', requested_of r)])"

text \<open>\<open>except (RuntimeError, ValueError)\<close> around the profile resolution.\<close>

definition profile_or_refuse :: "resolved_profile res \<Rightarrow> resolved_profile bres" where
  "profile_or_refuse x = (case x of
      Inl e \<Rightarrow> if is_runtime_error e \<or> is_value_error e then Inl (BridgeError ''profile_unavailable'' (exc_message e))
        else Inl (Raised e)
    | Inr prof \<Rightarrow> Inr prof)"

definition bridge_prepare ::
    "int \<Rightarrow> turboquant_capabilities \<Rightarrow> turboquant_capabilities \<Rightarrow> pyval \<Rightarrow> replays \<Rightarrow> action bres" where
  "bridge_prepare now caps model_caps v reps =
     rbind (parse now v) (\<lambda>r.
     let digest = unicode_digest (PyDict (payload r)) in
     case map_of reps (idempotency_key r) of
       Some (d, cached) \<Rightarrow>
         if d \<noteq> digest
         then Inl (BridgeError ''idempotency_conflict'' ''idempotency_key was reused with a different request'')
         else Inr (Replay (mark_replayed cached))
     | None \<Rightarrow>
         rbind (prompt_text r) (\<lambda>text.
         rbind (lift_exc (in_names (requested_of r) [''turboquant'', ''llama-cpp-turboquant''])) (\<lambda>tq.
         rbind (profile_or_refuse (resolve_turboquant_profile (py_string (jget (payload r) ''turboquant_profile''))
                  (if tq then model_caps else caps) (py_bool (jget (intents r) ''allow_fallback'') = Some True))) (\<lambda>prof.
           Inr (Run r digest prof (local_request r text prof))))))"

definition bridge_result :: "runtime_request \<Rightarrow> resolved_profile \<Rightarrow> payload \<Rightarrow> event list" where
  "bridge_result r prof t =
     (let rc = as_dict (jget t ''receipt''); ev = runtime_event r t rc; phys = physical_receipt r t rc prof;
          run = runtime_receipt r t rc phys prof;
          ids = [(''request_id'', PyStr (request_id r)), (''correlation_id'', PyStr (correlation_id r)),
                 (''lease_id'', PyStr (lease_id r)), (''fence'', fence r)];
          tail = [(''runtime_event'', ev), (''runtime_receipt'', PyDict run), (''local_physical_receipt'', PyDict phys)];
          frame = (EVENT, [(''method'', PyStr ''runtime_generate''), (''event'', ev)]) in
      if terminal_ok t then
        [frame, (RESPONSE, ok ''runtime_generate'' (ids @ [(''text'', dget_or t ''text'' (PyStr [])),
           (''generated_tokens'', dget_or t ''generated_tokens'' (PyInt 0))] @ tail))]
      else let failure = as_dict (jget t ''error'') in
        [frame, (ERROR, error ''runtime_generate'' (py_str (py_or (jget failure ''code'') (PyStr ''backend_error'')))
           (py_str (py_or (jget failure ''message'') (PyStr ''physical backend failed''))) (ids @ tail))])"

definition bridge_generate ::
    "int \<Rightarrow> turboquant_capabilities \<Rightarrow> turboquant_capabilities \<Rightarrow> (payload \<Rightarrow> 'd \<Rightarrow> event list res \<times> 'd)
      \<Rightarrow> pyval \<Rightarrow> replays \<Rightarrow> 'd \<Rightarrow> event list res \<times> replays \<times> 'd" where
  "bridge_generate now caps model_caps daemon_handle v reps d =
     (case bridge_prepare now caps model_caps v reps of
       Inl (BridgeError code message) \<Rightarrow> (Inr [(ERROR, error ''runtime_generate'' code message [])], reps, d)
     | Inl (Raised e) \<Rightarrow> (Inl e, reps, d)
     | Inr (Replay evs) \<Rightarrow> (Inr evs, reps, d)
     | Inr (Run r digest prof req) \<Rightarrow>
         (case daemon_handle req d of
           (Inl e, d') \<Rightarrow> (Inl e, reps, d')
         | (Inr [], d') \<Rightarrow> (Inl (IndexError ''list index out of range''), reps, d')
         | (Inr evs, d') \<Rightarrow>
             let result = bridge_result r prof (snd (last evs))
             in (Inr result, dput (idempotency_key r) (digest, result) reps, d')))"

section \<open>Digests are accepted as digests\<close>

lemma hex_alphabet_value:
  "c \<in> set hex_alphabet \<Longrightarrow> (\<exists>d. digit_value c = Some d \<and> d < 16) \<and> c \<noteq> CHR ''_'' \<and> c \<noteq> CHR ''x'' \<and> c \<noteq> CHR ''X''
     \<and> c \<noteq> CHR ''-'' \<and> c \<noteq> CHR ''+'' \<and> \<not> is_space c"
  by (auto simp: hex_alphabet_def digit_value_def is_space_def)

lemma digits_value_hex: "set s \<subseteq> set hex_alphabet \<Longrightarrow> b \<or> s \<noteq> [] \<Longrightarrow> digits_value 16 acc b s \<noteq> None"
proof (induction s arbitrary: acc b)
  case (Cons c s)
  then have "c \<in> set hex_alphabet" by simp
  from hex_alphabet_value[OF this] obtain d where "digit_value c = Some d" "d < 16" "c \<noteq> CHR ''_''" by blast
  with Cons show ?case by simp
qed simp

lemma strip_hex: "set s \<subseteq> set hex_alphabet \<Longrightarrow> strip s = s"
proof -
  assume h: "set s \<subseteq> set hex_alphabet"
  have d: "dropWhile is_space t = t" if "set t \<subseteq> set hex_alphabet" for t
    using that hex_alphabet_value by (cases t) auto
  show ?thesis using d[OF h] d[of "rev s"] h by (simp add: strip_def)
qed

lemma int16_hex: "set s \<subseteq> set hex_alphabet \<Longrightarrow> s \<noteq> [] \<Longrightarrow> int16 s \<noteq> None"
proof -
  assume h: "set s \<subseteq> set hex_alphabet" and "s \<noteq> []"
  then obtain c cs where s: "s = c # cs" by (cases s) auto
  have sg: "split_sign s = (1, s)" using h hex_alphabet_value[of c] by (auto simp: s)
  have x: "drop_0x s = s"
    using h hex_alphabet_value by (cases "s" rule: drop_0x.cases) auto
  show ?thesis
    using digits_value_hex[OF h, of False 0] \<open>s \<noteq> []\<close> by (simp add: int16_def strip_hex[OF h] sg x)
qed

lemma hex_digest_sha256: "hex_digest (PyStr (sha256_hex m)) label = Inr (sha256_hex m)"
proof -
  have "sha256_hex m \<noteq> []" by (metis sha256_hex_length list.size(3) zero_neq_numeral)
  then show ?thesis using int16_hex[OF sha256_hex_digits] by (simp add: hex_digest_def)
qed

section \<open>Properties\<close>

text \<open>What the prompt check establishes.\<close>

lemma prompt_text_ok:
  "prompt_text r = Inr s \<Longrightarrow> jget (payload r) ''prompt_text'' = PyStr s
     \<and> jget (prompt r) ''sha256'' = PyStr (sha256_hex (utf8_bytes s))
     \<and> py_int (jget (prompt r) ''byte_len'') = Some (int (length (utf8_bytes s)))"
  by (auto simp: prompt_text_def split: pyval.splits)

lemma parse_payload: "parse now v = Inr r \<Longrightarrow> v = PyDict (payload r)"
  unfolding parse_def by (cases v) auto

lemma prepare_run:
  assumes "bridge_prepare now caps mcaps v reps = Inr (Run r digest prof req)"
  shows "parse now v = Inr r \<and> digest = unicode_digest (PyDict (payload r)) \<and> map_of reps (idempotency_key r) = None
     \<and> (\<exists>text. prompt_text r = Inr text \<and> req = local_request r text prof)"
proof -
  obtain r' where p: "parse now v = Inr r'" using assms unfolding bridge_prepare_def rbind_eq_Inr by blast
  show ?thesis
  proof (cases "map_of reps (idempotency_key r')")
    case None
    then show ?thesis using assms p unfolding bridge_prepare_def Let_def rbind_eq_Inr by auto
  next
    case (Some dc)
    then show ?thesis using assms p by (cases dc) (simp add: bridge_prepare_def Let_def split: if_splits)
  qed
qed

lemma parse_any_time: "parse now v = Inr r \<Longrightarrow> int_above now' (deadline r) \<Longrightarrow> parse now' v = Inr r"
  unfolding parse_def rbind_eq_Inr by (elim exE conjE) (auto simp: check_def)

lemma generate_run:
  assumes "bridge_prepare now caps mcaps v reps = Inr (Run r digest prof req)"
    and "bridge_generate now caps mcaps h v reps d = (res, reps', d')"
  shows "d' = snd (h req d) \<and> reps' = (case res of Inr evs \<Rightarrow> dput (idempotency_key r) (digest, evs) reps | Inl e \<Rightarrow> reps)"
  using assms(2) by (auto simp: bridge_generate_def assms(1) Let_def split: prod.splits sum.splits list.splits)

text \<open>
  C2: the bridge changes the daemon, or its record of answers, only through a request whose prompt is
  exactly the text its reference names by SHA-256 and length, before its deadline, under an idempotency
  key with no recorded answer; the answer is then recorded under that key with the digest of the request,
  and when the daemon raises, nothing is.
\<close>

theorem bridge_runs_only_verified_prompts:
  assumes "bridge_generate now caps mcaps h v reps d = (res, reps', d')" and "(reps', d') \<noteq> (reps, d)"
  shows "\<exists>r text prof. parse now v = Inr r \<and> map_of reps (idempotency_key r) = None
     \<and> int_above now (deadline r) \<and> jget (payload r) ''prompt_text'' = PyStr text
     \<and> jget (prompt r) ''sha256'' = PyStr (sha256_hex (utf8_bytes text))
     \<and> py_int (jget (prompt r) ''byte_len'') = Some (int (length (utf8_bytes text)))
     \<and> d' = snd (h (local_request r text prof) d)
     \<and> (case res of Inl e \<Rightarrow> reps' = reps
          | Inr evs \<Rightarrow> \<forall>k. map_of reps' k =
              (if k = idempotency_key r then Some (unicode_digest (PyDict (payload r)), evs) else map_of reps k))"
proof -
  obtain a where a: "bridge_prepare now caps mcaps v reps = Inr a"
    using assms by (auto simp: bridge_generate_def split: sum.splits bridge_exc.splits)
  obtain r digest prof req where a: "bridge_prepare now caps mcaps v reps = Inr (Run r digest prof req)"
    using assms a by (cases a) (auto simp: bridge_generate_def)
  note run = prepare_run[OF a] and g = generate_run[OF a assms(1)]
  then obtain s where t: "prompt_text r = Inr s" "req = local_request r s prof" by blast
  have "int_above now (deadline r)" using run unfolding parse_def by auto
  with run prompt_text_ok[OF t(1)] t(2) g show ?thesis
    by (intro exI[of _ r] exI[of _ s] exI[of _ prof]) (auto simp: map_of_dput split: sum.splits)
qed

definition demo_prompt :: "string \<Rightarrow> payload" where
  "demo_prompt h = [(''locator'', PyStr ''mem:1''), (''sha256'', PyStr h), (''byte_len'', PyInt 2)]"

definition demo_limits :: payload where
  "demo_limits = [(''max_output_tokens'', PyInt 4)]"

definition demo_intents :: payload where
  "demo_intents = [(''weights_profile'', PyStr ''compatibility''), (''cache_profile'', PyStr ''compatibility''),
     (''storage_profile'', PyStr ''auto''), (''device_profile'', PyStr ''cpu''), (''workload_class'', PyStr ''batch''),
     (''allow_fallback'', PyBool True)]"

definition demo_payload :: "string \<Rightarrow> payload" where
  "demo_payload h = [(''schema'', PyStr ''simplicio.inference-backend/v2''), (''request_id'', PyStr ''r1''),
     (''correlation_id'', PyStr ''c1''), (''idempotency_key'', PyStr ''k1''), (''owner'', PyStr ''o''),
     (''lease_id'', PyStr ''l''), (''cancellation_token'', PyStr ''t''), (''fence'', PyInt 1),
     (''deadline_unix_ms'', PyInt 10), (''prompt'', PyDict (demo_prompt h)), (''limits'', PyDict demo_limits),
     (''intents'', PyDict demo_intents), (''prompt_text'', PyStr ''hi'')]"

definition hi_digest :: string where
  "hi_digest = sha256_hex (utf8_bytes ''hi'')"

lemma demo_fields:
  "required (demo_payload h) ''request_id'' = Inr ''r1''" "required (demo_payload h) ''correlation_id'' = Inr ''c1''"
  "required (demo_payload h) ''idempotency_key'' = Inr ''k1''" "required (demo_payload h) ''owner'' = Inr ''o''"
  "required (demo_payload h) ''lease_id'' = Inr ''l''" "required (demo_payload h) ''cancellation_token'' = Inr ''t''"
  "required (demo_prompt h) ''locator'' = Inr ''mem:1''"
  "jget (demo_payload h) ''schema'' = PyStr RUNTIME_BACKEND_SCHEMA"
  "jget (demo_payload h) ''fence'' = PyInt 1" "jget (demo_payload h) ''deadline_unix_ms'' = PyInt 10"
  "jget (demo_payload h) ''prompt'' = PyDict (demo_prompt h)" "jget (demo_payload h) ''limits'' = PyDict demo_limits"
  "jget (demo_payload h) ''intents'' = PyDict demo_intents" "jget (demo_payload h) ''prompt_text'' = PyStr ''hi''"
  "jget (demo_payload h) ''turboquant_profile'' = PyNone" "jget (demo_payload h) ''backend'' = PyNone"
  "jget (demo_payload h) ''requested_backend'' = PyNone" "jget (demo_payload h) ''handle_id'' = PyNone"
  "jget (demo_prompt h) ''sha256'' = PyStr h" "jget (demo_prompt h) ''byte_len'' = PyInt 2"
  by code_simp+

lemma demo_parts:
  "parse_limits (PyDict demo_limits) = Inr demo_limits" "parse_intents (PyDict demo_intents) = Inr demo_intents"
  by code_simp+

lemma demo_parse:
  "parse 5 (PyDict (demo_payload hi_digest)) =
     Inr \<lparr>payload = demo_payload hi_digest, request_id = ''r1'', correlation_id = ''c1'', idempotency_key = ''k1'',
       owner = ''o'', lease_id = ''l'', fence = PyInt 1, prompt = demo_prompt hi_digest, limits = demo_limits,
       intents = demo_intents, deadline = PyInt 10, cancellation_token = ''t''\<rparr>"
proof -
  have h: "hex_digest (PyStr hi_digest) l = Inr hi_digest" for l
    unfolding hi_digest_def by (rule hex_digest_sha256)
  have "parse_prompt (PyDict (demo_prompt hi_digest)) = Inr (demo_prompt hi_digest)"
    by (simp add: parse_prompt_def mapping_def demo_fields h check_def int_above_def)
  then show ?thesis by (simp add: parse_def demo_fields demo_parts check_def int_above_def)
qed

lemma demo_run:
  "\<exists>r digest prof req. bridge_prepare 5 (demo_caps False) (demo_caps False) (PyDict (demo_payload hi_digest)) [] = Inr (Run r digest prof req)"
proof -
  let ?c = "demo_caps False"
  let ?r = "\<lparr>payload = demo_payload hi_digest, request_id = ''r1'', correlation_id = ''c1'', idempotency_key = ''k1'',
       owner = ''o'', lease_id = ''l'', fence = PyInt 1, prompt = demo_prompt hi_digest, limits = demo_limits,
       intents = demo_intents, deadline = PyInt 10, cancellation_token = ''t''\<rparr>"
  have u: "length (utf8_bytes ''hi'') = 2" by code_simp
  have t: "prompt_text ?r = Inr ''hi''"
    by (simp add: prompt_text_def demo_fields u hi_digest_def[symmetric] check_def)
  have q: "requested_of ?r = PyNone" by (simp add: requested_of_def demo_fields py_or_def)
  have n: "in_names PyNone [''turboquant'', ''llama-cpp-turboquant''] = Inr False" by (simp add: in_names_def)
  have b: "py_bool (jget demo_intents ''allow_fallback'') = Some True" by code_simp
  have "ok_with (resolve_turboquant_profile None ?c True) (\<lambda>p. True)" by code_simp
  then obtain p where p: "resolve_turboquant_profile None ?c True = Inr p" by (blast elim: ok_withE)
  have "bridge_prepare 5 ?c ?c (PyDict (demo_payload hi_digest)) []
      = Inr (Run ?r (unicode_digest (PyDict (demo_payload hi_digest))) p (local_request ?r ''hi'' p))"
    unfolding bridge_prepare_def demo_parse rbind.simps Let_def t q n
    by (simp add: demo_fields b p lift_exc_def profile_or_refuse_def)
  then show ?thesis by blast
qed

theorem bridge_runs_only_verified_prompts_witness:
  "\<exists>r. parse 5 (PyDict (demo_payload hi_digest)) = Inr r \<and> int_above 5 (deadline r)"
proof -
  let ?h = "\<lambda>req (n::nat). (Inr [(RESPONSE, [(''ok'', PyBool True)])], Suc n) :: event list res \<times> nat"
  obtain r digest prof req where p: "bridge_prepare 5 (demo_caps False) (demo_caps False) (PyDict (demo_payload hi_digest)) []
      = Inr (Run r digest prof req)" using demo_run by blast
  obtain res reps' d' where g: "bridge_generate 5 (demo_caps False) (demo_caps False) ?h (PyDict (demo_payload hi_digest)) [] 0
      = (res, reps', d')" by (metis prod_cases3)
  have "d' = Suc 0" using g by (simp add: bridge_generate_def p Let_def)
  then have "(reps', d') \<noteq> ([], 0)" by simp
  from bridge_runs_only_verified_prompts[OF g this] show ?thesis by blast
qed

text \<open>The keys under which a series of calls asks the daemon, each with its own clock and capabilities.\<close>

fun asked_keys :: "(payload \<Rightarrow> 'd \<Rightarrow> event list res \<times> 'd)
    \<Rightarrow> (int \<times> turboquant_capabilities \<times> turboquant_capabilities \<times> pyval) list \<Rightarrow> replays \<Rightarrow> 'd \<Rightarrow> string list" where
  "asked_keys h [] reps d = []"
| "asked_keys h ((now, caps, mcaps, v) # calls) reps d =
     (case bridge_prepare now caps mcaps v reps of Inr (Run r digest prof req) \<Rightarrow> [idempotency_key r] | _ \<Rightarrow> [])
     @ (case bridge_generate now caps mcaps h v reps d of (res, reps', d') \<Rightarrow> asked_keys h calls reps' d')"

lemma recorded_key_kept:
  assumes "bridge_generate now caps mcaps h v reps d = (res, reps', d')" and "map_of reps k = Some x"
  shows "map_of reps' k = Some x"
proof (cases "\<exists>r digest prof req. bridge_prepare now caps mcaps v reps = Inr (Run r digest prof req)")
  case True
  then obtain r digest prof req where a: "bridge_prepare now caps mcaps v reps = Inr (Run r digest prof req)" by blast
  then have "idempotency_key r \<noteq> k" using prepare_run[OF a] assms(2) by auto
  then show ?thesis using generate_run[OF a assms(1)] assms(2) by (auto simp: map_of_dput split: sum.splits)
next
  case False
  then have "reps' = reps"
    using assms(1) by (auto simp: bridge_generate_def split: sum.splits bridge_exc.splits action.splits)
  then show ?thesis using assms(2) by simp
qed

lemma recorded_key_not_asked: "map_of reps k = Some x \<Longrightarrow> k \<notin> set (asked_keys h calls reps d)"
proof (induction h calls reps d rule: asked_keys.induct)
  case (2 h now caps mcaps v calls reps d)
  obtain res reps' d' where g: "bridge_generate now caps mcaps h v reps d = (res, reps', d')" by (metis prod_cases3)
  have "k \<notin> set (asked_keys h calls reps' d')" using "2.IH"[OF g[symmetric] refl] recorded_key_kept[OF g "2.prems"] by simp
  moreover have "idempotency_key r \<noteq> k" if "bridge_prepare now caps mcaps v reps = Inr (Run r digest prof req)" for r digest prof req
    using prepare_run[OF that] "2.prems" by auto
  ultimately show ?case by (auto simp: g dest: sym split: sum.splits action.splits)
qed simp

text \<open>
  C23: a request that the bridge accepted and the daemon answered is idempotent: repeated before its
  deadline, with any later state of the daemon, it is answered from the record with the same events,
  marked as replayed, and the daemon is not asked again; another request under the same key is
  refused; and no series of later calls asks the daemon under that key.
\<close>

theorem bridge_replays_once:
  assumes "bridge_prepare now caps mcaps v reps = Inr (Run r digest prof req)"
    and "bridge_generate now caps mcaps h v reps d = (Inr evs, reps', d')"
  shows "parse now v = Inr r
     \<and> (int_above now' (deadline r) \<longrightarrow>
          bridge_generate now' caps' mcaps' h' v reps' e = (Inr (mark_replayed evs), reps', e))
     \<and> (\<forall>v2 r2. parse now' v2 = Inr r2 \<and> idempotency_key r2 = idempotency_key r
           \<and> unicode_digest (PyDict (payload r2)) \<noteq> unicode_digest (PyDict (payload r)) \<longrightarrow>
          bridge_generate now' caps' mcaps' h' v2 reps' e =
            (Inr [(ERROR, error ''runtime_generate'' ''idempotency_conflict'' ''idempotency_key was reused with a different request'' [])], reps', e))
     \<and> idempotency_key r \<notin> set (asked_keys h' calls reps' e)"
proof -
  note run = prepare_run[OF assms(1)]
  have m: "map_of reps' (idempotency_key r) = Some (digest, evs)"
    using generate_run[OF assms] by (simp add: map_of_dput)
  have "bridge_generate now' caps' mcaps' h' v reps' e = (Inr (mark_replayed evs), reps', e)"
    if "int_above now' (deadline r)"
  proof -
    have "parse now' v = Inr r" using run parse_any_time that by blast
    then have "bridge_prepare now' caps' mcaps' v reps' = Inr (Replay (mark_replayed evs))"
      using run m by (simp add: bridge_prepare_def Let_def)
    then show ?thesis by (simp add: bridge_generate_def)
  qed
  moreover have "bridge_generate now' caps' mcaps' h' v2 reps' e =
      (Inr [(ERROR, error ''runtime_generate'' ''idempotency_conflict'' ''idempotency_key was reused with a different request'' [])], reps', e)"
    if "parse now' v2 = Inr r2" "idempotency_key r2 = idempotency_key r"
      "unicode_digest (PyDict (payload r2)) \<noteq> unicode_digest (PyDict (payload r))" for v2 r2
    using that run m by (simp add: bridge_generate_def bridge_prepare_def Let_def)
  ultimately show ?thesis using run recorded_key_not_asked[OF m] by (intro conjI impI allI) (elim conjE, simp_all)
qed

theorem bridge_replays_once_witness:
  "\<exists>evs reps'. bridge_generate 6 (demo_caps False) (demo_caps False) (\<lambda>req n. (Inr [], n)) (PyDict (demo_payload hi_digest)) reps' (0::nat)
     = (Inr (mark_replayed evs), reps', 0)"
proof -
  let ?h = "\<lambda>req (n::nat). (Inr [(RESPONSE, [(''ok'', PyBool True)])], Suc n) :: event list res \<times> nat"
  obtain r digest prof req where p: "bridge_prepare 5 (demo_caps False) (demo_caps False) (PyDict (demo_payload hi_digest)) []
      = Inr (Run r digest prof req)" using demo_run by blast
  obtain evs reps' d' where g: "bridge_generate 5 (demo_caps False) (demo_caps False) ?h (PyDict (demo_payload hi_digest)) [] 0
      = (Inr evs, reps', d')"
    by (simp add: bridge_generate_def p Let_def)
  have "deadline r = PyInt 10" using prepare_run[OF p] demo_parse by auto
  then have "bridge_generate 6 (demo_caps False) (demo_caps False) (\<lambda>req n. (Inr [], n)) (PyDict (demo_payload hi_digest)) reps' 0
      = (Inr (mark_replayed evs), reps', 0)"
    using bridge_replays_once[OF p g, THEN conjunct2, THEN conjunct1, of 6 "demo_caps False" "demo_caps False"
        "\<lambda>req n. (Inr [], n)" 0] by (simp add: int_above_def)
  then show ?thesis by blast
qed

end
