(* ===== verification/Telemetry.thy ===== *)
theory Telemetry
  imports Py_Json
begin

text \<open>
  \<open>local_data_plane/telemetry.py\<close>: receipts of physical inference.  Prompt and output are
  recorded by their SHA-256 only.  Clock, resource usage and fresh identifiers are a record
  of what the host reports when the receipt is finished.
\<close>

section \<open>Metrics\<close>

record metric_value =
  metric_val :: pyval
  semantics :: string
  metric_unit :: string
  metric_reason :: "string option"
  metric_source :: "string option"

definition metric_dict :: "metric_value \<Rightarrow> pyval" where
  "metric_dict m = PyDict [(''value'', metric_val m), (''semantics'', PyStr (semantics m)), (''unit'', PyStr (metric_unit m)),
     (''reason'', py_opt_str (metric_reason m)), (''source'', py_opt_str (metric_source m))]"

definition observed :: "pyval \<Rightarrow> string \<Rightarrow> string \<Rightarrow> metric_value" where
  "observed v u src = \<lparr>metric_val = v, semantics = ''observed'', metric_unit = u, metric_reason = None, metric_source = Some src\<rparr>"

definition unknown :: "string \<Rightarrow> string \<Rightarrow> metric_value" where
  "unknown u why = \<lparr>metric_val = PyNone, semantics = ''unknown'', metric_unit = u, metric_reason = Some why, metric_source = None\<rparr>"

section \<open>Receipts\<close>

record inference_receipt =
  receipt_schema :: string
  receipt_id :: string
  receipt_request_id :: int
  terminal_status :: string
  identity :: "(string \<times> pyval) list"
  metrics :: "(string \<times> metric_value) list"
  redaction :: "(string \<times> string) list"
  receipt_error :: "(string \<times> pyval) list option"
  created_at :: string

definition receipt_dict :: "inference_receipt \<Rightarrow> (string \<times> pyval) list" where
  "receipt_dict r =
     [(''schema'', PyStr (receipt_schema r)), (''receipt_id'', PyStr (receipt_id r)),
      (''request_id'', PyInt (receipt_request_id r)), (''terminal_status'', PyStr (terminal_status r)),
      (''identity'', PyDict (identity r)),
      (''metrics'', PyDict (List.map (\<lambda>(k, m). (k, metric_dict m)) (sort_items (metrics r)))),
      (''redaction'', PyDict (List.map (\<lambda>(k, s). (k, PyStr s)) (redaction r))),
      (''error'', case receipt_error r of None \<Rightarrow> PyNone | Some e \<Rightarrow> PyDict e),
      (''created_at'', PyStr (created_at r))]"

record receipt_host =
  host_platform :: string
  elapsed_ms :: pyfloat
  user_cpu_ms :: pyfloat
  system_cpu_ms :: pyfloat
  fresh_receipt_id :: string
  utc_now :: string

record receipt_builder =
  builder_request_id :: int
  builder_identity :: "(string \<times> pyval) list"
  builder_metrics :: "(string \<times> metric_value) list"
  prompt_hash :: "string option"
  output_hash :: "string option"

definition new_builder :: "receipt_host \<Rightarrow> int \<Rightarrow> string \<Rightarrow> string \<Rightarrow> string \<Rightarrow> string \<Rightarrow> receipt_builder" where
  "new_builder h rid requested effective model prof =
     \<lparr>builder_request_id = rid,
      builder_identity = [(''daemon_build'', PyStr ''python-data-plane''), (''platform'', PyStr (lower (host_platform h))),
        (''requested_backend'', PyStr requested), (''effective_backend'', PyStr effective),
        (''model'', PyStr model), (''profile'', PyStr prof)],
      builder_metrics = [], prompt_hash = None, output_hash = None\<rparr>"

definition text_hash :: "string \<Rightarrow> string" where
  "text_hash s = sha256_hex (utf8_bytes s)"

definition record_prompt :: "string \<Rightarrow> receipt_builder \<Rightarrow> receipt_builder" where
  "record_prompt prompt b = b\<lparr>prompt_hash := Some (text_hash prompt)\<rparr>"

definition record_output :: "string \<Rightarrow> receipt_builder \<Rightarrow> receipt_builder" where
  "record_output out b = b\<lparr>output_hash := Some (text_hash out)\<rparr>"

definition record_metric :: "string \<Rightarrow> pyval \<Rightarrow> string \<Rightarrow> string \<Rightarrow> receipt_builder \<Rightarrow> receipt_builder" where
  "record_metric name v u src b = b\<lparr>builder_metrics := dput name (observed v u src) (builder_metrics b)\<rparr>"

definition or_empty :: "string option \<Rightarrow> string" where
  "or_empty x = (case x of None \<Rightarrow> [] | Some s \<Rightarrow> s)"

definition finish :: "receipt_host \<Rightarrow> string \<Rightarrow> (string \<times> string) option \<Rightarrow> receipt_builder \<Rightarrow> inference_receipt" where
  "finish h st err b =
     (let b = record_metric ''latency.total_ms'' (PyFloat (elapsed_ms h)) ''milliseconds'' ''monotonic clock'' b;
          b = record_metric ''process.user_cpu_ms'' (PyFloat (user_cpu_ms h)) ''milliseconds'' ''getrusage'' b;
          b = record_metric ''process.system_cpu_ms'' (PyFloat (system_cpu_ms h)) ''milliseconds'' ''getrusage'' b;
          seen = (\<lambda>x. if or_empty x \<noteq> [] then ''hash-only'' else ''not-recorded'')
      in \<lparr>receipt_schema = ''simplicio-local/inference-receipt-v1'', receipt_id = fresh_receipt_id h,
          receipt_request_id = builder_request_id b, terminal_status = st, identity = builder_identity b,
          metrics = builder_metrics b,
          redaction = [(''prompt'', seen (prompt_hash b)), (''output'', seen (output_hash b)),
            (''prompt_sha256'', or_empty (prompt_hash b)), (''output_sha256'', or_empty (output_hash b))],
          receipt_error = (case err of None \<Rightarrow> None | Some (code, message) \<Rightarrow>
            if code = [] then None else Some [(''code'', PyStr code), (''message'', PyStr message)]),
          created_at = utc_now h\<rparr>)"

section \<open>What a receipt shows\<close>

lemma record_metric_fields [simp]:
  "builder_request_id (record_metric n v u s b) = builder_request_id b"
  "builder_identity (record_metric n v u s b) = builder_identity b"
  "prompt_hash (record_metric n v u s b) = prompt_hash b" "output_hash (record_metric n v u s b) = output_hash b"
  by (simp_all add: record_metric_def)

lemma receipt_redaction:
  "redaction (finish h st err b) =
     [(''prompt'', if or_empty (prompt_hash b) \<noteq> [] then ''hash-only'' else ''not-recorded''),
      (''output'', if or_empty (output_hash b) \<noteq> [] then ''hash-only'' else ''not-recorded''),
      (''prompt_sha256'', or_empty (prompt_hash b)), (''output_sha256'', or_empty (output_hash b))]"
  by (simp add: finish_def Let_def)

text \<open>
  The receipt of a prompt depends on the prompt only through its SHA-256: two prompts with
  the same digest give the same receipt, and the digest it carries is 64 hexadecimal digits.
\<close>

theorem receipt_is_redacted:
  "(text_hash prompt = text_hash prompt' \<longrightarrow>
      finish h st err (record_prompt prompt b) = finish h st err (record_prompt prompt' b))
   \<and> map_of (redaction (finish h st err (record_prompt prompt b))) ''prompt'' = Some ''hash-only''
   \<and> (\<exists>d. map_of (redaction (finish h st err (record_prompt prompt b))) ''prompt_sha256'' = Some d
        \<and> length d = 64 \<and> set d \<subseteq> set hex_alphabet)"
proof -
  have "text_hash prompt \<noteq> []" unfolding text_hash_def by (metis sha256_hex_length list.size(3) zero_neq_numeral)
  then show ?thesis
    using sha256_hex_digits by (auto simp: receipt_redaction record_prompt_def or_empty_def text_hash_def)
qed

theorem receipt_is_redacted_witness:
  "map_of (redaction (finish \<lparr>host_platform = ''Linux'', elapsed_ms = Fin 1, user_cpu_ms = Fin 1, system_cpu_ms = Fin 1,
       fresh_receipt_id = ''id'', utc_now = ''now''\<rparr> ''completed'' None
     (record_prompt ''hi'' (new_builder \<lparr>host_platform = ''Linux'', elapsed_ms = Fin 1, user_cpu_ms = Fin 1, system_cpu_ms = Fin 1,
       fresh_receipt_id = ''id'', utc_now = ''now''\<rparr> 1 ''fixture'' ''fixture'' ''m'' ''resident''))))
     ''prompt'' = Some ''hash-only''"
  by (rule receipt_is_redacted[THEN conjunct2, THEN conjunct1])

end
