(* ===== verification/Artifacts.thy ===== *)
theory Artifacts
  imports Sha256
begin

text \<open>
  \<open>local_data_plane/artifacts.py\<close>: pins of physical artifacts, read from a request payload,
  validated, and compared with the digest of a file.  The file system is a parameter: the
  bytes of the files it has.
\<close>

section \<open>Pins\<close>

definition ARTIFACT_PIN_SCHEMA_V1 :: string where
  "ARTIFACT_PIN_SCHEMA_V1 = ''simplicio.inference-artifact-pin/v1''"

record artifact_pin =
  schema :: string
  artifact_id :: string
  artifact_kind :: string
  version :: string
  sha256_text :: string
  source_url :: string
  upstream_commit :: string
  license :: string

definition is_hex_char :: "char \<Rightarrow> bool" where
  "is_hex_char c = (lower_char c \<in> set hex_alphabet)"

definition remove_prefix :: "string \<Rightarrow> string \<Rightarrow> string" where
  "remove_prefix p s = (if starts_with p s then drop (length p) s else s)"

text \<open>The regular expression \<open>^(?:sha256:)?[0-9a-fA-F]{64}$\<close>, matched in full.\<close>

definition hex64_match :: "string \<Rightarrow> bool" where
  "hex64_match s = (let t = remove_prefix ''sha256:'' s in length t = 64 \<and> list_all is_hex_char t)"

fun first_blank :: "(string \<times> string) list \<Rightarrow> string option" where
  "first_blank [] = None"
| "first_blank ((label, v) # rest) = (if strip v = [] then Some label else first_blank rest)"

definition validate :: "artifact_pin \<Rightarrow> unit res" where
  "validate p =
     (if schema p \<noteq> ARTIFACT_PIN_SCHEMA_V1
      then Inl (ValueError (''unsupported artifact pin schema: '' @ schema p))
      else case first_blank [(''artifact_id'', artifact_id p), (''artifact_kind'', artifact_kind p),
             (''version'', version p), (''source_url'', source_url p),
             (''upstream_commit'', upstream_commit p), (''license'', license p)] of
          Some label \<Rightarrow> Inl (ValueError (label @ '' is required''))
        | None \<Rightarrow>
            if \<not> hex64_match (sha256_text p)
            then Inl (ValueError ''sha256 must contain exactly 64 hexadecimal characters'')
            else if lower (version p) = ''latest'' \<or> CHR ''/'' \<in> set (version p) \<or> CHR '' '' \<in> set (version p)
            then Inl (ValueError ''version must be an immutable pin, not a mutable reference'')
            else if \<not> starts_with ''https://'' (source_url p)
            then Inl (ValueError ''source_url must use https'')
            else Inr ())"

definition pin_digest :: "artifact_pin \<Rightarrow> string" where
  "pin_digest p = lower (remove_prefix ''sha256:'' (sha256_text p))"

record validation_receipt =
  receipt_schema :: string
  receipt_artifact_id :: string
  receipt_accepted :: bool
  receipt_reason :: string
  receipt_sha256 :: "string option"

definition validate_artifact :: "artifact_pin \<Rightarrow> validation_receipt" where
  "validate_artifact p = (case validate p of
      Inl e \<Rightarrow> \<lparr>receipt_schema = ARTIFACT_PIN_SCHEMA_V1, receipt_artifact_id = artifact_id p,
        receipt_accepted = False, receipt_reason = exc_message e, receipt_sha256 = None\<rparr>
    | Inr _ \<Rightarrow> \<lparr>receipt_schema = ARTIFACT_PIN_SCHEMA_V1, receipt_artifact_id = artifact_id p,
        receipt_accepted = True, receipt_reason = ''pinned-artifact-validated'', receipt_sha256 = Some (pin_digest p)\<rparr>)"

definition pin_from_payload :: "pyval \<Rightarrow> artifact_pin res" where
  "pin_from_payload payload = (case payload of
      PyDict d \<Rightarrow>
        (case List.map (\<lambda>f. py_string (jget d f)) [''schema'', ''artifact_id'', ''artifact_kind'', ''version'',
            ''sha256'', ''source_url'', ''upstream_commit'', ''license''] of
          [Some s, Some i, Some k, Some v, Some h, Some u, Some c, Some l] \<Rightarrow>
            Inr \<lparr>schema = s, artifact_id = i, artifact_kind = k, version = v, sha256_text = h,
                 source_url = u, upstream_commit = c, license = l\<rparr>
        | _ \<Rightarrow> Inl (ValueError ''artifact_pin contains missing or non-string fields''))
    | _ \<Rightarrow> Inl (ValueError ''artifact_pin must be an object''))"

definition digest_bytes :: "byte list \<Rightarrow> string" where
  "digest_bytes data = sha256_hex data"

text \<open>Reading a file in chunks of one megabyte and updating the hash is hashing its bytes.\<close>

type_synonym file_system = "string \<Rightarrow> byte list option"

definition digest_file :: "file_system \<Rightarrow> string \<Rightarrow> string res" where
  "digest_file fs path = (case fs path of
      None \<Rightarrow> Inl (FileNotFoundError path) | Some data \<Rightarrow> Inr (sha256_hex data))"

section \<open>An accepted pin\<close>

lemma lower_char_fix: "lower_char c \<in> set hex_alphabet \<Longrightarrow> lower_char (lower_char c) = lower_char c"
  by (auto simp: hex_alphabet_def lower_char_def Let_def)

text \<open>
  An accepted pin has a digest of 64 lowercase hexadecimal digits, an https source and a
  version that is no mutable reference; a refused one yields no digest.
\<close>

theorem accepted_pin_is_immutable:
  "(receipt_accepted (validate_artifact p) \<longleftrightarrow> validate p = Inr ())
   \<and> (receipt_accepted (validate_artifact p) \<longrightarrow>
        receipt_sha256 (validate_artifact p) = Some (pin_digest p)
        \<and> length (pin_digest p) = 64 \<and> set (pin_digest p) \<subseteq> set hex_alphabet
        \<and> starts_with ''https://'' (source_url p) \<and> lower (version p) \<noteq> ''latest'' \<and> CHR ''/'' \<notin> set (version p))
   \<and> (\<not> receipt_accepted (validate_artifact p) \<longrightarrow> receipt_sha256 (validate_artifact p) = None)"
proof (cases "validate p")
  case (Inl e)
  then show ?thesis by (simp add: validate_artifact_def)
next
  case (Inr u)
  then have h: "hex64_match (sha256_text p)" and v: "lower (version p) \<noteq> ''latest''" "CHR ''/'' \<notin> set (version p)"
    and s: "starts_with ''https://'' (source_url p)"
    unfolding validate_def by (auto split: if_splits option.splits)
  have "length (pin_digest p) = 64 \<and> set (pin_digest p) \<subseteq> set hex_alphabet"
    using h by (auto simp: hex64_match_def pin_digest_def lower_def Let_def list_all_iff is_hex_char_def)
  then show ?thesis using Inr v s by (simp add: validate_artifact_def)
qed

definition demo_pin :: "string \<Rightarrow> artifact_pin" where
  "demo_pin ver = \<lparr>schema = ARTIFACT_PIN_SCHEMA_V1, artifact_id = ''m'', artifact_kind = ''model'', version = ver,
     sha256_text = ''sha256:'' @ replicate 64 (CHR ''A''), source_url = ''https://x'', upstream_commit = ''c'', license = ''MIT''\<rparr>"

theorem accepted_pin_is_immutable_witness:
  "pin_digest (demo_pin ''v1'') = replicate 64 (CHR ''a'') \<and> length (pin_digest (demo_pin ''v1'')) = 64
   \<and> \<not> receipt_accepted (validate_artifact (demo_pin ''Latest''))"
proof -
  have "receipt_accepted (validate_artifact (demo_pin ''v1''))" by code_simp
  moreover have "pin_digest (demo_pin ''v1'') = replicate 64 (CHR ''a'')" by code_simp
  moreover have "\<not> receipt_accepted (validate_artifact (demo_pin ''Latest''))" by code_simp
  ultimately show ?thesis using accepted_pin_is_immutable[of "demo_pin ''v1''"] by blast
qed

end
