(* ===== verification/Daemon.thy ===== *)
theory Daemon
  imports Runtime_Bridge Telemetry Artifacts Interfaces
begin

text \<open>
  \<open>local_data_plane/daemon.py\<close>: the persistent inference daemon.  \<open>handle\<close> runs under the daemon's
  lock, so one request is one step; it returns its events, or the exception it raises, and the
  new state.  What the daemon asks of its surroundings (files, the \<open>llama-server\<close> process, the
  NumPy codec, clocks and fresh identifiers) is the record \<open>daemon_env\<close>.
\<close>

section \<open>State\<close>

record model_handle =
  handle_id :: string
  handle_model :: string
  handle_path :: "string option"
  handle_backend :: string
  has_provider :: bool
  handle_requested :: "string option"
  handle_state :: string
  warmed :: bool

text \<open>\<open>servers\<close> are the handles whose \<open>llama-server\<close> process is running.\<close>

record daemon =
  dstate :: string
  draining :: bool
  handles :: "(string \<times> model_handle) list"
  cancelled :: "(int \<times> bool) list"
  request_count :: int
  replays :: replays
  servers :: "string list"

record llama_result =
  llama_text :: string
  llama_tokens :: int
  llama_prompt_tokens :: int
  llama_finish :: string
  prompt_ms :: "pyfloat option"
  predicted_ms :: "pyfloat option"

record daemon_env =
  env_registry :: registry
  standalone :: bool
  now_ms :: int
  files :: file_system
  fresh_id :: string
  receipts :: receipt_host
  new_provider :: "payload \<Rightarrow> bool \<Rightarrow> unit res"
  start_server :: "string \<Rightarrow> int \<Rightarrow> unit res"
  llama :: "string \<Rightarrow> int \<Rightarrow> llama_result res"
  local_caps :: turboquant_capabilities
  model_caps :: turboquant_capabilities
  cache_caps :: turboquant_capabilities
  tq_compress :: "pyval \<Rightarrow> int \<Rightarrow> int \<Rightarrow> (pyval \<times> pyval) res"
  tq_decompress :: "pyval \<Rightarrow> (pyval \<times> pyval) res"

definition new_daemon :: daemon where
  "new_daemon = \<lparr>dstate = ''cold'', draining = False, handles = [], cancelled = [], request_count = 0,
     replays = [], servers = []\<rparr>"

type_synonym answer = "event list res \<times> daemon"

definition fail :: "string \<Rightarrow> string \<Rightarrow> string \<Rightarrow> event list" where
  "fail m code message = [(ERROR, error m code message [])]"

definition reply :: "string \<Rightarrow> payload \<Rightarrow> event list" where
  "reply m vs = [(RESPONSE, ok m vs)]"

section \<open>Loading\<close>

definition effective_name :: "string \<Rightarrow> string" where
  "effective_name b = (if b \<in> {''turboquant'', ''llama-cpp-turboquant''} then ''llama-cpp-turboquant'' else b)"

text \<open>\<open>str(request.get("backend", "fixture")).strip().lower() or "fixture"\<close>.\<close>

definition load_backend :: "payload \<Rightarrow> string" where
  "load_backend q = (let b = lower (strip (py_str (dget_or q ''backend'' (PyStr ''fixture'')))) in if b = [] then ''fixture'' else b)"

text \<open>The pin of the artifact, checked against the bytes of a model file; the answer of a refusal.\<close>

definition pin_matches :: "daemon_env \<Rightarrow> payload \<Rightarrow> bool res" where
  "pin_matches env q =
     rbind (pin_from_payload (jget q ''artifact_pin'')) (\<lambda>pin.
     rbind (Artifacts.validate pin) (\<lambda>_.
     if jget q ''path'' \<noteq> PyNone \<and> lower (artifact_kind pin) \<in> {''model'', ''model-weights'', ''weights'', ''gguf''}
     then rbind (digest_file (files env) (py_str (jget q ''path''))) (\<lambda>actual. Inr (actual = pin_digest pin))
     else Inr True))"

definition pin_refusal :: "daemon_env \<Rightarrow> payload \<Rightarrow> event list option" where
  "pin_refusal env q =
     (if jget q ''artifact_pin'' = PyNone then None
      else case pin_matches env q of
          Inr True \<Rightarrow> None
        | Inr False \<Rightarrow> Some (fail ''load'' ''artifact_digest_mismatch'' ''model bytes do not match artifact_pin.sha256'')
        | Inl e \<Rightarrow> Some (fail ''load'' ''artifact_invalid'' (exc_message e)))"

text \<open>Constructing and starting the provider; the exceptions \<open>load\<close> catches, and the others.\<close>

definition start_provider :: "daemon_env \<Rightarrow> payload \<Rightarrow> bool \<Rightarrow> unit res" where
  "start_provider env q tq =
     rbind (new_provider env q tq) (\<lambda>_.
     rbind (to_int (dget_or q ''port'' (PyInt 0))) (\<lambda>port. start_server env (py_str (jget q ''path'')) port))"

definition caught :: "py_exc \<Rightarrow> bool" where
  "caught e = (is_os_error e \<or> is_runtime_error e \<or> is_value_error e)"

definition add_handle :: "payload \<Rightarrow> string \<Rightarrow> string \<Rightarrow> string \<Rightarrow> bool \<Rightarrow> daemon \<Rightarrow> daemon" where
  "add_handle q hid be_name eff provider d =
     d\<lparr>dstate := ''ready'',
       handles := dput hid \<lparr>handle_id = hid, handle_model = py_str (dget_or q ''model_id'' (PyStr ''fixture'')),
         handle_path = (if truthy (jget q ''path'') then Some (py_str (jget q ''path'')) else None),
         handle_backend = eff, has_provider = provider, handle_requested = Some be_name,
         handle_state = ''loaded'', warmed = False\<rparr> (handles d),
       servers := (if provider then hid # servers d else servers d)\<rparr>"

definition wants_turboquant :: "payload \<Rightarrow> bool" where
  "wants_turboquant q = (load_backend q \<in> {''turboquant'', ''llama-cpp-turboquant''} \<or> truthy (jget q ''turboquant''))"

definition load_effective :: "payload \<Rightarrow> string" where
  "load_effective q = (if wants_turboquant q then ''llama-cpp-turboquant'' else load_backend q)"

text \<open>The refusals that come before a handle is looked up.\<close>

definition load_refusal :: "daemon_env \<Rightarrow> payload \<Rightarrow> event list option" where
  "load_refusal env q =
     (if jget q ''path'' \<noteq> PyNone \<and> files env (py_str (jget q ''path'')) = None
      then Some (fail ''load'' ''model_unavailable'' ''model path is unavailable'')
      else case pin_refusal env q of Some evs \<Rightarrow> Some evs | None \<Rightarrow>
      if load_backend q \<notin> {''fixture'', ''llama-cpp'', ''turboquant'', ''llama-cpp-turboquant''}
      then Some (fail ''load'' ''backend_unavailable'' (''backend '' @ repr_str (load_backend q) @ '' has no executable provider''))
      else if wants_turboquant q \<and> load_backend q = ''fixture''
      then Some (fail ''load'' ''backend_mismatch'' ''TurboQuant requires an Atomic-compatible llama-cpp backend'')
      else None)"

definition loaded_answer :: "payload \<Rightarrow> string \<Rightarrow> bool \<Rightarrow> daemon \<Rightarrow> answer" where
  "loaded_answer q hid provider d =
     (Inr (reply ''load'' [(''handle_id'', PyStr hid), (''state'', PyStr ''loaded''),
        (''model_id'', PyStr (py_str (dget_or q ''model_id'' (PyStr ''fixture'')))),
        (''backend'', PyStr (load_effective q)), (''requested_backend'', PyStr (load_backend q)),
        (''turboquant'', PyBool (wants_turboquant q))]),
      add_handle q hid (load_backend q) (load_effective q) provider d)"

definition load_new :: "daemon_env \<Rightarrow> payload \<Rightarrow> string \<Rightarrow> daemon \<Rightarrow> answer" where
  "load_new env q hid d =
     (if load_backend q = ''fixture'' then loaded_answer q hid False d
      else if jget q ''path'' = PyNone
      then (Inr (fail ''load'' ''model_unavailable'' ''llama-cpp requires an explicit GGUF path''), d)
      else case start_provider env q (wants_turboquant q) of
          Inr _ \<Rightarrow> loaded_answer q hid True d
        | Inl e \<Rightarrow> if caught e then (Inr (fail ''load'' ''backend_start_failed'' (exc_message e)), d) else (Inl e, d))"

definition load :: "daemon_env \<Rightarrow> payload \<Rightarrow> daemon \<Rightarrow> answer" where
  "load env q d =
     (if draining d then (Inr (fail ''load'' ''draining'' ''daemon is draining''), d)
      else case load_refusal env q of
          Some evs \<Rightarrow> (Inr evs, d)
        | None \<Rightarrow>
            let hid = py_str (py_or (jget q ''handle_id'') (PyStr (fresh_id env))) in
            case map_of (handles d) hid of
              Some h \<Rightarrow> (Inr (reply ''load'' [(''handle_id'', PyStr (handle_id h)), (''state'', PyStr (handle_state h)),
                             (''idempotent'', PyBool True)]), d)
            | None \<Rightarrow> load_new env q hid d)"

section \<open>Generation\<close>

definition get_handle :: "payload \<Rightarrow> daemon \<Rightarrow> model_handle option" where
  "get_handle q d = (if jget q ''handle_id'' = PyNone
     then (case handles d of [] \<Rightarrow> None | (_, h) # _ \<Rightarrow> Some h)
     else map_of (handles d) (py_str (jget q ''handle_id'')))"

text \<open>The fixture decoder cycles through the words of the prompt.\<close>

definition fixture_token :: "string \<Rightarrow> nat \<Rightarrow> string res" where
  "fixture_token ptext i = (if ptext = [] then Inr '' ok''
     else let ws = split ptext; j = i mod max 1 (length ws) in
       if j < length ws then Inr ('' '' @ ws ! j) else Inl (IndexError ''list index out of range''))"

definition token_event :: "int \<Rightarrow> nat \<Rightarrow> string \<Rightarrow> event" where
  "token_event rid i tok = (EVENT, [(''method'', PyStr ''generate''), (''event'', PyStr ''token''), (''request_id'', PyInt rid),
     (''index'', PyInt (int i)), (''text'', PyStr tok)])"

definition builder_for :: "daemon_env \<Rightarrow> payload \<Rightarrow> int \<Rightarrow> model_handle \<Rightarrow> string \<Rightarrow> string \<Rightarrow> string \<Rightarrow> receipt_builder" where
  "builder_for env q rid h requested eff p =
     record_prompt p (new_builder (receipts env) rid requested eff (handle_model h) (py_str (dget_or q ''profile'' (PyStr ''resident''))))"

definition receipt_field :: "inference_receipt \<Rightarrow> string \<times> pyval" where
  "receipt_field r = (''receipt'', PyDict (receipt_dict r))"

definition cancelled_answer :: "daemon_env \<Rightarrow> receipt_builder \<Rightarrow> event" where
  "cancelled_answer env b = (RESPONSE, error ''generate'' ''cancelled'' ''generation cancelled''
     [receipt_field (finish (receipts env) ''cancelled'' (Some (''cancelled'', ''generation cancelled'')) b)])"

definition fixture_events :: "daemon_env \<Rightarrow> payload \<Rightarrow> int \<Rightarrow> model_handle \<Rightarrow> string \<Rightarrow> nat \<Rightarrow> bool \<Rightarrow> event list res" where
  "fixture_events env q rid h p n stopped =
     (let requested = py_str (dget_or q ''backend'' (PyStr ''fixture''));
          b = builder_for env q rid h requested ''fixture'' p in
      if 0 < n \<and> stopped then Inr [cancelled_answer env b]
      else rbind (map_res (fixture_token p) [0..<n]) (\<lambda>toks.
        let full = concat toks;
            b = record_metric ''tokens.generated'' (PyInt (int n)) ''tokens'' ''fixture decoder'' (record_output full b) in
        Inr (List.map (\<lambda>(i, tok). token_event rid i tok) (enumerate 0 toks)
          @ [(RESPONSE, ok ''generate'' [(''request_id'', PyInt rid), (''handle_id'', PyStr (handle_id h)), (''text'', PyStr full),
               (''generated_tokens'', PyInt (int n)), (''stop_reason'', PyStr ''length''),
               (''elapsed_ms'', PyFloat (elapsed_ms (receipts env))), (''requested_backend'', PyStr requested),
               (''effective_backend'', PyStr ''fixture''),
               receipt_field (finish (receipts env) ''completed'' None b)])])))"

definition opt_metric :: "string \<Rightarrow> pyfloat option \<Rightarrow> receipt_builder \<Rightarrow> receipt_builder" where
  "opt_metric name x b = (case x of None \<Rightarrow> b
     | Some v \<Rightarrow> record_metric name (PyFloat v) ''milliseconds'' ''llama-server timings'' b)"

definition llama_events :: "daemon_env \<Rightarrow> payload \<Rightarrow> int \<Rightarrow> model_handle \<Rightarrow> string \<Rightarrow> int \<Rightarrow> bool \<Rightarrow> bool \<Rightarrow> event list res" where
  "llama_events env q rid h p n stopped running =
     (let requested = py_str (dget_or q ''backend'' (PyStr (case handle_requested h of Some r \<Rightarrow> if r = [] then handle_backend h else r
                                                              | None \<Rightarrow> handle_backend h)));
          b = builder_for env q rid h requested (handle_backend h) p in
      if stopped then Inr [cancelled_answer env b]
      else case (if running then llama env p n else Inl (RuntimeError ''llama.cpp server is not running'')) of
          Inl e \<Rightarrow> if caught e then
              Inr [(ERROR, error ''generate'' ''backend_error'' (exc_message e)
                 [receipt_field (finish (receipts env) ''failed'' (Some (''backend_error'', exc_message e)) b)])]
            else Inl e
        | Inr r \<Rightarrow>
            let b = record_metric ''tokens.generated'' (PyInt (llama_tokens r)) ''tokens'' ''llama-server usage''
                      (record_output (llama_text r) b);
                b = record_metric ''tokens.prompt'' (PyInt (llama_prompt_tokens r)) ''tokens'' ''llama-server usage'' b;
                b = opt_metric ''latency.decode_ms'' (predicted_ms r) (opt_metric ''latency.prompt_ms'' (prompt_ms r) b) in
            Inr [(EVENT, [(''method'', PyStr ''generate''), (''event'', PyStr ''text''), (''request_id'', PyInt rid),
                    (''index'', PyInt 0), (''text'', PyStr (llama_text r))]),
                 (RESPONSE, ok ''generate'' [(''request_id'', PyInt rid), (''handle_id'', PyStr (handle_id h)),
                    (''text'', PyStr (llama_text r)), (''generated_tokens'', PyInt (llama_tokens r)),
                    (''stop_reason'', PyStr (llama_finish r)), (''elapsed_ms'', PyFloat (elapsed_ms (receipts env))),
                    (''requested_backend'', PyStr requested), (''effective_backend'', PyStr (handle_backend h)),
                    receipt_field (finish (receipts env) ''completed'' None b)])])"

text \<open>
  While it generates, a request is registered under its id with a cancellation flag, read by
  the loop and removed in the \<open>finally\<close> clause.
\<close>

definition with_flag :: "int \<Rightarrow> daemon \<Rightarrow> (bool \<Rightarrow> event list res) \<Rightarrow> answer" where
  "with_flag rid d body =
     (let during = dput rid False (cancelled d);
          r = body (dget_or during rid False \<or> draining d)
      in (r, d\<lparr>cancelled := dpop rid during\<rparr>))"

definition generate :: "daemon_env \<Rightarrow> payload \<Rightarrow> int \<Rightarrow> daemon \<Rightarrow> answer" where
  "generate env q rid d =
     (case get_handle q d of
       None \<Rightarrow> (Inr (fail ''generate'' ''unknown_handle'' ''model handle is not loaded''), d)
     | Some h \<Rightarrow>
        (let p = py_str (dget_or q ''prompt'' (PyStr [])) in
         case to_int (dget_or q ''max_tokens'' (PyInt 8)) of
           Inl e \<Rightarrow> (Inl e, d)
         | Inr n \<Rightarrow>
            if n < 0 \<or> 4096 < n
            then (Inr (fail ''generate'' ''invalid_argument'' ''max_tokens is outside the bounded range''), d)
            else if effective_name (lower (strip (py_str (dget_or q ''backend''
                  (PyStr (case handle_requested h of Some r \<Rightarrow> if r = [] then handle_backend h else r | None \<Rightarrow> handle_backend h))))))
                \<noteq> handle_backend h
            then (Inr (fail ''generate'' ''backend_mismatch'' (''handle is loaded with backend '' @ repr_str (handle_backend h))), d)
            else if handle_backend h \<in> {''llama-cpp'', ''llama-cpp-turboquant''}
            then with_flag rid d (\<lambda>stop. llama_events env q rid h p n stop (handle_id h \<in> set (servers d)))
            else if handle_backend h \<noteq> ''fixture''
            then (Inr (fail ''generate'' ''backend_unavailable'' (''backend '' @ repr_str (handle_backend h) @ '' has no executable provider'')), d)
            else with_flag rid d (fixture_events env q rid h p (nat n))))"

section \<open>The TurboQuant codec\<close>

definition caps_dict :: "turboquant_capabilities \<Rightarrow> pyval" where
  "caps_dict c = PyDict [(''backend'', PyStr (caps_backend c)), (''executor_available'', PyBool (executor_available c)),
     (''profiles'', py_strs (sort (cache_profiles c))), (''evidence_level'', PyStr (name_value (caps_evidence c))),
     (''reason'', PyStr (caps_reason c))]"

definition codec_answer :: "string \<Rightarrow> payload res \<Rightarrow> event list res" where
  "codec_answer m r = (case r of
      Inr vs \<Rightarrow> Inr (reply m vs)
    | Inl e \<Rightarrow> if is_value_error e \<or> (case e of TypeError _ \<Rightarrow> True | _ \<Rightarrow> False)
        then Inr (fail m ''invalid_argument'' (exc_message e)) else Inl e)"

definition turboquant_compress :: "daemon_env \<Rightarrow> payload \<Rightarrow> int \<Rightarrow> event list res" where
  "turboquant_compress env q rid =
     (if \<not> executor_available (cache_caps env)
      then Inr (fail ''turboquant_compress'' ''backend_unavailable'' (caps_reason (cache_caps env)))
      else codec_answer ''turboquant_compress''
        (rbind (to_int (dget_or q ''bits'' (PyInt 4))) (\<lambda>bits.
         rbind (to_int (dget_or q ''seed'' (PyInt 0))) (\<lambda>seed.
         rbind (tq_compress env (dget_or q ''vectors'' (PyList [])) bits seed) (\<lambda>(packet, measured).
           Inr [(''request_id'', PyInt rid), (''backend'', PyStr ''turboquant-kv''), (''packet'', packet), (''metrics'', measured)])))))"

definition turboquant_decompress :: "daemon_env \<Rightarrow> payload \<Rightarrow> int \<Rightarrow> event list res" where
  "turboquant_decompress env q rid =
     (if \<not> executor_available (cache_caps env)
      then Inr (fail ''turboquant_decompress'' ''backend_unavailable'' (caps_reason (cache_caps env)))
      else codec_answer ''turboquant_decompress''
        (rbind (tq_decompress env (jget q ''packet'')) (\<lambda>(shape, vectors).
           Inr [(''request_id'', PyInt rid), (''backend'', PyStr ''turboquant-kv''), (''shape'', shape), (''vectors'', vectors)])))"

section \<open>Requests\<close>

definition identity_fields :: "daemon_env \<Rightarrow> payload" where
  "identity_fields env = [(''protocol'', PyStr PROTOCOL_NAME), (''protocol_version'', PyInt PROTOCOL_VERSION),
     (''effect_authority'', PyStr ''none''), (''standalone'', PyBool (standalone env)), (''build'', PyStr ''python-data-plane-fixture'')]"

definition handle_status :: "model_handle \<Rightarrow> pyval" where
  "handle_status h = PyDict [(''handle_id'', PyStr (handle_id h)), (''model_id'', PyStr (handle_model h)),
     (''state'', PyStr (handle_state h)), (''warmed'', PyBool (warmed h)), (''backend'', PyStr (handle_backend h))]"

definition warm :: "payload \<Rightarrow> daemon \<Rightarrow> answer" where
  "warm q d = (case get_handle q d of
      None \<Rightarrow> (Inr (fail ''warm'' ''unknown_handle'' ''model handle is not loaded''), d)
    | Some h \<Rightarrow> (Inr (reply ''warm'' [(''handle_id'', PyStr (handle_id h)), (''state'', PyStr ''warmed'')]),
        d\<lparr>handles := dput (handle_id h) (h\<lparr>warmed := True, handle_state := ''loaded''\<rparr>) (handles d)\<rparr>))"

definition cancel :: "payload \<Rightarrow> daemon \<Rightarrow> answer" where
  "cancel q d = (case to_int (dget_or q ''request_id'' (PyInt (-1))) of
      Inl e \<Rightarrow> (Inl e, d)
    | Inr target \<Rightarrow>
        (case map_of (cancelled d) target of
          None \<Rightarrow> (Inr (reply ''cancel'' [(''request_id'', PyInt target), (''cancelled'', PyBool False),
                     (''reason'', PyStr ''unknown_request'')]), d)
        | Some _ \<Rightarrow> (Inr (reply ''cancel'' [(''request_id'', PyInt target), (''cancelled'', PyBool True)]),
            d\<lparr>cancelled := dput target True (cancelled d)\<rparr>)))"

definition unload :: "payload \<Rightarrow> daemon \<Rightarrow> answer" where
  "unload q d =
     (let hid = py_str (dget_or q ''handle_id'' (PyStr [])) in
      (Inr (reply ''unload'' [(''handle_id'', PyStr hid), (''unloaded'', PyBool (map_of (handles d) hid \<noteq> None))]),
       d\<lparr>handles := dpop hid (handles d),
         servers := (if map_of (handles d) hid \<noteq> None then removeAll hid (servers d) else servers d)\<rparr>))"

definition capability_fields :: "daemon_env \<Rightarrow> payload" where
  "capability_fields env =
     [(''capabilities'', PyList (List.map PyDict (catalog (env_registry env)))),
      (''release_matrix'', PyList (List.map PyDict (release_matrix (env_registry env)))),
      (''runtime_discovery'', PyList (List.map PyDict (runtime_discovery (now_ms env) ''unresolved-model'' (env_registry env)))),
      (''turboquant'', caps_dict (cache_caps env)), (''turboquant_model'', caps_dict (model_caps env))]"

text \<open>One request but for \<open>runtime_generate\<close>, which calls back into it.\<close>

definition handle_plain :: "daemon_env \<Rightarrow> string \<Rightarrow> payload \<Rightarrow> int \<Rightarrow> daemon \<Rightarrow> answer" where
  "handle_plain env m q rid d =
     (let d = d\<lparr>request_count := request_count d + 1\<rparr> in
      if m = ''handshake'' then (Inr (reply m (identity_fields env @ [(''methods'', py_strs METHODS), (''state'', PyStr ''ready'')])), d\<lparr>dstate := ''ready''\<rparr>)
      else if m = ''capabilities'' then (Inr (reply m (capability_fields env)), d)
      else if m = ''estimate'' then (Inr (reply m [(''weights_bytes'', PyInt 0), (''kv_bytes'', PyInt 0), (''io_bytes'', PyInt 0),
          (''source'', PyStr ''unknown''), (''value_semantics'', PyStr ''unknown'')]), d)
      else if m = ''load'' then load env q d
      else if m = ''warm'' then warm q d
      else if m = ''generate'' then generate env q rid d
      else if m = ''turboquant_compress'' then (turboquant_compress env q rid, d)
      else if m = ''turboquant_decompress'' then (turboquant_decompress env q rid, d)
      else if m = ''cancel'' then cancel q d
      else if m = ''status'' then (Inr (reply m [(''state'', PyStr (dstate d)), (''draining'', PyBool (draining d)),
          (''handles'', PyList (List.map (handle_status \<circ> snd) (handles d))), (''requests'', PyInt (request_count d)),
          (''effect_authority'', PyStr ''none'')]), d)
      else if m = ''drain'' then (Inr (reply m [(''state'', PyStr ''draining''), (''accepted_requests'', PyInt 0)]),
          d\<lparr>draining := True, dstate := ''draining''\<rparr>)
      else if m = ''unload'' then unload q d
      else if m = ''shutdown'' then (Inr (reply m [(''state'', PyStr ''stopped'')]),
          d\<lparr>cancelled := List.map (\<lambda>(k, _). (k, True)) (cancelled d), servers := [], dstate := ''stopped''\<rparr>)
      else (Inr (fail m ''internal_error'' ''unreachable protocol branch''), d))"

definition runtime_generate :: "daemon_env \<Rightarrow> payload \<Rightarrow> int \<Rightarrow> daemon \<Rightarrow> answer" where
  "runtime_generate env q rid d =
     (let v = (case jget q ''request'' of PyDict r \<Rightarrow> PyDict r | _ \<Rightarrow> PyDict q);
          (res, reps, d') = bridge_generate (now_ms env) (local_caps env) (model_caps env)
             (\<lambda>q'. handle_plain env ''generate'' q' rid) v (replays d) d
      in (res, d'\<lparr>replays := reps\<rparr>))"

definition handle :: "daemon_env \<Rightarrow> pyval \<Rightarrow> int \<Rightarrow> daemon \<Rightarrow> answer" where
  "handle env request rid d =
     (case request of
       PyDict q \<Rightarrow>
        (case jget q ''method'' of
          PyStr m \<Rightarrow>
            if m \<notin> set METHODS then (Inr (fail m ''unknown_method'' m), d)
            else if m = ''runtime_generate'' then runtime_generate env q rid (d\<lparr>request_count := request_count d + 1\<rparr>)
            else handle_plain env m q rid d
        | _ \<Rightarrow> (Inr (fail ''unknown'' ''invalid_request'' ''request must contain a method''), d))
     | _ \<Rightarrow> (Inr (fail ''unknown'' ''invalid_request'' ''request must contain a method''), d))"

section \<open>The stdio loop\<close>

text \<open>
  What \<open>read_frame\<close> yields: a frame, with its payload as a value, or the message of a
  \<open>FrameError\<close>; the list ends where the stream does.  The loop hands every request to a worker
  thread and goes on reading; \<open>serve\<close> returns the frames it wrote itself, the requests of the
  workers in the order they were started, and how it left the loop.
\<close>

datatype incoming = Frame int int pyval | Malformed string

datatype loop_exit = EndOfInput | ShutdownSeen | BadFrame | LoopRaised

record serve_result =
  written :: "(int \<times> int \<times> payload) list"
  started :: "(int \<times> pyval) list"
  exit_by :: loop_exit

definition stop_with :: "loop_exit \<Rightarrow> serve_result" where
  "stop_with e = \<lparr>written = [], started = [], exit_by = e\<rparr>"

text \<open>\<open>payload.get("method") == "shutdown"\<close>: a payload that is no dictionary has no \<open>get\<close>.\<close>

fun serve :: "incoming list \<Rightarrow> serve_result" where
  "serve [] = stop_with EndOfInput"
| "serve (Malformed message # rest) =
     (stop_with BadFrame)\<lparr>written := [(ERROR, 0, error ''unknown'' ''malformed_frame'' message [])]\<rparr>"
| "serve (Frame k rid v # rest) =
     (if k \<noteq> REQUEST then
        let r = serve rest in
        r\<lparr>written := (ERROR, rid, error ''unknown'' ''invalid_kind'' ''stdin accepts request frames only'' []) # written r\<rparr>
      else let r = (case v of
                PyDict q \<Rightarrow> if jget q ''method'' = PyStr ''shutdown'' then stop_with ShutdownSeen else serve rest
              | _ \<Rightarrow> stop_with LoopRaised)
        in r\<lparr>started := (rid, v) # started r\<rparr>)"

text \<open>A worker: the frames one request writes; an exception of \<open>handle\<close> is answered as an internal error.\<close>

definition worker :: "daemon_env \<Rightarrow> int \<times> pyval \<Rightarrow> daemon \<Rightarrow> (int \<times> int \<times> payload) list \<times> daemon" where
  "worker env req d = (case req of (rid, v) \<Rightarrow>
     (case handle env v rid d of
       (Inr evs, d') \<Rightarrow> (List.map (\<lambda>(kind, p). (kind, rid, p)) evs, d')
     | (Inl e, d') \<Rightarrow> ([(ERROR, rid, error (py_str (dget_or (as_dict v) ''method'' (PyStr ''unknown''))) ''internal_error''
          (exc_message e) [])], d')))"

text \<open>The workers take the lock one after the other, in some order of the requests.\<close>

fun run_workers :: "daemon_env \<Rightarrow> (int \<times> pyval) list \<Rightarrow> daemon \<Rightarrow> (int \<times> int \<times> payload) list \<times> daemon" where
  "run_workers env [] d = ([], d)"
| "run_workers env (r # rs) d = (let (fs, d') = worker env r d; (gs, d'') = run_workers env rs d' in (fs @ gs, d''))"

end
