(* ===== verification/Daemon_Safety.thy ===== *)
theory Daemon_Safety
  imports Daemon
begin

text \<open>
  Properties of the daemon over every sequence of requests: the invariant of its handles and
  server processes, what draining stops, what cancellation can reach, what the fixture decoder
  returns, and which artifacts are loaded.
\<close>

section \<open>The state invariant\<close>

definition handle_ok :: "string \<times> model_handle \<Rightarrow> bool" where
  "handle_ok kh = (handle_id (snd kh) = fst kh \<and> (has_provider (snd kh) \<longleftrightarrow> handle_backend (snd kh) \<noteq> ''fixture''))"

definition served :: "daemon \<Rightarrow> string set" where
  "served d = {k. \<exists>h. map_of (handles d) k = Some h \<and> has_provider h}"

definition daemon_inv :: "daemon \<Rightarrow> bool" where
  "daemon_inv d = (dict_ok (handles d) \<and> list_all handle_ok (handles d)
     \<and> distinct (servers d) \<and> set (servers d) \<subseteq> served d \<and> cancelled d = [])"

lemma inv_lookup: "daemon_inv d \<Longrightarrow> map_of (handles d) k = Some h \<Longrightarrow> handle_ok (k, h)"
  by (auto simp: daemon_inv_def list_all_iff dest: map_of_SomeD)

lemma list_all_dput: "list_all P d \<Longrightarrow> P (k, v) \<Longrightarrow> list_all P (dput k v d)"
  by (induction k v d rule: dput.induct) auto

lemma list_all_dpop: "list_all P d \<Longrightarrow> list_all P (dpop k d)"
  using dpop_set_subset[of k d] by (auto simp: list_all_iff)

lemma get_handle_mem: "get_handle q d = Some h \<Longrightarrow> daemon_inv d \<Longrightarrow> map_of (handles d) (handle_id h) = Some h \<and> handle_ok (handle_id h, h)"
proof -
  assume g: "get_handle q d = Some h" and i: "daemon_inv d"
  then have "\<exists>k. map_of (handles d) k = Some h"
    by (cases "handles d") (auto simp: get_handle_def split: if_splits)
  then obtain k where "map_of (handles d) k = Some h" by blast
  with inv_lookup[OF i this] show ?thesis by (auto simp: handle_ok_def)
qed

lemma add_handle_inv:
  assumes "daemon_inv d" and "map_of (handles d) hid = None" and "p \<longleftrightarrow> eff \<noteq> ''fixture''"
  shows "daemon_inv (add_handle q hid b eff p d)"
proof -
  have nin: "hid \<notin> set (servers d)" using assms(1,2) by (auto simp: daemon_inv_def served_def)
  have "list_all handle_ok (dput hid h (handles d))" if "handle_ok (hid, h)" for h
    using assms(1) that by (intro list_all_dput) (simp_all add: daemon_inv_def)
  then show ?thesis
    using assms nin by (auto simp: daemon_inv_def add_handle_def served_def handle_ok_def map_of_dput dput_dict_ok)
qed

lemma load_refusal_None:
  assumes "load_refusal env q = None"
  shows "load_backend q \<in> {''fixture'', ''llama-cpp'', ''turboquant'', ''llama-cpp-turboquant''}
     \<and> \<not> (wants_turboquant q \<and> load_backend q = ''fixture'') \<and> pin_refusal env q = None
     \<and> (jget q ''path'' \<noteq> PyNone \<longrightarrow> files env (py_str (jget q ''path'')) \<noteq> None)"
  using assms unfolding load_refusal_def by (auto split: if_split_asm option.split_asm)

lemma load_effective_fixture:
  "load_refusal env q = None \<Longrightarrow> load_effective q = ''fixture'' \<longleftrightarrow> load_backend q = ''fixture''"
  by (drule load_refusal_None) (simp add: load_effective_def)

lemma load_cases:
  obtains (same) "snd (load env q d) = d"
  | (added) hid p where "snd (load env q d) = add_handle q hid (load_backend q) (load_effective q) p d"
      "map_of (handles d) hid = None" "p \<longleftrightarrow> load_effective q \<noteq> ''fixture''" "\<not> draining d" "load_refusal env q = None"
proof (cases "draining d \<or> load_refusal env q \<noteq> None")
  case True
  then show thesis using same by (auto simp: load_def)
next
  case False
  let ?hid = "py_str (py_or (jget q ''handle_id'') (PyStr (fresh_id env)))"
  show thesis
  proof (cases "map_of (handles d) ?hid")
    case (Some h)
    then show thesis using False same by (simp add: load_def Let_def)
  next
    case None
    then have e: "load env q d = load_new env q ?hid d" using False by (simp add: load_def Let_def)
    have f: "load_effective q = ''fixture'' \<longleftrightarrow> load_backend q = ''fixture''" using False load_effective_fixture by blast
    show thesis
    proof (cases "load_backend q = ''fixture'' \<or> jget q ''path'' \<noteq> PyNone \<and> (\<exists>u. start_provider env q (wants_turboquant q) = Inr u)")
      case True
      then have "snd (load env q d) = add_handle q ?hid (load_backend q) (load_effective q) (load_effective q \<noteq> ''fixture'') d"
        unfolding e load_new_def using f by (auto simp: loaded_answer_def)
      then show thesis using added None False by blast
    next
      case F: False
      then have "snd (load env q d) = d"
        unfolding e load_new_def by (auto split: sum.splits)
      then show thesis by (rule same)
    qed
  qed
qed

lemma load_inv: "daemon_inv d \<Longrightarrow> daemon_inv (snd (load env q d))"
  by (rule load_cases[of env q d]) (simp_all add: add_handle_inv)

lemma warm_inv: "daemon_inv d \<Longrightarrow> daemon_inv (snd (warm q d))"
proof -
  assume i: "daemon_inv d"
  show ?thesis
  proof (cases "get_handle q d")
    case (Some h)
    note m = get_handle_mem[OF Some i]
    have "list_all handle_ok (dput (handle_id h) (h\<lparr>warmed := True, handle_state := ''loaded''\<rparr>) (handles d))"
      using i m by (intro list_all_dput) (auto simp: daemon_inv_def handle_ok_def)
    then show ?thesis
      using i m Some by (auto simp: warm_def daemon_inv_def served_def map_of_dput dput_dict_ok)
  qed (simp add: warm_def i)
qed

lemma unload_inv: "daemon_inv d \<Longrightarrow> daemon_inv (snd (unload q d))"
  by (auto simp: unload_def Let_def daemon_inv_def served_def map_of_dpop dpop_dict_ok list_all_dpop distinct_removeAll)

lemma daemon_cancel_inv: "daemon_inv d \<Longrightarrow> snd (cancel q d) = d"
  by (auto simp: cancel_def daemon_inv_def split: sum.splits)

lemma with_flag_state: "daemon_inv d \<Longrightarrow> snd (with_flag rid d body) = d"
  by (simp add: with_flag_def daemon_inv_def Let_def)

lemma generate_state: "daemon_inv d \<Longrightarrow> snd (generate env q rid d) = d"
  unfolding generate_def Let_def
  by (cases "get_handle q d"; cases "to_int (dget_or q ''max_tokens'' (PyInt 8))")
     (simp_all add: with_flag_state del: insert_iff)

lemma inv_fields [simp]:
  "daemon_inv (d\<lparr>request_count := n\<rparr>) = daemon_inv d" "daemon_inv (d\<lparr>dstate := s\<rparr>) = daemon_inv d"
  "daemon_inv (d\<lparr>draining := b\<rparr>) = daemon_inv d" "daemon_inv (d\<lparr>replays := r\<rparr>) = daemon_inv d"
  by (simp_all add: daemon_inv_def served_def)

lemma shutdown_inv:
  "daemon_inv d \<Longrightarrow> daemon_inv (d\<lparr>request_count := n, cancelled := List.map f (cancelled d), servers := []\<rparr>)"
  by (simp add: daemon_inv_def)

lemma handle_plain_inv: "daemon_inv d \<Longrightarrow> daemon_inv (snd (handle_plain env m q rid d))"
  unfolding handle_plain_def Let_def
  by (simp add: load_inv warm_inv unload_inv daemon_cancel_inv generate_state shutdown_inv)

lemma bridge_state:
  "snd (snd (bridge_generate now c mc h v reps d)) = d \<or> (\<exists>q. snd (snd (bridge_generate now c mc h v reps d)) = snd (h q d))"
  unfolding bridge_generate_def Let_def
  by (auto split: sum.split bridge_exc.split action.split prod.split list.split) (metis snd_conv)+

lemma runtime_generate_inv: "daemon_inv d \<Longrightarrow> daemon_inv (snd (runtime_generate env q rid d))"
proof -
  assume i: "daemon_inv d"
  let ?v = "case jget q ''request'' of PyDict r \<Rightarrow> PyDict r | _ \<Rightarrow> PyDict q"
  let ?b = "bridge_generate (now_ms env) (local_caps env) (model_caps env) (\<lambda>q'. handle_plain env ''generate'' q' rid) ?v (replays d) d"
  have "daemon_inv (snd (snd ?b))"
    using bridge_state[of "now_ms env" "local_caps env" "model_caps env" "\<lambda>q'. handle_plain env ''generate'' q' rid" ?v "replays d" d]
      handle_plain_inv[OF i] i by metis
  then show ?thesis by (simp add: runtime_generate_def Let_def case_prod_unfold)
qed

lemma handle_inv: "daemon_inv d \<Longrightarrow> daemon_inv (snd (handle env v rid d))"
  by (auto simp: handle_def handle_plain_inv runtime_generate_inv split: pyval.split)

type_synonym request = "daemon_env \<times> pyval \<times> int"

definition daemon_step :: "request \<Rightarrow> daemon \<Rightarrow> daemon" where
  "daemon_step r d = (case r of (env, v, rid) \<Rightarrow> snd (handle env v rid d))"

lemma daemon_step_inv: "daemon_inv d \<Longrightarrow> daemon_inv (daemon_step r d)"
  by (cases r) (simp add: daemon_step_def handle_inv)

interpretation daemon: machine "\<lambda>d. d = new_daemon" daemon_step daemon_inv
proof unfold_locales
  show "daemon_inv d" if "d = new_daemon" for d
    using that by (simp add: new_daemon_def daemon_inv_def)
  show "daemon_inv (daemon_step r d)" if "daemon_inv d" for r d
    by (rule daemon_step_inv[OF that])
qed

text \<open>
  C1: over every sequence of requests, however the surroundings answer, handles are keyed by
  their distinct ids, only handles of a llama.cpp backend own a provider, and every server
  process still running belongs to a loaded handle: none is leaked or owned twice.
\<close>

theorem no_leaked_server:
  "let d = fold daemon_step reqs new_daemon in
     distinct (dkeys (handles d)) \<and> distinct (servers d)
     \<and> (\<forall>k \<in> set (servers d). \<exists>h. map_of (handles d) k = Some h \<and> handle_id h = k \<and> handle_backend h \<noteq> ''fixture'')"
proof -
  have i: "daemon_inv (fold daemon_step reqs new_daemon)" by (rule daemon.reach_inv) simp
  then show ?thesis
    using inv_lookup[OF i] by (fastforce simp: daemon_inv_def dict_ok_def served_def handle_ok_def Let_def)
qed

definition demo_env :: daemon_env where
  "demo_env = \<lparr>env_registry = [], standalone = True, now_ms = 5, files = (\<lambda>p. if p = ''m.gguf'' then Some [] else None),
     fresh_id = ''fresh'', receipts = \<lparr>host_platform = ''Linux'', elapsed_ms = Fin 1, user_cpu_ms = Fin 1,
       system_cpu_ms = Fin 1, fresh_receipt_id = ''receipt'', utc_now = ''now''\<rparr>,
     new_provider = (\<lambda>q tq. Inr ()), start_server = (\<lambda>p port. Inr ()),
     llama = (\<lambda>p n. Inl (RuntimeError ''down'')), local_caps = demo_caps False, model_caps = demo_caps False,
     cache_caps = demo_caps False, tq_compress = (\<lambda>v b s. Inl (ValueError ''none'')),
     tq_decompress = (\<lambda>v. Inl (ValueError ''none''))\<rparr>"

definition load_request :: "string \<Rightarrow> string \<Rightarrow> pyval \<Rightarrow> request" where
  "load_request hid b path = (demo_env, PyDict [(''method'', PyStr ''load''), (''handle_id'', PyStr hid),
     (''backend'', PyStr b), (''path'', path)], 1)"

definition plain_request :: "string \<Rightarrow> payload \<Rightarrow> request" where
  "plain_request m q = (demo_env, PyDict ((''method'', PyStr m) # q), 2)"

theorem no_leaked_server_witness:
  "\<exists>h. map_of (handles (fold daemon_step [load_request ''a'' ''llama-cpp'' (PyStr ''m.gguf''),
        load_request ''b'' ''fixture'' PyNone] new_daemon)) ''a'' = Some h \<and> handle_backend h \<noteq> ''fixture''"
proof -
  let ?d = "fold daemon_step [load_request ''a'' ''llama-cpp'' (PyStr ''m.gguf''), load_request ''b'' ''fixture'' PyNone] new_daemon"
  have "servers ?d = [''a'']" by code_simp
  then have "''a'' \<in> set (servers ?d)" by simp
  with no_leaked_server[of "[load_request ''a'' ''llama-cpp'' (PyStr ''m.gguf''), load_request ''b'' ''fixture'' PyNone]"]
  show ?thesis unfolding Let_def by blast
qed

section \<open>Draining\<close>

text \<open>No event of an answer claims success.\<close>

definition no_success :: "event list res \<Rightarrow> bool" where
  "no_success r = (case r of Inl e \<Rightarrow> True | Inr evs \<Rightarrow> list_all (\<lambda>(k, p). map_of p ''ok'' \<noteq> Some (PyBool True) \<and> k \<noteq> EVENT) evs)"

lemma no_success_fail [simp]: "no_success (Inr (fail m c t))" "no_success (Inl e)"
  by (simp_all add: no_success_def fail_def EVENT_def ERROR_def)

lemma no_success_cancelled [simp]: "no_success (Inr [cancelled_answer env b])"
  by (simp add: no_success_def cancelled_answer_def EVENT_def RESPONSE_def)

lemma drained_generate:
  assumes "draining d" and "\<And>n. to_int (dget_or q ''max_tokens'' (PyInt 8)) = Inr n \<Longrightarrow> 0 < n"
  shows "no_success (fst (generate env q rid d))"
proof (cases "get_handle q d")
  case None
  then show ?thesis by (simp add: generate_def)
next
  case (Some h)
  show ?thesis
  proof (cases "to_int (dget_or q ''max_tokens'' (PyInt 8))")
    case (Inl e)
    then show ?thesis by (simp add: generate_def Some)
  next
    case (Inr n)
    with assms(2) have n: "0 < n" by blast
    have "no_success (fst (with_flag rid d (\<lambda>stop. llama_events env q rid h p n stop r)))"
         "no_success (fst (with_flag rid d (fixture_events env q rid h p (nat n))))" for p r
      using assms(1) n by (simp_all add: with_flag_def Let_def llama_events_def fixture_events_def)
    then show ?thesis unfolding generate_def Some Inr option.case sum.case Let_def
      by (simp del: insert_iff)
  qed
qed

text \<open>Under draining a request keeps the flag and adds no handle.\<close>

definition drained_by :: "daemon \<Rightarrow> daemon \<Rightarrow> bool" where
  "drained_by d e = (draining e \<and> daemon_inv e \<and> set (dkeys (handles e)) \<subseteq> set (dkeys (handles d)))"

lemma drained_by_upd [simp]:
  "drained_by d (e\<lparr>request_count := n\<rparr>) = drained_by d e" "drained_by d (e\<lparr>dstate := st\<rparr>) = drained_by d e"
  "drained_by d (e\<lparr>replays := r\<rparr>) = drained_by d e"
  by (simp_all add: drained_by_def)

lemma drained_plain:
  assumes "drained_by d e"
  shows "drained_by d (snd (handle_plain env m q rid e))"
proof -
  let ?e = "e\<lparr>request_count := request_count e + 1\<rparr>"
  have i: "daemon_inv ?e" and dr: "draining ?e" using assms by (simp_all add: drained_by_def)
  have l: "snd (load env q ?e) = ?e" using dr by (simp add: load_def)
  have w: "drained_by d (snd (warm q ?e))"
  proof (cases "get_handle q ?e")
    case (Some h)
    have "handle_id h \<in> set (dkeys (handles ?e))"
      using get_handle_mem[OF Some i] by (metis map_of_None_keys option.distinct(1))
    then have "set (dkeys (handles (snd (warm q ?e)))) \<subseteq> set (dkeys (handles e))"
      using Some by (auto simp: warm_def simp del: set_map simp: set_dkeys_dput)
    moreover have "draining (snd (warm q ?e))" using dr Some by (simp add: warm_def)
    ultimately show ?thesis using warm_inv[OF i, of q] assms unfolding drained_by_def by blast
  qed (use assms in \<open>simp add: warm_def\<close>)
  have u: "drained_by d (snd (unload q ?e))"
  proof -
    have "set (dkeys (handles (snd (unload q ?e)))) \<subseteq> set (dkeys (handles e))"
      using dpop_set_subset[of _ "handles e"] by (auto simp: unload_def Let_def)
    moreover have "draining (snd (unload q ?e))" using dr by (simp add: unload_def Let_def)
    ultimately show ?thesis using unload_inv[OF i, of q] assms unfolding drained_by_def by blast
  qed
  show ?thesis
    using assms l w u unfolding handle_plain_def Let_def
    by (simp add: daemon_cancel_inv[OF i] generate_state[OF i]) (auto simp: drained_by_def shutdown_inv)
qed

lemma drained_step: "drained_by d e \<Longrightarrow> drained_by d (daemon_step r e)"
proof -
  assume dr: "drained_by d e"
  obtain env v rid where r: "r = (env, v, rid)" by (cases r)
  have "drained_by d (snd (runtime_generate env q rid (e\<lparr>request_count := n\<rparr>)))" for q n
  proof -
    let ?e = "e\<lparr>request_count := n\<rparr>"
    have de: "drained_by d ?e" using dr by simp
    let ?v = "case jget q ''request'' of PyDict r \<Rightarrow> PyDict r | _ \<Rightarrow> PyDict q"
    let ?b = "bridge_generate (now_ms env) (local_caps env) (model_caps env) (\<lambda>q'. handle_plain env ''generate'' q' rid) ?v (replays ?e) ?e"
    have "drained_by d (snd (snd ?b))"
      using bridge_state[of "now_ms env" "local_caps env" "model_caps env" "\<lambda>q'. handle_plain env ''generate'' q' rid" ?v "replays ?e" ?e]
        drained_plain[OF de] de by metis
    then show ?thesis by (simp add: runtime_generate_def Let_def case_prod_unfold)
  qed
  then show ?thesis
    using drained_plain[OF dr] dr by (auto simp: r daemon_step_def handle_def split: pyval.split)
qed

lemma drained_run: "drained_by d e \<Longrightarrow> drained_by d (fold daemon_step reqs e)"
  by (induction reqs arbitrary: e) (simp_all add: drained_step)

lemma drain_drains: "daemon_inv d \<Longrightarrow> drained_by d (daemon_step (env, PyDict [(''method'', PyStr ''drain'')], rid) d)"
  by (simp add: daemon_step_def handle_def jget_def dget_or_def METHODS_def handle_plain_def Let_def drained_by_def)

text \<open>
  Draining is final: after a drain request, whatever requests follow, no handle is added and
  every \<open>generate\<close> of at least one token yields neither a token nor a successful answer.
\<close>

theorem drain_is_final:
  assumes "d = fold daemon_step before new_daemon"
    and "e = fold daemon_step after (daemon_step (env0, PyDict [(''method'', PyStr ''drain'')], rid0) d)"
    and "jget q ''method'' = PyStr ''generate''" and "to_int (dget_or q ''max_tokens'' (PyInt 8)) = Inr n" and "0 < n"
  shows "set (dkeys (handles e)) \<subseteq> set (dkeys (handles d)) \<and> no_success (fst (handle env (PyDict q) rid e))"
proof -
  have i: "daemon_inv d" unfolding assms(1) by (rule daemon.reach_inv) simp
  have dr: "drained_by d e" unfolding assms(2) by (rule drained_run[OF drain_drains[OF i]])
  have "fst (handle env (PyDict q) rid e) = fst (generate env q rid (e\<lparr>request_count := request_count e + 1\<rparr>))"
    using assms(3) by (simp add: handle_def METHODS_def handle_plain_def Let_def)
  then show ?thesis using drained_generate[of "e\<lparr>request_count := request_count e + 1\<rparr>" q env rid] dr assms(4,5)
    by (simp add: drained_by_def)
qed

theorem drain_is_final_witness:
  "no_success (fst (handle demo_env (PyDict [(''method'', PyStr ''generate''), (''prompt'', PyStr ''hi'')]) 3
     (fold daemon_step [] (daemon_step (demo_env, PyDict [(''method'', PyStr ''drain'')], 2)
        (fold daemon_step [load_request ''b'' ''fixture'' PyNone] new_daemon)))))"
  using drain_is_final[OF refl refl, of "[(''method'', PyStr ''generate''), (''prompt'', PyStr ''hi'')]" 8
      "[]" demo_env 2 "[load_request ''b'' ''fixture'' PyNone]" demo_env 3]
  by (simp add: jget_def dget_or_def to_int_def)

text \<open>
  A handshake after a drain reports the daemon \<open>ready\<close>, as does its status, while it still
  refuses to load and to generate.
\<close>

theorem handshake_hides_draining:
  "let d = fold daemon_step [plain_request ''drain'' [], plain_request ''handshake'' []] new_daemon in
     dstate d = ''ready'' \<and> fst (handle demo_env (PyDict [(''method'', PyStr ''load'')]) 4 d)
       = Inr (fail ''load'' ''draining'' ''daemon is draining'')"
  by code_simp

section \<open>Cancellation\<close>

text \<open>
  Cancellation never reaches a generation: requests run one at a time under the lock, a
  request id is registered only while its own request runs, and so every \<open>cancel\<close> finds its
  target unknown.
\<close>

theorem cancel_never_finds_target:
  assumes "jget q ''method'' = PyStr ''cancel''" and "to_int (dget_or q ''request_id'' (PyInt (-1))) = Inr t"
  shows "fst (handle env (PyDict q) rid (fold daemon_step reqs new_daemon)) =
     Inr (reply ''cancel'' [(''request_id'', PyInt t), (''cancelled'', PyBool False), (''reason'', PyStr ''unknown_request'')])"
proof -
  have "daemon_inv (fold daemon_step reqs new_daemon)" by (rule daemon.reach_inv) simp
  then have "cancelled (fold daemon_step reqs new_daemon) = []" by (simp add: daemon_inv_def)
  with assms show ?thesis by (simp add: handle_def METHODS_def handle_plain_def Let_def cancel_def)
qed

theorem cancel_never_finds_target_witness:
  "fst (handle demo_env (PyDict [(''method'', PyStr ''cancel''), (''request_id'', PyInt 7)]) 8
     (fold daemon_step [load_request ''b'' ''fixture'' PyNone] new_daemon)) =
   Inr (reply ''cancel'' [(''request_id'', PyInt 7), (''cancelled'', PyBool False), (''reason'', PyStr ''unknown_request'')])"
  by (rule cancel_never_finds_target) (simp_all add: jget_def dget_or_def to_int_def)

section \<open>The fixture decoder\<close>

lemma fixture_tokens:
  "split p \<noteq> [] \<Longrightarrow> p \<noteq> [] \<Longrightarrow>
   map_res (fixture_token p) is = Inr (List.map (\<lambda>i. '' '' @ split p ! (i mod length (split p))) is)"
proof (induction "is")
  case (Cons i "is")
  have "max 1 (length (split p)) = length (split p)" using Cons.prems(1) by (cases "split p") auto
  with Cons show ?case by (simp add: fixture_token_def Let_def)
qed simp

text \<open>
  The fixture decoder answers a prompt with words \<open>w\<^sub>0 \<dots> w\<^sub>k\<close> by exactly the requested number of
  token events, token \<open>i\<close> being \<open>w\<close> at \<open>i mod (k + 1)\<close>, and then one answer whose text is their
  concatenation.
\<close>

theorem fixture_decodes_words:
  assumes "split p \<noteq> []" and "p \<noteq> []"
  shows "\<exists>ans. fixture_events env q rid h p n False =
     Inr (List.map (\<lambda>i. token_event rid i ('' '' @ split p ! (i mod length (split p)))) [0..<n] @ [(RESPONSE, ans)])
     \<and> jget ans ''ok'' = PyBool True \<and> jget ans ''generated_tokens'' = PyInt (int n)
     \<and> jget ans ''text'' = PyStr (concat (List.map (\<lambda>i. '' '' @ split p ! (i mod length (split p))) [0..<n]))"
proof -
  have "List.map (\<lambda>(i, tok). token_event rid i tok) (enumerate 0 (List.map f [0..<n])) = List.map (\<lambda>i. token_event rid i (f i)) [0..<n]"
    for f by (rule nth_equalityI) (simp_all add: nth_enumerate_eq)
  then show ?thesis
    using fixture_tokens[OF assms, of "[0..<n]"]
    by (simp add: fixture_events_def Let_def ok_def jget_def dget_or_def)
qed

definition demo_handle :: model_handle where
  "demo_handle = \<lparr>handle_id = ''h'', handle_model = ''m'', handle_path = None, handle_backend = ''fixture'', has_provider = False, handle_requested = Some ''fixture'',
     handle_state = ''ready'', warmed = False\<rparr>"

theorem fixture_decodes_words_witness:
  "\<exists>ans. fixture_events demo_env [] 1 demo_handle ''a bc'' 3 False =
     Inr (List.map (\<lambda>i. token_event 1 i ('' '' @ [''a'', ''bc''] ! (i mod 2))) [0..<3] @ [(RESPONSE, ans)])
     \<and> jget ans ''text'' = PyStr '' a bc a''"
proof -
  have s: "split ''a bc'' = [''a'', ''bc'']" by code_simp
  have t: "concat (List.map (\<lambda>i. '' '' @ [''a'', ''bc''] ! (i mod length [''a'', ''bc''])) [0..<3]) = '' a bc a''" by code_simp
  have "split ''a bc'' \<noteq> []" "''a bc'' \<noteq> []" by (simp_all add: s)
  from fixture_decodes_words[OF this, of demo_env "[]" 1 demo_handle 3, unfolded s t] show ?thesis by (auto simp: numeral_2_eq_2)
qed

text \<open>
  A prompt of whitespace only makes the fixture decoder raise: it has no word to index.
\<close>

theorem blank_prompt_raises:
  "fst (handle demo_env (PyDict [(''method'', PyStr ''generate''), (''prompt'', PyStr ''  '')]) 3
     (fold daemon_step [load_request ''b'' ''fixture'' PyNone] new_daemon)) = Inl (IndexError ''list index out of range'')"
proof -
  let ?d = "fold daemon_step [load_request ''b'' ''fixture'' PyNone] new_daemon"
  let ?q = "[(''method'', PyStr ''generate''), (''prompt'', PyStr ''  '')]"
  have "handles ?d \<noteq> [] \<and> handle_backend (snd (hd (handles ?d))) = ''fixture''
      \<and> handle_requested (snd (hd (handles ?d))) = Some ''fixture'' \<and> \<not> draining ?d \<and> cancelled ?d = []" by code_simp
  then obtain k h hs where d: "handles ?d = (k, h) # hs" "handle_backend h = ''fixture''" "handle_requested h = Some ''fixture''"
      "\<not> draining ?d" "cancelled ?d = []" by (cases "handles ?d") auto
  have f: "effective_name (lower (strip (py_str (PyStr ''fixture'')))) = ''fixture''" by code_simp
  have t: "fixture_token ''  '' 0 = Inl (IndexError ''list index out of range'')" by code_simp
  have u: "[0..<8] = 0 # [Suc 0..<8]" by (simp add: upt_conv_Cons)
  have "fst (generate demo_env ?q 3 (?d\<lparr>request_count := n\<rparr>)) = Inl (IndexError ''list index out of range'')" for n
    using d f t by (simp add: generate_def get_handle_def jget_def dget_or_def to_int_def with_flag_def fixture_events_def Let_def u del: upt_Suc fold.simps)
  then show ?thesis by (simp add: handle_def METHODS_def handle_plain_def Let_def jget_def dget_or_def del: fold.simps)
qed

section \<open>Pinned artifacts\<close>

text \<open>
  A model is loaded from a path under an artifact pin only if the pin is valid and the
  SHA-256 of the bytes of the file is the digest of the pin.
\<close>

theorem loaded_model_matches_pin:
  assumes "snd (load env q d) \<noteq> d" and "jget q ''artifact_pin'' \<noteq> PyNone" and "jget q ''path'' \<noteq> PyNone"
    and "pin_from_payload (jget q ''artifact_pin'') = Inr pin" and "lower (artifact_kind pin) = ''model''"
  shows "Artifacts.validate pin = Inr () \<and> (\<exists>bytes. files env (py_str (jget q ''path'')) = Some bytes \<and> sha256_hex bytes = pin_digest pin)"
proof (rule load_cases[of env q d])
  assume "load_refusal env q = None"
  then have "pin_refusal env q = None" using load_refusal_None by blast
  then have "pin_matches env q = Inr True"
    using assms(2) by (simp add: pin_refusal_def split: sum.splits bool.splits)
  then show ?thesis
    using assms(3-5) by (auto simp: pin_matches_def digest_file_def split: if_splits option.splits)
qed (use assms(1) in simp)

lemma hex_pin_digest: "set s \<subseteq> set hex_alphabet \<Longrightarrow> lower (remove_prefix ''sha256:'' s) = s \<and> remove_prefix ''sha256:'' s = s"
proof -
  assume h: "set s \<subseteq> set hex_alphabet"
  have "c \<in> set hex_alphabet \<Longrightarrow> lower_char c = c" for c by (auto simp: hex_alphabet_def lower_char_def)
  then have "lower s = s" using h by (auto simp: lower_def intro: map_idI)
  moreover have "CHR ''s'' \<notin> set hex_alphabet" by (simp add: hex_alphabet_def)
  then have "\<not> starts_with ''sha256:'' s" using h by (cases s) (auto simp: starts_with_def)
  ultimately show ?thesis by (simp add: remove_prefix_def)
qed

definition pinned_load :: "string \<Rightarrow> payload" where
  "pinned_load h = [(''method'', PyStr ''load''), (''handle_id'', PyStr ''a''), (''path'', PyStr ''m.gguf''),
     (''artifact_pin'', PyDict [(''schema'', PyStr ARTIFACT_PIN_SCHEMA_V1), (''artifact_id'', PyStr ''m''),
        (''artifact_kind'', PyStr ''model''), (''version'', PyStr ''v1''), (''sha256'', PyStr h),
        (''source_url'', PyStr ''https://x''), (''upstream_commit'', PyStr ''c''), (''license'', PyStr ''MIT'')])]"

lemma pinned_fields:
  "jget (pinned_load h) ''path'' = PyStr ''m.gguf''"
  "jget (pinned_load h) ''artifact_pin'' \<noteq> PyNone" "load_backend (pinned_load h) = ''fixture''"
  "wants_turboquant (pinned_load h) = False" "py_str (py_or (jget (pinned_load h) ''handle_id'') (PyStr f)) = ''a''"
  "pin_from_payload (jget (pinned_load h) ''artifact_pin'') = Inr ((demo_pin ''v1'')\<lparr>sha256_text := h\<rparr>)"
  by code_simp+

lemma demo_pin_valid: "hex64_match h \<Longrightarrow> Artifacts.validate ((demo_pin ''v1'')\<lparr>sha256_text := h\<rparr>) = Inr ()"
proof -
  have "first_blank [(''artifact_id'', ''m''), (''artifact_kind'', ''model''), (''version'', ''v1''), (''source_url'', ''https://x''),
      (''upstream_commit'', ''c''), (''license'', ''MIT'')] = None" "lower ''v1'' \<noteq> ''latest''"
    "starts_with ''https://'' ''https://x''" by code_simp+
  then show "hex64_match h \<Longrightarrow> ?thesis" by (simp add: Artifacts.validate_def demo_pin_def)
qed

theorem loaded_model_matches_pin_witness:
  "\<exists>bytes. files demo_env ''m.gguf'' = Some bytes \<and> sha256_hex bytes = pin_digest ((demo_pin ''v1'')\<lparr>sha256_text := sha256_hex []\<rparr>)"
proof -
  let ?h = "sha256_hex []"
  let ?q = "pinned_load ?h"
  have x: "remove_prefix ''sha256:'' ?h = ?h" "lower ?h = ?h"
    using hex_pin_digest[OF sha256_hex_digits] by metis+
  have "is_hex_char c" if "c \<in> set hex_alphabet" for c
    using that by (auto simp: is_hex_char_def hex_alphabet_def lower_char_def)
  then have "hex64_match ?h" using x sha256_hex_digits by (auto simp: hex64_match_def list_all_iff)
  note v = demo_pin_valid[OF this]
  have k: "lower (artifact_kind (demo_pin ''v1'')) = ''model''" by code_simp
  have f: "files demo_env ''m.gguf'' = Some []" by (simp add: demo_env_def)
  have "pin_matches demo_env ?q = Inr True"
    using k by (simp add: pin_matches_def pinned_fields v digest_file_def f pin_digest_def x)
  then have "load_refusal demo_env ?q = None"
    by (simp add: load_refusal_def pinned_fields pin_refusal_def f)
  then have "snd (load demo_env ?q new_daemon) = add_handle ?q ''a'' ''fixture'' (load_effective ?q) False new_daemon"
    unfolding load_def Let_def pinned_fields(5)
    by (simp add: new_daemon_def load_new_def pinned_fields loaded_answer_def)
  then have n: "snd (load demo_env ?q new_daemon) \<noteq> new_daemon"
    by (simp add: add_handle_def new_daemon_def)
  have "lower (artifact_kind ((demo_pin ''v1'')\<lparr>sha256_text := ?h\<rparr>)) = ''model''" using k by simp
  from loaded_model_matches_pin[OF n pinned_fields(2) _ pinned_fields(6) this] show ?thesis
    by (simp add: pinned_fields(1))
qed

section \<open>The stdio loop\<close>

text \<open>
  A request frame whose payload is not a map takes the whole daemon down: the loop asks it
  for its method, and no later frame is read.
\<close>

theorem non_map_payload_stops_loop:
  "exit_by (serve (Frame REQUEST rid (PyList xs) # rest)) = LoopRaised
   \<and> started (serve (Frame REQUEST rid (PyList xs) # rest)) = [(rid, PyList xs)]"
  by (simp add: stop_with_def)

end
