(* ===== verification/Colibri.thy ===== *)
theory Colibri
  imports Sha256 Interfaces
begin

text \<open>
  \<open>local_data_plane/colibri.py\<close>: the bounded LRU cache of expert shards and the streaming of a
  routing through it.  The cache is an ordered dictionary, oldest entry first; the file system
  is a parameter.
\<close>

section \<open>The expert cache\<close>

record expert_cache =
  capacity :: int
  items :: "(string \<times> byte list) list"
  hits :: int
  misses :: int
  evictions :: int

definition new_cache :: "int \<Rightarrow> expert_cache res" where
  "new_cache cap = (if cap \<le> 0 then Inl (ValueError ''expert cache capacity must be positive'')
     else Inr \<lparr>capacity = cap, items = [], hits = 0, misses = 0, evictions = 0\<rparr>)"

text \<open>\<open>loaded\<close> is what the loader returns or raises; it runs on a miss only.\<close>

definition get_or_load :: "string \<Rightarrow> byte list res \<Rightarrow> expert_cache \<Rightarrow> byte list res \<times> expert_cache" where
  "get_or_load k loaded c =
     (case map_of (items c) k of
       Some v \<Rightarrow> (Inr v, c\<lparr>hits := hits c + 1, items := dput k v (dpop k (items c))\<rparr>)
     | None \<Rightarrow>
        (let c = c\<lparr>misses := misses c + 1\<rparr> in
         case loaded of
           Inl e \<Rightarrow> (Inl e, c)
         | Inr v \<Rightarrow>
            let c = c\<lparr>items := dput k v (items c)\<rparr> in
            (Inr v, if capacity c < int (length (items c))
                    then c\<lparr>items := tl (items c), evictions := evictions c + 1\<rparr> else c)))"

section \<open>Streaming\<close>

record expert_shard =
  shard_id :: string
  shard_path :: string
  shard_sha :: "string option"

record colibri_metrics =
  bytes_read :: int
  tokens :: int
  cache_hits :: int
  cache_misses :: int
  cache_evictions :: int
  read_bytes_per_token :: "pyfloat option"

record colibri_run =
  outputs :: "byte list list"
  run_metrics :: colibri_metrics
  run_status :: string
  run_error :: "string option"

record colibri =
  shards :: "(string \<times> expert_shard) list"
  cache :: expert_cache

definition new_colibri :: "expert_shard list \<Rightarrow> int \<Rightarrow> colibri res" where
  "new_colibri ss cap =
     (let d = fold (\<lambda>s d. dput (shard_id s) s d) ss [] in
      if d = [] then Inl (ValueError ''Colibri requires at least one expert shard'')
      else rbind (new_cache cap) (\<lambda>c. Inr \<lparr>shards = d, cache = c\<rparr>))"

type_synonym disk = "string \<Rightarrow> byte list option"

definition read_shard :: "disk \<Rightarrow> expert_shard \<Rightarrow> byte list res" where
  "read_shard fs s = (case fs (shard_path s) of
      None \<Rightarrow> Inl (FileNotFoundError (''expert shard is missing: '' @ shard_path s))
    | Some data \<Rightarrow>
        if shard_sha s \<noteq> None \<and> shard_sha s \<noteq> Some (sha256_hex data)
        then Inl (OSError (''expert shard hash mismatch: '' @ shard_path s)) else Inr data)"

definition metrics_of :: "int \<Rightarrow> int \<Rightarrow> expert_cache \<Rightarrow> colibri_metrics" where
  "metrics_of tok bytes c = \<lparr>bytes_read = bytes, tokens = tok, cache_hits = hits c, cache_misses = misses c,
     cache_evictions = evictions c,
     read_bytes_per_token = (if tok = 0 then None else Some (fl (of_int bytes / of_int tok)))\<rparr>"

definition stop_run :: "byte list list \<Rightarrow> int \<Rightarrow> int \<Rightarrow> string \<Rightarrow> string option \<Rightarrow> expert_cache \<Rightarrow> colibri_run \<times> expert_cache" where
  "stop_run out tok bytes st err c =
     (\<lparr>outputs = out, run_metrics = metrics_of tok bytes c, run_status = st, run_error = err\<rparr>, c)"

text \<open>
  The loop over the routing, with the outputs, tokens and bytes so far; \<open>stops n\<close> is what the
  \<open>cancelled\<close> callback answers before token \<open>n\<close>.
\<close>

fun stream_from :: "disk \<Rightarrow> (string \<times> expert_shard) list \<Rightarrow> (nat \<Rightarrow> bool) \<Rightarrow> byte list list \<Rightarrow> int \<Rightarrow> int
    \<Rightarrow> string list \<Rightarrow> expert_cache \<Rightarrow> colibri_run \<times> expert_cache" where
  "stream_from fs ss stops out tok bytes [] c = stop_run out tok bytes ''completed'' None c"
| "stream_from fs ss stops out tok bytes (k # ks) c =
     (if stops (nat tok) then stop_run [] tok bytes ''cancelled'' None c
      else case map_of ss k of
          None \<Rightarrow> stop_run [] tok bytes ''failed'' (Some (''unknown expert shard: '' @ k)) c
        | Some s \<Rightarrow>
            (let miss = (map_of (items c) k = None) in
             case get_or_load k (read_shard fs s) c of
               (Inl e, c) \<Rightarrow> stop_run [] tok bytes ''failed'' (Some (exc_message e)) c
             | (Inr data, c) \<Rightarrow>
                 stream_from fs ss stops (out @ [data]) (tok + 1) (if miss then bytes + int (length data) else bytes) ks c))"

definition stream :: "disk \<Rightarrow> (nat \<Rightarrow> bool) \<Rightarrow> string list \<Rightarrow> colibri \<Rightarrow> colibri_run \<times> colibri" where
  "stream fs stops routing b =
     (let (r, c) = stream_from fs (shards b) stops [] 0 0 routing (cache b) in (r, b\<lparr>cache := c\<rparr>))"

section \<open>The cache refines least-recently-used\<close>

text \<open>The last \<open>n\<close> elements of a list; the specification of an LRU cache over a sequence of accesses.\<close>

definition lastn :: "nat \<Rightarrow> 'a list \<Rightarrow> 'a list" where
  "lastn n xs = drop (length xs - n) xs"

definition lru :: "nat \<Rightarrow> string list \<Rightarrow> string list" where
  "lru n accesses = lastn n (remdups accesses)"

lemma remdups_snoc: "remdups (xs @ [k]) = removeAll k (remdups xs) @ [k]"
  by (induction xs) auto

lemma lastn_split:
  obtains ys where "xs = ys @ lastn n xs" "length (lastn n xs) = min n (length xs)" "ys = [] \<or> length (lastn n xs) = n"
proof -
  have "xs = take (length xs - n) xs @ lastn n xs" by (simp add: lastn_def)
  moreover have "length (lastn n xs) = min n (length xs)" by (simp add: lastn_def min_def)
  moreover have "take (length xs - n) xs = [] \<or> length (lastn n xs) = n"
    by (cases "n \<le> length xs") (simp_all add: lastn_def)
  ultimately show thesis using that by blast
qed

lemma lastn_append: "length zs = n \<Longrightarrow> lastn n (ys @ zs) = zs"
  by (simp add: lastn_def)

lemma lastn_all: "length xs \<le> n \<Longrightarrow> lastn n xs = xs"
  by (simp add: lastn_def)

lemma lru_hit:
  assumes "k \<in> set (lru n xs)" and "0 < n"
  shows "lru n (xs @ [k]) = remove1 k (lru n xs) @ [k]"
proof -
  obtain ys where s: "remdups xs = ys @ lastn n (remdups xs)" "ys = [] \<or> length (lastn n (remdups xs)) = n"
      "length (lastn n (remdups xs)) = min n (length (remdups xs))"
    using lastn_split by metis
  let ?z = "lastn n (remdups xs)"
  have d: "distinct (ys @ ?z)" using s(1) by (metis distinct_remdups)
  have k: "k \<in> set ?z" using assms(1) by (simp add: lru_def)
  have "k \<notin> set ys" using d k by auto
  then have "removeAll k ys = ys" by simp
  moreover have "removeAll k ?z = remove1 k ?z" using d by (simp add: distinct_remove1_removeAll)
  ultimately have r: "removeAll k (remdups xs) = ys @ remove1 k ?z" by (metis s(1) removeAll_append)
  have l: "length (remove1 k ?z @ [k]) = length ?z" using k by (simp add: length_remove1) (metis Suc_pred length_pos_if_in_set)
  show ?thesis
  proof (cases "ys = []")
    case True
    then show ?thesis using l s(3) unfolding lru_def remdups_snoc r by (simp add: lastn_all)
  next
    case False
    then have "length (remove1 k ?z @ [k]) = n" using s(2) l by simp
    from lastn_append[OF this, of ys] show ?thesis unfolding lru_def remdups_snoc r by simp
  qed
qed

lemma lru_miss:
  assumes "k \<notin> set (lru n xs)" and "0 < n"
  shows "lru n (xs @ [k]) = (if length (lru n xs) < n then lru n xs @ [k] else tl (lru n xs) @ [k])"
proof -
  obtain ys where s: "remdups xs = ys @ lastn n (remdups xs)" "ys = [] \<or> length (lastn n (remdups xs)) = n"
      "length (lastn n (remdups xs)) = min n (length (remdups xs))"
    using lastn_split by metis
  let ?z = "lastn n (remdups xs)"
  have k: "k \<notin> set ?z" using assms(1) by (simp add: lru_def)
  have r: "removeAll k (remdups xs) = removeAll k ys @ ?z" by (subst s(1)) (simp add: k)
  show ?thesis
  proof (cases "length ?z < n")
    case True
    then have "ys = []" using s(2) by auto
    then show ?thesis using True unfolding lru_def remdups_snoc r by (simp add: lastn_all)
  next
    case False
    then have len: "length ?z = n" using s(3) by simp
    then obtain a z where z: "?z = a # z" using assms(2) by (cases ?z) auto
    have "lastn n ((removeAll k ys @ [a]) @ (z @ [k])) = z @ [k]" by (rule lastn_append) (use len z in simp)
    then show ?thesis using False unfolding lru_def remdups_snoc r by (simp add: z)
  qed
qed

definition accesses :: "(string \<times> byte list) list \<Rightarrow> expert_cache \<Rightarrow> expert_cache" where
  "accesses = fold (\<lambda>(k, v) c. snd (get_or_load k (Inr v) c))"

definition cache_ok :: "expert_cache \<Rightarrow> bool" where
  "cache_ok c = (0 < capacity c \<and> dict_ok (items c) \<and> int (length (items c)) \<le> capacity c
     \<and> evictions c + int (length (items c)) \<le> misses c)"

lemma get_or_load_capacity: "capacity (snd (get_or_load k l c)) = capacity c"
  by (simp add: get_or_load_def Let_def split: option.split sum.split)

lemma length_dpop: "k \<in> set (dkeys d) \<Longrightarrow> length (dpop k d) = length d - 1"
proof (induction d)
  case (Cons kv d)
  then show ?case by (cases kv, cases d) auto
qed simp

lemma not_in_dpop: "dict_ok d \<Longrightarrow> k \<notin> set (dkeys (dpop k d))"
  by (simp add: dkeys_dpop dict_ok_def del: set_map)

lemma get_or_load_ok: "cache_ok c \<Longrightarrow> cache_ok (snd (get_or_load k l c))"
proof (cases "map_of (items c) k")
  case (Some v)
  assume ok: "cache_ok c"
  have k: "k \<in> set (dkeys (items c))" using Some map_of_None_keys[of "items c" k] by force
  have d: "dict_ok (dpop k (items c))" using ok by (simp add: cache_ok_def dpop_dict_ok)
  have "length (dput k v (dpop k (items c))) = length (items c)"
    using length_dpop[OF k] k not_in_dpop[of "items c" k] ok
    by (simp add: dput_length cache_ok_def del: set_map) (metis Suc_pred length_map length_pos_if_in_set)
  then show ?thesis using ok Some dput_dict_ok[OF d] by (simp add: get_or_load_def cache_ok_def)
next
  case None
  assume ok: "cache_ok c"
  then have k: "k \<notin> set (dkeys (items c))" using None map_of_None_keys by metis
  have "dict_ok (dput k v (items c))" for v using ok by (simp add: cache_ok_def dput_dict_ok)
  then have d: "dict_ok (items c @ [(k, v)])" for v by (simp add: dput_new[OF k])
  then have t: "dict_ok (tl (items c @ [(k, v)]))" for v by (simp add: dict_ok_def map_tl distinct_tl)
  show ?thesis
    using ok None d t by (auto simp: get_or_load_def Let_def cache_ok_def dput_new[OF k] split: sum.split)
qed

interpretation expert_lru: machine "\<lambda>c. \<exists>n. new_cache n = Inr c" "\<lambda>(k, l) c. snd (get_or_load k l c)" cache_ok
proof unfold_locales
  show "cache_ok c" if "\<exists>n. new_cache n = Inr c" for c
    using that by (auto simp: new_cache_def cache_ok_def split: if_splits)
  show "cache_ok ((\<lambda>(k, l) c. snd (get_or_load k l c)) op c)" if "cache_ok c" for op c
    using get_or_load_ok[OF that] by (cases op) simp
qed

text \<open>
  After any accesses, failed loads included, the cache holds distinct experts, never more
  than its capacity, and has evicted no more than it loaded.
\<close>

theorem cache_stays_bounded:
  assumes "new_cache n = Inr c0"
  shows "let c = fold (\<lambda>(k, l) c. snd (get_or_load k l c)) ops c0 in
     int (length (items c)) \<le> capacity c \<and> distinct (dkeys (items c)) \<and> evictions c + int (length (items c)) \<le> misses c"
proof -
  have "cache_ok (fold (\<lambda>(k, l) c. snd (get_or_load k l c)) ops c0)"
    using expert_lru.reach_inv assms by blast
  then show ?thesis by (simp add: cache_ok_def dict_ok_def Let_def)
qed

theorem cache_stays_bounded_witness:
  "\<exists>c0. new_cache 1 = Inr c0 \<and> int (length (items (fold (\<lambda>(k, l) c. snd (get_or_load k l c))
     [(''a'', Inr [1]), (''b'', Inl TimeoutExpired), (''c'', Inr [2])] c0))) \<le> 1"
proof -
  obtain c0 where c0: "new_cache 1 = Inr c0" by (simp add: new_cache_def)
  let ?f = "\<lambda>(k, l) c. snd (get_or_load k l c)"
  have "capacity (fold ?f ops c) = capacity c" for ops c
    by (induction ops arbitrary: c) (auto simp: get_or_load_capacity)
  moreover have "capacity c0 = 1" using c0 by (auto simp: new_cache_def)
  ultimately show ?thesis
    using cache_stays_bounded[OF c0, of "[(''a'', Inr [1]), (''b'', Inl TimeoutExpired), (''c'', Inr [2])]"] c0
    unfolding Let_def by metis
qed

lemma accesses_lru:
  assumes "cache_ok c" and "dkeys (items c) = lru (nat (capacity c)) before"
  shows "dkeys (items (accesses kvs c)) = lru (nat (capacity c)) (before @ List.map fst kvs)"
  using assms
proof (induction kvs arbitrary: c before)
  case (Cons kv kvs)
  obtain k v where kv: "kv = (k, v)" by fastforce
  let ?n = "nat (capacity c)" and ?c = "snd (get_or_load k (Inr v) c)"
  have n: "0 < ?n" "int ?n = capacity c" using Cons.prems(1) by (auto simp: cache_ok_def)
  have "dkeys (items ?c) = lru ?n (before @ [k])"
  proof (cases "map_of (items c) k")
    case (Some w)
    then have "k \<in> set (dkeys (items c))" using map_of_None_keys[of "items c" k] by force
    then have k: "k \<in> set (lru ?n before)" by (simp only: Cons.prems(2))
    have "k \<notin> set (dkeys (dpop k (items c)))" using Cons.prems(1) not_in_dpop[of "items c" k] by (simp add: cache_ok_def)
    then show ?thesis
      using Some lru_hit[OF k n(1)] by (simp add: get_or_load_def dput_new dkeys_dpop Cons.prems(2))
  next
    case None
    then have "k \<notin> set (dkeys (items c))" using map_of_None_keys by metis
    then have k: "k \<notin> set (lru ?n before)" and kk: "dput k v (items c) = items c @ [(k, v)]"
      by (simp_all only: Cons.prems(2) dput_new not_False_eq_True)
    have len: "length (lru ?n before) = length (items c)" using Cons.prems(2) by (metis length_map)
    have "items c \<noteq> []" if "\<not> int (length (items c)) < capacity c" using that n by auto
    then show ?thesis
      using None lru_miss[OF k n(1)] n len Cons.prems(2)
      by (auto simp: get_or_load_def Let_def kk map_tl tl_append2 zless_nat_eq_int_zless)
  qed
  moreover have "cache_ok ?c" "capacity ?c = capacity c"
    using get_or_load_ok Cons.prems(1) get_or_load_capacity by auto
  ultimately show ?case
    using Cons.IH[of ?c "before @ [k]"] by (simp add: accesses_def kv)
qed (simp add: accesses_def)

text \<open>
  C12: the cache is exactly an LRU cache: after successful accesses to a sequence of experts it
  holds the last \<open>capacity\<close> distinct experts of the sequence, in the order of their last access.
\<close>

theorem cache_is_lru:
  assumes "new_cache n = Inr c0"
  shows "dkeys (items (accesses kvs c0)) = lru (nat n) (List.map fst kvs)"
proof -
  have "cache_ok c0" using expert_lru.start_inv assms by blast
  moreover have "items c0 = []" "capacity c0 = n" using assms by (auto simp: new_cache_def split: if_splits)
  ultimately show ?thesis using accesses_lru[of c0 "[]" kvs] by (simp add: lru_def lastn_def)
qed

theorem cache_is_lru_witness:
  "\<exists>c0. new_cache 2 = Inr c0 \<and> dkeys (items (accesses [(''a'', [1]), (''b'', [2]), (''a'', [1]), (''c'', [3])] c0)) = [''a'', ''c'']"
proof -
  obtain c0 where c0: "new_cache 2 = Inr c0" by (simp add: new_cache_def)
  have "lru (nat 2) [''a'', ''b'', ''a'', ''c''] = [''a'', ''c'']" by code_simp
  with cache_is_lru[OF c0, of "[(''a'', [1]), (''b'', [2]), (''a'', [1]), (''c'', [3])]"] c0 show ?thesis by simp
qed

section \<open>What a completed stream returns\<close>

text \<open>Everything in the cache was read, and accepted, from one of the states \<open>D\<close> the disk has been in.\<close>

definition faithful :: "disk set \<Rightarrow> (string \<times> expert_shard) list \<Rightarrow> expert_cache \<Rightarrow> bool" where
  "faithful D ss c = (\<forall>(k, v) \<in> set (items c). \<exists>s. map_of ss k = Some s \<and> (\<exists>fs \<in> D. read_shard fs s = Inr v))"

lemma faithful_mono: "faithful D ss c \<Longrightarrow> D \<subseteq> E \<Longrightarrow> faithful E ss c"
  unfolding faithful_def by fastforce

lemma set_dput: "set (dput k v d) \<subseteq> insert (k, v) (set d)"
  by (induction k v d rule: dput.induct) auto

lemma get_or_load_faithful:
  assumes "faithful D ss c" and "map_of ss k = Some s" and "fs \<in> D"
  shows "faithful D ss (snd (get_or_load k (read_shard fs s) c))
    \<and> (\<forall>v. fst (get_or_load k (read_shard fs s) c) = Inr v \<longrightarrow> (\<exists>fs \<in> D. read_shard fs s = Inr v))"
proof -
  have keep: "faithful D ss c'" if "set (items c') \<subseteq> insert (k, v) (set (items c))" "\<exists>fs \<in> D. read_shard fs s = Inr v" for c' v
    using assms(1,2) that by (fastforce simp: faithful_def)
  show ?thesis
  proof (cases "map_of (items c) k")
    case (Some v)
    then have r: "\<exists>fs \<in> D. read_shard fs s = Inr v" using assms(1,2) map_of_SomeD[OF Some] by (fastforce simp: faithful_def)
    have "set (dput k v (dpop k (items c))) \<subseteq> insert (k, v) (set (items c))"
      using set_dput[of k v "dpop k (items c)"] dpop_set_subset[of k "items c"] by blast
    then show ?thesis using r Some keep[OF _ r] by (simp add: get_or_load_def)
  next
    case None
    show ?thesis
    proof (cases "read_shard fs s")
      case (Inl e)
      then show ?thesis using None assms(1) by (simp add: get_or_load_def faithful_def)
    next
      case (Inr v)
      then have r: "\<exists>fs \<in> D. read_shard fs s = Inr v" using assms(3) by blast
      have "set (tl (dput k v (items c))) \<subseteq> insert (k, v) (set (items c))"
        using set_dput[of k v "items c"] by (metis list.set_sel(2) list.sel(2) subset_iff)
      then show ?thesis using None Inr r keep[OF _ r] set_dput[of k v "items c"]
        by (simp add: get_or_load_def Let_def)
    qed
  qed
qed

lemma stream_from_faithful:
  "faithful D ss c \<Longrightarrow> fs \<in> D \<Longrightarrow> stream_from fs ss stops out tok bytes ks c = (r, c') \<Longrightarrow>
   faithful D ss c' \<and> (run_status r = ''completed'' \<longrightarrow>
     (\<exists>vs. outputs r = out @ vs \<and> list_all2 (\<lambda>k v. \<exists>s. map_of ss k = Some s \<and> (\<exists>fs \<in> D. read_shard fs s = Inr v)) ks vs))
   \<and> (run_status r \<noteq> ''completed'' \<longrightarrow> outputs r = [])"
proof (induction fs ss stops out tok bytes ks c arbitrary: r c' rule: stream_from.induct)
  case (1 fs ss stops out tok bytes c)
  then show ?case by (auto simp: stop_run_def)
next
  case (2 fs ss stops out tok bytes k ks c)
  show ?case
  proof (cases "stops (nat tok) \<or> map_of ss k = None")
    case True
    then show ?thesis using 2(2,4) by (auto simp: stop_run_def split: if_splits)
  next
    case False
    then obtain s where s: "map_of ss k = Some s" by auto
    obtain res c1 where g: "get_or_load k (read_shard fs s) c = (res, c1)" by fastforce
    note f = get_or_load_faithful[OF 2(2) s 2(3)]
    show ?thesis
    proof (cases res)
      case (Inl e)
      then show ?thesis using False 2(4) s g f by (auto simp: stop_run_def)
    next
      case (Inr data)
      have f1: "faithful D ss c1" "\<exists>fs \<in> D. read_shard fs s = Inr data" using f g Inr by auto
      have "stream_from fs ss stops (out @ [data]) (tok + 1)
          (if map_of (items c) k = None then bytes + int (length data) else bytes) ks c1 = (r, c')"
        using 2(4) False s g Inr by (simp add: Let_def)
      from 2(1)[OF _ s refl g[symmetric] Inr f1(1) 2(3) this] False f1(2) s show ?thesis by fastforce
    qed
  qed
qed

lemma read_shard_verified:
  "read_shard fs s = Inr v \<Longrightarrow> fs (shard_path s) = Some v \<and> (\<forall>h. shard_sha s = Some h \<longrightarrow> sha256_hex v = h)"
  by (auto simp: read_shard_def split: option.splits if_splits)

lemma named_shards:
  "map_of (fold (\<lambda>s d. dput (shard_id s) s d) ss d) k = Some s \<Longrightarrow> s \<in> set ss \<and> shard_id s = k \<or> map_of d k = Some s"
  by (induction ss arbitrary: d) (fastforce simp: map_of_dput split: if_splits)+

text \<open>Streams one after the other, each over the disk as it is then.\<close>

definition earlier_streams :: "(disk \<times> (nat \<Rightarrow> bool) \<times> string list) list \<Rightarrow> colibri \<Rightarrow> colibri" where
  "earlier_streams = fold (\<lambda>(fs, stops, routing) b. snd (stream fs stops routing b))"

lemma stream_faithful:
  assumes "faithful D (shards b) (cache b)" and "fs \<in> D" and "stream fs stops routing b = (r, b')"
  shows "faithful D (shards b) (cache b')" and "shards b' = shards b"
    and "run_status r = ''completed'' \<Longrightarrow>
      list_all2 (\<lambda>k v. \<exists>s. map_of (shards b) k = Some s \<and> (\<exists>fs \<in> D. read_shard fs s = Inr v)) routing (outputs r)"
    and "run_status r \<noteq> ''completed'' \<Longrightarrow> outputs r = []"
proof -
  obtain c where "stream_from fs (shards b) stops [] 0 0 routing (cache b) = (r, c)" "b' = b\<lparr>cache := c\<rparr>"
    using assms(3) by (auto simp: stream_def split: prod.splits)
  with stream_from_faithful[OF assms(1,2) this(1)] show "faithful D (shards b) (cache b')" "shards b' = shards b"
    "run_status r = ''completed'' \<Longrightarrow>
      list_all2 (\<lambda>k v. \<exists>s. map_of (shards b) k = Some s \<and> (\<exists>fs \<in> D. read_shard fs s = Inr v)) routing (outputs r)"
    "run_status r \<noteq> ''completed'' \<Longrightarrow> outputs r = []" by auto
qed

lemma earlier_faithful:
  "faithful D (shards b) (cache b) \<Longrightarrow> fst ` set before \<subseteq> D \<Longrightarrow>
     faithful D (shards b) (cache (earlier_streams before b)) \<and> shards (earlier_streams before b) = shards b"
proof (induction before arbitrary: b)
  case (Cons x before)
  obtain fs stops routing where x: "x = (fs, stops, routing)" by (metis prod_cases3)
  have "faithful D (shards b) (cache (snd (stream fs stops routing b)))" "shards (snd (stream fs stops routing b)) = shards b"
    using stream_faithful(1,2)[OF Cons.prems(1) _ prod.collapse[symmetric], of fs stops routing] Cons.prems(2) x by auto
  with Cons.IH[of "snd (stream fs stops routing b)"] Cons.prems(2) show ?case by (simp add: earlier_streams_def x)
qed (simp add: earlier_streams_def)

text \<open>
  C24: after any earlier streams, over a disk that may change from one stream to the next, a completed stream
  returns, for every expert of the routing in order, what the file of its shard held at that stream or
  at an earlier one (the cache), and with the SHA-256 that the shard declares, when it declares one; a
  stream that was cancelled or failed returns nothing.
\<close>

theorem stream_returns_verified_shards:
  assumes "new_colibri ss cap = Inr b" and "stream fs stops routing (earlier_streams before b) = (r, b')"
  shows "(run_status r = ''completed'' \<longrightarrow>
      list_all2 (\<lambda>k v. \<exists>s \<in> set ss. shard_id s = k \<and> map_of (shards b) k = Some s
        \<and> (\<exists>d \<in> insert fs (fst ` set before). d (shard_path s) = Some v)
        \<and> (\<forall>h. shard_sha s = Some h \<longrightarrow> sha256_hex v = h)) routing (outputs r))
     \<and> (run_status r \<noteq> ''completed'' \<longrightarrow> outputs r = [])"
proof -
  let ?D = "insert fs (fst ` set before)"
  let ?P = "\<lambda>k v. \<exists>s. map_of (shards b) k = Some s \<and> (\<exists>d \<in> ?D. read_shard d s = Inr v)"
  let ?Q = "\<lambda>k v. \<exists>s \<in> set ss. shard_id s = k \<and> map_of (shards b) k = Some s \<and> (\<exists>d \<in> ?D. d (shard_path s) = Some v)
        \<and> (\<forall>h. shard_sha s = Some h \<longrightarrow> sha256_hex v = h)"
  have "faithful ?D (shards b) (cache b)"
    using assms(1) by (auto simp: new_colibri_def new_cache_def Let_def faithful_def split: if_splits)
  then have f: "faithful ?D (shards b) (cache (earlier_streams before b))" "shards (earlier_streams before b) = shards b"
    using earlier_faithful[of ?D b before] by auto
  have sh: "shards b = fold (\<lambda>s d. dput (shard_id s) s d) ss []"
    using assms(1) by (auto simp: new_colibri_def new_cache_def Let_def split: if_splits)
  have one: "?Q k v" if P: "?P k v" for k v
  proof -
    from P obtain s d where s: "map_of (shards b) k = Some s" "d \<in> ?D" "read_shard d s = Inr v" by blast
    then have "s \<in> set ss \<and> shard_id s = k" using named_shards[of ss "[]" k s] by (simp add: sh)
    then show ?thesis using s read_shard_verified[OF s(3)] by blast
  qed
  note st = stream_faithful[OF f(1)[folded f(2)] insertI1 assms(2), unfolded f(2)]
  have "list_all2 ?Q routing (outputs r)" if "run_status r = ''completed''"
    by (rule list_all2_mono[OF st(3)[OF that]]) (rule one)
  then show ?thesis using st(4) by blast
qed

text \<open>A declared digest: a first stream fills the cache, and a second finds the file gone and reads from it.\<close>

definition demo_shards :: "expert_shard list" where
  "demo_shards = [\<lparr>shard_id = ''a'', shard_path = ''p'', shard_sha = Some (sha256_hex [7])\<rparr>,
     \<lparr>shard_id = ''b'', shard_path = ''q'', shard_sha = None\<rparr>]"

definition demo_disk :: "bool \<Rightarrow> disk" where
  "demo_disk full p = (if p = ''p'' \<and> full then Some [7] else if p = ''q'' then Some [8] else None)"

definition demo_before :: "(disk \<times> (nat \<Rightarrow> bool) \<times> string list) list" where
  "demo_before = [(demo_disk True, (\<lambda>n. False), [''a''])]"

theorem stream_returns_verified_shards_witness:
  "\<exists>b r b'. new_colibri demo_shards 2 = Inr b \<and> stream (demo_disk False) (\<lambda>n. False) [''a'', ''b''] (earlier_streams demo_before b) = (r, b')
     \<and> run_status r = ''completed'' \<and> length (outputs r) = 2 \<and> sha256_hex (hd (outputs r)) = sha256_hex [7]"
proof -
  obtain b where b: "new_colibri demo_shards 2 = Inr b" by (simp add: new_colibri_def new_cache_def demo_shards_def Let_def)
  obtain r b' where s: "stream (demo_disk False) (\<lambda>n. False) [''a'', ''b''] (earlier_streams demo_before b) = (r, b')" by fastforce
  have st: "run_status r = ''completed''" using b s
    by (auto simp: earlier_streams_def demo_before_def new_colibri_def new_cache_def demo_shards_def demo_disk_def Let_def stream_def
        get_or_load_def read_shard_def stop_run_def)
  with stream_returns_verified_shards[OF b s] obtain v w where "outputs r = [v, w]" "sha256_hex v = sha256_hex [7]"
    by (auto simp: list_all2_Cons1 demo_shards_def)
  then show ?thesis using b s st by auto
qed

end
