(* ===== verification/Base64.thy ===== *)
theory Base64
  imports Bytes
begin

text \<open>
  \<open>base64.b64encode\<close> and \<open>base64.b64decode(..., validate=True)\<close>: groups of four digits, the last
  one padded; the decoder drops the unused bits of a padded group, as \<open>binascii\<close> does.
\<close>

definition b64_alphabet :: string where
  "b64_alphabet = ''ABCDEFGHIJKLMNOPQRSTUVWXYZabcdefghijklmnopqrstuvwxyz0123456789+/''"

definition b64_char :: "nat \<Rightarrow> char" where
  "b64_char n = b64_alphabet ! n"

definition b64_value :: "char \<Rightarrow> nat option" where
  "b64_value c = map_of (zip b64_alphabet [0..<64]) c"

fun b64encode :: "byte list \<Rightarrow> string" where
  "b64encode [] = []"
| "b64encode [a] = [b64_char (unat a div 4), b64_char (unat a mod 4 * 16), CHR ''='', CHR ''='']"
| "b64encode [a, b] =
     [b64_char (unat a div 4), b64_char (unat a mod 4 * 16 + unat b div 16), b64_char (unat b mod 16 * 4), CHR ''='']"
| "b64encode (a # b # c # bs) =
     b64_char (unat a div 4) # b64_char (unat a mod 4 * 16 + unat b div 16)
     # b64_char (unat b mod 16 * 4 + unat c div 64) # b64_char (unat c mod 64) # b64encode bs"

fun b64_tail :: "nat \<Rightarrow> nat \<Rightarrow> char \<Rightarrow> char \<Rightarrow> byte list option" where
  "b64_tail x y c2 c3 =
     (if c3 \<noteq> CHR ''='' then None
      else if c2 = CHR ''='' then Some [byte_of (x * 4 + y div 16)]
      else map_option (\<lambda>z. [byte_of (x * 4 + y div 16), byte_of (y mod 16 * 16 + z div 4)]) (b64_value c2))"

fun b64decode :: "string \<Rightarrow> byte list option" where
  "b64decode [] = Some []"
| "b64decode (c0 # c1 # c2 # c3 # cs) =
     Option.bind (b64_value c0) (\<lambda>x. Option.bind (b64_value c1) (\<lambda>y.
       if c3 = CHR ''='' then (if cs = [] then b64_tail x y c2 c3 else None)
       else Option.bind (b64_value c2) (\<lambda>z. Option.bind (b64_value c3) (\<lambda>w.
         map_option (\<lambda>bs. byte_of (x * 4 + y div 16) # byte_of (y mod 16 * 16 + z div 4) # byte_of (z mod 4 * 64 + w) # bs)
           (b64decode cs)))))"
| "b64decode _ = None"

section \<open>Round trip\<close>

lemma b64_digits: "n < 64 \<Longrightarrow> b64_value (b64_char n) = Some n \<and> b64_char n \<noteq> CHR ''=''"
proof -
  have "list_all (\<lambda>n. b64_value (b64_char n) = Some n \<and> b64_char n \<noteq> CHR ''='') [0..<64]" by code_simp
  then show "n < 64 \<Longrightarrow> b64_value (b64_char n) = Some n \<and> b64_char n \<noteq> CHR ''=''" by (simp add: list_all_iff)
qed

lemma byte_of_unat: "n = unat b \<Longrightarrow> byte_of n = b"
  by (simp add: byte_of_def)

lemma byte_of_unat_id [simp]: "byte_of (unat b) = b"
  by (simp add: byte_of_unat)

lemma unat_byte: "unat (b :: byte) < 256"
  using unsigned_less[of b] by simp

text \<open>The high parts of a byte are small, so the digits of a group separate again.\<close>

lemma high_bits [simp]:
  fixes b :: byte
  shows "unat b div 4 < 64" "unat b div 16 < 16" "unat b div 64 < 4"
  using unat_byte[of b] by simp_all

lemma high_div [simp]:
  fixes b :: byte
  shows "unat b div 16 div 16 = 0" "unat b div 16 mod 16 = unat b div 16" "unat b div 64 div 4 = 0" "unat b div 64 mod 4 = unat b div 64"
  using high_bits[of b] by simp_all

lemma b64_sextets:
  fixes a b c :: byte
  shows "unat a div 4 < 64" "unat a mod 4 * 16 < 64" "unat a mod 4 * 16 + unat b div 16 < 64"
    "unat b mod 16 * 4 < 64" "unat b mod 16 * 4 + unat c div 64 < 64" "unat c mod 64 < 64"
proof -
  have "unat a mod 4 < 4" "unat b mod 16 < 16" by simp_all
  with high_bits(2)[of b] high_bits(3)[of c] high_bits(1)[of a]
  show "unat a div 4 < 64" "unat a mod 4 * 16 < 64" "unat a mod 4 * 16 + unat b div 16 < 64"
    "unat b mod 16 * 4 < 64" "unat b mod 16 * 4 + unat c div 64 < 64" "unat c mod 64 < 64"
    by linarith+
qed

lemma b64_round_trip: "b64decode (b64encode bs) = Some bs"
proof (induction bs rule: b64encode.induct)
  case (2 a)
  show ?case using b64_digits[OF b64_sextets(1)[of a]] b64_digits[OF b64_sextets(2)[of a]] by simp
next
  case (3 a b)
  show ?case
    using b64_digits[OF b64_sextets(1)[of a]] b64_digits[OF b64_sextets(3)[of a b]] b64_digits[OF b64_sextets(4)[of b]]
    by simp
next
  case (4 a b c bs)
  then show ?case
    using b64_digits[OF b64_sextets(1)[of a]] b64_digits[OF b64_sextets(3)[of a b]]
      b64_digits[OF b64_sextets(5)[of b c]] b64_digits[OF b64_sextets(6)[of c]]
    by simp
qed simp

end
