(* ===== verification/Layout_Packing.thy ===== *)
theory Layout_Packing
  imports Base64 Py_Json Sha256 Interfaces
begin

text \<open>
  \<open>local_data_plane/layout_packing.py\<close>: packed column-major tensors with their identity key, the
  cache of packed artifacts in a directory, the tiling plan and the isolated batch.

  A dimension is a \<open>pyval\<close> because the code tests it for \<open>bool\<close>; one that is no integer at all
  raises a \<open>TypeError\<close>.  A file of the cache holds the JSON value its text parses to, or is
  \<open>Garbled\<close>.
\<close>

section \<open>Keys and artifacts\<close>

definition LAYOUT_PACKING_SCHEMA_V1 :: string where
  "LAYOUT_PACKING_SCHEMA_V1 = ''simplicio-local.layout-packing/v1''"

definition PACKED_LAYOUT_VERSION_V1 :: string where
  "PACKED_LAYOUT_VERSION_V1 = ''int8-column-major/v1''"

definition require_text :: "pyval \<Rightarrow> string \<Rightarrow> string res" where
  "require_text v name = (case v of
      PyStr s \<Rightarrow> if s = [] then Inl (ValueError (name @ '' must be a non-empty string'')) else Inr s
    | _ \<Rightarrow> Inl (ValueError (name @ '' must be a non-empty string'')))"

record packed_key =
  pk_model_id :: string
  pk_tensor_id :: string
  pk_source_digest :: string
  pk_isa :: string
  pk_kernel_version :: string
  pk_layout_version :: string

definition new_key :: "pyval \<Rightarrow> pyval \<Rightarrow> pyval \<Rightarrow> pyval \<Rightarrow> pyval \<Rightarrow> pyval \<Rightarrow> packed_key res" where
  "new_key m t d i k l =
     rbind (require_text m ''model_id'') (\<lambda>m. rbind (require_text t ''tensor_id'') (\<lambda>t.
     rbind (require_text d ''source_digest'') (\<lambda>d. rbind (require_text i ''isa'') (\<lambda>i.
     rbind (require_text k ''kernel_version'') (\<lambda>k. rbind (require_text l ''layout_version'') (\<lambda>l.
       Inr \<lparr>pk_model_id = m, pk_tensor_id = t, pk_source_digest = d, pk_isa = i, pk_kernel_version = k, pk_layout_version = l\<rparr>))))))"

definition key_dict :: "packed_key \<Rightarrow> pyval" where
  "key_dict k = PyDict [(''model_id'', PyStr (pk_model_id k)), (''tensor_id'', PyStr (pk_tensor_id k)),
     (''source_digest'', PyStr (pk_source_digest k)), (''isa'', PyStr (pk_isa k)),
     (''kernel_version'', PyStr (pk_kernel_version k)), (''layout_version'', PyStr (pk_layout_version k))]"

definition key_canonical :: "packed_key \<Rightarrow> string" where
  "key_canonical k = canonical_json (key_dict k)"

definition key_fingerprint :: "packed_key \<Rightarrow> string" where
  "key_fingerprint k = sha256_hex (utf8_bytes (key_canonical k))"

record packed_artifact =
  art_key :: packed_key
  art_rows :: int
  art_columns :: int
  art_values :: "byte list"
  art_source_digest :: string
  art_packed_digest :: string
  art_schema :: string

definition positive_dims :: "pyval \<Rightarrow> pyval \<Rightarrow> string \<Rightarrow> (int \<times> int) res" where
  "positive_dims rows columns message = (case (rows, columns) of
      (PyBool _, _) \<Rightarrow> Inl (ValueError message)
    | (_, PyBool _) \<Rightarrow> Inl (ValueError message)
    | (PyInt r, PyInt c) \<Rightarrow> if r \<le> 0 \<or> c \<le> 0 then Inl (ValueError message) else Inr (r, c)
    | (PyInt r, _) \<Rightarrow> if r \<le> 0 then Inl (ValueError message) else Inl (TypeError ''dimensions are integers'')
    | _ \<Rightarrow> Inl (TypeError ''dimensions are integers''))"

definition new_artifact :: "packed_key \<Rightarrow> pyval \<Rightarrow> pyval \<Rightarrow> byte list \<Rightarrow> string \<Rightarrow> string \<Rightarrow> string \<Rightarrow> packed_artifact res" where
  "new_artifact k rows columns vals source packed schema =
     (if schema \<noteq> LAYOUT_PACKING_SCHEMA_V1 then Inl (ValueError ''unsupported packed layout schema'') else
      rbind (positive_dims rows columns ''packed layout dimensions must be positive'') (\<lambda>(r, c).
        if int (length vals) \<noteq> r * c then Inl (ValueError ''packed layout payload has the wrong size'')
        else if source \<noteq> pk_source_digest k then Inl (ValueError ''source digest does not match the cache key'')
        else Inr \<lparr>art_key = k, art_rows = r, art_columns = c, art_values = vals, art_source_digest = source,
               art_packed_digest = packed, art_schema = schema\<rparr>))"

definition artifact_dict :: "packed_artifact \<Rightarrow> pyval" where
  "artifact_dict a = PyDict [(''schema'', PyStr (art_schema a)), (''key'', key_dict (art_key a)), (''rows'', PyInt (art_rows a)),
     (''columns'', PyInt (art_columns a)), (''values_b64'', PyStr (b64encode (art_values a))),
     (''source_digest'', PyStr (art_source_digest a)), (''packed_digest'', PyStr (art_packed_digest a))]"

text \<open>\<open>value[k]\<close> of a mapping.\<close>

definition item :: "(string \<times> pyval) list \<Rightarrow> string \<Rightarrow> pyval res" where
  "item d k = opt_res (KeyError k) (dget d k)"

definition key_from_dict :: "pyval \<Rightarrow> packed_key res" where
  "key_from_dict v = rbind (opt_res (ValueError ''packed layout key is missing'') (py_dict v)) (\<lambda>d.
     rbind (item d ''model_id'') (\<lambda>m. rbind (item d ''tensor_id'') (\<lambda>t. rbind (item d ''source_digest'') (\<lambda>s.
     rbind (item d ''isa'') (\<lambda>i. rbind (item d ''kernel_version'') (\<lambda>k. rbind (item d ''layout_version'') (\<lambda>l.
       new_key m t s i k l)))))))"

definition payload_of :: "pyval \<Rightarrow> byte list res" where
  "payload_of v = rbind (opt_res (ValueError ''packed layout payload is missing'') (py_string v)) (\<lambda>s.
     opt_res (ValueError ''packed layout payload is not valid base64'') (b64decode s))"

definition artifact_from_dict :: "pyval \<Rightarrow> packed_artifact res" where
  "artifact_from_dict v = rbind (opt_res (AttributeError ''get'') (py_dict v)) (\<lambda>d.
     if jget d ''schema'' \<noteq> PyStr LAYOUT_PACKING_SCHEMA_V1 then Inl (ValueError ''unsupported packed layout schema'') else
     rbind (key_from_dict (jget d ''key'')) (\<lambda>k.
     rbind (payload_of (jget d ''values_b64'')) (\<lambda>vals.
     rbind (rbind (item d ''rows'') to_int) (\<lambda>r. rbind (rbind (item d ''columns'') to_int) (\<lambda>c.
     rbind (item d ''source_digest'') (\<lambda>s. rbind (item d ''packed_digest'') (\<lambda>p.
       new_artifact k (PyInt r) (PyInt c) vals (py_str s) (py_str p) LAYOUT_PACKING_SCHEMA_V1)))))))"

section \<open>Packing\<close>

datatype int8_source = RawBytes "byte list" | IntSequence "pyval list"

definition int8_byte :: "pyval \<Rightarrow> byte res" where
  "int8_byte v = (case strict_int v of
      None \<Rightarrow> Inl (ValueError ''int8 source values must be integers in [-128, 127]'')
    | Some n \<Rightarrow> if -128 \<le> n \<and> n \<le> 127 then Inr (word_of_int n)
        else Inl (ValueError ''int8 source values must be integers in [-128, 127]''))"

fun signed_payload :: "int8_source \<Rightarrow> byte list res" where
  "signed_payload (RawBytes bs) = Inr bs"
| "signed_payload (IntSequence vs) = map_res int8_byte vs"

definition sha256_tag :: "byte list \<Rightarrow> string" where
  "sha256_tag bs = ''sha256:'' @ sha256_hex bs"

definition digest_int8 :: "int8_source \<Rightarrow> string res" where
  "digest_int8 source = rbind (signed_payload source) (\<lambda>bs. Inr (sha256_tag bs))"

definition column_major :: "nat \<Rightarrow> nat \<Rightarrow> 'a list \<Rightarrow> 'a list" where
  "column_major rows columns raw = concat (List.map (\<lambda>c. List.map (\<lambda>r. raw ! (r * columns + c)) [0..<rows]) [0..<columns])"

definition pack_int8_rhs :: "int8_source \<Rightarrow> pyval \<Rightarrow> pyval \<Rightarrow> packed_key \<Rightarrow> packed_artifact res" where
  "pack_int8_rhs source rows columns key =
     rbind (positive_dims rows columns ''packing dimensions must be positive'') (\<lambda>(r, c).
     rbind (signed_payload source) (\<lambda>raw.
       if int (length raw) \<noteq> r * c then Inl (ValueError ''source size does not match packing dimensions'')
       else if sha256_tag raw \<noteq> pk_source_digest key then Inl (ValueError ''source digest does not match the requested layout key'')
       else (let packed = column_major (nat r) (nat c) raw in
         new_artifact key (PyInt r) (PyInt c) packed (sha256_tag raw) (sha256_tag packed) LAYOUT_PACKING_SCHEMA_V1)))"

definition validate_packed_layout :: "packed_artifact \<Rightarrow> packed_key \<Rightarrow> int \<Rightarrow> int \<Rightarrow> bool" where
  "validate_packed_layout a key rows columns \<longleftrightarrow>
     art_schema a = LAYOUT_PACKING_SCHEMA_V1 \<and> art_key a = key \<and> art_rows a = rows \<and> art_columns a = columns
     \<and> art_source_digest a = pk_source_digest key \<and> art_packed_digest a = sha256_tag (art_values a)"

section \<open>The cache of packed artifacts\<close>

datatype cache_file = Json pyval | Garbled

type_synonym cache_dir = "(string \<times> cache_file) list"

definition cache_path :: "packed_key \<Rightarrow> string" where
  "cache_path key = key_fingerprint key @ ''.json''"

text \<open>
  Where the operating system refuses a step of \<open>store\<close>; \<open>temp\<close> is the name \<open>mkstemp\<close> makes up.
\<close>

datatype store_fault = NoFault | MkstempFails py_exc | WriteFails py_exc | ReplaceFails py_exc

definition cache_store :: "store_fault \<Rightarrow> string \<Rightarrow> packed_artifact \<Rightarrow> cache_dir \<Rightarrow> string res \<times> cache_dir" where
  "cache_store fault temp a dir =
     (if \<not> validate_packed_layout a (art_key a) (art_rows a) (art_columns a)
      then (Inl (ValueError ''refusing to persist an invalid packed artifact''), dir)
      else let destination = cache_path (art_key a) in
        case fault of
          MkstempFails e \<Rightarrow> (Inl e, dir)
        | WriteFails e \<Rightarrow> (Inl e, dpop temp (dput temp Garbled dir))
        | ReplaceFails e \<Rightarrow> (Inl e, dpop temp (dput temp (Json (artifact_dict a)) dir))
        | NoFault \<Rightarrow> (Inr destination, dput destination (Json (artifact_dict a)) (dpop temp (dput temp (Json (artifact_dict a)) dir))))"

definition load_caught :: "py_exc \<Rightarrow> bool" where
  "load_caught e = (is_os_error e \<or> is_value_error e \<or> (case e of TypeError _ \<Rightarrow> True | KeyError _ \<Rightarrow> True | _ \<Rightarrow> False))"

definition read_artifact :: "packed_key \<Rightarrow> cache_dir \<Rightarrow> packed_artifact res" where
  "read_artifact key dir = (case dget dir (cache_path key) of
      None \<Rightarrow> Inl (FileNotFoundError (cache_path key))
    | Some Garbled \<Rightarrow> Inl (ValueError ''not JSON'')
    | Some (Json v) \<Rightarrow> artifact_from_dict v)"

definition cache_load :: "packed_key \<Rightarrow> int \<Rightarrow> int \<Rightarrow> cache_dir \<Rightarrow> packed_artifact option res" where
  "cache_load key rows columns dir = (case read_artifact key dir of
      Inl e \<Rightarrow> if load_caught e then Inr None else Inl e
    | Inr a \<Rightarrow> Inr (if validate_packed_layout a key rows columns then Some a else None))"

definition cache_invalidate :: "packed_key \<Rightarrow> cache_dir \<Rightarrow> bool \<times> cache_dir" where
  "cache_invalidate key dir =
     (case dget dir (cache_path key) of None \<Rightarrow> (False, dir) | Some _ \<Rightarrow> (True, dpop (cache_path key) dir))"

section \<open>Packing transposes\<close>

lemma length_column_major [simp]: "length (column_major rows columns raw) = columns * rows"
  unfolding column_major_def by (rule length_concat_blocks) simp

lemma column_major_nth:
  "r < rows \<Longrightarrow> c < columns \<Longrightarrow> column_major rows columns raw ! (c * rows + r) = raw ! (r * columns + c)"
  using nth_concat_blocks[of columns "\<lambda>c. List.map (\<lambda>r. raw ! (r * columns + c)) [0..<rows]" rows c r]
  by (simp add: column_major_def)

lemma column_major_involution:
  assumes "length raw = rows * columns"
  shows "column_major columns rows (column_major rows columns raw) = raw"
proof (rule nth_equalityI)
  fix i assume "i < length (column_major columns rows (column_major rows columns raw))"
  then have i: "i < rows * columns" by simp
  then have c: "0 < columns" by (cases columns) auto
  have r: "i div columns < rows" using i c by (simp add: less_mult_imp_div_less)
  have "column_major columns rows (column_major rows columns raw) ! (i div columns * columns + i mod columns) = raw ! (i div columns * columns + i mod columns)"
    using r c by (simp only: column_major_nth mod_less_divisor)
  then show "column_major columns rows (column_major rows columns raw) ! i = raw ! i" by simp
qed (simp add: assms)

lemma positive_dims_Inr: "positive_dims rows columns m = Inr (r, c) \<longleftrightarrow> rows = PyInt r \<and> columns = PyInt c \<and> 0 < r \<and> 0 < c"
  by (cases rows; cases columns) (auto simp: positive_dims_def)

lemma new_artifact_Inr:
  "new_artifact k rows columns vals source packed schema = Inr a \<longleftrightarrow>
     (\<exists>r c. rows = PyInt r \<and> columns = PyInt c \<and> 0 < r \<and> 0 < c \<and> int (length vals) = r * c \<and> source = pk_source_digest k
        \<and> schema = LAYOUT_PACKING_SCHEMA_V1 \<and> a = \<lparr>art_key = k, art_rows = r, art_columns = c, art_values = vals,
             art_source_digest = source, art_packed_digest = packed, art_schema = schema\<rparr>)"
  by (auto simp: new_artifact_def positive_dims_Inr)

lemma pack_int8_rhs_Inr:
  assumes "pack_int8_rhs source rows columns key = Inr a"
  obtains r c raw where "rows = PyInt (int r)" "columns = PyInt (int c)" "0 < r" "0 < c" "signed_payload source = Inr raw"
    "length raw = r * c" "pk_source_digest key = sha256_tag raw"
    "a = \<lparr>art_key = key, art_rows = int r, art_columns = int c, art_values = column_major r c raw,
       art_source_digest = sha256_tag raw, art_packed_digest = sha256_tag (column_major r c raw), art_schema = LAYOUT_PACKING_SCHEMA_V1\<rparr>"
proof -
  obtain i j raw where *: "rows = PyInt i" "columns = PyInt j" "0 < i" "0 < j" "signed_payload source = Inr raw"
    "int (length raw) = i * j" "sha256_tag raw = pk_source_digest key"
    "a = \<lparr>art_key = key, art_rows = i, art_columns = j, art_values = column_major (nat i) (nat j) raw,
       art_source_digest = sha256_tag raw, art_packed_digest = sha256_tag (column_major (nat i) (nat j) raw), art_schema = LAYOUT_PACKING_SCHEMA_V1\<rparr>"
    using assms by (auto simp: pack_int8_rhs_def positive_dims_Inr new_artifact_Inr Let_def)
  have "length raw = nat i * nat j" using *(3,4,6) by (metis nat_int nat_mult_distrib less_imp_le)
  then show thesis using that[of "nat i" "nat j" raw] * by simp
qed

text \<open>
  C10: packing is exactly a transposition: entry \<open>(r, c)\<close> of the source is at \<open>c * rows + r\<close>, packing
  the packed bytes back as a \<open>columns\<close> by \<open>rows\<close> tensor gives the source again, and the artifact
  passes its own validation.
\<close>

theorem packing_transposes:
  assumes "pack_int8_rhs source (PyInt rows) (PyInt columns) key = Inr a"
  shows "\<exists>raw. signed_payload source = Inr raw \<and> length (art_values a) = length raw
     \<and> (\<forall>r < nat rows. \<forall>c < nat columns. art_values a ! (c * nat rows + r) = raw ! (r * nat columns + c))
     \<and> column_major (nat columns) (nat rows) (art_values a) = raw \<and> validate_packed_layout a key rows columns"
  using assms
proof (rule pack_int8_rhs_Inr)
  fix r c raw
  assume "PyInt rows = PyInt (int r)" "PyInt columns = PyInt (int c)" "signed_payload source = Inr raw"
    "length raw = r * c" "pk_source_digest key = sha256_tag raw"
    "a = \<lparr>art_key = key, art_rows = int r, art_columns = int c, art_values = column_major r c raw,
       art_source_digest = sha256_tag raw, art_packed_digest = sha256_tag (column_major r c raw), art_schema = LAYOUT_PACKING_SCHEMA_V1\<rparr>"
  moreover from this have "length (art_values a) = length raw" by simp
  ultimately show ?thesis
    by (simp add: column_major_nth column_major_involution validate_packed_layout_def)
qed

definition demo_key :: "byte list \<Rightarrow> packed_key" where
  "demo_key raw = \<lparr>pk_model_id = ''m'', pk_tensor_id = ''t'', pk_source_digest = sha256_tag raw, pk_isa = ''neon'',
     pk_kernel_version = ''1'', pk_layout_version = PACKED_LAYOUT_VERSION_V1\<rparr>"

lemma demo_pack:
  "pack_int8_rhs (RawBytes [1, 2, 3, 4, 5, 6]) (PyInt 2) (PyInt 3) (demo_key [1, 2, 3, 4, 5, 6]) =
     Inr \<lparr>art_key = demo_key [1, 2, 3, 4, 5, 6], art_rows = 2, art_columns = 3, art_values = [1, 4, 2, 5, 3, 6],
       art_source_digest = sha256_tag [1, 2, 3, 4, 5, 6], art_packed_digest = sha256_tag [1, 4, 2, 5, 3, 6],
       art_schema = LAYOUT_PACKING_SCHEMA_V1\<rparr>"
proof -
  have "column_major 2 3 [1, 2, 3, 4, 5, 6] = [1, 4, 2, 5, 3, (6 :: byte)]" by code_simp
  then show ?thesis
    by (simp add: pack_int8_rhs_def positive_dims_def new_artifact_def demo_key_def Let_def)
qed

theorem packing_transposes_witness:
  "column_major 3 2 [1, 4, 2, 5, 3, 6] = [1, 2, 3, 4, 5, (6 :: byte)]"
  using packing_transposes[OF demo_pack] by simp

section \<open>The cache returns what was stored\<close>

definition key_ok :: "packed_key \<Rightarrow> bool" where
  "key_ok k \<longleftrightarrow> pk_model_id k \<noteq> [] \<and> pk_tensor_id k \<noteq> [] \<and> pk_source_digest k \<noteq> [] \<and> pk_isa k \<noteq> []
     \<and> pk_kernel_version k \<noteq> [] \<and> pk_layout_version k \<noteq> []"

lemma require_text_Inr: "require_text v name = Inr s \<longleftrightarrow> v = PyStr s \<and> s \<noteq> []"
  by (cases v) (auto simp: require_text_def)

lemma new_key_ok: "new_key m t d i k l = Inr key \<Longrightarrow> key_ok key"
  by (auto simp: new_key_def require_text_Inr key_ok_def)

lemma key_from_dict_key: "key_ok k \<Longrightarrow> key_from_dict (key_dict k) = Inr k"
  by (simp add: key_ok_def key_from_dict_def key_dict_def item_def new_key_def require_text_def)

lemma artifact_round_trip:
  assumes "key_ok (art_key a)"
    and "new_artifact (art_key a) (PyInt (art_rows a)) (PyInt (art_columns a)) (art_values a) (art_source_digest a)
      (art_packed_digest a) (art_schema a) = Inr a"
  shows "artifact_from_dict (artifact_dict a) = Inr a"
proof -
  have s: "art_schema a = LAYOUT_PACKING_SCHEMA_V1" using assms(2) by (auto simp: new_artifact_Inr)
  have p: "payload_of (PyStr (b64encode (art_values a))) = Inr (art_values a)" by (simp add: payload_of_def b64_round_trip)
  show ?thesis
    using key_from_dict_key[OF assms(1)] assms(2) s p
    by (simp add: artifact_from_dict_def artifact_dict_def jget_def dget_or_def item_def to_int_def)
qed

text \<open>A refused store leaves the directory as it was.\<close>

lemma dpop_dput_fresh: "k \<notin> set (dkeys d) \<Longrightarrow> dpop k (dput k v d) = d"
  by (induction d) auto

lemma failed_store_changes_nothing:
  "fst (cache_store fault temp a dir) = Inl e \<Longrightarrow> temp \<notin> set (dkeys dir) \<Longrightarrow> snd (cache_store fault temp a dir) = dir"
  by (cases fault) (auto simp: cache_store_def dpop_dput_fresh Let_def split: if_splits)

lemma stored_directory:
  assumes "cache_store fault temp a dir = (Inr path, dir')" and "temp \<notin> set (dkeys dir)"
  shows "path = cache_path (art_key a) \<and> dir' = dput path (Json (artifact_dict a)) dir \<and> validate_packed_layout a (art_key a) (art_rows a) (art_columns a)"
  using assms by (cases fault) (auto simp: cache_store_def dpop_dput_fresh Let_def split: if_splits)

text \<open>
  An artifact packed from a tensor and stored is what a load under its key and dimensions
  returns, and no load under a key with another file is changed by the store.
\<close>

theorem stored_artifact_is_loaded:
  assumes "new_key m t d i k l = Inr key" and "pack_int8_rhs source (PyInt rows) (PyInt columns) key = Inr a"
    and "temp \<notin> set (dkeys dir)" and "cache_store fault temp a dir = (Inr path, dir')"
  shows "cache_load key rows columns dir' = Inr (Some a)
     \<and> (\<forall>other. cache_path other \<noteq> cache_path key \<longrightarrow> cache_load other r c dir' = cache_load other r c dir)"
proof -
  have v: "validate_packed_layout a key rows columns" using assms(2)
    by (elim pack_int8_rhs_Inr) (simp add: validate_packed_layout_def)
  then have key: "art_key a = key" by (simp add: validate_packed_layout_def)
  have a: "new_artifact (art_key a) (PyInt (art_rows a)) (PyInt (art_columns a)) (art_values a) (art_source_digest a)
      (art_packed_digest a) (art_schema a) = Inr a"
    using assms(2) by (elim pack_int8_rhs_Inr) (simp add: new_artifact_Inr)
  have dir: "dir' = dput (cache_path key) (Json (artifact_dict a)) dir"
    using stored_directory[OF assms(4,3)] key by simp
  show ?thesis
    using artifact_round_trip[OF _ a] new_key_ok[OF assms(1)] v key
    by (simp add: cache_load_def read_artifact_def dir pydict.lookup_put)
qed

theorem stored_artifact_is_loaded_witness:
  "\<exists>a dir. cache_store NoFault ''t.tmp'' a [] = (Inr (cache_path (demo_key [1, 2, 3, 4, 5, 6])), dir)
     \<and> cache_load (demo_key [1, 2, 3, 4, 5, 6]) 2 3 dir = Inr (Some a)"
proof -
  let ?raw = "[1, 2, 3, 4, 5, 6] :: byte list"
  have key: "new_key (PyStr ''m'') (PyStr ''t'') (PyStr (sha256_tag ?raw)) (PyStr ''neon'') (PyStr ''1'')
      (PyStr PACKED_LAYOUT_VERSION_V1) = Inr (demo_key ?raw)"
    by (simp add: new_key_def require_text_def demo_key_def sha256_tag_def PACKED_LAYOUT_VERSION_V1_def)
  obtain a where a: "pack_int8_rhs (RawBytes ?raw) (PyInt 2) (PyInt 3) (demo_key ?raw) = Inr a"
      "validate_packed_layout a (art_key a) (art_rows a) (art_columns a)" "art_key a = demo_key ?raw"
    unfolding demo_pack by (auto simp: validate_packed_layout_def demo_key_def)
  obtain dir where d: "cache_store NoFault ''t.tmp'' a [] = (Inr (cache_path (demo_key ?raw)), dir)"
    using a(2,3) by (simp add: cache_store_def Let_def)
  have "cache_load (demo_key ?raw) 2 3 dir = Inr (Some a)"
    using stored_artifact_is_loaded[OF key a(1) _ d] by simp
  with d show ?thesis by blast
qed

text \<open>
  Whatever files the directory holds, a loaded artifact is the one asked for: its key and
  dimensions match, its payload has their size, and its digest is that of its payload.
\<close>

theorem load_returns_only_verified:
  assumes "cache_load key rows columns dir = Inr (Some a)"
  shows "art_key a = key \<and> art_rows a = rows \<and> art_columns a = columns \<and> 0 < rows \<and> 0 < columns
     \<and> int (length (art_values a)) = rows * columns \<and> art_packed_digest a = sha256_tag (art_values a)"
proof -
  have r: "read_artifact key dir = Inr a" and v: "validate_packed_layout a key rows columns"
    using assms by (auto simp: cache_load_def split: sum.splits if_splits)
  from r obtain x where "artifact_from_dict x = Inr a"
    by (auto simp: read_artifact_def split: option.splits cache_file.splits)
  then obtain k i j vals s p sc where "new_artifact k (PyInt i) (PyInt j) vals s p sc = Inr a"
    unfolding artifact_from_dict_def rbind_eq_Inr by (force split: if_splits)
  then show ?thesis using v by (auto simp: new_artifact_Inr validate_packed_layout_def)
qed

theorem load_returns_only_verified_witness:
  "\<exists>a dir. cache_load (demo_key [1, 2, 3, 4, 5, 6]) 2 3 dir = Inr (Some a) \<and> int (length (art_values a)) = 6"
proof -
  let ?raw = "[1, 2, 3, 4, 5, 6] :: byte list"
  obtain a where a: "pack_int8_rhs (RawBytes ?raw) (PyInt 2) (PyInt 3) (demo_key ?raw) = Inr a" unfolding demo_pack by auto
  have "key_ok (demo_key ?raw)" by (simp add: key_ok_def demo_key_def sha256_tag_def PACKED_LAYOUT_VERSION_V1_def)
  then have "artifact_from_dict (artifact_dict a) = Inr a" "validate_packed_layout a (demo_key ?raw) 2 3"
    using a artifact_round_trip unfolding demo_pack by (auto simp: new_artifact_Inr validate_packed_layout_def demo_key_def)
  then have l: "cache_load (demo_key ?raw) 2 3 [(cache_path (demo_key ?raw), Json (artifact_dict a))] = Inr (Some a)"
    by (simp add: cache_load_def read_artifact_def)
  with load_returns_only_verified[OF l] show ?thesis by auto
qed

text \<open>
  A file whose JSON is no object is not tolerated: the load raises instead of missing.
\<close>

theorem non_object_file_raises:
  "cache_load key rows columns [(cache_path key, Json (PyList xs))] = Inl (AttributeError ''get'')"
  by (simp add: cache_load_def read_artifact_def artifact_from_dict_def load_caught_def)

section \<open>Tiling\<close>

record tiling_plan =
  tp_mode :: string
  tile_rows :: int
  tile_cols :: int
  scratch_bytes :: int
  tiling_enabled :: bool
  tiling_reason :: string

definition PROMOTION_SPEEDUP :: pyfloat where
  "PROMOTION_SPEEDUP = lit (2 / 100)"

definition MAX_P95_REGRESSION :: pyfloat where
  "MAX_P95_REGRESSION = lit (10 / 100)"

definition row_hints :: "(string \<times> int) list" where
  "row_hints = [(''decode'', 1), (''prefill'', 32), (''batch'', 8)]"

definition col_hints :: "(string \<times> int) list" where
  "col_hints = [(''decode'', 128), (''prefill'', 128), (''batch'', 64)]"

function shrink_tiles :: "int \<Rightarrow> int \<Rightarrow> int \<Rightarrow> int \<Rightarrow> int \<times> int" where
  "shrink_tiles inner budget tr tc =
     (if tr * inner + inner * tc > budget \<and> (tr > 1 \<or> tc > 1)
      then (if tc \<ge> tr \<and> tc > 1 then shrink_tiles inner budget tr (max 1 (tc div 2))
            else shrink_tiles inner budget (max 1 (tr div 2)) tc)
      else (tr, tc))"
  by pat_completeness auto
termination by (relation "measure (\<lambda>(inner, budget, tr, tc). nat tr + nat tc)") auto

declare shrink_tiles.simps [simp del]

definition evidence_ok :: "pyfloat option \<Rightarrow> bool" where
  "evidence_ok gain = (case gain of None \<Rightarrow> False | Some g \<Rightarrow> flt PROMOTION_SPEEDUP g)"

definition regression_ok :: "pyfloat \<Rightarrow> bool" where
  "regression_ok p95 = (fle (Fin 0) p95 \<and> fle p95 MAX_P95_REGRESSION)"

definition tiling_reason_of :: "pyfloat option \<Rightarrow> pyfloat \<Rightarrow> bool \<Rightarrow> string" where
  "tiling_reason_of gain p95 enabled =
     (if enabled then ''tiling-enabled-by-bounded-non-regressive-evidence''
      else if \<not> regression_ok p95 then ''p95-regression-auto-disabled''
      else if gain = None then ''no-measurement-auto-disabled''
      else if \<not> evidence_ok gain then ''measurement-below-promotion-threshold''
      else ''cache-budget-exceeded-auto-disabled'')"

definition select_tiling :: "pyval \<Rightarrow> pyval \<Rightarrow> pyval \<Rightarrow> string \<Rightarrow> pyval \<Rightarrow> pyfloat option \<Rightarrow> pyfloat \<Rightarrow> tiling_plan res" where
  "select_tiling rows inner columns mode budget gain p95 =
     (if mode \<notin> set [''decode'', ''prefill'', ''batch''] then Inl (ValueError ''mode must be decode, prefill or batch'')
      else if list_ex (bad_int 1) [rows, inner, columns, budget]
      then Inl (ValueError ''tiling dimensions and budget must be positive integers'')
      else let inner = int_of_val inner; budget = int_of_val budget;
          (tr, tc) = shrink_tiles inner budget (min (int_of_val rows) (dget_or row_hints mode 0))
             (min (int_of_val columns) (dget_or col_hints mode 0));
          scratch = tr * inner + inner * tc;
          enabled = (evidence_ok gain \<and> regression_ok p95 \<and> scratch \<le> budget)
        in Inr \<lparr>tp_mode = mode, tile_rows = tr, tile_cols = tc, scratch_bytes = scratch, tiling_enabled = enabled,
             tiling_reason = tiling_reason_of gain p95 enabled\<rparr>)"

lemma shrink_tiles_bounds:
  assumes "1 \<le> tr" and "1 \<le> tc" and "shrink_tiles inner budget tr tc = (tr', tc')"
  shows "1 \<le> tr' \<and> tr' \<le> tr \<and> 1 \<le> tc' \<and> tc' \<le> tc \<and> (tr' * inner + inner * tc' \<le> budget \<or> tr' = 1 \<and> tc' = 1)"
  using assms
proof (induction inner budget tr tc rule: shrink_tiles.induct)
  case (1 inner budget tr tc)
  show ?case
  proof (cases "tr * inner + inner * tc > budget \<and> (tr > 1 \<or> tc > 1)")
    case True
    show ?thesis
    proof (cases "tc \<ge> tr \<and> tc > 1")
      case c: True
      have "shrink_tiles inner budget tr (max 1 (tc div 2)) = (tr', tc')"
        using 1(5) True c by (simp add: shrink_tiles.simps[of inner budget tr tc])
      from 1(1)[OF True c 1(3) _ this] c show ?thesis by auto
    next
      case c: False
      then have tr: "tr > 1" using True by auto
      have "shrink_tiles inner budget (max 1 (tr div 2)) tc = (tr', tc')"
        using 1(5) True c by (simp add: shrink_tiles.simps[of inner budget tr tc])
      note i = 1(2)[OF True c max.cobounded1 1(4) this]
      have "max 1 (tr div 2) \<le> tr" using tr by simp
      with i show ?thesis using order_trans by blast
    qed
  next
    case False
    with 1(3-5) show ?thesis by (auto simp: shrink_tiles.simps[of inner budget tr tc])
  qed
qed

text \<open>
  C25: the tiling loop ends, with tiles of at least one and at most the tensor's size whose scratch
  fits the budget unless they are down to one by one; tiling is enabled only when the scratch
  fits, the measured gain is above the promotion threshold and the p95 regression is in bounds.
\<close>

theorem tiling_bounded:
  assumes "select_tiling rows inner columns mode budget gain p95 = Inr p"
  shows "1 \<le> tile_rows p \<and> tile_rows p \<le> int_of_val rows \<and> 1 \<le> tile_cols p \<and> tile_cols p \<le> int_of_val columns
     \<and> scratch_bytes p = tile_rows p * int_of_val inner + int_of_val inner * tile_cols p
     \<and> (scratch_bytes p \<le> int_of_val budget \<or> tile_rows p = 1 \<and> tile_cols p = 1)
     \<and> (tiling_enabled p \<longleftrightarrow> evidence_ok gain \<and> regression_ok p95 \<and> scratch_bytes p \<le> int_of_val budget)"
proof -
  let ?r = "min (int_of_val rows) (dget_or row_hints mode 0)" and ?c = "min (int_of_val columns) (dget_or col_hints mode 0)"
  obtain tr tc where t: "shrink_tiles (int_of_val inner) (int_of_val budget) ?r ?c = (tr, tc)" by fastforce
  have m: "mode = ''decode'' \<or> mode = ''prefill'' \<or> mode = ''batch''" and ok: "\<not> list_ex (bad_int 1) [rows, inner, columns, budget]"
    using assms unfolding select_tiling_def by (auto split: if_splits)
  have "1 \<le> int_of_val rows" "1 \<le> int_of_val columns" by (rule all_good_int[OF ok]; simp)+
  moreover have "1 \<le> dget_or row_hints mode 0" "1 \<le> dget_or col_hints mode 0"
    using m by (auto simp: dget_or_def row_hints_def col_hints_def)
  ultimately have "1 \<le> ?r" "1 \<le> ?c" by simp_all
  note b = shrink_tiles_bounds[OF this t]
  have "p = \<lparr>tp_mode = mode, tile_rows = tr, tile_cols = tc, scratch_bytes = tr * int_of_val inner + int_of_val inner * tc,
      tiling_enabled = (evidence_ok gain \<and> regression_ok p95 \<and> tr * int_of_val inner + int_of_val inner * tc \<le> int_of_val budget),
      tiling_reason = tiling_reason_of gain p95 (evidence_ok gain \<and> regression_ok p95 \<and> tr * int_of_val inner + int_of_val inner * tc \<le> int_of_val budget)\<rparr>"
    using assms m ok unfolding select_tiling_def Let_def t by simp
  with b show ?thesis by simp
qed

theorem tiling_bounded_witness:
  "\<exists>p. select_tiling (PyInt 64) (PyInt 100) (PyInt 300) ''prefill'' (PyInt 4096) (Some (Fin 1)) (Fin 0) = Inr p
     \<and> tiling_enabled p \<and> scratch_bytes p \<le> 4096"
proof -
  have "ok_with (select_tiling (PyInt 64) (PyInt 100) (PyInt 300) ''prefill'' (PyInt 4096) (Some (Fin 1)) (Fin 0)) tiling_enabled"
    by code_simp
  then obtain p where p: "select_tiling (PyInt 64) (PyInt 100) (PyInt 300) ''prefill'' (PyInt 4096) (Some (Fin 1)) (Fin 0) = Inr p"
      "tiling_enabled p" by (elim ok_withE)
  with tiling_bounded[OF p(1)] show ?thesis by simp
qed

section \<open>Isolated batches\<close>

record batch_request =
  br_session_id :: string
  br_model_id :: string
  br_kv_bytes :: int
  br_priority :: int

record batch_plan =
  bp_session_ids :: "string list"
  bp_model_id :: "string option"
  isolated_kv :: bool
  bp_fair :: bool
  bp_enabled :: bool
  bp_reason :: string

definition batch_order :: "batch_request list \<Rightarrow> batch_request list" where
  "batch_order rs = sort_key (\<lambda>r. (- br_priority r, br_session_id r)) rs"

definition one_session :: "batch_request \<Rightarrow> string \<Rightarrow> batch_plan" where
  "one_session r reason = \<lparr>bp_session_ids = [br_session_id r], bp_model_id = Some (br_model_id r), isolated_kv = True,
     bp_fair = True, bp_enabled = False, bp_reason = reason\<rparr>"

definition form_isolated_batch :: "batch_request list \<Rightarrow> pyval \<Rightarrow> pyfloat option \<Rightarrow> pyfloat \<Rightarrow> batch_plan res" where
  "form_isolated_batch rs max_size gain p95 =
     (if bad_int 1 max_size then Inl (ValueError ''max_batch_size must be positive'')
      else case rs of
        [] \<Rightarrow> Inr \<lparr>bp_session_ids = [], bp_model_id = None, isolated_kv = True, bp_fair = True, bp_enabled = False,
                bp_reason = ''empty-request-set''\<rparr>
      | first # _ \<Rightarrow>
          (if \<not> distinct (List.map br_session_id rs) then Inl (ValueError ''session ids must be unique within a batch'')
           else if list_ex (\<lambda>r. br_kv_bytes r < 0) rs then Inl (ValueError ''KV allocation cannot be negative'')
           else if list_ex (\<lambda>r. br_model_id r \<noteq> br_model_id first) rs
           then Inr (one_session first ''cross-model-batch-would-break-isolation'')
           else let ordered = batch_order rs; selected = List.map br_session_id (take (nat (int_of_val max_size)) ordered) in
             if \<not> evidence_ok gain \<or> \<not> regression_ok p95
             then Inr (one_session (hd ordered) ''batch-disabled-without-non-regressive-evidence'')
             else Inr \<lparr>bp_session_ids = selected, bp_model_id = Some (br_model_id (hd ordered)), isolated_kv = True, bp_fair = True,
                    bp_enabled = (1 < length selected), bp_reason = ''batch-enabled-by-bounded-non-regressive-evidence''\<rparr>))"

lemma batch_order_set [simp]: "set (batch_order rs) = set rs"
  by (simp add: batch_order_def)

lemma hd_batch_order: "rs \<noteq> [] \<Longrightarrow> hd (batch_order rs) \<in> set rs"
  by (metis batch_order_set hd_in_set set_empty)

lemma form_isolated_batch_cases:
  assumes "form_isolated_batch rs max_size gain p95 = Inr b" and "rs \<noteq> []"
  shows "(\<exists>r reason. r \<in> set rs \<and> b = one_session r reason)
    \<or> (distinct (List.map br_session_id rs) \<and> (\<forall>r \<in> set rs. br_model_id r = br_model_id (hd rs)) \<and> evidence_ok gain \<and> regression_ok p95
       \<and> bp_session_ids b = List.map br_session_id (take (nat (int_of_val max_size)) (batch_order rs))
       \<and> bp_model_id b = Some (br_model_id (hd (batch_order rs))))"
proof -
  obtain f rest where rs: "rs = f # rest" using assms(2) by (cases rs) auto
  show ?thesis
    using assms(1) hd_batch_order[OF assms(2)] rs
    unfolding form_isolated_batch_def Let_def by (auto simp: list_ex_iff split: if_splits)
qed

text \<open>An isolated batch never mixes models, never repeats a session and never passes its size.\<close>

theorem isolated_batch_sound:
  assumes "form_isolated_batch rs max_size gain p95 = Inr b" and "rs \<noteq> []"
  shows "int (length (bp_session_ids b)) \<le> int_of_val max_size \<and> distinct (bp_session_ids b)
     \<and> (\<forall>s \<in> set (bp_session_ids b). \<exists>r \<in> set rs. br_session_id r = s \<and> bp_model_id b = Some (br_model_id r))"
  using form_isolated_batch_cases[OF assms]
proof (elim disjE exE conjE)
  fix r reason assume "r \<in> set rs" "b = one_session r reason"
  moreover have "1 \<le> int_of_val max_size" using assms(1) by (auto simp: form_isolated_batch_def not_bad_int_le split: if_splits)
  ultimately show ?thesis by (auto simp: one_session_def)
next
  let ?o = "batch_order rs" and ?n = "nat (int_of_val max_size)"
  assume d: "distinct (List.map br_session_id rs)" and m: "\<forall>r \<in> set rs. br_model_id r = br_model_id (hd rs)"
    and b: "bp_session_ids b = List.map br_session_id (take ?n ?o)" "bp_model_id b = Some (br_model_id (hd ?o))"
  have "1 \<le> int_of_val max_size" using assms(1) by (auto simp: form_isolated_batch_def not_bad_int_le split: if_splits)
  then have "int (length (bp_session_ids b)) \<le> int_of_val max_size" using b(1) by simp
  moreover have "inj_on br_session_id (set (take ?n ?o))" "distinct (take ?n ?o)"
    using d inj_on_subset[of br_session_id "set rs" "set (take ?n ?o)"] set_take_subset[of ?n ?o]
    by (auto simp: distinct_map batch_order_def)
  then have "distinct (bp_session_ids b)" using b(1) by (simp add: distinct_map)
  moreover have "br_model_id (hd ?o) = br_model_id r" if "r \<in> set rs" for r
    using m that hd_batch_order[OF assms(2)] by metis
  moreover have "set (take ?n ?o) \<subseteq> set rs" using set_take_subset[of ?n ?o] by simp
  ultimately show ?thesis using b by auto
qed

end
