(* ===== verification/Turboquant.thy ===== *)
theory Turboquant
  imports Base64 Py_Json
begin

text \<open>
  \<open>local_data_plane/turboquant.py\<close>: the bit packing of quantisation indices, the packet with its
  JSON form, and the checks of compression and decompression.  What NumPy computes (the
  rotation, the norms, the codebook, the nearest centroids, the reconstruction, the rounding to
  32-bit floats) is a parameter, \<open>tq_host\<close>.  A \<open>TurboQuantError\<close> is a \<open>ValueError\<close>.
\<close>

unbundle bit_operations_syntax

section \<open>Bits\<close>

definition TURBOQUANT_SCHEMA :: string where
  "TURBOQUANT_SCHEMA = ''simplicio.local.turboquant-kv/v1''"

definition MAX_ELEMENTS :: int where
  "MAX_ELEMENTS = 1000000"

definition SUPPORTED_BITS :: "int list" where
  "SUPPORTED_BITS = [2, 3, 4]"

definition validate_bits :: "int \<Rightarrow> int res" where
  "validate_bits bits = (if bits \<in> set SUPPORTED_BITS then Inr bits
     else Inl (ValueError ''TurboQuant bits must be one of [2, 3, 4]''))"

definition is_power_of_two :: "int \<Rightarrow> bool" where
  "is_power_of_two v \<longleftrightarrow> 0 < v \<and> v AND (v - 1) = 0"

section \<open>Packing\<close>

text \<open>\<open>while available >= 8\<close>: the whole bytes of the accumulator, what is left of it, and its bits.\<close>

fun whole_bytes :: "int \<Rightarrow> nat \<Rightarrow> byte list \<times> int \<times> nat" where
  "whole_bytes acc avail =
     (if 8 \<le> avail then (let (bs, a, n) = whole_bytes (drop_bit 8 acc) (avail - 8) in (word_of_int (acc AND 255) # bs, a, n))
      else ([], acc, avail))"

declare whole_bytes.simps [simp del]

fun pack_from :: "nat \<Rightarrow> int list \<Rightarrow> int \<Rightarrow> nat \<Rightarrow> byte list" where
  "pack_from bits [] acc avail = (if 0 < avail then [word_of_int (acc AND 255)] else [])"
| "pack_from bits (v # vs) acc avail =
     (let (bs, a, n) = whole_bytes (acc OR push_bit avail (v AND (push_bit bits 1 - 1))) (avail + bits)
      in bs @ pack_from bits vs a n)"

definition pack :: "int list \<Rightarrow> nat \<Rightarrow> byte list" where
  "pack indices bits = pack_from bits indices 0 0"

text \<open>\<open>while available >= bits and offset < count\<close>: \<open>k\<close> values are still wanted.\<close>

fun take_values :: "nat \<Rightarrow> nat \<Rightarrow> int \<Rightarrow> nat \<Rightarrow> int list \<times> int \<times> nat" where
  "take_values bits 0 acc avail = ([], acc, avail)"
| "take_values bits (Suc k) acc avail =
     (if bits \<le> avail
      then (let (vs, a, n) = take_values bits k (drop_bit bits acc) (avail - bits) in ((acc AND (push_bit bits 1 - 1)) # vs, a, n))
      else ([], acc, avail))"

fun unpack_from :: "nat \<Rightarrow> nat \<Rightarrow> byte list \<Rightarrow> int \<Rightarrow> nat \<Rightarrow> int list" where
  "unpack_from bits k [] acc avail = []"
| "unpack_from bits k (b # bs) acc avail =
     (let (vs, a, n) = take_values bits k (acc OR push_bit avail (uint b)) (avail + 8)
      in vs @ unpack_from bits (k - length vs) bs a n)"

definition unpack :: "byte list \<Rightarrow> nat \<Rightarrow> nat \<Rightarrow> int list res" where
  "unpack data n bits = (let vs = unpack_from bits n data 0 0 in
     if length vs \<noteq> n then Inl (ValueError ''packed TurboQuant indices are truncated'') else Inr vs)"

section \<open>The packed stream is the stream of the values' bits\<close>

text \<open>The number a list of bits stands for, least significant first.\<close>

abbreviation bq :: "bool list \<Rightarrow> int" where
  "bq q \<equiv> horner_sum of_bool 2 q"

definition value_bits :: "nat \<Rightarrow> int \<Rightarrow> bool list" where
  "value_bits n v = List.map (bit v) [0..<n]"

definition bits_of :: "byte list \<Rightarrow> bool list" where
  "bits_of bs = concat (List.map (\<lambda>b. value_bits 8 (uint b)) bs)"

lemma length_value_bits [simp]: "length (value_bits n v) = n"
  by (simp add: value_bits_def)

lemma bq_value_bits: "bq (value_bits n v) = take_bit n v"
  by (simp add: value_bits_def horner_sum_bit_eq_take_bit)

lemma and_low_bits [simp]: "v AND (2 ^ n - 1) = take_bit n v" for v :: int
  by (simp add: take_bit_eq_mask mask_eq_exp_minus_1)

lemma and_255 [simp]: "v AND 255 = take_bit 8 v" for v :: int
  using and_low_bits[of v 8] by simp

lemma bq_push: "bq q OR push_bit (length q) (take_bit n v) = bq (q @ value_bits n v)"
  by (rule bit_eqI)
    (auto simp: bit_horner_sum_bit_iff bit_or_iff bit_push_bit_iff bit_take_bit_iff nth_append value_bits_def)

lemma bq_push_byte: "bq q OR push_bit (length q) (uint b) = bq (q @ value_bits 8 (uint b))" for b :: byte
proof -
  have "take_bit 8 (uint b) = uint b" by (rule bintr_uint) simp
  then show ?thesis using bq_push[of q 8 "uint b"] by simp
qed

lemma bq_drop: "drop_bit n (bq q) = bq (drop n q)"
  by (rule bit_eqI) (auto simp: bit_horner_sum_bit_iff bit_drop_bit_eq)

lemma bq_take: "take_bit n (bq q) = bq (take n q)"
  by (rule bit_eqI) (auto simp: bit_horner_sum_bit_iff bit_take_bit_iff)

text \<open>The bytes of a list of bits, the last one padded with zeros.\<close>

function bit_bytes :: "bool list \<Rightarrow> byte list" where
  "bit_bytes q = (if q = [] then [] else word_of_int (bq (take 8 q)) # bit_bytes (drop 8 q))"
  by pat_completeness auto
termination by (relation "measure length") auto

declare bit_bytes.simps [simp del]

lemma whole_bytes_bits:
  "whole_bytes (bq q) (length q) = (bs, a, n) \<Longrightarrow>
     \<exists>r. length r < 8 \<and> a = bq r \<and> n = length r \<and> (\<forall>s. bit_bytes (q @ s) = bs @ bit_bytes (r @ s))"
proof (induction "length q" arbitrary: q bs a n rule: less_induct)
  case less
  show ?case
  proof (cases "8 \<le> length q")
    case False
    then have "bs = [] \<and> a = bq q \<and> n = length q" using less.prems by (simp add: whole_bytes.simps[of "bq q"])
    then show ?thesis using False by (intro exI[of _ q]) simp
  next
    case True
    obtain bs' a' n' where w: "whole_bytes (bq (drop 8 q)) (length (drop 8 q)) = (bs', a', n')" by (metis prod_cases3)
    have eq: "bs = word_of_int (bq (take 8 q)) # bs'" "a = a'" "n = n'"
      using less.prems True w by (auto simp: whole_bytes.simps[of "bq q"] bq_drop bq_take Let_def)
    have "length (drop 8 q) < length q" using True by simp
    from less.hyps[OF this w] obtain r where r: "length r < 8" "a' = bq r" "n' = length r"
        "\<forall>s. bit_bytes (drop 8 q @ s) = bs' @ bit_bytes (r @ s)" by blast
    have "bit_bytes (q @ s) = word_of_int (bq (take 8 q)) # bit_bytes (drop 8 q @ s)" for s
      using True by (subst bit_bytes.simps) auto
    then show ?thesis using r eq by auto
  qed
qed

lemma pack_from_bits:
  "length q < 8 \<Longrightarrow> pack_from n vs (bq q) (length q) = bit_bytes (q @ concat (List.map (value_bits n) vs))"
proof (induction vs arbitrary: q)
  case Nil
  have "take 8 q = q" "drop 8 q = []" using Nil by simp_all
  then show ?case using bq_take[of 8 q] by (simp add: bit_bytes.simps[of q] bit_bytes.simps[of "[]"])
next
  case (Cons v vs)
  let ?q = "q @ value_bits n v"
  obtain bs a k where w: "whole_bytes (bq ?q) (length ?q) = (bs, a, k)" by (metis prod_cases3)
  from whole_bytes_bits[OF w] obtain r where r: "length r < 8" "a = bq r" "k = length r"
      "bit_bytes (?q @ concat (List.map (value_bits n) vs)) = bs @ bit_bytes (r @ concat (List.map (value_bits n) vs))" by blast
  then show ?case using Cons.IH[OF r(1)] w by (simp add: bq_push)
qed

fun chunks :: "nat \<Rightarrow> nat \<Rightarrow> bool list \<Rightarrow> int list" where
  "chunks n 0 s = []"
| "chunks n (Suc k) s = bq (take n s) # chunks n k (drop n s)"

lemma length_chunks [simp]: "length (chunks n k s) = k"
  by (induction n k s rule: chunks.induct) auto

lemma chunks_add: "chunks n (j + k) s = chunks n j s @ chunks n k (drop (j * n) s)"
  by (induction n j s rule: chunks.induct) (auto simp: add.commute)

lemma chunks_append: "k * n \<le> length s \<Longrightarrow> chunks n k (s @ t) = chunks n k s"
  by (induction n k s rule: chunks.induct) auto

lemma take_values_bits:
  assumes "0 < n"
  shows "take_values n k (bq q) (length q) =
     (let m = min k (length q div n) in (chunks n m q, bq (drop (m * n) q), length q - m * n))"
proof (induction k arbitrary: q)
  case (Suc k)
  show ?case
  proof (cases "n \<le> length q")
    case True
    let ?d = "drop n q"
    have "length q div n = Suc (length ?d div n)" using True assms by (simp add: le_div_geq)
    then show ?thesis using Suc.IH[of ?d] True
      by (auto simp: Let_def bq_drop bq_take min_def add.commute)
  next
    case False
    then show ?thesis by (simp add: Let_def)
  qed
qed (simp add: Let_def)

lemma unpack_from_bits:
  assumes "0 < n"
  shows "length q < n \<or> k = 0 \<Longrightarrow> unpack_from n k data (bq q) (length q) =
    (let m = min k (length (q @ bits_of data) div n) in chunks n m (q @ bits_of data))"
proof (induction data arbitrary: q k)
  case Nil
  then show ?case by (auto simp: Let_def bits_of_def)
next
  case (Cons b bs)
  define Q where "Q = q @ value_bits 8 (uint b)"
  define t where "t = bits_of bs"
  define m where "m = min k (length Q div n)"
  define r where "r = drop (m * n) Q"
  have Q: "bq q OR push_bit (length q) (uint b) = bq Q" "length q + 8 = length Q"
    by (simp_all only: Q_def bq_push_byte length_append length_value_bits)
  have m: "m * n \<le> length Q" unfolding m_def
    by (metis div_times_less_eq_dividend min.cobounded2 mult_le_mono1 order_trans)
  have r: "length r = length Q - m * n" by (simp add: r_def)
  have step: "unpack_from n k (b # bs) (bq q) (length q) = chunks n m Q @ unpack_from n (k - m) bs (bq r) (length r)"
    using take_values_bits[OF assms, of k Q] by (simp add: Q Let_def m_def[symmetric] r r_def[symmetric])
  have "length r < n \<or> k - m = 0"
  proof (cases "k \<le> length Q div n")
    case False
    then have "length r = length Q mod n" by (simp add: r m_def modulo_nat_def)
    then show ?thesis using assms by simp
  qed (simp add: m_def)
  from Cons.IH[OF this, folded t_def]
  have i: "unpack_from n (k - m) bs (bq r) (length r) = chunks n (min (k - m) (length (r @ t) div n)) (r @ t)"
    by (simp only: Let_def)
  have "length (Q @ t) = m * n + length (r @ t)" using m by (simp add: r)
  then have "length (Q @ t) div n = m + length (r @ t) div n" using assms by (simp add: add.assoc)
  then have k: "m + min (k - m) (length (r @ t) div n) = min k (length (Q @ t) div n)"
    unfolding m_def by auto
  have "drop (m * n) (Q @ t) = r @ t" using m by (simp add: r_def)
  then have "unpack_from n k (b # bs) (bq q) (length q) = chunks n (m + min (k - m) (length (r @ t) div n)) (Q @ t)"
    unfolding step i chunks_add by (simp only: chunks_append[OF m])
  then show ?case unfolding k by (simp add: Q_def t_def bits_of_def Let_def)
qed

lemma bits_of_bit_bytes: "\<exists>k. bits_of (bit_bytes s) = s @ replicate k False"
proof (induction s rule: bit_bytes.induct)
  case (1 q)
  show ?case
  proof (cases "q = []")
    case True
    then show ?thesis by (simp add: bit_bytes.simps[of "[]"] bits_of_def)
  next
    case False
    obtain k where k: "bits_of (bit_bytes (drop 8 q)) = drop 8 q @ replicate k False" using 1 False by blast
    have u: "uint (word_of_int (bq (take 8 q)) :: byte) = bq (take 8 q)"
      using bq_take[of 8 "take 8 q"] by (simp add: uint_word_of_int take_bit_eq_mod)
    have "value_bits 8 (bq (take 8 q)) = take 8 q @ replicate (8 - length q) False"
      by (rule nth_equalityI) (auto simp: value_bits_def bit_horner_sum_bit_iff nth_append)
    then have b: "bits_of (bit_bytes q) = take 8 q @ replicate (8 - length q) False @ drop 8 q @ replicate k False"
      using False k u by (subst bit_bytes.simps) (simp add: bits_of_def)
    show ?thesis
    proof (cases "8 \<le> length q")
      case True
      then show ?thesis using b by (metis append.assoc append_Nil append_take_drop_id diff_is_0_eq replicate_0)
    next
      case short: False
      then have "take 8 q = q" "drop 8 q = []" by simp_all
      then show ?thesis using b by (metis append_Nil replicate_add)
    qed
  qed
qed

lemma length_bit_bytes: "length (bit_bytes s) = (length s + 7) div 8"
proof (induction s rule: bit_bytes.induct)
  case (1 q)
  show ?case
  proof (cases "q = []")
    case False
    have "(length q + 7) div 8 = Suc ((length q - 8 + 7) div 8)"
    proof (cases "8 \<le> length q")
      case True
      then have "length q + 7 = length q - 8 + 7 + 8" by simp
      then show ?thesis by (simp only: div_add_self2)
    next
      case short: False
      have "0 < length q" using False by simp
      with short show ?thesis by (auto simp: div_if)
    qed
    moreover have "length (bit_bytes (drop 8 q)) = (length q - 8 + 7) div 8" using 1[OF False] by simp
    moreover have "length (bit_bytes q) = Suc (length (bit_bytes (drop 8 q)))" using False bit_bytes.simps[of q] by simp
    ultimately show ?thesis by simp
  qed (simp add: bit_bytes.simps[of "[]"])
qed

lemma chunks_values: "chunks n (length vs) (concat (List.map (value_bits n) vs)) = List.map (take_bit n) vs"
  by (induction vs) (auto simp: bq_value_bits)

lemma length_values: "length (concat (List.map (value_bits n) vs)) = length vs * n"
  by (induction vs) auto

lemma length_bits_of [simp]: "length (bits_of bs) = 8 * length bs"
  by (induction bs) (auto simp: bits_of_def)

lemma pack_bits: "pack vs n = bit_bytes (concat (List.map (value_bits n) vs))"
  using pack_from_bits[of "[]" n vs] by (simp add: pack_def)

lemma unpack_bits: "0 < n \<Longrightarrow> unpack data k n = (if k * n \<le> 8 * length data then Inr (chunks n k (bits_of data))
    else Inl (ValueError ''packed TurboQuant indices are truncated''))"
  using unpack_from_bits[of n "[]" k data] by (auto simp: unpack_def Let_def less_eq_div_iff_mult_less_eq min_def)

lemma pack_round_trip:
  assumes "0 < n"
  shows "unpack (pack vs n) (length vs) n = Inr (List.map (take_bit n) vs)"
proof -
  let ?s = "concat (List.map (value_bits n) vs)"
  obtain k where "bits_of (bit_bytes ?s) = ?s @ replicate k False" using bits_of_bit_bytes by blast
  moreover have "length vs * n \<le> 8 * length (bit_bytes ?s)" by (simp add: length_bit_bytes length_values)
  ultimately show ?thesis
    using assms by (simp add: unpack_bits pack_bits chunks_append length_values chunks_values)
qed

text \<open>
  For every supported width, unpacking packed indices gives back the low bits of each, the
  packed size is the number of bits rounded up to bytes, and unpacking raises exactly when the
  bytes hold fewer bits than asked for.
\<close>

theorem packed_indices_round_trip:
  assumes "validate_bits bits = Inr b"
  shows "unpack (pack vs (nat b)) (length vs) (nat b) = Inr (List.map (\<lambda>v. v mod 2 ^ nat b) vs)
     \<and> length (pack vs (nat b)) = (nat b * length vs + 7) div 8
     \<and> ((\<exists>e. unpack data k (nat b) = Inl e) \<longleftrightarrow> 8 * length data < k * nat b)"
proof -
  have b: "0 < nat b" using assms by (auto simp: validate_bits_def SUPPORTED_BITS_def split: if_splits)
  show ?thesis
    using pack_round_trip[OF b, of vs] b
    by (auto simp: take_bit_eq_mod pack_bits length_bit_bytes length_values unpack_bits mult.commute)
qed

theorem packed_indices_round_trip_witness:
  "unpack (pack [1, 7, 5] 3) 3 3 = Inr [1, 7, 5] \<and> length (pack [1, 7, 5] 3) = 2"
  using packed_indices_round_trip[of 3 3 "[1, 7, 5]" "[]" 0] by (simp add: validate_bits_def SUPPORTED_BITS_def numeral_3_eq_3)

section \<open>Packets\<close>

record tq_packet =
  tq_rows :: int
  tq_dimension :: int
  tq_bits :: int
  tq_seed :: int
  rotation_mode :: string
  packed_indices :: "byte list"
  tq_norms :: "pyfloat list"
  tq_centroids :: "pyfloat list"
  tq_signs :: "pyfloat list"

definition element_count :: "tq_packet \<Rightarrow> int" where
  "element_count p = tq_rows p * tq_dimension p"

definition packed_bytes :: "tq_packet \<Rightarrow> int" where
  "packed_bytes p = int (length (packed_indices p))"

definition uncompressed_bytes :: "tq_packet \<Rightarrow> int" where
  "uncompressed_bytes p = element_count p * 4"

definition compressed_bytes :: "tq_packet \<Rightarrow> int" where
  "compressed_bytes p = packed_bytes p + int (length (tq_norms p)) * 4 + int (length (tq_signs p)) * 4 + int (length (tq_centroids p)) * 4"

definition packet_dict :: "tq_packet \<Rightarrow> (string \<times> pyval) list" where
  "packet_dict p = [(''schema'', PyStr TURBOQUANT_SCHEMA), (''shape'', PyList [PyInt (tq_rows p), PyInt (tq_dimension p)]),
     (''bits'', PyInt (tq_bits p)), (''seed'', PyInt (tq_seed p)), (''rotation_mode'', PyStr (rotation_mode p)),
     (''packed_indices_b64'', PyStr (b64encode (packed_indices p))), (''norms'', PyList (List.map PyFloat (tq_norms p))),
     (''centroids'', PyList (List.map PyFloat (tq_centroids p))), (''signs'', PyList (List.map PyFloat (tq_signs p)))]"

definition shape_of :: "pyval \<Rightarrow> (int \<times> int) res" where
  "shape_of v = (case v of
      PyList [a, b] \<Rightarrow> (case (py_int a, py_int b) of (Some r, Some d) \<Rightarrow> Inr (r, d)
        | _ \<Rightarrow> Inl (ValueError ''TurboQuant packet shape is invalid''))
    | _ \<Rightarrow> Inl (ValueError ''TurboQuant packet shape is invalid''))"

text \<open>\<open>float(item)\<close> of a number.\<close>

definition to_float :: "pyval \<Rightarrow> pyfloat res" where
  "to_float v = (case v of
      PyFloat x \<Rightarrow> Inr x
    | _ \<Rightarrow> (case py_int v of Some n \<Rightarrow> opt_res (OverflowError ''int too large to convert to float'') (float_of_int n)
        | None \<Rightarrow> Inl (TypeError ''float() argument must be a number'')))"

definition number_list :: "pyval \<Rightarrow> pyval list res" where
  "number_list v = (case v of
      PyList xs \<Rightarrow> if list_all (\<lambda>x. py_number x \<noteq> None) xs then Inr xs else Inl (ValueError ''TurboQuant packet numeric fields are invalid'')
    | _ \<Rightarrow> Inl (ValueError ''TurboQuant packet numeric fields are invalid''))"

definition decode_indices :: "pyval \<Rightarrow> byte list res" where
  "decode_indices v = opt_res (ValueError ''TurboQuant packet indices are invalid base64'') (Option.bind (py_string v) b64decode)"

definition packet_from_dict :: "pyval \<Rightarrow> tq_packet res" where
  "packet_from_dict v =
     rbind (opt_res (ValueError ''invalid TurboQuant packet schema'') (py_dict v)) (\<lambda>d.
     if jget d ''schema'' \<noteq> PyStr TURBOQUANT_SCHEMA then Inl (ValueError ''invalid TurboQuant packet schema'') else
     rbind (shape_of (jget d ''shape'')) (\<lambda>(r, c).
     rbind (opt_res (ValueError ''TurboQuant packet bits are invalid'') (py_int (jget d ''bits''))) (\<lambda>bits.
     rbind (validate_bits bits) (\<lambda>_.
     rbind (decode_indices (jget d ''packed_indices_b64'')) (\<lambda>packed.
     rbind (number_list (jget d ''norms'')) (\<lambda>norms. rbind (number_list (jget d ''centroids'')) (\<lambda>cents.
     rbind (number_list (jget d ''signs'')) (\<lambda>signs.
     rbind (to_int (dget_or d ''seed'' (PyInt 0))) (\<lambda>seed.
     rbind (map_res to_float norms) (\<lambda>norms. rbind (map_res to_float cents) (\<lambda>cents. rbind (map_res to_float signs) (\<lambda>signs.
       Inr \<lparr>tq_rows = r, tq_dimension = c, tq_bits = bits, tq_seed = seed,
         rotation_mode = py_str (dget_or d ''rotation_mode'' (PyStr ''unknown'')), packed_indices = packed,
         tq_norms = norms, tq_centroids = cents, tq_signs = signs\<rparr>))))))))))))"

section \<open>The executor\<close>

text \<open>
  \<open>to_f32\<close> rounds to a 32-bit float; \<open>quantise\<close> gives the rotation's mode, the indices of the
  nearest centroids in row-major order, the norms, the centroids and the signs; \<open>rebuild\<close> turns
  the centroids the indices select back into vectors.
\<close>

record tq_quantised =
  q_mode :: string
  q_indices :: "int list"
  q_norms :: "pyfloat list"
  q_centroids :: "pyfloat list"
  q_signs :: "pyfloat list"

record tq_host =
  tq_available :: bool
  to_f32 :: "pyfloat \<Rightarrow> pyfloat"
  quantise :: "pyfloat list list \<Rightarrow> int \<Rightarrow> int \<Rightarrow> tq_quantised"
  rebuild :: "tq_packet \<Rightarrow> pyfloat list \<Rightarrow> pyfloat list list"

definition numpy :: "tq_host \<Rightarrow> unit res" where
  "numpy h = (if tq_available h then Inr () else Inl (ValueError ''TurboQuant CPU executor requires numpy''))"

definition compress :: "tq_host \<Rightarrow> pyfloat list list \<Rightarrow> int \<Rightarrow> int \<Rightarrow> tq_packet res" where
  "compress h vectors bits seed =
     rbind (numpy h) (\<lambda>_. rbind (validate_bits bits) (\<lambda>bits.
       let dimension = length (hd vectors); values = List.map (List.map (to_f32 h)) vectors; rows = int (length vectors) in
       if vectors \<noteq> [] \<and> list_ex (\<lambda>v. length v \<noteq> dimension) vectors then Inl (ValueError ''inhomogeneous shape'')
       else if vectors = [] \<or> dimension = 0 then Inl (ValueError ''TurboQuant input must be a non-empty 2D matrix'')
       else if rows * int dimension > MAX_ELEMENTS then Inl (ValueError ''TurboQuant input exceeds the bounded element limit'')
       else if \<not> list_all (list_all isfinite) values then Inl (ValueError ''TurboQuant input contains non-finite values'')
       else let q = quantise h values bits seed in
         Inr \<lparr>tq_rows = rows, tq_dimension = int dimension, tq_bits = bits, tq_seed = seed, rotation_mode = q_mode q,
           packed_indices = pack (q_indices q) (nat bits), tq_norms = q_norms q, tq_centroids = q_centroids q, tq_signs = q_signs q\<rparr>))"

definition decompress :: "tq_host \<Rightarrow> tq_packet \<Rightarrow> pyfloat list list res" where
  "decompress h p =
     rbind (numpy h) (\<lambda>_. rbind (validate_bits (tq_bits p)) (\<lambda>_.
       if tq_rows p \<le> 0 \<or> tq_dimension p \<le> 0 \<or> tq_rows p * tq_dimension p > MAX_ELEMENTS
       then Inl (ValueError ''TurboQuant packet shape is outside the bounded range'')
       else if int (length (tq_norms p)) \<noteq> tq_rows p \<or> int (length (tq_signs p)) \<noteq> tq_dimension p
       then Inl (ValueError ''TurboQuant packet metadata does not match its shape'')
       else rbind (unpack (packed_indices p) (nat (tq_rows p * tq_dimension p)) (nat (tq_bits p))) (\<lambda>indices.
         if int (length (tq_centroids p)) \<noteq> 2 ^ nat (tq_bits p)
         then Inl (ValueError ''TurboQuant packet codebook does not match its bit width'')
         else Inr (rebuild h p (List.map (\<lambda>i. tq_centroids p ! nat i) indices)))))"

text \<open>
  What the NumPy code promises: one index per element, each naming a centroid, and arrays of the
  sizes of the matrix and the codebook.
\<close>

definition well_quantised :: "tq_host \<Rightarrow> bool" where
  "well_quantised h \<longleftrightarrow> (\<forall>vs bits seed. vs \<noteq> [] \<and> bits \<in> set SUPPORTED_BITS \<longrightarrow> (let q = quantise h vs bits seed in
     length (q_indices q) = sum_list (List.map length vs) \<and> list_all (\<lambda>i. 0 \<le> i \<and> i < 2 ^ nat bits) (q_indices q)
     \<and> length (q_norms q) = length vs \<and> length (q_signs q) = length (hd vs)
     \<and> int (length (q_centroids q)) = 2 ^ nat bits))"

lemma validate_bits_Inr: "validate_bits bits = Inr b \<longleftrightarrow> b = bits \<and> (bits = 2 \<or> bits = 3 \<or> bits = 4)"
  by (auto simp: validate_bits_def SUPPORTED_BITS_def)

lemma map_res_to_float [simp]: "map_res to_float (List.map PyFloat xs) = Inr xs"
  by (induction xs) (auto simp: to_float_def)

lemma number_list_floats [simp]: "number_list (PyList (List.map PyFloat xs)) = Inr (List.map PyFloat xs)"
  by (simp add: number_list_def list_all_iff)

lemma packet_round_trip:
  assumes "validate_bits (tq_bits p) = Inr b"
  shows "packet_from_dict (PyDict (packet_dict p)) = Inr p"
  using assms
  by (simp add: packet_from_dict_def packet_dict_def jget_def dget_or_def shape_of_def decode_indices_def b64_round_trip to_int_def)

lemma equal_lengths: "list_all (\<lambda>v. length v = n) vs \<Longrightarrow> sum_list (List.map length vs) = length vs * n"
  by (induction vs) auto

text \<open>
  C26: a matrix compressed, written as JSON, read back and decompressed is rebuilt from exactly the
  centroids the quantiser chose, one per element; and nothing of the way refuses it.
\<close>

theorem compressed_matrix_is_rebuilt:
  assumes "compress h vectors bits seed = Inr p" and "well_quantised h"
  shows "\<exists>p'. packet_from_dict (PyDict (packet_dict p)) = Inr p' \<and>
     decompress h p' = Inr (rebuild h p (List.map (\<lambda>i. tq_centroids p ! nat i)
       (q_indices (quantise h (List.map (List.map (to_f32 h)) vectors) bits seed))))"
proof -
  let ?vs = "List.map (List.map (to_f32 h)) vectors"
  let ?q = "quantise h ?vs bits seed" and ?d = "length (hd vectors)"
  have n: "numpy h = Inr ()" and b: "validate_bits bits = Inr bits" and ne: "vectors \<noteq> []" "?d \<noteq> 0"
    and same: "list_all (\<lambda>v. length v = ?d) vectors" and bound: "int (length vectors) * int ?d \<le> MAX_ELEMENTS"
    and p: "p = \<lparr>tq_rows = int (length vectors), tq_dimension = int ?d, tq_bits = bits, tq_seed = seed, rotation_mode = q_mode ?q,
        packed_indices = pack (q_indices ?q) (nat bits), tq_norms = q_norms ?q, tq_centroids = q_centroids ?q, tq_signs = q_signs ?q\<rparr>"
    using assms(1) unfolding compress_def Let_def
    by (auto simp: validate_bits_Inr list_ex_iff list_all_iff split: if_splits)
  have q: "length (q_indices ?q) = sum_list (List.map length ?vs)" "list_all (\<lambda>i. 0 \<le> i \<and> i < 2 ^ nat bits) (q_indices ?q)"
      "length (q_norms ?q) = length ?vs" "length (q_signs ?q) = length (hd ?vs)" "int (length (q_centroids ?q)) = 2 ^ nat bits"
    using assms(2) ne b unfolding well_quantised_def Let_def by (auto simp: validate_bits_Inr SUPPORTED_BITS_def)
  have l: "length (q_indices ?q) = nat (int (length vectors) * int ?d)"
    using q(1) equal_lengths[OF same] by (simp add: comp_def nat_mult_distrib)
  have "List.map (take_bit (nat bits)) (q_indices ?q) = q_indices ?q"
    using q(2) by (intro map_idI) (auto simp: list_all_iff take_bit_int_eq_self)
  then have u: "unpack (pack (q_indices ?q) (nat bits)) (nat (int (length vectors) * int ?d)) (nat bits) = Inr (q_indices ?q)"
    using pack_round_trip[of "nat bits" "q_indices ?q"] b l by (auto simp: validate_bits_Inr)
  have "0 < length vectors" "length (hd ?vs) = ?d" using ne by (auto simp: hd_map)
  then have "decompress h p = Inr (rebuild h p (List.map (\<lambda>i. tq_centroids p ! nat i) (q_indices ?q)))"
    using n b q ne bound u unfolding decompress_def p by (simp add: hd_map)
  moreover have "packet_from_dict (PyDict (packet_dict p)) = Inr p"
    using packet_round_trip[of p bits] b p by simp
  ultimately show ?thesis by blast
qed

definition demo_host :: tq_host where
  "demo_host = \<lparr>tq_available = True, to_f32 = (\<lambda>x. x),
     quantise = (\<lambda>vs bits seed. \<lparr>q_mode = ''hadamard'', q_indices = replicate (sum_list (List.map length vs)) 1,
       q_norms = replicate (length vs) (Fin 1), q_centroids = replicate (2 ^ nat bits) (Fin 1),
       q_signs = replicate (length (hd vs)) (Fin 1)\<rparr>),
     rebuild = (\<lambda>p cs. [cs])\<rparr>"

theorem compressed_matrix_is_rebuilt_witness:
  "\<exists>p p'. compress demo_host [[Fin 1, Fin 2], [Fin 3, Fin 4]] 3 0 = Inr p
     \<and> packet_from_dict (PyDict (packet_dict p)) = Inr p' \<and> decompress demo_host p' = Inr [[Fin 1, Fin 1, Fin 1, Fin 1]]"
proof -
  let ?m = "[[Fin 1, Fin 2], [Fin 3, Fin 4]]"
  obtain p where p: "compress demo_host ?m 3 0 = Inr p" "tq_centroids p = replicate 8 (Fin 1)"
    by (auto simp: compress_def numpy_def demo_host_def validate_bits_def SUPPORTED_BITS_def MAX_ELEMENTS_def)
  have w: "well_quantised demo_host" by (auto simp: well_quantised_def demo_host_def list_all_iff Let_def SUPPORTED_BITS_def)
  show ?thesis
    using compressed_matrix_is_rebuilt[OF p(1) w] p
    by (simp add: demo_host_def numeral_eq_Suc)
qed

end
