(* ===== verification/Model_Store.thy ===== *)
theory Model_Store
  imports Artifacts Interfaces
begin

text \<open>
  \<open>local_data_plane/model_store.py\<close>: the content-addressed model store.  Its directories are
  maps from file names: \<open>objects\<close> from a digest to bytes, \<open>parts\<close> from a digest to what an
  interrupted copy left behind, \<open>refs\<close> from a model id to the record its manifest holds.  A
  \<open>file_system\<close> gives the user's files.
\<close>

section \<open>Records and names\<close>

definition id_char :: "char \<Rightarrow> bool" where
  "id_char c \<longleftrightarrow> (let n = of_char c :: int in 48 \<le> n \<and> n \<le> 57 \<or> 65 \<le> n \<and> n \<le> 90 \<or> 97 \<le> n \<and> n \<le> 122)"

definition MODEL_ID :: "string \<Rightarrow> bool" where
  "MODEL_ID s = (case s of [] \<Rightarrow> False
     | c # cs \<Rightarrow> id_char c \<and> length cs \<le> 127 \<and> list_all (\<lambda>c. id_char c \<or> c \<in> set ''._-'') cs)"

record model_record =
  mr_model_id :: string
  mr_revision :: string
  mr_sha256 :: string
  mr_size_bytes :: int
  mr_source_name :: string
  mr_license :: string
  mr_format :: string
  mr_history :: "string list"

record model_store =
  objects :: "(string \<times> byte list) list"
  parts :: "(string \<times> byte list) list"
  refs :: "(string \<times> model_record) list"

definition new_store :: model_store where
  "new_store = \<lparr>objects = [], parts = [], refs = []\<rparr>"

definition validate_id :: "string \<Rightarrow> unit res" where
  "validate_id m = (if MODEL_ID m then Inr () else Inl (ValueError ''model_id contains unsupported path characters''))"

text \<open>\<open>Path(p).name\<close> and \<open>Path(p).suffix\<close>.\<close>

fun path_parts :: "string \<Rightarrow> string \<Rightarrow> string list" where
  "path_parts w [] = [rev w]"
| "path_parts w (c # cs) = (if c = CHR ''/'' then rev w # path_parts [] cs else path_parts (c # w) cs)"

definition path_name :: "string \<Rightarrow> string" where
  "path_name p = (case rev (filter (\<lambda>x. x \<noteq> [] \<and> x \<noteq> ''.'') (path_parts [] p)) of [] \<Rightarrow> [] | x # _ \<Rightarrow> x)"

definition path_suffix :: "string \<Rightarrow> string" where
  "path_suffix p = (let n = path_name p; s = rev (takeWhile (\<lambda>c. c \<noteq> CHR ''.'') (rev n)) in
     if length s + 1 < length n \<and> s \<noteq> [] then CHR ''.'' # s else [])"

definition format_of :: "string \<Rightarrow> string" where
  "format_of p = (let s = lower (path_suffix p) in if s = [] then ''unknown'' else tl s)"

section \<open>Operations\<close>

definition get :: "string \<Rightarrow> model_store \<Rightarrow> model_record option res" where
  "get m st = rbind (validate_id m) (\<lambda>_. Inr (dget (refs st) m))"

definition write_manifest :: "model_record \<Rightarrow> model_store \<Rightarrow> model_store" where
  "write_manifest r st = st\<lparr>refs := dput (mr_model_id r) r (refs st)\<rparr>"

text \<open>
  \<open>bytes\<close> is the source as the copy reads it; \<open>fault = Some n\<close> is a failure after \<open>n\<close> more bytes.
\<close>

definition copy_resumable :: "byte list \<Rightarrow> string \<Rightarrow> nat option \<Rightarrow> model_store \<Rightarrow> int res \<times> model_store" where
  "copy_resumable bytes digest fault st =
     (let existing = (case dget (parts st) digest of None \<Rightarrow> [] | Some p \<Rightarrow> p);
          existing = (if length existing > length bytes then [] else existing);
          rest = drop (length existing) bytes;
          written = (case fault of None \<Rightarrow> rest | Some n \<Rightarrow> take n rest);
          part = existing @ written;
          st1 = st\<lparr>parts := dput digest part (parts st)\<rparr> in
      if fault \<noteq> None then (Inl (OSError ''copy interrupted''), st1)
      else if length part \<noteq> length bytes then (Inl (OSError ''resumable copy did not reach source size''), st1)
      else case dget (objects st1) digest of
          Some obj \<Rightarrow>
            if sha256_hex obj \<noteq> digest then (Inl (OSError ''existing content-addressed object has a hash collision''), st1)
            else (Inr (int (length bytes)), st1\<lparr>parts := dpop digest (parts st1)\<rparr>)
        | None \<Rightarrow> (Inr (int (length bytes)), st1\<lparr>parts := dpop digest (parts st1), objects := dput digest part (objects st1)\<rparr>))"

text \<open>The file may change between the hashing and the copy: \<open>now\<close> and \<open>later\<close> are the two views.\<close>

definition new_record :: "string \<Rightarrow> string \<Rightarrow> string \<Rightarrow> string \<Rightarrow> string \<Rightarrow> int \<Rightarrow> model_record option \<Rightarrow> model_record" where
  "new_record source m revision lic digest nbytes previous =
     \<lparr>mr_model_id = m, mr_revision = revision, mr_sha256 = digest, mr_size_bytes = nbytes, mr_source_name = path_name source,
      mr_license = lic, mr_format = format_of source,
      mr_history = (case previous of None \<Rightarrow> [] | Some p \<Rightarrow> mr_history p @ [mr_sha256 p])\<rparr>"

definition put_file ::
    "file_system \<Rightarrow> file_system \<Rightarrow> nat option \<Rightarrow> string \<Rightarrow> string \<Rightarrow> string \<Rightarrow> string \<Rightarrow> string option \<Rightarrow> model_store \<Rightarrow> model_record res \<times> model_store" where
  "put_file now later fault source m revision lic expected st =
     (case validate_id m of Inl e \<Rightarrow> (Inl e, st)
     | Inr _ \<Rightarrow> (case now source of None \<Rightarrow> (Inl (FileNotFoundError source), st)
     | Some bytes \<Rightarrow> (let digest = sha256_hex bytes in
         if expected \<noteq> None \<and> expected \<noteq> Some digest then (Inl (ValueError ''source hash does not match expected_sha256''), st)
         else case later source of None \<Rightarrow> (Inl (FileNotFoundError source), st)
         | Some copied \<Rightarrow> (case copy_resumable copied digest fault st of
             (Inl e, st1) \<Rightarrow> (Inl e, st1)
           | (Inr _, st1) \<Rightarrow> (let r = new_record source m revision lic digest (int (length bytes)) (dget (refs st1) m)
               in (Inr r, write_manifest r st1))))))"

definition resolve :: "string \<Rightarrow> model_store \<Rightarrow> string res" where
  "resolve m st = rbind (get m st) (\<lambda>r. rbind (opt_res (KeyError m) r) (\<lambda>r.
     case dget (objects st) (mr_sha256 r) of
       None \<Rightarrow> Inl (OSError (''content-addressed object is missing or corrupt: '' @ m))
     | Some bytes \<Rightarrow> if sha256_hex bytes \<noteq> mr_sha256 r then Inl (OSError (''content-addressed object is missing or corrupt: '' @ m))
         else Inr (mr_sha256 r)))"

definition verify :: "string \<Rightarrow> model_store \<Rightarrow> bool res" where
  "verify m st = (case resolve m st of
      Inr _ \<Rightarrow> Inr True
    | Inl e \<Rightarrow> if is_os_error e \<or> (case e of KeyError _ \<Rightarrow> True | _ \<Rightarrow> False) then Inr False else Inl e)"

definition rollback :: "string \<Rightarrow> model_store \<Rightarrow> model_record res \<times> model_store" where
  "rollback m st = (case get m st of Inl e \<Rightarrow> (Inl e, st)
     | Inr None \<Rightarrow> (Inl (ValueError ''no previous model revision is available''), st)
     | Inr (Some current) \<Rightarrow> (case mr_history current of
         [] \<Rightarrow> (Inl (ValueError ''no previous model revision is available''), st)
       | previous # remaining \<Rightarrow> (case dget (objects st) previous of
           None \<Rightarrow> (Inl (OSError ''previous model object is missing or corrupt''), st)
         | Some bytes \<Rightarrow>
             if sha256_hex bytes \<noteq> previous then (Inl (OSError ''previous model object is missing or corrupt''), st)
             else let r = current\<lparr>mr_sha256 := previous, mr_size_bytes := int (length bytes), mr_history := remaining\<rparr>
               in (Inr r, write_manifest r st))))"

section \<open>Every recorded model resolves\<close>

text \<open>
  A put carries its two views of the user's files, so they may change from one operation to the next and
  within one.
\<close>

datatype store_op = Put file_system file_system string string string string "string option" "nat option" | Rollback string

fun store_step :: "store_op \<Rightarrow> model_store \<Rightarrow> model_store" where
  "store_step (Put now later source m revision lic expected fault) st = snd (put_file now later fault source m revision lic expected st)"
| "store_step (Rollback m) st = snd (rollback m st)"

text \<open>The contents that puts read, whether a source stayed as it was while it was put, and digests that do not collide.\<close>

fun read_by :: "store_op \<Rightarrow> byte list option" where
  "read_by (Put now later source m revision lic expected fault) = now source"
| "read_by (Rollback m) = None"

fun unchanged :: "store_op \<Rightarrow> bool" where
  "unchanged (Put now later source m revision lic expected fault) \<longleftrightarrow> now source = None \<or> later source = now source"
| "unchanged (Rollback m) \<longleftrightarrow> True"

definition contents_of :: "store_op list \<Rightarrow> byte list set" where
  "contents_of ops = {b. \<exists>op \<in> set ops. read_by op = Some b}"

definition no_collision :: "byte list set \<Rightarrow> bool" where
  "no_collision B \<longleftrightarrow> (\<forall>b \<in> B. \<forall>c \<in> B. sha256_hex b = sha256_hex c \<longrightarrow> b = c)"

definition objects_ok :: "(string \<times> byte list) list \<Rightarrow> bool" where
  "objects_ok os \<longleftrightarrow> (\<forall>d b. dget os d = Some b \<longrightarrow> sha256_hex b = d)"

definition parts_ok :: "byte list set \<Rightarrow> (string \<times> byte list) list \<Rightarrow> bool" where
  "parts_ok B ps \<longleftrightarrow> (\<forall>d p. dget ps d = Some p \<longrightarrow> (\<exists>b \<in> B. \<exists>rest. sha256_hex b = d \<and> b = p @ rest))"

definition refs_ok :: "model_store \<Rightarrow> bool" where
  "refs_ok st \<longleftrightarrow> (\<forall>m r. dget (refs st) m = Some r \<longrightarrow> MODEL_ID m \<and> mr_model_id r = m
     \<and> (\<forall>d \<in> set (mr_sha256 r # mr_history r). dget (objects st) d \<noteq> None))"

lemma objects_ok_put: "objects_ok os \<Longrightarrow> sha256_hex b = d \<Longrightarrow> objects_ok (dput d b os)"
  by (auto simp: objects_ok_def pydict.lookup_put)

lemma parts_ok_put: "parts_ok B ps \<Longrightarrow> b \<in> B \<Longrightarrow> sha256_hex b = d \<Longrightarrow> b = p @ rest \<Longrightarrow> parts_ok B (dput d p ps)"
  unfolding parts_ok_def by (auto simp: pydict.lookup_put)

lemma parts_ok_pop: "parts_ok B ps \<Longrightarrow> dict_ok ps \<Longrightarrow> parts_ok B (dpop d ps)"
  by (auto simp: parts_ok_def pydict.lookup_pop split: if_splits)

lemma parts_ok_mono: "parts_ok B ps \<Longrightarrow> B \<subseteq> C \<Longrightarrow> parts_ok C ps"
  unfolding parts_ok_def by blast

text \<open>What a copy of the hashed file does: the resumed part is a prefix of it.\<close>

lemma resumed_prefix:
  assumes "no_collision B" and "parts_ok B ps" and "b \<in> B" and "dget ps (sha256_hex b) = Some p"
  shows "\<exists>rest. b = p @ rest"
proof -
  obtain b' rest where "b' \<in> B" "sha256_hex b' = sha256_hex b" "b' = p @ rest"
    using assms(2,4) unfolding parts_ok_def by blast
  then show ?thesis using assms(1,3) unfolding no_collision_def by metis
qed

definition store_core :: "byte list set \<Rightarrow> model_store \<Rightarrow> bool" where
  "store_core B st \<longleftrightarrow> objects_ok (objects st) \<and> parts_ok B (parts st) \<and> dict_ok (parts st) \<and> refs_ok st"

lemma refs_ok_more: "refs_ok st \<Longrightarrow> refs st' = refs st \<Longrightarrow> (\<And>d. dget (objects st) d \<noteq> None \<Longrightarrow> dget (objects st') d \<noteq> None) \<Longrightarrow> refs_ok st'"
  unfolding refs_ok_def by metis

lemma copy_resumable_core:
  assumes c: "copy_resumable b (sha256_hex b) fault st = (r, st')" and n: "no_collision B" and s: "store_core B st" and f: "b \<in> B"
  shows "store_core B st' \<and> refs st' = refs st \<and> (case r of Inl e \<Rightarrow> True | Inr k \<Rightarrow> dget (objects st') (sha256_hex b) \<noteq> None)"
proof -
  let ?d = "sha256_hex b"
  define old where "old = (case dget (parts st) ?d of None \<Rightarrow> [] | Some p \<Rightarrow> p)"
  have o: "objects_ok (objects st)" "parts_ok B (parts st)" "dict_ok (parts st)" "refs_ok st" using s by (auto simp: store_core_def)
  have "\<exists>rest. b = old @ rest" using resumed_prefix[OF n o(2) f] by (auto simp: old_def split: option.splits)
  then obtain rest where b: "b = old @ rest" by blast
  define written where "written = (case fault of None \<Rightarrow> rest | Some k \<Rightarrow> take k rest)"
  define st1 where "st1 = st\<lparr>parts := dput ?d (old @ written) (parts st)\<rparr>"
  have "\<exists>more. b = (old @ written) @ more" using b by (cases fault) (auto simp: written_def intro: exI[of _ "drop (the fault) rest"])
  then obtain more where bm: "b = (old @ written) @ more" by blast
  then have p1: "parts_ok B (dput ?d (old @ written) (parts st))" "dict_ok (dput ?d (old @ written) (parts st))"
    using parts_ok_put[OF o(2) f refl bm] dput_dict_ok[OF o(3)] by blast+
  have st1: "store_core B st1" using p1 o by (auto simp: store_core_def st1_def refs_ok_def)
  have w: "fault = None \<Longrightarrow> old @ written = b" using b by (simp add: written_def)
  have run: "copy_resumable b ?d fault st =
     (if fault \<noteq> None then (Inl (OSError ''copy interrupted''), st1)
      else case dget (objects st) ?d of
          Some obj \<Rightarrow> (Inr (int (length b)), st1\<lparr>parts := dpop ?d (parts st1)\<rparr>)
        | None \<Rightarrow> (Inr (int (length b)), st1\<lparr>parts := dpop ?d (parts st1), objects := dput ?d b (objects st1)\<rparr>))"
    using b w o(1) unfolding copy_resumable_def Let_def old_def[symmetric] objects_ok_def
    by (cases fault) (auto simp: st1_def written_def split: option.splits)
  have p2: "parts_ok B (dpop ?d (parts st1))" "dict_ok (dpop ?d (parts st1))"
    using st1 parts_ok_pop dpop_dict_ok by (auto simp: store_core_def)
  have ob: "objects_ok (dput ?d b (objects st))" using objects_ok_put[OF o(1) refl] .
  show ?thesis
  proof (cases fault)
    case (Some k)
    then show ?thesis using c run st1 by (auto simp: st1_def)
  next
    case None
    show ?thesis
    proof (cases "dget (objects st) ?d")
      case (Some obj)
      then have e: "r = Inr (int (length b))" "st' = st1\<lparr>parts := dpop ?d (parts st1)\<rparr>" using c run None by auto
      have "refs_ok st'" by (rule refs_ok_more[OF o(4)]) (auto simp: e st1_def)
      then show ?thesis using e p2 o Some by (auto simp: store_core_def st1_def)
    next
      case absent: None
      then have e: "r = Inr (int (length b))" "st' = st1\<lparr>parts := dpop ?d (parts st1), objects := dput ?d b (objects st1)\<rparr>"
        using c run None by auto
      have "refs_ok st'" by (rule refs_ok_more[OF o(4)]) (auto simp: e st1_def pydict.lookup_put)
      then show ?thesis using e p2 ob by (auto simp: store_core_def st1_def pydict.lookup_put)
    qed
  qed
qed

lemma write_manifest_core:
  assumes "store_core B st" and "MODEL_ID (mr_model_id r)"
    and "\<And>d. d \<in> set (mr_sha256 r # mr_history r) \<Longrightarrow> dget (objects st) d \<noteq> None"
  shows "store_core B (write_manifest r st)"
  using assms by (auto simp: store_core_def write_manifest_def refs_ok_def pydict.lookup_put)

lemma put_file_core:
  assumes n: "no_collision B" and s: "store_core B st"
    and src: "now source = None \<or> later source = now source" and f: "\<And>b. now source = Some b \<Longrightarrow> b \<in> B"
  shows "store_core B (snd (put_file now later fault source m revision lic expected st))"
proof (cases "validate_id m")
  case (Inr u)
  then have m: "MODEL_ID m" by (auto simp: validate_id_def split: if_splits)
  show ?thesis
  proof (cases "now source")
    case (Some b)
    then have later: "later source = Some b" using src by simp
    obtain r st1 where c: "copy_resumable b (sha256_hex b) fault st = (r, st1)" by fastforce
    note k = copy_resumable_core[OF c n s f[OF Some]]
    show ?thesis
    proof (cases r)
      case (Inl e)
      then show ?thesis using k c Inr Some later s by (simp add: put_file_def Let_def)
    next
      case r: (Inr nbytes)
      let ?rec = "new_record source m revision lic (sha256_hex b) (int (length b)) (dget (refs st1) m)"
      have new: "dget (objects st1) (sha256_hex b) \<noteq> None" and ok: "refs_ok st1" using k r by (auto simp: store_core_def)
      have "dget (objects st1) d \<noteq> None" if "d \<in> set (mr_sha256 ?rec # mr_history ?rec)" for d
      proof (cases "dget (refs st1) m")
        case None
        then show ?thesis using that new by (simp add: new_record_def)
      next
        case (Some p)
        then have "\<forall>d \<in> set (mr_sha256 p # mr_history p). dget (objects st1) d \<noteq> None" using ok by (simp add: refs_ok_def)
        then show ?thesis using that new Some by (auto simp: new_record_def)
      qed
      then have "store_core B (write_manifest ?rec st1)"
        using k m by (intro write_manifest_core) (auto simp: new_record_def)
      then show ?thesis using r c Inr Some later s by (simp add: put_file_def Let_def)
    qed
  qed (use Inr s in \<open>simp add: put_file_def\<close>)
qed (use s in \<open>simp add: put_file_def\<close>)

lemma rollback_core:
  assumes "store_core B st"
  shows "store_core B (snd (rollback m st))"
proof (cases "get m st")
  case (Inr r)
  show ?thesis
  proof (cases r)
    case (Some current)
    then have r: "dget (refs st) m = Some current" using Inr by (auto simp: get_def)
    have ok: "MODEL_ID m" "mr_model_id current = m" "\<forall>d \<in> set (mr_sha256 current # mr_history current). dget (objects st) d \<noteq> None"
      using assms r by (auto simp: store_core_def refs_ok_def)
    show ?thesis
    proof (cases "mr_history current")
      case (Cons previous remaining)
      obtain b where b: "dget (objects st) previous = Some b" using ok(3) Cons by fastforce
      then have "sha256_hex b = previous" using assms by (auto simp: store_core_def objects_ok_def)
      moreover have "store_core B (write_manifest (current\<lparr>mr_sha256 := previous, mr_size_bytes := int (length b), mr_history := remaining\<rparr>) st)"
        using ok Cons by (intro write_manifest_core[OF assms]) auto
      ultimately show ?thesis using Inr Some Cons b assms by (simp add: rollback_def Let_def)
    qed (use Inr Some assms in \<open>simp add: rollback_def\<close>)
  qed (use Inr assms in \<open>simp add: rollback_def\<close>)
qed (use assms in \<open>simp add: rollback_def\<close>)

text \<open>The store with the operations it has seen: while these are unchanged and do not collide, the core holds.\<close>

definition logged :: "store_op \<Rightarrow> model_store \<times> store_op list \<Rightarrow> model_store \<times> store_op list" where
  "logged op s = (store_step op (fst s), snd s @ [op])"

definition store_inv :: "model_store \<times> store_op list \<Rightarrow> bool" where
  "store_inv s \<longleftrightarrow> (\<forall>op \<in> set (snd s). unchanged op) \<longrightarrow> no_collision (contents_of (snd s)) \<longrightarrow> store_core (contents_of (snd s)) (fst s)"

lemma fold_logged: "fold logged ops (st, seen) = (fold store_step ops st, seen @ ops)"
  by (induction ops arbitrary: st seen) (simp_all add: logged_def)

lemma store_core_mono: "store_core B st \<Longrightarrow> B \<subseteq> C \<Longrightarrow> store_core C st"
  using parts_ok_mono by (auto simp: store_core_def)

lemma no_collision_mono: "no_collision C \<Longrightarrow> B \<subseteq> C \<Longrightarrow> no_collision B"
  unfolding no_collision_def by blast

lemma store_step_core:
  assumes "no_collision B" and "store_core B st" and "unchanged op" and "\<And>b. read_by op = Some b \<Longrightarrow> b \<in> B"
  shows "store_core B (store_step op st)"
  using assms put_file_core rollback_core by (cases op) auto

lemma logged_inv: "store_inv s \<Longrightarrow> store_inv (logged op s)"
proof -
  assume inv: "store_inv s"
  have sub: "contents_of (snd s) \<subseteq> contents_of (snd s @ [op])" by (auto simp: contents_of_def)
  have "store_core (contents_of (snd s @ [op])) (store_step op (fst s))"
    if u: "\<forall>x \<in> set (snd s @ [op]). unchanged x" and n: "no_collision (contents_of (snd s @ [op]))"
  proof (rule store_step_core[OF n])
    have "store_core (contents_of (snd s)) (fst s)"
      using inv u no_collision_mono[OF n sub] by (simp add: store_inv_def)
    then show "store_core (contents_of (snd s @ [op])) (fst s)" by (rule store_core_mono[OF _ sub])
  qed (use u in \<open>auto simp: contents_of_def\<close>)
  then show ?thesis by (simp add: store_inv_def logged_def)
qed

lemma new_store_core: "store_core B new_store"
  by (simp add: store_core_def new_store_def objects_ok_def parts_ok_def refs_ok_def)

interpretation store: machine "\<lambda>s. s = (new_store, [])" logged store_inv
  by unfold_locales (simp_all only: logged_inv, simp add: store_inv_def new_store_core)

text \<open>
  C8: after any run of puts, some of them interrupted and resumed, and rollbacks, over files that may
  change from one put to the next but not while they are put, and whose contents have different digests:
  every model that has a manifest resolves to the object its record names, whose bytes have that
  SHA-256, and it can be rolled back whenever its history is not empty.
\<close>

theorem recorded_models_resolve:
  assumes "\<forall>op \<in> set ops. unchanged op" and "no_collision (contents_of ops)"
    and "st = fold store_step ops new_store" and "dget (refs st) m = Some r"
  shows "resolve m st = Inr (mr_sha256 r) \<and> verify m st = Inr True
     \<and> (\<exists>b. dget (objects st) (mr_sha256 r) = Some b \<and> sha256_hex b = mr_sha256 r)
     \<and> (mr_history r \<noteq> [] \<longrightarrow> (\<exists>old. fst (rollback m st) = Inr old \<and> resolve m (snd (rollback m st)) = Inr (mr_sha256 old)))"
proof -
  let ?B = "contents_of ops"
  have "store_inv (fold logged ops (new_store, []))" by (rule store.reach_inv) simp
  then have c: "store_core ?B st" using assms(1,2) by (simp add: store_inv_def fold_logged assms(3))
  then have obj: "\<exists>b. dget (objects st) (mr_sha256 r) = Some b \<and> sha256_hex b = mr_sha256 r"
    using assms(4) by (fastforce simp: store_core_def refs_ok_def objects_ok_def)
  have res: "resolve m s = Inr (mr_sha256 x)" if "store_core ?B s" "dget (refs s) m = Some x" for s x
  proof -
    from that obtain b where "dget (objects s) (mr_sha256 x) = Some b" "MODEL_ID m"
      by (fastforce simp: store_core_def refs_ok_def)
    moreover from this have "sha256_hex b = mr_sha256 x" using that by (auto simp: store_core_def objects_ok_def)
    ultimately show ?thesis using that by (simp add: resolve_def get_def validate_id_def)
  qed
  have "\<exists>old. fst (rollback m st) = Inr old \<and> dget (refs (snd (rollback m st))) m = Some old" if "mr_history r \<noteq> []"
  proof -
    have ok: "MODEL_ID m" "mr_model_id r = m" "\<forall>d \<in> set (mr_history r). dget (objects st) d \<noteq> None"
      using c assms(4) by (auto simp: store_core_def refs_ok_def)
    from that obtain d ds where d: "mr_history r = d # ds" by (cases "mr_history r") auto
    then obtain b where "dget (objects st) d = Some b" using ok(3) by fastforce
    moreover from this have "sha256_hex b = d" using c by (auto simp: store_core_def objects_ok_def)
    ultimately show ?thesis
      using ok d assms(4) by (simp add: rollback_def Let_def get_def validate_id_def write_manifest_def pydict.lookup_put)
  qed
  then show ?thesis using res[OF c assms(4)] res[OF rollback_core[OF c]] obj by (auto simp: verify_def)
qed

definition file_at :: "string \<Rightarrow> byte list \<Rightarrow> file_system" where
  "file_at p b = (\<lambda>q. if q = p then Some b else None)"

text \<open>A put is interrupted, then resumed from another path.\<close>

definition demo_ops :: "store_op list" where
  "demo_ops = [Put (file_at ''a.gguf'' [1]) (file_at ''a.gguf'' [1]) ''a.gguf'' ''m'' ''1'' ''mit'' None (Some 0),
     Put (file_at ''b.gguf'' [1]) (file_at ''b.gguf'' [1]) ''b.gguf'' ''m'' ''2'' ''mit'' None None]"

theorem recorded_models_resolve_witness:
  "resolve ''m'' (fold store_step demo_ops new_store) = Inr (sha256_hex [1])"
proof -
  have c: "contents_of demo_ops = {[1]}" by (auto simp: contents_of_def demo_ops_def file_at_def)
  have n: "no_collision (contents_of demo_ops)" unfolding c no_collision_def by simp
  have u: "\<forall>op \<in> set demo_ops. unchanged op" by (simp add: demo_ops_def)
  have m: "validate_id ''m'' = Inr ()" by code_simp
  have "dget (refs (fold store_step demo_ops new_store)) ''m'' =
      Some (new_record ''b.gguf'' ''m'' ''2'' ''mit'' (sha256_hex [1]) 1 None)"
    using m
    by (simp add: demo_ops_def file_at_def put_file_def copy_resumable_def new_store_def Let_def write_manifest_def new_record_def)
  from recorded_models_resolve[OF u n refl this] show ?thesis by (simp add: new_record_def)
qed

section \<open>Two ways the store departs from its promise\<close>

lemma put_succeeds:
  assumes n: "no_collision B" and s: "store_core B st" and f: "b \<in> B" and m: "MODEL_ID m"
  shows "\<exists>r. dget (refs (store_step (Put (file_at p b) (file_at p b) p m v lic None None) st)) m = Some r \<and> mr_sha256 r = sha256_hex b
     \<and> mr_history r = (case dget (refs st) m of None \<Rightarrow> [] | Some q \<Rightarrow> mr_history q @ [mr_sha256 q])
     \<and> store_core B (store_step (Put (file_at p b) (file_at p b) p m v lic None None) st)"
proof -
  obtain r st1 where c: "copy_resumable b (sha256_hex b) None st = (r, st1)" by fastforce
  note k = copy_resumable_core[OF c n s f]
  have "\<exists>k. r = Inr k"
  proof -
    define old where "old = (case dget (parts st) (sha256_hex b) of None \<Rightarrow> [] | Some p \<Rightarrow> p)"
    have "\<exists>rest. b = old @ rest" using s resumed_prefix[OF n _ f] by (auto simp: store_core_def old_def split: option.splits)
    then obtain rest where "b = old @ rest" by blast
    moreover have "\<And>x. dget (objects st) (sha256_hex b) = Some x \<Longrightarrow> sha256_hex x = sha256_hex b"
      using s by (auto simp: store_core_def objects_ok_def)
    ultimately show ?thesis using c unfolding copy_resumable_def Let_def old_def[symmetric] by (auto split: option.splits)
  qed
  moreover have "store_core B (store_step (Put (file_at p b) (file_at p b) p m v lic None None) st)"
    by (rule store_step_core[OF n s]) (use f in \<open>auto simp: file_at_def\<close>)
  ultimately show ?thesis
    using k c m by (auto simp: file_at_def put_file_def validate_id_def Let_def write_manifest_def new_record_def pydict.lookup_put)
qed

text \<open>
  A rollback restores the oldest revision, not the one before: \<open>put_file\<close> appends to the history
  and \<open>rollback\<close> takes its first element.
\<close>

theorem rollback_restores_oldest:
  assumes "no_collision {a, b, c}" and "MODEL_ID m"
    and "st = fold store_step [Put (file_at p a) (file_at p a) p m v1 l None None, Put (file_at q b) (file_at q b) q m v2 l None None,
           Put (file_at s c) (file_at s c) s m v3 l None None] new_store"
  shows "\<exists>old. fst (rollback m st) = Inr old \<and> mr_sha256 old = sha256_hex a \<and> mr_history old = [sha256_hex b]"
proof -
  let ?B = "{a, b, c}"
  define s1 where "s1 = store_step (Put (file_at p a) (file_at p a) p m v1 l None None) new_store"
  define s2 where "s2 = store_step (Put (file_at q b) (file_at q b) q m v2 l None None) s1"
  obtain r1 where r1: "dget (refs s1) m = Some r1" "mr_sha256 r1 = sha256_hex a" "mr_history r1 = []" "store_core ?B s1"
    using put_succeeds[OF assms(1) new_store_core _ assms(2), of a p v1 l] by (auto simp: new_store_def s1_def)
  obtain r2 where r2: "dget (refs s2) m = Some r2" "mr_sha256 r2 = sha256_hex b" "mr_history r2 = [sha256_hex a]" "store_core ?B s2"
    using put_succeeds[OF assms(1) r1(4) _ assms(2), of b q v2 l] r1 by (auto simp: s2_def)
  obtain r3 where r3: "dget (refs st) m = Some r3" "mr_history r3 = [sha256_hex a, sha256_hex b]" "store_core ?B st"
    using put_succeeds[OF assms(1) r2(4) _ assms(2), of c s v3 l] r2 by (auto simp: assms(3) s1_def s2_def)
  then have "dget (objects st) (sha256_hex a) \<noteq> None" by (simp add: store_core_def refs_ok_def)
  then obtain x where "dget (objects st) (sha256_hex a) = Some x" by blast
  moreover from this have "sha256_hex x = sha256_hex a" using r3 by (auto simp: store_core_def objects_ok_def)
  ultimately show ?thesis using r3 assms(2) by (simp add: rollback_def get_def validate_id_def Let_def)
qed

text \<open>
  A file that changes after it was hashed is installed under the digest of what it was: the copied
  bytes are never hashed.
\<close>

theorem changed_file_is_installed:
  assumes "MODEL_ID m" and "now p = Some a" and "later p = Some b"
  shows "\<exists>r st. put_file now later None p m v lic None new_store = (Inr r, st)
     \<and> mr_sha256 r = sha256_hex a \<and> dget (objects st) (sha256_hex a) = Some b"
  using assms
  by (simp add: put_file_def validate_id_def copy_resumable_def new_store_def Let_def write_manifest_def new_record_def)

end
