(* ===== verification/Sqtn.thy ===== *)
theory Sqtn
  imports Artifacts Py_Json
begin

text \<open>
  \<open>local_data_plane/sqtn_format.py\<close>: the manifest of a quantised tensor network, its validation,
  its construction from a JSON payload, and the check of an artifact against it.
\<close>

section \<open>Manifests\<close>

definition SQTN_SCHEMA_V1 :: string where
  "SQTN_SCHEMA_V1 = ''simplicio-local.sqtn/v1''"

record sqtn_tensor =
  tn_name :: string
  representation :: string
  dimensions :: "pyval list"
  ranks :: "pyval list"
  quant_scheme :: string
  tn_offset :: int
  tn_length :: int
  alignment :: int
  tn_sha256 :: string

record sqtn_manifest =
  sq_schema :: string
  sq_model_id :: string
  tokenizer_hash :: string
  template_hash :: string
  source_model_digest :: string
  calibration_digest :: string
  policy_digest :: string
  tensors :: "sqtn_tensor list"
  artifact_size :: int
  quality_evidence :: "(string \<times> pyval) list"

text \<open>\<open>any(value < 1 for value in vs)\<close>, which raises on a value that is no number.\<close>

fun any_below_one :: "pyval list \<Rightarrow> bool res" where
  "any_below_one [] = Inr False"
| "any_below_one (v # vs) = (case py_number v of
      None \<Rightarrow> Inl (TypeError ''not supported between instances'')
    | Some x \<Rightarrow> if flt x (Fin 1) then Inr True else any_below_one vs)"

definition check_metadata :: "sqtn_tensor \<Rightarrow> unit res" where
  "check_metadata t =
     (if tn_name t = [] \<or> representation t = [] then Inl (ValueError ''invalid SQTN tensor metadata'')
      else rbind (any_below_one (dimensions t @ ranks t)) (\<lambda>bad.
        if bad then Inl (ValueError ''invalid SQTN tensor metadata'') else Inr ()))"

definition check_tensor :: "int \<Rightarrow> sqtn_tensor \<Rightarrow> (int \<times> int) res" where
  "check_tensor asize t = rbind (check_metadata t) (\<lambda>_.
     if tn_offset t < 0 \<or> tn_length t \<le> 0 \<or> alignment t \<le> 0 \<or> tn_offset t mod alignment t \<noteq> 0
     then Inl (ValueError ''SQTN tensor offset/alignment is invalid'')
     else if tn_offset t + tn_length t > asize \<or> length (tn_sha256 t) \<noteq> 64
     then Inl (ValueError ''SQTN tensor bounds/checksum metadata is invalid'')
     else Inr (tn_offset t, tn_offset t + tn_length t))"

fun adjacent_overlap :: "(int \<times> int) list \<Rightarrow> bool" where
  "adjacent_overlap (l # r # rs) = (snd l > fst r \<or> adjacent_overlap (r # rs))"
| "adjacent_overlap _ = False"

definition validate_manifest :: "sqtn_manifest \<Rightarrow> unit res" where
  "validate_manifest m =
     (if sq_schema m \<noteq> SQTN_SCHEMA_V1 then Inl (ValueError ''unsupported SQTN schema'')
      else if list_ex (\<lambda>v. v = [] \<or> length v \<noteq> 64)
          [tokenizer_hash m, template_hash m, source_model_digest m, calibration_digest m, policy_digest m]
      then Inl (ValueError ''SQTN identities must be SHA-256 digests'')
      else if artifact_size m \<le> 0 \<or> tensors m = []
      then Inl (ValueError ''SQTN artifact must contain tensors and positive size'')
      else rbind (map_res (check_tensor (artifact_size m)) (tensors m)) (\<lambda>occupied.
        if adjacent_overlap (sort occupied) then Inl (ValueError ''SQTN tensor ranges overlap'') else Inr ()))"

section \<open>Manifests from payloads\<close>

text \<open>\<open>tuple(v)\<close>, \<open>dict(v)\<close> and \<open>v[key]\<close>.\<close>

definition py_tuple :: "pyval \<Rightarrow> pyval list res" where
  "py_tuple v = (case v of
      PyList xs \<Rightarrow> Inr xs
    | PyStr s \<Rightarrow> Inr (List.map (\<lambda>c. PyStr [c]) s)
    | PyDict d \<Rightarrow> Inr (List.map (\<lambda>kv. PyStr (fst kv)) d)
    | _ \<Rightarrow> Inl (TypeError ''object is not iterable''))"

fun add_pair :: "(string \<times> pyval) list \<Rightarrow> pyval \<Rightarrow> (string \<times> pyval) list res" where
  "add_pair d (PyList [PyStr k, v]) = Inr (dput k v d)"
| "add_pair d _ = Inl (TypeError ''cannot convert dictionary update sequence'')"

definition to_dict :: "pyval \<Rightarrow> (string \<times> pyval) list res" where
  "to_dict v = (case v of
      PyDict d \<Rightarrow> Inr d
    | PyList xs \<Rightarrow> fold_res add_pair [] xs
    | _ \<Rightarrow> Inl (TypeError ''object is not iterable''))"

definition subscript :: "pyval \<Rightarrow> string \<Rightarrow> pyval res" where
  "subscript v k = rbind (opt_res (TypeError ''indices must be integers'') (py_dict v)) (\<lambda>d. opt_res (KeyError k) (dget d k))"

definition tensor_from :: "pyval \<Rightarrow> sqtn_tensor res" where
  "tensor_from item =
     rbind (subscript item ''name'') (\<lambda>name. rbind (subscript item ''representation'') (\<lambda>rep.
     rbind (rbind (subscript item ''dimensions'') py_tuple) (\<lambda>dims. rbind (rbind (subscript item ''ranks'') py_tuple) (\<lambda>rks.
     rbind (subscript item ''quant_scheme'') (\<lambda>quant. rbind (rbind (subscript item ''offset'') to_int) (\<lambda>off.
     rbind (rbind (subscript item ''length'') to_int) (\<lambda>len. rbind (rbind (subscript item ''alignment'') to_int) (\<lambda>al.
     rbind (subscript item ''sha256'') (\<lambda>sha.
       Inr \<lparr>tn_name = py_str name, representation = py_str rep, dimensions = dims, ranks = rks, quant_scheme = py_str quant,
         tn_offset = off, tn_length = len, alignment = al, tn_sha256 = py_str sha\<rparr>)))))))))"

definition manifest_from_payload :: "(string \<times> pyval) list \<Rightarrow> sqtn_manifest res" where
  "manifest_from_payload d =
     (let field = (\<lambda>k. py_str (dget_or d k (PyStr []))) in
     rbind (py_tuple (dget_or d ''tensors'' (PyList []))) (\<lambda>items. rbind (map_res tensor_from items) (\<lambda>ts.
     rbind (to_int (dget_or d ''artifact_size'' (PyInt 0))) (\<lambda>asize.
     rbind (to_dict (dget_or d ''quality_evidence'' (PyDict []))) (\<lambda>ev.
       let m = \<lparr>sq_schema = field ''schema'', sq_model_id = field ''model_id'', tokenizer_hash = field ''tokenizer_hash'',
         template_hash = field ''template_hash'', source_model_digest = field ''source_model_digest'',
         calibration_digest = field ''calibration_digest'', policy_digest = field ''policy_digest'', tensors = ts,
         artifact_size = asize, quality_evidence = ev\<rparr>
       in rbind (validate_manifest m) (\<lambda>_. Inr m))))))"

section \<open>Verification of an artifact\<close>

definition slice :: "int \<Rightarrow> int \<Rightarrow> byte list \<Rightarrow> byte list" where
  "slice off len bs = take (nat len) (drop (nat off) bs)"

fun first_mismatch :: "byte list \<Rightarrow> sqtn_tensor list \<Rightarrow> sqtn_tensor option" where
  "first_mismatch bs [] = None"
| "first_mismatch bs (t # ts) =
     (if sha256_hex (slice (tn_offset t) (tn_length t) bs) \<noteq> tn_sha256 t then Some t else first_mismatch bs ts)"

definition refused :: "string \<Rightarrow> (string \<times> pyval) list" where
  "refused reason = [(''schema'', PyStr SQTN_SCHEMA_V1), (''verified'', PyBool False), (''reason'', PyStr reason)]"

definition verify_sqtn_artifact :: "file_system \<Rightarrow> string \<Rightarrow> sqtn_manifest \<Rightarrow> (string \<times> pyval) list res" where
  "verify_sqtn_artifact fs path m = rbind (validate_manifest m) (\<lambda>_. case fs path of
      None \<Rightarrow> Inr (refused ''artifact-size-mismatch'')
    | Some bs \<Rightarrow>
        if int (length bs) \<noteq> artifact_size m then Inr (refused ''artifact-size-mismatch'')
        else case first_mismatch bs (tensors m) of
          Some t \<Rightarrow> Inr (refused (''tensor-checksum:'' @ tn_name t))
        | None \<Rightarrow> Inr [(''schema'', PyStr SQTN_SCHEMA_V1), (''verified'', PyBool True),
            (''resident_factor_bytes'', PyInt (sum_list (List.map tn_length (tensors m)))), (''dense_materialized'', PyBool False)])"

section \<open>The ranges of an accepted manifest are disjoint\<close>

text \<open>Checking neighbours is enough once the ranges are sorted and not empty.\<close>

lemma sorted_disjoint:
  assumes "sorted rs" and "\<not> adjacent_overlap rs" and "\<forall>r \<in> set rs. fst r < snd r"
  shows "sorted_wrt (\<lambda>l r. snd l \<le> fst r) (rs :: (int \<times> int) list)"
  using assms
proof (induction rs rule: adjacent_overlap.induct)
  case (1 l r rs)
  then have i: "sorted_wrt (\<lambda>l r. snd l \<le> fst r) (r # rs)" by auto
  have l: "snd l \<le> fst r" "fst r < snd r" using 1 by auto
  have "snd l \<le> fst x" if "x \<in> set rs" for x using i that l by fastforce
  with i l show ?case by auto
qed auto

text \<open>No byte is in two entries of the sorted list, counting entries that occur twice.\<close>

definition covers :: "int \<Rightarrow> int \<times> int \<Rightarrow> bool" where
  "covers b r \<longleftrightarrow> fst r \<le> b \<and> b < snd r"

lemma disjoint_cover:
  "sorted_wrt (\<lambda>l r. snd l \<le> fst r) rs \<Longrightarrow> length (filter (covers b) rs) \<le> 1"
proof (induction rs)
  case (Cons r rs)
  show ?case
  proof (cases "covers b r")
    case True
    then have "filter (covers b) rs = []" using Cons.prems by (fastforce simp: filter_empty_conv covers_def)
    then show ?thesis by simp
  next
    case False
    then show ?thesis using Cons by simp
  qed
qed simp

lemma length_filter_sort: "length (filter P (sort xs)) = length (filter P (xs :: 'a::linorder list))"
  by (metis mset_filter mset_sort size_mset)

lemma check_tensor_Inr: "check_tensor asize t = Inr r \<Longrightarrow>
    0 \<le> tn_offset t \<and> 0 < tn_length t \<and> tn_offset t mod alignment t = 0 \<and> tn_offset t + tn_length t \<le> asize
    \<and> r = (tn_offset t, tn_offset t + tn_length t)"
  by (auto simp: check_tensor_def split: if_splits)

lemma occupied_ranges:
  "map_res (check_tensor asize) ts = Inr rs \<Longrightarrow> rs = List.map (\<lambda>t. (tn_offset t, tn_offset t + tn_length t)) ts
     \<and> (\<forall>t \<in> set ts. 0 \<le> tn_offset t \<and> 0 < tn_length t \<and> tn_offset t mod alignment t = 0 \<and> tn_offset t + tn_length t \<le> asize)"
  by (induction ts arbitrary: rs) (auto dest: check_tensor_Inr)

lemma validate_manifest_ranges:
  assumes "validate_manifest m = Inr ()"
  shows "(\<forall>t \<in> set (tensors m). 0 \<le> tn_offset t \<and> 0 < tn_length t \<and> tn_offset t mod alignment t = 0 \<and> tn_offset t + tn_length t \<le> artifact_size m)
    \<and> length (filter (covers b) (List.map (\<lambda>t. (tn_offset t, tn_offset t + tn_length t)) (tensors m))) \<le> 1"
proof -
  obtain rs where rs: "map_res (check_tensor (artifact_size m)) (tensors m) = Inr rs" "\<not> adjacent_overlap (sort rs)"
    using assms by (auto simp: validate_manifest_def split: if_splits)
  note o = occupied_ranges[OF rs(1)]
  have "\<forall>r \<in> set (sort rs). fst r < snd r" using o by auto
  then have "length (filter (covers b) (sort rs)) \<le> 1" using disjoint_cover sorted_disjoint rs(2) by simp
  then show ?thesis using o by (simp add: length_filter_sort)
qed

text \<open>
  C27: a manifest built from a payload has every tensor inside the artifact and aligned, and no byte
  of the artifact belongs to two tensors, though only neighbours in the sorted order are compared.
\<close>

theorem accepted_tensors_are_disjoint:
  assumes "manifest_from_payload d = Inr m"
  shows "(\<forall>t \<in> set (tensors m). 0 \<le> tn_offset t \<and> 0 < tn_length t \<and> tn_offset t mod alignment t = 0 \<and> tn_offset t + tn_length t \<le> artifact_size m)
    \<and> length (filter (\<lambda>t. tn_offset t \<le> b \<and> b < tn_offset t + tn_length t) (tensors m)) \<le> 1"
proof -
  have "validate_manifest m = Inr ()" using assms by (auto simp: manifest_from_payload_def Let_def)
  from validate_manifest_ranges[OF this, of b] show ?thesis by (simp add: filter_map o_def covers_def)
qed

definition demo_digest :: pyval where
  "demo_digest = PyStr (replicate 64 (CHR ''a''))"

definition demo_tensor :: "int \<Rightarrow> pyval" where
  "demo_tensor off = PyDict [(''name'', PyStr ''t''), (''representation'', PyStr ''mps''), (''dimensions'', PyList [PyInt 4]),
     (''ranks'', PyList [PyInt 1]), (''quant_scheme'', PyStr ''q4''), (''offset'', PyInt off), (''length'', PyInt 8),
     (''alignment'', PyInt 8), (''sha256'', demo_digest)]"

definition demo_payload :: "(string \<times> pyval) list" where
  "demo_payload = [(''schema'', PyStr SQTN_SCHEMA_V1), (''tokenizer_hash'', demo_digest), (''template_hash'', demo_digest),
     (''source_model_digest'', demo_digest), (''calibration_digest'', demo_digest), (''policy_digest'', demo_digest),
     (''tensors'', PyList [demo_tensor 8, demo_tensor 0]), (''artifact_size'', PyInt 16)]"

theorem accepted_tensors_are_disjoint_witness:
  "\<exists>m. manifest_from_payload demo_payload = Inr m \<and> length (tensors m) = 2
    \<and> length (filter (\<lambda>t. tn_offset t \<le> 8 \<and> 8 < tn_offset t + tn_length t) (tensors m)) \<le> 1"
proof -
  have "ok_with (manifest_from_payload demo_payload) (\<lambda>m. length (tensors m) = 2)" by code_simp
  then obtain m where "manifest_from_payload demo_payload = Inr m" "length (tensors m) = 2" by (elim ok_withE)
  with accepted_tensors_are_disjoint[OF this(1), of 8] show ?thesis by blast
qed

text \<open>
  An artifact is reported verified exactly when its manifest is valid, its size is the declared
  one and every tensor's bytes have the declared SHA-256.
\<close>

theorem verified_iff_checksums:
  "(\<exists>d. verify_sqtn_artifact fs path m = Inr d \<and> jget d ''verified'' = PyBool True) \<longleftrightarrow>
     validate_manifest m = Inr () \<and> (\<exists>bs. fs path = Some bs \<and> int (length bs) = artifact_size m
       \<and> list_all (\<lambda>t. sha256_hex (slice (tn_offset t) (tn_length t) bs) = tn_sha256 t) (tensors m))"
proof -
  have f: "first_mismatch bs ts = None \<longleftrightarrow> list_all (\<lambda>t. sha256_hex (slice (tn_offset t) (tn_length t) bs) = tn_sha256 t) ts"
    for bs ts by (induction ts) auto
  show ?thesis
    by (auto simp: verify_sqtn_artifact_def refused_def jget_def dget_or_def f[symmetric] split: option.splits if_splits)
qed

end
