(* ===== verification/Traversal.thy ===== *)
theory Traversal
  imports Py_Base
begin

text \<open>
  \<open>local_data_plane/cache_aware.py\<close> (traversal order and bounded prefetch of weight blocks) and
  \<open>local_data_plane/tiered_weights.py\<close> (weights partly streamed from disk).
\<close>

section \<open>Cache-aware traversal\<close>

definition CACHE_AWARE_SCHEMA_V1 :: string where
  "CACHE_AWARE_SCHEMA_V1 = ''simplicio-local.cache-aware-plan/v1''"

record traversal_plan =
  tv_order :: "nat list"
  block_bytes :: int
  alignment_bytes :: int
  prefetch_distance :: int
  prefetch_enabled :: bool
  tv_reason :: string
  tv_fallback :: string

definition traversal_dict :: "traversal_plan \<Rightarrow> (string \<times> pyval) list" where
  "traversal_dict p = [(''schema'', PyStr CACHE_AWARE_SCHEMA_V1), (''order'', PyList (List.map (\<lambda>i. PyInt (int i)) (tv_order p))),
     (''block_bytes'', PyInt (block_bytes p)), (''alignment_bytes'', PyInt (alignment_bytes p)),
     (''prefetch_distance'', PyInt (prefetch_distance p)), (''prefetch_enabled'', PyBool (prefetch_enabled p)),
     (''reason'', PyStr (tv_reason p)), (''fallback'', PyStr (tv_fallback p))]"

definition aligned :: "int \<Rightarrow> int \<Rightarrow> bool" where
  "aligned v a \<longleftrightarrow> 0 < a \<and> v mod a = 0"

definition traversal :: "nat list \<Rightarrow> int \<Rightarrow> int \<Rightarrow> int \<Rightarrow> bool \<Rightarrow> string \<Rightarrow> traversal_plan" where
  "traversal order bytes align distance enabled reason = \<lparr>tv_order = order, block_bytes = bytes, alignment_bytes = align,
     prefetch_distance = distance, prefetch_enabled = enabled, tv_reason = reason, tv_fallback = ''upstream-order''\<rparr>"

definition speedup_proven :: "pyfloat option \<Rightarrow> bool" where
  "speedup_proven s = (case s of None \<Rightarrow> False | Some g \<Rightarrow> flt (lit (2 / 100)) g)"

definition prefetch_reason :: "bool \<Rightarrow> bool \<Rightarrow> bool \<Rightarrow> pyfloat option \<Rightarrow> bool \<Rightarrow> string" where
  "prefetch_reason enabled regression bounds_ok gain over_budget =
     (if enabled then ''prefetch-enabled-by-positive-bounded-measurement''
      else if regression then ''regression-detected-auto-disabled''
      else if \<not> bounds_ok then ''input-bounds-unproven-auto-disabled''
      else if gain = None then ''no-measurement-auto-disabled''
      else if over_budget then ''prefetch-budget-exceeded-auto-disabled''
      else ''measurement-below-promotion-threshold'')"

definition plan_traversal ::
    "pyval \<Rightarrow> pyval \<Rightarrow> pyval \<Rightarrow> pyval \<Rightarrow> pyval \<Rightarrow> int option \<Rightarrow> pyfloat option \<Rightarrow> bool \<Rightarrow> pyval \<Rightarrow> traversal_plan res" where
  "plan_traversal blocks bytes cache_line align distance input gain regression budget =
     (if list_ex (bad_int 0) [blocks, bytes, cache_line, align, distance, budget]
      then Inl (ValueError ''traversal dimensions must be non-negative integers'')
      else let n = int_of_val blocks; b = int_of_val bytes; a = int_of_val align; order = [0..<nat n];
          requested = min (int_of_val distance) (n - 1);
          over_budget = (requested * b > int_of_val budget);
          bounds_ok = (case input of None \<Rightarrow> True | Some i \<Rightarrow> i \<ge> n * b);
          enabled = (0 < requested \<and> \<not> over_budget \<and> bounds_ok \<and> speedup_proven gain \<and> \<not> regression) in
        if n = 0 \<or> b = 0 then Inr (traversal [] b a 0 False ''empty-input-fallback'')
        else if \<not> aligned b a then Inr (traversal order b a 0 False ''unaligned-blocks-preserve-upstream-path'')
        else Inr (traversal order b a (if enabled then requested else 0) enabled
          (prefetch_reason enabled regression bounds_ok gain over_budget)))"

definition reorder_blocks :: "'a list \<Rightarrow> int \<Rightarrow> 'a list res" where
  "reorder_blocks blocks cache_line =
     (if cache_line \<le> 0 then Inl (ValueError ''cache_line_bytes must be positive'') else Inr blocks)"

text \<open>
  A traversal visits every block once in the upstream order (none when there is nothing to
  visit), prefetches only inside the blocks and the prefetch budget, and only on a measured gain
  without regression.
\<close>

theorem traversal_safe:
  assumes "plan_traversal blocks bytes cache_line align distance input gain regression budget = Inr p"
  shows "(tv_order p = [] \<and> (int_of_val blocks = 0 \<or> int_of_val bytes = 0) \<or> tv_order p = [0..<nat (int_of_val blocks)])
     \<and> 0 \<le> prefetch_distance p
     \<and> (prefetch_enabled p \<longrightarrow> prefetch_distance p < int_of_val blocks \<and> prefetch_distance p \<le> int_of_val distance
          \<and> prefetch_distance p * int_of_val bytes \<le> int_of_val budget \<and> aligned (int_of_val bytes) (int_of_val align)
          \<and> speedup_proven gain \<and> \<not> regression)
     \<and> (\<not> prefetch_enabled p \<longrightarrow> prefetch_distance p = 0)"
proof -
  have ok: "\<not> list_ex (bad_int 0) [blocks, bytes, cache_line, align, distance, budget]"
    using assms unfolding plan_traversal_def by (auto split: if_splits)
  then show ?thesis using assms unfolding plan_traversal_def Let_def
    by (auto simp: traversal_def split: if_splits)
qed

theorem traversal_safe_witness:
  "\<exists>p. plan_traversal (PyInt 10) (PyInt 64) (PyInt 64) (PyInt 64) (PyInt 2) (Some 640) (Some (Fin 1)) False (PyInt 4096) = Inr p
     \<and> prefetch_enabled p \<and> prefetch_distance p * 64 \<le> 4096"
proof -
  let ?r = "plan_traversal (PyInt 10) (PyInt 64) (PyInt 64) (PyInt 64) (PyInt 2) (Some 640) (Some (Fin 1)) False (PyInt 4096)"
  have "ok_with ?r prefetch_enabled" by code_simp
  then obtain p where "?r = Inr p" "prefetch_enabled p" by (elim ok_withE)
  with traversal_safe[OF this(1)] show ?thesis by simp
qed

section \<open>Tiered weights\<close>

definition TIERED_WEIGHTS_SCHEMA_V1 :: string where
  "TIERED_WEIGHTS_SCHEMA_V1 = ''simplicio-local.tiered-weights/v1''"

record tiered_plan =
  tw_mode :: string
  resident_bytes :: int
  streamed_bytes :: int
  bytes_per_token :: int
  predicted_io_ms :: pyfloat
  pagein_queue :: int
  tw_accepted :: bool
  tw_reason :: string

definition tiered_dict :: "tiered_plan \<Rightarrow> (string \<times> pyval) list" where
  "tiered_dict p = [(''schema'', PyStr TIERED_WEIGHTS_SCHEMA_V1), (''mode'', PyStr (tw_mode p)), (''resident_bytes'', PyInt (resident_bytes p)),
     (''streamed_bytes'', PyInt (streamed_bytes p)), (''bytes_per_token'', PyInt (bytes_per_token p)),
     (''predicted_io_ms_per_token'', PyFloat (predicted_io_ms p)), (''pagein_queue'', PyInt (pagein_queue p)),
     (''accepted'', PyBool (tw_accepted p)), (''reason'', PyStr (tw_reason p))]"

text \<open>\<open>(n / bandwidth) * 1000\<close> of an integer and a positive float, 0 for no bytes.\<close>

definition io_ms :: "int \<Rightarrow> pyfloat \<Rightarrow> pyfloat res" where
  "io_ms n bandwidth = (if n = 0 then Inr (Fin 0) else
     rbind (opt_res (OverflowError ''int too large to convert to float'') (float_of_int n)) (\<lambda>x.
     rbind (opt_res ZeroDivisionError (fdiv x bandwidth)) (\<lambda>q. Inr (fmul q (Fin 1000)))))"

definition plan_tiered_weights ::
    "pyval \<Rightarrow> pyval \<Rightarrow> pyval \<Rightarrow> pyfloat \<Rightarrow> pyfloat \<Rightarrow> pyval \<Rightarrow> pyfloat option \<Rightarrow> bool \<Rightarrow> tiered_plan res" where
  "plan_tiered_weights artifact resident per_token bandwidth latency queue fault_rate conditional =
     (if list_ex (bad_int 0) [artifact, resident, per_token, queue]
      then Inl (ValueError ''tiering dimensions must be non-negative integers'')
      else if int_of_val artifact \<le> 0 \<or> int_of_val resident \<le> 0 \<or> fle bandwidth (Fin 0) \<or> fle latency (Fin 0)
      then Inl (ValueError ''artifact, budget, bandwidth, and latency budget must be positive'')
      else let a = int_of_val artifact; r = int_of_val resident; n = int_of_val per_token in
        if a \<le> r
        then Inr \<lparr>tw_mode = ''full-resident'', resident_bytes = a, streamed_bytes = 0, bytes_per_token = 0, predicted_io_ms = Fin 0,
               pagein_queue = 0, tw_accepted = True, tw_reason = ''full residency fits and remains preferred''\<rparr>
        else rbind (io_ms n bandwidth) (\<lambda>io.
          let thrashing = (case fault_rate of None \<Rightarrow> False | Some f \<Rightarrow> flt (lit (25 / 100)) f) in
          if conditional \<and> fle io latency \<and> \<not> thrashing
          then Inr \<lparr>tw_mode = ''tiered-mmap-ssd'', resident_bytes = r, streamed_bytes = a - r, bytes_per_token = n,
                 predicted_io_ms = io, pagein_queue = min (int_of_val queue) 8, tw_accepted = True,
                 tw_reason = ''conditional-access page-in is below measured latency budget''\<rparr>
          else Inr \<lparr>tw_mode = ''cannot-fit'', resident_bytes = r, streamed_bytes = a - r, bytes_per_token = n,
                 predicted_io_ms = io, pagein_queue = 0, tw_accepted = False,
                 tw_reason = (if thrashing then ''page-thrash detected; streaming disabled''
                   else ''predicted page-in exceeds latency budget or conditional access is unproven'')\<rparr>))"

text \<open>
  A tiered plan accounts for every byte of the artifact within the resident budget, and is refused
  exactly when the weights do not fit and streaming is not proven within the latency budget.
\<close>

theorem tiered_weights_sound:
  assumes "plan_tiered_weights artifact resident per_token bandwidth latency queue fault_rate conditional = Inr p"
  shows "resident_bytes p + streamed_bytes p = int_of_val artifact \<and> 0 < resident_bytes p \<and> resident_bytes p \<le> int_of_val resident
     \<and> 0 \<le> streamed_bytes p \<and> 0 \<le> pagein_queue p \<and> pagein_queue p \<le> 8
     \<and> (tw_accepted p \<longleftrightarrow> streamed_bytes p = 0 \<or> conditional \<and> fle (predicted_io_ms p) latency
          \<and> \<not> (case fault_rate of None \<Rightarrow> False | Some f \<Rightarrow> flt (lit (25 / 100)) f))"
proof -
  have ok: "\<not> list_ex (bad_int 0) [artifact, resident, per_token, queue]"
    using assms unfolding plan_tiered_weights_def by (auto split: if_splits)
  have "0 \<le> int_of_val queue" by (rule all_good_int[OF ok]) simp
  with ok show ?thesis using assms unfolding plan_tiered_weights_def Let_def
    by (auto split: if_splits)
qed

end
