(* ===== verification/Estimates.thy ===== *)
theory Estimates
  imports Artifacts
begin

text \<open>
  \<open>local_data_plane/estimator.py\<close> (resource estimates with their provenance),
  \<open>local_data_plane/active_bpt.py\<close> (bytes per token of dense and sparse models) and
  \<open>local_data_plane/budget_profiles.py\<close> (canonical memory budgets).
\<close>

section \<open>Resource estimates\<close>

record measurement =
  ms_value :: "int option"
  ms_semantics :: string
  ms_unit :: string
  ms_reason :: "string option"
  ms_source :: "string option"

record resource_estimate =
  est_weights :: measurement
  est_kv_cache :: measurement
  est_recurrent_state :: measurement
  est_mtp_state :: measurement
  est_working_buffers :: measurement
  est_disk_footprint :: measurement
  est_read_bytes :: measurement
  est_total_resident :: measurement

definition unknown :: "string \<Rightarrow> string \<Rightarrow> measurement" where
  "unknown unit reason = \<lparr>ms_value = None, ms_semantics = ''unknown'', ms_unit = unit, ms_reason = Some reason, ms_source = None\<rparr>"

definition observed :: "int \<Rightarrow> string \<Rightarrow> measurement" where
  "observed v source = \<lparr>ms_value = Some v, ms_semantics = ''observed'', ms_unit = ''bytes'', ms_reason = None, ms_source = Some source\<rparr>"

definition labelled :: "int \<Rightarrow> string \<Rightarrow> string \<Rightarrow> string option \<Rightarrow> measurement" where
  "labelled v semantics reason source = \<lparr>ms_value = Some v, ms_semantics = semantics, ms_unit = ''bytes'',
     ms_reason = Some reason, ms_source = source\<rparr>"

definition measurement_dict :: "measurement \<Rightarrow> pyval" where
  "measurement_dict m = PyDict [(''value'', case ms_value m of None \<Rightarrow> PyNone | Some v \<Rightarrow> PyInt v), (''semantics'', PyStr (ms_semantics m)),
     (''unit'', PyStr (ms_unit m)), (''reason'', py_opt_str (ms_reason m)), (''source'', py_opt_str (ms_source m))]"

definition estimate_fields :: "resource_estimate \<Rightarrow> (string \<times> pyval) list" where
  "estimate_fields e = [(''weights'', measurement_dict (est_weights e)), (''kv_cache'', measurement_dict (est_kv_cache e)),
     (''recurrent_state'', measurement_dict (est_recurrent_state e)), (''mtp_state'', measurement_dict (est_mtp_state e)),
     (''working_buffers'', measurement_dict (est_working_buffers e)), (''disk_footprint'', measurement_dict (est_disk_footprint e)),
     (''read_bytes'', measurement_dict (est_read_bytes e)), (''total_resident'', measurement_dict (est_total_resident e))]"

text \<open>\<open>value.as_dict()\<close>: no value of a plain type has the method.\<close>

definition call_as_dict :: "string \<times> pyval \<Rightarrow> (string \<times> pyval) res" where
  "call_as_dict kv = Inl (AttributeError ''as_dict'')"

definition estimate_dict :: "resource_estimate \<Rightarrow> (string \<times> pyval) list res" where
  "estimate_dict e = map_res call_as_dict (estimate_fields e)"

record kv_shape =
  context_tokens :: "int option"
  layers :: "int option"
  kv_heads :: "int option"
  head_dim :: "int option"
  dtype_bytes :: int
  batch :: int

definition estimate_kv :: "kv_shape \<Rightarrow> measurement" where
  "estimate_kv s = (case (context_tokens s, layers s, kv_heads s, head_dim s) of
      (Some t, Some l, Some h, Some d) \<Rightarrow>
        if Min (set [t, l, h, d, dtype_bytes s, batch s]) < 0 then unknown ''bytes'' ''KV dimensions must be non-negative''
        else labelled (2 * t * l * h * d * dtype_bytes s * batch s) ''estimated'' ''KV formula from declared dimensions'' (Some ''request/config'')
    | _ \<Rightarrow> unknown ''bytes'' ''context/layer/KV-head/head-dim metadata is incomplete'')"

definition declared :: "int option \<Rightarrow> string \<Rightarrow> string \<Rightarrow> string \<Rightarrow> measurement" where
  "declared v missing reason source = (case v of
      None \<Rightarrow> unknown ''bytes'' missing
    | Some n \<Rightarrow> labelled n ''estimated'' reason (Some source))"

definition total_of :: "measurement list \<Rightarrow> measurement" where
  "total_of ms = (if list_all (\<lambda>m. ms_value m \<noteq> None) ms
     then labelled (sum_list (List.map (\<lambda>m. the (ms_value m)) ms)) ''derived'' ''sum of resident components'' None
     else unknown ''bytes'' ''one or more resident components are unknown'')"

definition estimate_resources ::
    "int option \<Rightarrow> kv_shape \<Rightarrow> int option \<Rightarrow> int option \<Rightarrow> int option \<Rightarrow> int option \<Rightarrow> int option \<Rightarrow> resource_estimate" where
  "estimate_resources weight_bytes shape recurrent mtp working disk reads =
     (let w = (case weight_bytes of None \<Rightarrow> unknown ''bytes'' ''weight size was not observed'' | Some n \<Rightarrow> observed n ''asset.stat'');
          d = (case (disk, weight_bytes) of
              (None, Some n) \<Rightarrow> labelled n ''derived'' ''single asset footprint'' (Some ''asset.stat'')
            | (None, None) \<Rightarrow> unknown ''bytes'' ''disk footprint was not observed''
            | (Some n, _) \<Rightarrow> observed n ''store.manifest'');
          kv = estimate_kv shape;
          rc = declared recurrent ''recurrent state size is backend/model specific'' ''declared recurrent state budget'' ''model metadata'';
          mt = declared mtp ''MTP state size is unavailable'' ''declared MTP state budget'' ''model metadata'';
          bf = declared working ''working-buffer allocation was not observed'' ''declared bounded buffer budget'' ''backend profile'';
          rd = (case reads of None \<Rightarrow> unknown ''bytes'' ''I/O counters were not observed'' | Some n \<Rightarrow> observed n ''process I/O counter'')
      in \<lparr>est_weights = w, est_kv_cache = kv, est_recurrent_state = rc, est_mtp_state = mt, est_working_buffers = bf,
           est_disk_footprint = d, est_read_bytes = rd, est_total_resident = total_of [w, kv, rc, mt, bf]\<rparr>)"

definition estimate_asset ::
    "file_system \<Rightarrow> string \<Rightarrow> kv_shape \<Rightarrow> int option \<Rightarrow> int option \<Rightarrow> int option \<Rightarrow> int option \<Rightarrow> resource_estimate res" where
  "estimate_asset fs path shape recurrent mtp working reads =
     rbind (opt_res (FileNotFoundError path) (fs path)) (\<lambda>bs.
       Inr (estimate_resources (Some (int (length bs))) shape recurrent mtp working (Some (int (length bs))) reads))"

definition compare_observed :: "measurement \<Rightarrow> int option \<Rightarrow> measurement" where
  "compare_observed e obs = (case obs of
      None \<Rightarrow> unknown (ms_unit e) ''observed value is unavailable''
    | Some o' \<Rightarrow> (case ms_value e of
        None \<Rightarrow> \<lparr>ms_value = None, ms_semantics = ''unknown'', ms_unit = ms_unit e,
          ms_reason = Some ''estimate is unknown; delta is not meaningful'', ms_source = None\<rparr>
      | Some v \<Rightarrow> \<lparr>ms_value = Some (o' - v), ms_semantics = ''derived'', ms_unit = ms_unit e,
          ms_reason = Some ''observed minus estimate'', ms_source = None\<rparr>))"

lemma total_of_values:
  "(\<exists>v. ms_value (total_of ms) = Some v) \<longleftrightarrow> list_all (\<lambda>m. ms_value m \<noteq> None) ms"
  "case ms_value (total_of ms) of None \<Rightarrow> ms_semantics (total_of ms) = ''unknown''
    | Some v \<Rightarrow> List.map ms_value ms = List.map Some (List.map (\<lambda>m. the (ms_value m)) ms) \<and> v = sum_list (List.map (\<lambda>m. the (ms_value m)) ms)"
  by (auto simp: total_of_def unknown_def labelled_def list_all_iff)

lemma ms_value_simps:
  "ms_value (declared v m r sr) = v" "ms_value (unknown u m) = None" "ms_value (observed n sr) = Some n"
  "ms_value (case v of None \<Rightarrow> unknown u m | Some n \<Rightarrow> observed n sr) = v"
  by (simp_all add: declared_def unknown_def observed_def labelled_def split: option.split)

text \<open>
  A resident total is stated exactly when every resident component is known, and is then their
  sum; no component is known without its input having been given.
\<close>

theorem estimate_never_guesses:
  "let e = estimate_resources weight_bytes shape recurrent mtp working disk reads;
       parts = [est_weights e, est_kv_cache e, est_recurrent_state e, est_mtp_state e, est_working_buffers e] in
     ((\<exists>v. ms_value (est_total_resident e) = Some v) \<longleftrightarrow> list_all (\<lambda>m. ms_value m \<noteq> None) parts)
     \<and> (case ms_value (est_total_resident e) of None \<Rightarrow> ms_semantics (est_total_resident e) = ''unknown''
          | Some v \<Rightarrow> List.map ms_value parts = List.map Some (List.map (\<lambda>m. the (ms_value m)) parts) \<and> v = sum_list (List.map (\<lambda>m. the (ms_value m)) parts))
     \<and> ms_value (est_weights e) = weight_bytes \<and> ms_value (est_recurrent_state e) = recurrent \<and> ms_value (est_mtp_state e) = mtp
     \<and> ms_value (est_working_buffers e) = working \<and> ms_value (est_read_bytes e) = reads"
proof -
  let ?e = "estimate_resources weight_bytes shape recurrent mtp working disk reads"
  have total: "est_total_resident ?e = total_of [est_weights ?e, est_kv_cache ?e, est_recurrent_state ?e, est_mtp_state ?e, est_working_buffers ?e]"
    by (simp only: estimate_resources_def Let_def resource_estimate.simps)
  show ?thesis
    unfolding Let_def total
    by (rule conjI, rule total_of_values(1), rule conjI, rule total_of_values(2))
      (simp add: estimate_resources_def Let_def ms_value_simps)
qed

text \<open>Writing an estimate as a dictionary always raises: \<open>asdict\<close> has already turned the measurements into dictionaries.\<close>

theorem estimate_dict_raises: "estimate_dict e = Inl (AttributeError ''as_dict'')"
  by (simp add: estimate_dict_def estimate_fields_def call_as_dict_def)

section \<open>Active bytes per token\<close>

definition ACTIVE_BPT_SCHEMA_V1 :: string where
  "ACTIVE_BPT_SCHEMA_V1 = ''simplicio-local.active-bpt/v1''"

record active_cost =
  ac_model_id :: string
  architecture :: string
  total_parameters :: int
  active_parameters :: "int option"
  weight_bytes_per_token :: "int option"
  kv_bytes_per_token :: "int option"
  bandwidth_per_second :: "int option"
  confidence :: string
  expert_residency :: string
  ac_reason :: string

definition estimate_active_cost ::
    "string \<Rightarrow> string \<Rightarrow> int \<Rightarrow> pyfloat \<Rightarrow> int option \<Rightarrow> int option \<Rightarrow> int option \<Rightarrow> int option \<Rightarrow> string \<Rightarrow> active_cost res" where
  "estimate_active_cost model arch parameters width active kv measured bandwidth residency =
     (if parameters \<le> 0 \<or> fle width (Fin 0) \<or> model = []
      then Inl (ValueError ''model identity and positive parameter metadata are required'')
      else if arch \<notin> set [''dense'', ''moe'', ''conditional'']
      then Inl (ValueError ''architecture must be dense, moe, or conditional'')
      else if arch \<noteq> ''dense'' \<and> active = None
      then Inr \<lparr>ac_model_id = model, architecture = arch, total_parameters = parameters, active_parameters = None,
             weight_bytes_per_token = measured, kv_bytes_per_token = kv, bandwidth_per_second = bandwidth, confidence = ''unknown'',
             expert_residency = residency, ac_reason = ''active parameter count was not explicitly measured or declared''\<rparr>
      else let n = (if arch = ''dense'' then parameters else the active) in
        rbind (case measured of Some m \<Rightarrow> Inr m | None \<Rightarrow> int_times_float n width) (\<lambda>bpt.
          Inr \<lparr>ac_model_id = model, architecture = arch, total_parameters = parameters, active_parameters = Some n,
             weight_bytes_per_token = Some bpt, kv_bytes_per_token = kv, bandwidth_per_second = bandwidth,
             confidence = (if measured \<noteq> None then ''measured'' else ''estimated''), expert_residency = residency,
             ac_reason = ''active cost uses explicit architecture metadata''\<rparr>))"

definition cost_key :: "active_cost \<Rightarrow> bool \<times> int \<times> string" where
  "cost_key c = (weight_bytes_per_token c = None,
     (case weight_bytes_per_token c of None \<Rightarrow> 2 ^ 63 | Some n \<Rightarrow> or_int n (2 ^ 63)), ac_model_id c)"

definition rank_by_active_cost :: "active_cost list \<Rightarrow> active_cost list" where
  "rank_by_active_cost costs = sort_key cost_key costs"

text \<open>
  A model that reads no weights per token ranks after one that reads any number of them: the zero
  is replaced by the default for an unknown cost.
\<close>

theorem zero_cost_ranks_last:
  "weight_bytes_per_token a = Some 0 \<Longrightarrow> weight_bytes_per_token b = Some n \<Longrightarrow> 0 < n \<Longrightarrow> n < 2 ^ 63 \<Longrightarrow>
     rank_by_active_cost [a, b] = [b, a]"
  by (simp add: rank_by_active_cost_def cost_key_def or_int_def)

section \<open>Budget profiles\<close>

record budget_profile =
  profile_id :: string
  memory_class :: string
  profile_bytes :: int
  headroom_fraction :: pyfloat
  bandwidth_class :: string
  preferred_placement :: string
  quality_threshold :: pyfloat
  max_context_default :: int
  profile_version :: string
  profile_notes :: "string list"

definition budget :: "string \<Rightarrow> string \<Rightarrow> int \<Rightarrow> string \<Rightarrow> string \<Rightarrow> rat \<Rightarrow> int \<Rightarrow> budget_profile" where
  "budget pid mem gib band place quality context = \<lparr>profile_id = pid, memory_class = mem, profile_bytes = gib * 1024 ^ 3,
     headroom_fraction = lit (15 / 100), bandwidth_class = band, preferred_placement = place, quality_threshold = lit quality,
     max_context_default = context, profile_version = ''v1'', profile_notes = []\<rparr>"

definition canonical_profiles :: "budget_profile list" where
  "canonical_profiles =
    [budget ''cpu-8gb'' ''8gb'' 8 ''low'' ''cpu'' (99 / 100) 2048,
     budget ''cpu-16gb'' ''16gb'' 16 ''medium'' ''cpu'' (99 / 100) 4096,
     budget ''cpu-32gb'' ''32gb'' 32 ''medium'' ''cpu'' (99 / 100) 8192,
     budget ''apple-unified-16gb'' ''unified-16gb'' 16 ''medium'' ''unified'' (99 / 100) 4096,
     budget ''apple-unified-48gb'' ''unified-48gb'' 48 ''high'' ''unified'' (995 / 1000) 16384,
     budget ''cuda-12gb'' ''vram-12gb'' 12 ''high'' ''gpu'' (99 / 100) 4096]"

definition budget_fits :: "string \<Rightarrow> string \<Rightarrow> int \<Rightarrow> budget_profile \<Rightarrow> bool" where
  "budget_fits plat backend available p \<longleftrightarrow> profile_bytes p \<le> available \<and> plat \<in> set [''linux'', ''darwin'', ''windows'']
     \<and> (backend = ''cuda'' \<and> preferred_placement p = ''gpu'' \<or> plat = ''darwin'' \<and> preferred_placement p = ''unified''
        \<or> backend = ''cpu'' \<and> preferred_placement p = ''cpu'')"

definition custom_profile :: "string \<Rightarrow> int \<Rightarrow> budget_profile" where
  "custom_profile backend available = \<lparr>profile_id = ''custom'', memory_class = ''custom'', profile_bytes = available,
     headroom_fraction = lit (15 / 100), bandwidth_class = ''measured'',
     preferred_placement = (if backend \<in> set [''cpu'', ''gpu'', ''unified'', ''hybrid''] then backend else ''cpu''),
     quality_threshold = lit (99 / 100), max_context_default = 2048, profile_version = ''v1'',
     profile_notes = [''no canonical profile matched; use measured values'']\<rparr>"

definition select_budget_profile :: "string \<Rightarrow> string \<Rightarrow> int \<Rightarrow> budget_profile list option \<Rightarrow> budget_profile res" where
  "select_budget_profile plat backend available profiles =
     (if available \<le> 0 then Inl (ValueError ''available memory must be positive'')
      else let choices = (case profiles of None \<Rightarrow> canonical_profiles | Some [] \<Rightarrow> canonical_profiles | Some ps \<Rightarrow> ps) in
        case py_max (\<lambda>x z. profile_bytes z < profile_bytes x) (filter (budget_fits plat backend available) choices) of
          Some p \<Rightarrow> Inr p
        | None \<Rightarrow> Inr (custom_profile backend available))"

text \<open>
  The selected budget never claims more memory than there is, is the largest compatible profile
  when one is compatible, and is the custom one only when none is.
\<close>

theorem budget_is_largest_fitting:
  assumes "select_budget_profile plat backend available profiles = Inr p"
  shows "profile_bytes p \<le> available
    \<and> (\<forall>q \<in> set (case profiles of None \<Rightarrow> canonical_profiles | Some [] \<Rightarrow> canonical_profiles | Some ps \<Rightarrow> ps).
         budget_fits plat backend available q \<longrightarrow> profile_bytes q \<le> profile_bytes p)"
proof -
  let ?cs = "case profiles of None \<Rightarrow> canonical_profiles | Some [] \<Rightarrow> canonical_profiles | Some ps \<Rightarrow> ps"
  let ?m = "py_max (\<lambda>x z. profile_bytes z < profile_bytes x) (filter (budget_fits plat backend available) ?cs)"
  show ?thesis
  proof (cases ?m)
    case None
    then have "filter (budget_fits plat backend available) ?cs = []" by simp
    moreover have "p = custom_profile backend available" using assms None unfolding select_budget_profile_def Let_def by (auto split: if_splits)
    ultimately show ?thesis by (auto simp: custom_profile_def filter_empty_conv)
  next
    case (Some q)
    then have "p = q" using assms unfolding select_budget_profile_def Let_def by (auto split: if_splits)
    then show ?thesis using py_max_mem[OF Some] py_max_key[OF Some] by (auto simp: budget_fits_def)
  qed
qed

theorem budget_is_largest_fitting_witness:
  "\<exists>p. select_budget_profile ''darwin'' ''metal'' (20 * 1024 ^ 3) None = Inr p \<and> profile_bytes p \<le> 20 * 1024 ^ 3 \<and> 16 * 1024 ^ 3 \<le> profile_bytes p"
proof -
  let ?r = "select_budget_profile ''darwin'' ''metal'' (20 * 1024 ^ 3) None"
  have "ok_with ?r (\<lambda>p. True)" by code_simp
  then obtain p where p: "?r = Inr p" by (elim ok_withE)
  have "list_ex (\<lambda>q. budget_fits ''darwin'' ''metal'' (20 * 1024 ^ 3) q \<and> profile_bytes q = 16 * 1024 ^ 3) canonical_profiles" by code_simp
  with budget_is_largest_fitting[OF p] p show ?thesis by (auto simp: list_ex_iff)
qed

end
