(* ===== verification/Speculative.thy ===== *)
theory Speculative
  imports Py_Json
begin

text \<open>
  \<open>local_data_plane/speculative_cost.py\<close> (the choice of a speculative placement over a measured
  baseline), \<open>local_data_plane/sensitivity_optimizer.py\<close> (rank and bit widths under a memory
  budget) and \<open>local_data_plane/worker_scheduler.py\<close> (worker threads).
\<close>

section \<open>Speculative cost\<close>

definition SPECULATIVE_COST_SCHEMA_V1 :: string where
  "SPECULATIVE_COST_SCHEMA_V1 = ''simplicio-local.speculative-cost/v1''"

record cost_observation =
  co_strategy :: string
  co_placement :: string
  target_tok_s :: "pyfloat option"
  draft_tok_s :: "pyfloat option"
  acceptance_rate :: "pyfloat option"
  ttft_ms :: "pyfloat option"
  memory_peak_bytes :: "int option"
  transfer_bytes :: "int option"
  bandwidth_pressure :: "pyfloat option"
  cache_miss_rate :: "pyfloat option"
  co_measured :: bool

record speculative_plan =
  sp_strategy :: string
  sp_placement :: string
  sp_accepted :: bool
  used_fallback :: bool
  sp_reason :: string
  sp_observed :: cost_observation
  sp_receipt :: "(string \<times> pyval) list"

definition opt_float :: "pyfloat option \<Rightarrow> pyval" where
  "opt_float x = (case x of None \<Rightarrow> PyNone | Some v \<Rightarrow> PyFloat v)"

definition opt_int :: "int option \<Rightarrow> pyval" where
  "opt_int x = (case x of None \<Rightarrow> PyNone | Some v \<Rightarrow> PyInt v)"

definition observation_dict :: "cost_observation \<Rightarrow> pyval" where
  "observation_dict c = PyDict [(''strategy'', PyStr (co_strategy c)), (''placement'', PyStr (co_placement c)),
     (''target_tok_s'', opt_float (target_tok_s c)), (''draft_tok_s'', opt_float (draft_tok_s c)),
     (''acceptance_rate'', opt_float (acceptance_rate c)), (''ttft_ms'', opt_float (ttft_ms c)),
     (''memory_peak_bytes'', opt_int (memory_peak_bytes c)), (''transfer_bytes'', opt_int (transfer_bytes c)),
     (''bandwidth_pressure'', opt_float (bandwidth_pressure c)), (''cache_miss_rate'', opt_float (cache_miss_rate c)),
     (''measured'', PyBool (co_measured c))]"

definition spec_receipt :: "cost_observation \<Rightarrow> bool \<Rightarrow> bool \<Rightarrow> (string \<times> pyval) list" where
  "spec_receipt c accepted fallback = [(''schema'', PyStr SPECULATIVE_COST_SCHEMA_V1), (''accepted'', PyBool accepted),
     (''used_fallback'', PyBool fallback), (''strategy'', PyStr (co_strategy c)), (''placement'', PyStr (co_placement c)),
     (''observation'', observation_dict c)]"

definition opt_nonneg :: "pyfloat option \<Rightarrow> bool" where
  "opt_nonneg x = (case x of None \<Rightarrow> True | Some v \<Rightarrow> fle (Fin 0) v)"

definition valid_observation :: "cost_observation \<Rightarrow> bool" where
  "valid_observation c =
     (if \<not> co_measured c then False
      else if (case acceptance_rate c of None \<Rightarrow> False | Some a \<Rightarrow> \<not> (fle (Fin 0) a \<and> fle a (Fin 1))) then False
      else opt_nonneg (target_tok_s c) \<and> opt_nonneg (draft_tok_s c) \<and> opt_nonneg (ttft_ms c)
        \<and> (case memory_peak_bytes c of None \<Rightarrow> True | Some n \<Rightarrow> 0 \<le> n) \<and> (case transfer_bytes c of None \<Rightarrow> True | Some n \<Rightarrow> 0 \<le> n)
        \<and> opt_nonneg (bandwidth_pressure c) \<and> opt_nonneg (cache_miss_rate c))"

text \<open>\<open>x in (None, 0)\<close>.\<close>

definition none_or_zero :: "pyfloat option \<Rightarrow> bool" where
  "none_or_zero x = (case x of None \<Rightarrow> True | Some v \<Rightarrow> feq v (Fin 0))"

text \<open>\<open>x / y - 1\<close> of two floats.\<close>

definition relative_change :: "pyfloat \<Rightarrow> pyfloat \<Rightarrow> pyfloat res" where
  "relative_change x y = rbind (opt_res ZeroDivisionError (fdiv x y)) (\<lambda>q. Inr (fsub q (Fin 1)))"

record cost_gates =
  memory_budget :: int
  target_headroom :: int
  minimum_gain :: pyfloat
  maximum_ttft_regression :: pyfloat
  maximum_pressure :: pyfloat

text \<open>\<open>candidate.bandwidth_pressure or 0.0\<close>.\<close>

definition pressure_of :: "cost_observation \<Rightarrow> pyfloat" where
  "pressure_of c = (case bandwidth_pressure c of None \<Rightarrow> Fin 0 | Some v \<Rightarrow> v)"

definition candidate_gain :: "cost_observation \<Rightarrow> cost_gates \<Rightarrow> cost_observation \<Rightarrow> pyfloat option res" where
  "candidate_gain base g c =
     (if \<not> valid_observation c \<or> target_tok_s c = None \<or> ttft_ms c = None then Inr None
      else if (case memory_peak_bytes c of None \<Rightarrow> False | Some n \<Rightarrow> n > max 0 (memory_budget g - target_headroom g)) then Inr None
      else rbind (relative_change (the (target_tok_s c)) (the (target_tok_s base))) (\<lambda>gain.
        rbind (relative_change (the (ttft_ms c)) (the (ttft_ms base))) (\<lambda>regression.
          if flt gain (minimum_gain g) \<or> flt (maximum_ttft_regression g) regression \<or> flt (maximum_pressure g) (pressure_of c)
          then Inr None else Inr (Some gain))))"

definition better_candidate ::
    "cost_observation \<Rightarrow> cost_gates \<Rightarrow> (pyfloat \<times> cost_observation) option \<Rightarrow> cost_observation \<Rightarrow> (pyfloat \<times> cost_observation) option res" where
  "better_candidate base g best c = rbind (candidate_gain base g c) (\<lambda>gain. case gain of
      None \<Rightarrow> Inr best
    | Some x \<Rightarrow> Inr (case best of None \<Rightarrow> Some (x, c) | Some (y, b) \<Rightarrow> if flt y x then Some (x, c) else best))"

definition fallback_observation :: "cost_observation \<Rightarrow> cost_observation" where
  "fallback_observation b = \<lparr>co_strategy = ''baseline'', co_placement = ''baseline'', target_tok_s = target_tok_s b, draft_tok_s = None,
     acceptance_rate = None, ttft_ms = ttft_ms b, memory_peak_bytes = memory_peak_bytes b, transfer_bytes = Some 0,
     bandwidth_pressure = bandwidth_pressure b, cache_miss_rate = cache_miss_rate b, co_measured = True\<rparr>"

definition select_speculative_cost_plan :: "cost_observation \<Rightarrow> cost_observation list \<Rightarrow> cost_gates \<Rightarrow> speculative_plan res" where
  "select_speculative_cost_plan base candidates g =
     (if \<not> valid_observation base \<or> none_or_zero (target_tok_s base) \<or> none_or_zero (ttft_ms base)
      then Inl (ValueError ''measured baseline throughput and TTFT are required'')
      else rbind (fold_res (better_candidate base g) None candidates) (\<lambda>best. case best of
        None \<Rightarrow> (let f = fallback_observation base in
          Inr \<lparr>sp_strategy = ''baseline'', sp_placement = ''baseline'', sp_accepted = True, used_fallback = True,
            sp_reason = ''no speculative candidate passed throughput, TTFT, memory, and pressure gates'',
            sp_observed = f, sp_receipt = spec_receipt f True True\<rparr>)
      | Some (x, c) \<Rightarrow> Inr \<lparr>sp_strategy = co_strategy c, sp_placement = co_placement c, sp_accepted = True, used_fallback = False,
            sp_reason = ''candidate passed measured throughput, TTFT, memory, and pressure gates'',
            sp_observed = c, sp_receipt = spec_receipt c True False\<rparr>))"

definition passes :: "cost_observation \<Rightarrow> cost_gates \<Rightarrow> cost_observation \<Rightarrow> pyfloat \<Rightarrow> bool" where
  "passes base g c gain \<longleftrightarrow> candidate_gain base g c = Inr (Some gain)"

text \<open>The loop keeps the first candidate of greatest gain: it is \<open>max\<close> over those that pass.\<close>

definition gain_gt :: "pyfloat \<times> cost_observation \<Rightarrow> pyfloat \<times> cost_observation \<Rightarrow> bool" where
  "gain_gt a b = flt (fst b) (fst a)"

definition passing :: "cost_observation \<Rightarrow> cost_gates \<Rightarrow> cost_observation list \<Rightarrow> (pyfloat \<times> cost_observation) list" where
  "passing base g cs = concat (List.map (\<lambda>c. case candidate_gain base g c of Inr (Some x) \<Rightarrow> [(x, c)] | _ \<Rightarrow> []) cs)"

lemma set_passing: "(x, c) \<in> set (passing base g cs) \<longleftrightarrow> c \<in> set cs \<and> passes base g c x"
  by (auto simp: passing_def passes_def split: sum.splits option.splits)

definition max_with :: "(pyfloat \<times> cost_observation) option \<Rightarrow> (pyfloat \<times> cost_observation) list \<Rightarrow> (pyfloat \<times> cost_observation) option" where
  "max_with best ps = (case best of None \<Rightarrow> py_max gain_gt ps | Some b \<Rightarrow> Some (py_max_from gain_gt b ps))"

lemma fold_is_max:
  "fold_res (better_candidate base g) best cs = Inr out \<Longrightarrow> out = max_with best (passing base g cs)"
proof (induction cs arbitrary: best)
  case Nil
  then show ?case by (cases best) (auto simp: max_with_def passing_def)
next
  case (Cons c cs)
  obtain gain where gain: "candidate_gain base g c = Inr gain" using Cons.prems by (auto simp: better_candidate_def)
  obtain mid where mid: "better_candidate base g best c = Inr mid" "fold_res (better_candidate base g) mid cs = Inr out"
    using Cons.prems by auto
  have "out = max_with mid (passing base g cs)" using Cons.IH mid(2) .
  moreover have "max_with mid (passing base g cs) = max_with best (passing base g (c # cs))"
  proof (cases gain)
    case None
    then show ?thesis using mid(1) gain by (simp add: better_candidate_def passing_def)
  next
    case (Some x)
    then have "mid = (case best of None \<Rightarrow> Some (x, c) | Some (y, b) \<Rightarrow> if flt y x then Some (x, c) else best)"
      using mid(1) gain by (simp add: better_candidate_def)
    moreover have "passing base g (c # cs) = (x, c) # passing base g cs" using gain Some by (simp add: passing_def)
    ultimately show ?thesis by (cases best) (auto simp: max_with_def gain_gt_def)
  qed
  ultimately show ?case by simp
qed

lemma candidates_evaluated:
  "fold_res (better_candidate base g) best cs = Inr out \<Longrightarrow> c \<in> set cs \<Longrightarrow> \<exists>r. candidate_gain base g c = Inr r"
  by (induction cs arbitrary: best) (auto simp: better_candidate_def)

lemma gain_max:
  assumes "\<And>y. y \<in> insert b (set ps) \<Longrightarrow> fst y \<noteq> NaN" and "y \<in> insert b (set ps)"
  shows "fle (fst y) (fst (py_max_from gain_gt b ps))"
proof (rule py_max_from_le[where A = "{y. fst y \<noteq> NaN}" and le = "\<lambda>a b. fle (fst a) (fst b)"])
  show "fle (fst x) (fst x)" if "x \<in> {y. fst y \<noteq> NaN}" for x :: "pyfloat \<times> cost_observation"
    using that by (cases "fst x") (auto simp: fle_def)
  show "fle (fst x) (fst z)" if "\<not> gain_gt x z" "x \<in> {y. fst y \<noteq> NaN}" "z \<in> {y. fst y \<noteq> NaN}" for x z
    using that not_flt_imp_fle[of "fst z" "fst x"] by (auto simp: gain_gt_def)
qed (use assms fle_trans flt_imp_fle in \<open>auto simp: gain_gt_def\<close>)

text \<open>
  What the gates mean, from the figures themselves: the candidate is a measurement whose rates make sense, its
  memory fits, its throughput and first-token time compare with the baseline's as they must, and its
  pressure is low enough.  The gain is the relative change of the throughput.
\<close>

definition gates_met :: "cost_observation \<Rightarrow> cost_gates \<Rightarrow> cost_observation \<Rightarrow> pyfloat \<Rightarrow> bool" where
  "gates_met base g c gain \<longleftrightarrow> co_measured c
     \<and> (\<forall>a. acceptance_rate c = Some a \<longrightarrow> fle (Fin 0) a \<and> fle a (Fin 1))
     \<and> (\<forall>x \<in> {target_tok_s c, draft_tok_s c, ttft_ms c, bandwidth_pressure c, cache_miss_rate c}. \<forall>v. x = Some v \<longrightarrow> fle (Fin 0) v)
     \<and> (\<forall>n. transfer_bytes c = Some n \<longrightarrow> 0 \<le> n)
     \<and> (\<forall>n. memory_peak_bytes c = Some n \<longrightarrow> 0 \<le> n \<and> n \<le> max 0 (memory_budget g - target_headroom g))
     \<and> (\<exists>tok tok0 q. target_tok_s c = Some tok \<and> target_tok_s base = Some tok0 \<and> fdiv tok tok0 = Some q
          \<and> gain = fsub q (Fin 1) \<and> \<not> flt gain (minimum_gain g))
     \<and> (\<exists>ttft ttft0 q. ttft_ms c = Some ttft \<and> ttft_ms base = Some ttft0 \<and> fdiv ttft ttft0 = Some q
          \<and> \<not> flt (maximum_ttft_regression g) (fsub q (Fin 1)))
     \<and> (\<forall>v. bandwidth_pressure c = Some v \<longrightarrow> \<not> flt (maximum_pressure g) v)
     \<and> (bandwidth_pressure c = None \<longrightarrow> \<not> flt (maximum_pressure g) (Fin 0))"

lemma passes_gates:
  assumes "target_tok_s base = Some tok0" and "ttft_ms base = Some ttft0"
  shows "passes base g c gain \<longleftrightarrow> gates_met base g c gain"
proof -
  have v: "valid_observation c \<longleftrightarrow> co_measured c \<and> (\<forall>a. acceptance_rate c = Some a \<longrightarrow> fle (Fin 0) a \<and> fle a (Fin 1))
     \<and> (\<forall>x \<in> {target_tok_s c, draft_tok_s c, ttft_ms c, bandwidth_pressure c, cache_miss_rate c}. \<forall>v. x = Some v \<longrightarrow> fle (Fin 0) v)
     \<and> (\<forall>n. transfer_bytes c = Some n \<longrightarrow> 0 \<le> n) \<and> (\<forall>n. memory_peak_bytes c = Some n \<longrightarrow> 0 \<le> n)"
    by (auto simp: valid_observation_def opt_nonneg_def split: option.splits if_splits)
  have p: "flt (maximum_pressure g) (pressure_of c) \<longleftrightarrow>
      \<not> ((\<forall>v. bandwidth_pressure c = Some v \<longrightarrow> \<not> flt (maximum_pressure g) v) \<and> (bandwidth_pressure c = None \<longrightarrow> \<not> flt (maximum_pressure g) (Fin 0)))"
    by (auto simp: pressure_of_def split: option.splits)
  have r: "relative_change x y = Inr z \<longleftrightarrow> (\<exists>q. fdiv x y = Some q \<and> z = fsub q (Fin 1))" for x y z
    by (cases "fdiv x y") (auto simp: relative_change_def)
  have g: "candidate_gain base g c = Inr (Some gain) \<longleftrightarrow> valid_observation c
     \<and> (\<forall>n. memory_peak_bytes c = Some n \<longrightarrow> n \<le> max 0 (memory_budget g - target_headroom g))
     \<and> (\<exists>tok. target_tok_s c = Some tok \<and> relative_change tok tok0 = Inr gain \<and> \<not> flt gain (minimum_gain g))
     \<and> (\<exists>ttft z. ttft_ms c = Some ttft \<and> relative_change ttft ttft0 = Inr z \<and> \<not> flt (maximum_ttft_regression g) z)
     \<and> \<not> flt (maximum_pressure g) (pressure_of c)"
    by (cases "memory_peak_bytes c"; cases "target_tok_s c"; cases "ttft_ms c") (auto simp: candidate_gain_def rbind_eq_Inr assms)
  show ?thesis unfolding passes_def g gates_met_def v p r assms by auto
qed

lemma chosen_plan_is_best:
  assumes "select_speculative_cost_plan base cs g = Inr p"
    and "\<And>c gain. c \<in> set cs \<Longrightarrow> passes base g c gain \<Longrightarrow> gain \<noteq> NaN"
  shows "if used_fallback p
     then sp_observed p = fallback_observation base \<and> (\<forall>c \<in> set cs. candidate_gain base g c = Inr None)
     else sp_observed p \<in> set cs \<and> valid_observation (sp_observed p)
       \<and> (\<exists>x. passes base g (sp_observed p) x \<and> (\<forall>c \<in> set cs. \<forall>y. passes base g c y \<longrightarrow> fle y x))"
proof -
  obtain best where b: "fold_res (better_candidate base g) None cs = Inr best"
    using assms(1) by (auto simp: select_speculative_cost_plan_def split: if_splits)
  note best = fold_is_max[OF b, unfolded max_with_def, simplified]
  show ?thesis
  proof (cases best)
    case None
    then have "passing base g cs = []" using best by simp
    then have "candidate_gain base g c \<noteq> Inr (Some x)" if "c \<in> set cs" for c x
      using that set_passing[of x c base g cs] by (simp add: passes_def)
    then have "\<forall>c \<in> set cs. candidate_gain base g c = Inr None"
      using candidates_evaluated[OF b] by (metis not_None_eq)
    then show ?thesis using assms(1) b None by (auto simp: select_speculative_cost_plan_def Let_def split: if_splits)
  next
    case (Some xc)
    obtain x c where xc: "xc = (x, c)" by fastforce
    then have m: "py_max gain_gt (passing base g cs) = Some (x, c)" using best Some by simp
    then have c: "c \<in> set cs" "passes base g c x" using py_max_mem[OF m] set_passing[of x c base g cs] by auto
    have "valid_observation c" using c(2) by (auto simp: passes_def candidate_gain_def split: if_splits)
    moreover have "fle y x" if "d \<in> set cs" "passes base g d y" for d y
    proof -
      obtain q qs where q: "passing base g cs = q # qs" using m by (cases "passing base g cs") auto
      have "fst z \<noteq> NaN" if "z \<in> insert q (set qs)" for z
        using that assms(2) set_passing[of "fst z" "snd z" base g cs] q by auto
      moreover have "(y, d) \<in> insert q (set qs)" using that set_passing[of y d base g cs] q by auto
      ultimately have "fle y (fst (py_max_from gain_gt q qs))" using gain_max[of q qs "(y, d)"] by simp
      then show ?thesis using m q by simp
    qed
    ultimately show ?thesis using c assms(1) b Some xc
      by (auto simp: select_speculative_cost_plan_def split: if_splits)
  qed
qed

text \<open>
  C28: when no gain of a passing candidate is NaN (an infinite throughput over an infinite baseline), a plan
  that is no fallback is a candidate that meets every gate - a sound measurement, memory, throughput gain,
  first-token regression and pressure - and no other candidate that meets them has a greater gain; the
  fallback keeps the baseline's figures and is chosen exactly when no candidate meets them.
\<close>

theorem speculative_plan_is_best:
  assumes "select_speculative_cost_plan base cs g = Inr p"
    and "\<And>c gain. c \<in> set cs \<Longrightarrow> gates_met base g c gain \<Longrightarrow> gain \<noteq> NaN"
  shows "if used_fallback p
     then sp_strategy p = ''baseline'' \<and> target_tok_s (sp_observed p) = target_tok_s base \<and> ttft_ms (sp_observed p) = ttft_ms base
       \<and> memory_peak_bytes (sp_observed p) = memory_peak_bytes base \<and> (\<forall>c \<in> set cs. \<forall>x. \<not> gates_met base g c x)
     else sp_observed p \<in> set cs \<and> sp_strategy p = co_strategy (sp_observed p) \<and> sp_placement p = co_placement (sp_observed p)
       \<and> (\<exists>x. gates_met base g (sp_observed p) x \<and> (\<forall>c \<in> set cs. \<forall>y. gates_met base g c y \<longrightarrow> fle y x))"
proof -
  obtain tok0 ttft0 where "target_tok_s base = Some tok0" "ttft_ms base = Some ttft0"
    using assms(1) by (auto simp: select_speculative_cost_plan_def none_or_zero_def split: if_splits option.splits)
  note gates = passes_gates[OF this]
  have st: "sp_strategy p = (if used_fallback p then ''baseline'' else co_strategy (sp_observed p))"
      "\<not> used_fallback p \<Longrightarrow> sp_placement p = co_placement (sp_observed p)"
    using assms(1) by (auto simp: select_speculative_cost_plan_def Let_def rbind_eq_Inr split: if_splits option.splits)
  have no: "\<not> gates_met base g c x" if "candidate_gain base g c = Inr None" for c x
    using that unfolding gates[symmetric] passes_def by simp
  have nn: "gain \<noteq> NaN" if "c \<in> set cs" "passes base g c gain" for c gain
    using that assms(2) unfolding gates by blast
  have best: "if used_fallback p
     then sp_observed p = fallback_observation base \<and> (\<forall>c \<in> set cs. candidate_gain base g c = Inr None)
     else sp_observed p \<in> set cs \<and> valid_observation (sp_observed p)
       \<and> (\<exists>x. gates_met base g (sp_observed p) x \<and> (\<forall>c \<in> set cs. \<forall>y. gates_met base g c y \<longrightarrow> fle y x))"
    unfolding gates[symmetric] by (rule chosen_plan_is_best[OF assms(1)]) (rule nn)
  show ?thesis
  proof (cases "used_fallback p")
    case True
    from best True have f: "sp_observed p = fallback_observation base" "\<forall>c \<in> set cs. candidate_gain base g c = Inr None"
      unfolding if_P[OF True] by blast+
    from f(2) no have "\<forall>c \<in> set cs. \<forall>x. \<not> gates_met base g c x" by blast
    then show ?thesis unfolding if_P[OF True] using st(1) True by (simp only: f(1) if_True) (simp add: fallback_observation_def)
  next
    case False
    from best have "sp_observed p \<in> set cs \<and> (\<exists>x. gates_met base g (sp_observed p) x \<and> (\<forall>c \<in> set cs. \<forall>y. gates_met base g c y \<longrightarrow> fle y x))"
      unfolding if_not_P[OF False] by blast
    then show ?thesis unfolding if_not_P[OF False] using st False by (simp only: if_False simp_thms)
  qed
qed

definition demo_cost :: "string \<Rightarrow> rat \<Rightarrow> rat \<Rightarrow> cost_observation" where
  "demo_cost strat tok ttft = \<lparr>co_strategy = strat, co_placement = ''gpu'', target_tok_s = Some (Fin tok), draft_tok_s = None,
     acceptance_rate = None, ttft_ms = Some (Fin ttft), memory_peak_bytes = Some 10, transfer_bytes = None, bandwidth_pressure = None,
     cache_miss_rate = None, co_measured = True\<rparr>"

definition demo_gates :: cost_gates where
  "demo_gates = \<lparr>memory_budget = 100, target_headroom = 10, minimum_gain = lit (2 / 100), maximum_ttft_regression = lit (10 / 100),
     maximum_pressure = lit (90 / 100)\<rparr>"

theorem speculative_plan_is_best_witness:
  "\<exists>p. select_speculative_cost_plan (demo_cost ''base'' 10 5) [demo_cost ''a'' 12 5, demo_cost ''b'' 15 5, demo_cost ''c'' 40 9] demo_gates = Inr p
     \<and> \<not> used_fallback p \<and> sp_observed p \<in> {demo_cost ''a'' 12 5, demo_cost ''b'' 15 5, demo_cost ''c'' 40 9}"
proof -
  let ?b = "demo_cost ''base'' 10 5" and ?cs = "[demo_cost ''a'' 12 5, demo_cost ''b'' 15 5, demo_cost ''c'' 40 9]"
  have "ok_with (select_speculative_cost_plan ?b ?cs demo_gates) (\<lambda>p. \<not> used_fallback p)" by code_simp
  then obtain p where p: "select_speculative_cost_plan ?b ?cs demo_gates = Inr p" "\<not> used_fallback p" by (elim ok_withE)
  have b: "target_tok_s ?b = Some (Fin 10)" "ttft_ms ?b = Some (Fin 5)" by (simp_all add: demo_cost_def)
  have "list_all (\<lambda>c. candidate_gain ?b demo_gates c \<noteq> Inr (Some NaN)) ?cs" by code_simp
  then have n: "gain \<noteq> NaN" if "c \<in> set ?cs" "gates_met ?b demo_gates c gain" for c gain
    using that unfolding passes_gates[OF b, symmetric] passes_def list_all_iff by metis
  have "sp_observed p \<in> set ?cs"
    using speculative_plan_is_best[OF p(1) n] p(2) by simp
  then show ?thesis using p by auto
qed

section \<open>Sensitivity-aware allocation\<close>

record layer_sensitivity =
  ls_layer :: string
  ls_score :: pyfloat
  baseline_bytes :: int
  candidate_bytes :: int
  candidate_quality :: pyfloat
  ls_options :: "(int \<times> int) list"

record allocation_plan =
  policy_digest :: string
  allocations :: "(string \<times> (int \<times> int)) list"
  al_resident_bytes :: int
  al_quality :: pyfloat
  al_accepted :: bool
  al_reason :: string

record allocating =
  so_far :: "(string \<times> (int \<times> int)) list"
  resident :: int
  quality :: pyfloat

definition layer_before :: "layer_sensitivity \<Rightarrow> layer_sensitivity \<Rightarrow> bool" where
  "layer_before a b = (flt (ls_score b) (ls_score a) \<or> feq (ls_score a) (ls_score b) \<and> ls_layer a < ls_layer b)"

definition choose_option :: "int \<Rightarrow> pyfloat \<Rightarrow> layer_sensitivity \<Rightarrow> int \<Rightarrow> (int \<times> int) option" where
  "choose_option budget threshold l used =
     find (\<lambda>opt. used + snd opt \<le> budget \<and> fle threshold (candidate_quality l)) (sort_key (\<lambda>opt. (snd opt, - fst opt)) (ls_options l))"

definition allocate_layer :: "int \<Rightarrow> pyfloat \<Rightarrow> allocating \<Rightarrow> layer_sensitivity \<Rightarrow> allocating" where
  "allocate_layer budget threshold s l = (case choose_option budget threshold l (resident s) of
      Some opt \<Rightarrow> s\<lparr>so_far := dput (ls_layer l) opt (so_far s), resident := resident s + snd opt\<rparr>
    | None \<Rightarrow> \<lparr>so_far = dput (ls_layer l) (16, baseline_bytes l) (so_far s), resident = resident s + baseline_bytes l,
        quality = fmul (quality s) (fmax (Fin 0) (fmin (Fin 1) (candidate_quality l)))\<rparr>)"

definition allocate :: "int \<Rightarrow> pyfloat \<Rightarrow> layer_sensitivity list \<Rightarrow> allocating" where
  "allocate budget threshold ls =
     foldl (allocate_layer budget threshold) \<lparr>so_far = [], resident = 0, quality = Fin 1\<rparr> (sort_by layer_before ls)"

definition optimize_allocation :: "string \<Rightarrow> string \<Rightarrow> string \<Rightarrow> layer_sensitivity list \<Rightarrow> int \<Rightarrow> pyfloat \<Rightarrow> allocation_plan res" where
  "optimize_allocation model corpus policy ls budget threshold =
     (if ls = [] \<or> budget \<le> 0 \<or> model = [] \<or> corpus = []
      then Inl (ValueError ''model/corpus identity, layers, and memory budget are required'')
      else let s = allocate budget threshold ls; ok = (resident s \<le> budget \<and> fle threshold (quality s)) in
        Inr \<lparr>policy_digest = sha256_hex (ascii_bytes (json_dumps json_str '', '' '': '' True
               (PyDict [(''model'', PyStr model), (''corpus'', PyStr corpus), (''policy'', PyStr policy)]))),
          allocations = so_far s, al_resident_bytes = resident s, al_quality = quality s, al_accepted = ok,
          al_reason = (if ok then ''sensitivity-aware allocation passed quality and memory gates''
            else ''allocation remains baseline-safe; quality or memory gate failed'')\<rparr>)"

text \<open>What one layer may get: an option that meets the threshold, or its baseline.\<close>

definition allowed_option :: "pyfloat \<Rightarrow> layer_sensitivity \<Rightarrow> int \<times> int \<Rightarrow> bool" where
  "allowed_option threshold l opt \<longleftrightarrow> opt = (16, baseline_bytes l) \<or> opt \<in> set (ls_options l) \<and> fle threshold (candidate_quality l)"

definition allocated :: "pyfloat \<Rightarrow> layer_sensitivity set \<Rightarrow> allocating \<Rightarrow> bool" where
  "allocated threshold ls s \<longleftrightarrow> distinct (dkeys (so_far s)) \<and> set (dkeys (so_far s)) = ls_layer ` ls
     \<and> resident s = sum_list (List.map (\<lambda>kv. snd (snd kv)) (so_far s))
     \<and> (\<forall>(k, opt) \<in> set (so_far s). \<exists>l \<in> ls. ls_layer l = k \<and> allowed_option threshold l opt)"

lemma choose_option_mem:
  "choose_option budget threshold l used = Some opt \<Longrightarrow> opt \<in> set (ls_options l) \<and> used + snd opt \<le> budget \<and> fle threshold (candidate_quality l)"
proof -
  let ?xs = "sort_key (\<lambda>opt. (snd opt, - fst opt)) (ls_options l)"
  assume "choose_option budget threshold l used = Some opt"
  then obtain i where "i < length ?xs" "opt = ?xs ! i" "used + snd (?xs ! i) \<le> budget \<and> fle threshold (candidate_quality l)"
    unfolding choose_option_def find_Some_iff by blast
  moreover from this have "opt \<in> set ?xs" by (metis nth_mem)
  ultimately show ?thesis by simp
qed

lemma allocate_layer_shape:
  "\<exists>opt q. allocate_layer budget threshold s l = \<lparr>so_far = dput (ls_layer l) opt (so_far s), resident = resident s + snd opt, quality = q\<rparr>
     \<and> allowed_option threshold l opt"
proof (cases "choose_option budget threshold l (resident s)")
  case None
  then show ?thesis by (auto simp: allocate_layer_def allowed_option_def)
next
  case (Some opt)
  then show ?thesis using choose_option_mem[OF Some]
    by (intro exI[of _ opt] exI[of _ "quality s"]) (auto simp: allocate_layer_def allowed_option_def)
qed

lemma allocate_layer_allocated:
  assumes "allocated threshold ls s" and "ls_layer l \<notin> ls_layer ` ls"
  shows "allocated threshold (insert l ls) (allocate_layer budget threshold s l)"
proof -
  obtain opt q where e: "allocate_layer budget threshold s l = \<lparr>so_far = dput (ls_layer l) opt (so_far s), resident = resident s + snd opt, quality = q\<rparr>"
      "allowed_option threshold l opt" using allocate_layer_shape by blast
  have "ls_layer l \<notin> set (dkeys (so_far s))" using assms by (simp add: allocated_def)
  then have d: "dput (ls_layer l) opt (so_far s) = so_far s @ [(ls_layer l, opt)]" by (rule dput_new)
  show ?thesis using assms e by (auto simp: allocated_def d)
qed

lemma allocate_allocated:
  "distinct (List.map ls_layer xs) \<Longrightarrow> allocated threshold ls s \<Longrightarrow> ls_layer ` ls \<inter> ls_layer ` set xs = {} \<Longrightarrow>
     allocated threshold (ls \<union> set xs) (foldl (allocate_layer budget threshold) s xs)"
proof (induction xs arbitrary: ls s)
  case (Cons l xs)
  have "allocated threshold (insert l ls) (allocate_layer budget threshold s l)"
    using Cons.prems by (intro allocate_layer_allocated) auto
  from Cons.IH[OF _ this] show ?case using Cons.prems by auto
qed simp

text \<open>
  For layers of distinct names an allocation gives every layer an option whose candidate meets
  the quality threshold or its 16-bit baseline; the resident bytes are the sum of what was given;
  and an accepted allocation fits the budget.
\<close>

theorem allocation_accounts_for_layers:
  assumes "optimize_allocation model corpus policy ls budget threshold = Inr p" and "distinct (List.map ls_layer ls)"
  shows "set (dkeys (allocations p)) = ls_layer ` set ls \<and> distinct (dkeys (allocations p))
     \<and> al_resident_bytes p = sum_list (List.map (\<lambda>kv. snd (snd kv)) (allocations p))
     \<and> (\<forall>(k, opt) \<in> set (allocations p). \<exists>l \<in> set ls. ls_layer l = k \<and> allowed_option threshold l opt)
     \<and> (al_accepted p \<longrightarrow> al_resident_bytes p \<le> budget)"
proof -
  have d: "distinct (List.map ls_layer (sort_by layer_before ls))"
    using assms(2) by (metis mset_eq_imp_distinct_iff mset_map mset_sort_by)
  have "allocated threshold {} \<lparr>so_far = [], resident = 0, quality = Fin 1\<rparr>" by (simp add: allocated_def)
  from allocate_allocated[OF d this] have "allocated threshold (set ls) (allocate budget threshold ls)"
    by (simp add: allocate_def)
  moreover have "allocations p = so_far (allocate budget threshold ls)" "al_resident_bytes p = resident (allocate budget threshold ls)"
      "al_accepted p \<longrightarrow> al_resident_bytes p \<le> budget"
    using assms(1) unfolding optimize_allocation_def Let_def by (auto split: if_splits)
  ultimately show ?thesis by (simp add: allocated_def)
qed

definition demo_layer :: layer_sensitivity where
  "demo_layer = \<lparr>ls_layer = ''l'', ls_score = Fin 1, baseline_bytes = 64, candidate_bytes = 16, candidate_quality = Fin (1 / 2),
     ls_options = [(4, 16)]\<rparr>"

theorem allocation_accounts_for_layers_witness:
  "\<exists>p. optimize_allocation ''m'' ''c'' ''v1'' [demo_layer] 32 (Fin (1 / 4)) = Inr p \<and> set (dkeys (allocations p)) = {''l''}"
proof -
  obtain p where p: "optimize_allocation ''m'' ''c'' ''v1'' [demo_layer] 32 (Fin (1 / 4)) = Inr p"
    unfolding optimize_allocation_def Let_def by simp
  from allocation_accounts_for_layers[OF p] p show ?thesis by (auto simp: demo_layer_def)
qed

text \<open>
  The quality is charged to the wrong layers: a layer that is compressed at a measured quality of a
  half leaves the plan's quality at 1, and one that keeps its baseline halves it.
\<close>

theorem quality_charges_the_baseline:
  "quality (allocate 32 (Fin (1 / 4)) [demo_layer]) = Fin 1 \<and> so_far (allocate 32 (Fin (1 / 4)) [demo_layer]) = [(''l'', (4, 16))]
   \<and> quality (allocate 8 (Fin (1 / 4)) [demo_layer]) = Fin (1 / 2) \<and> so_far (allocate 8 (Fin (1 / 4)) [demo_layer]) = [(''l'', (16, 64))]"
  by code_simp

section \<open>Worker threads\<close>

record worker_schedule =
  ws_threads :: int
  affinity_hint :: "int list"
  numa_node :: "int option"
  oversubscribed :: bool
  ws_accepted :: bool
  ws_reason :: string
  ws_evidence :: "string list"

type_synonym row = "(string \<times> pyval) list"

definition worker_candidate :: "row \<Rightarrow> bool" where
  "worker_candidate r \<longleftrightarrow> (case py_int (jget r ''threads'') of None \<Rightarrow> False | Some n \<Rightarrow> 0 < n) \<and> py_number (jget r ''throughput'') \<noteq> None"

definition row_threads :: "row \<Rightarrow> int" where
  "row_threads r = (case py_int (jget r ''threads'') of None \<Rightarrow> 0 | Some n \<Rightarrow> n)"

text \<open>A row with its throughput as a float, if its migrations and its latency are within the budgets.\<close>

definition eligible_row :: "int \<Rightarrow> pyfloat \<Rightarrow> row \<Rightarrow> (pyfloat \<times> row) option res" where
  "eligible_row migrations p95 r =
     rbind (to_int (dget_or r ''migrations'' (PyInt 0))) (\<lambda>m.
       if m > migrations then Inr None
       else rbind (py_float (dget_or r ''p95_regression'' (PyFloat (Fin 0)))) (\<lambda>q.
         if \<not> fle q p95 then Inr None
         else rbind (py_float (jget r ''throughput'')) (\<lambda>t. Inr (Some (t, r)))))"

definition row_gt :: "pyfloat \<times> row \<Rightarrow> pyfloat \<times> row \<Rightarrow> bool" where
  "row_gt a b = (flt (fst b) (fst a) \<or> feq (fst a) (fst b) \<and> row_threads (snd a) < row_threads (snd b))"

definition measured_choice :: "row list \<Rightarrow> int \<Rightarrow> pyfloat \<Rightarrow> row option res" where
  "measured_choice measured migrations p95 =
     (let candidates = filter worker_candidate measured in
      rbind (map_res (\<lambda>r. py_float (jget r ''throughput'')) candidates) (\<lambda>_.
      rbind (map_res (eligible_row migrations p95) candidates) (\<lambda>rs.
        Inr (map_option snd (py_max row_gt (List.map the (filter (\<lambda>x. x \<noteq> None) rs)))))))"

definition one_worker :: worker_schedule where
  "one_worker = \<lparr>ws_threads = 1, affinity_hint = [0], numa_node = None, oversubscribed = False, ws_accepted = True,
     ws_reason = ''logical CPU count unavailable; one-worker fallback'', ws_evidence = [''safe-fallback'']\<rparr>"

definition clamp_threads :: "row option \<Rightarrow> int \<Rightarrow> int \<Rightarrow> int" where
  "clamp_threads selected physical logical =
     max 1 (min (case selected of Some r \<Rightarrow> row_threads r | None \<Rightarrow> min physical logical) logical)"

definition physical_count :: "row \<Rightarrow> int \<Rightarrow> int" where
  "physical_count topology logical = (case py_int (jget topology ''physical_cpus'') of
     Some n \<Rightarrow> if 0 < n then n else logical | None \<Rightarrow> logical)"

definition numa_choice :: "row \<Rightarrow> int option" where
  "numa_choice topology = (case py_int (jget topology ''numa_nodes'') of Some n \<Rightarrow> if 1 < n then Some 0 else None | None \<Rightarrow> None)"

definition plan_workers :: "row \<Rightarrow> string \<Rightarrow> row list \<Rightarrow> int \<Rightarrow> pyfloat \<Rightarrow> worker_schedule res" where
  "plan_workers topology workload measured migrations p95 = (case py_int (jget topology ''logical_cpus'') of
      None \<Rightarrow> Inr one_worker
    | Some logical \<Rightarrow> if logical < 1 then Inr one_worker else
        rbind (measured_choice measured migrations p95) (\<lambda>selected.
          let physical = physical_count topology logical; n = clamp_threads selected physical logical; over = (physical < n);
              reason = (case selected of
                  Some _ \<Rightarrow> ''selected '' @ str_of_int n @ '' threads from measured '' @ workload @ '' candidates''
                | None \<Rightarrow> ''no promotion evidence; conservative physical-core fallback hint selected'')
          in Inr \<lparr>ws_threads = n, affinity_hint = [0..n - 1], numa_node = numa_choice topology, oversubscribed = over, ws_accepted = True,
               ws_reason = reason @ (if over then ''; SMT oversubscription is explicit'' else []),
               ws_evidence = (case selected of Some _ \<Rightarrow> [''measured-throughput'', ''migration-budget'', ''tail-latency-budget'']
                 | None \<Rightarrow> [''safe-fallback'', ''topology-observation''])\<rparr>))"

text \<open>
  A schedule has at least one worker and never more than the logical processors, one affinity slot
  per worker, and without measurements no more than the physical cores.
\<close>

theorem worker_schedule_bounded:
  assumes "plan_workers topology workload measured migrations p95 = Inr w"
  shows "1 \<le> ws_threads w \<and> affinity_hint w = [0..ws_threads w - 1]
    \<and> (\<forall>n. py_int (jget topology ''logical_cpus'') = Some n \<and> 1 \<le> n \<longrightarrow> ws_threads w \<le> n)
    \<and> (measured = [] \<longrightarrow> \<not> oversubscribed w)"
proof (cases "py_int (jget topology ''logical_cpus'')")
  case None
  then show ?thesis using assms by (auto simp: plan_workers_def one_worker_def)
next
  case (Some n)
  show ?thesis
  proof (cases "n < 1")
    case True
    then show ?thesis using assms Some by (auto simp: plan_workers_def one_worker_def)
  next
    case False
    then obtain selected where s: "measured_choice measured migrations p95 = Inr selected"
      using assms Some by (auto simp: plan_workers_def)
    have p: "1 \<le> physical_count topology n" using False by (auto simp: physical_count_def split: option.splits)
    have "selected = None" if "measured = []" using s that by (simp add: measured_choice_def)
    then show ?thesis using assms Some False s p by (auto simp: plan_workers_def Let_def clamp_threads_def)
  qed
qed

end
