(* ===== verification/Unified_Plan.thy ===== *)
theory Unified_Plan
  imports Py_Json
begin

text \<open>
  \<open>local_data_plane/execution_plan_v2.py\<close> (the unified execution plan and its validation),
  \<open>local_data_plane/microarchitecture.py\<close> (the plan that composes topology, benchmark, traversal
  and KV decisions) and \<open>local_data_plane/telemetry_levels.py\<close> (telemetry levels).

  The mappings the planners receive are payloads; a method called on a payload value that is no
  mapping raises \<open>AttributeError\<close>.
\<close>

type_synonym mapping = "(string \<times> pyval) list"

section \<open>Execution plans\<close>

definition EXECUTION_PLAN_V2_SCHEMA :: string where
  "EXECUTION_PLAN_V2_SCHEMA = ''simplicio-local.execution-plan/v2''"

record unified_plan =
  plan_payload :: mapping
  plan_digest :: string

definition unified_dict :: "unified_plan \<Rightarrow> mapping" where
  "unified_dict p = [(''schema'', PyStr EXECUTION_PLAN_V2_SCHEMA), (''digest'', PyStr (plan_digest p)), (''plan'', PyDict (plan_payload p))]"

record plan_inputs =
  in_model :: mapping
  in_artifact :: mapping
  in_topology :: mapping
  in_workers :: mapping
  in_kernel :: mapping
  in_placement :: mapping
  in_kv :: mapping
  in_mmap :: mapping
  in_residency :: mapping
  in_speculative :: mapping
  in_baseline :: mapping
  measured_generation :: "string option"

definition model_id_of :: "plan_inputs \<Rightarrow> string" where
  "model_id_of i = py_str (dget_or (in_model i) ''model_id'' (PyStr []))"

definition artifact_digest_of :: "plan_inputs \<Rightarrow> string" where
  "artifact_digest_of i = py_str (dget_or (in_artifact i) ''sha256'' (dget_or (in_artifact i) ''digest'' (PyStr [])))"

definition topology_digest_of :: "plan_inputs \<Rightarrow> string" where
  "topology_digest_of i = py_str (dget_or (in_topology i) ''fingerprint'' (PyStr []))"

definition selected_state :: "plan_inputs \<Rightarrow> string" where
  "selected_state i = (if \<not> truthy (jget (in_kv i) ''accepted'') \<or> \<not> truthy (dget_or (in_placement i) ''accepted'' (PyBool True))
     then ''cannot_fit'' else ''selected-plan'')"

definition payload_of_inputs :: "plan_inputs \<Rightarrow> mapping" where
  "payload_of_inputs i =
     [(''identity'', PyDict [(''model'', PyStr (model_id_of i)), (''artifact_sha256'', PyStr (artifact_digest_of i)),
        (''backend'', dget_or (in_model i) ''backend'' (dget_or (in_placement i) ''backend'' (PyStr ''unknown''))),
        (''topology_fingerprint'', PyStr (topology_digest_of i))]),
      (''workers'', PyDict (in_workers i)), (''kernel'', PyDict (in_kernel i)), (''placement'', PyDict (in_placement i)),
      (''kv'', PyDict (in_kv i)), (''mmap'', PyDict (in_mmap i)), (''residency'', PyDict (in_residency i)),
      (''speculative'', PyDict (in_speculative i)), (''baseline'', PyDict (in_baseline i)),
      (''fallback_ladder'', py_strs [''selected-plan'', ''cpu-baseline'', ''cannot_fit'']),
      (''selected_state'', PyStr (selected_state i)), (''measured_generation'', py_opt_str (measured_generation i)),
      (''observed_vs_estimated'', PyDict [(''observed'', PyDict []), (''estimated'', PyDict [])])]"

definition build_execution_plan :: "plan_inputs \<Rightarrow> unified_plan res" where
  "build_execution_plan i =
     (if model_id_of i = [] \<or> artifact_digest_of i = [] \<or> topology_digest_of i = []
      then Inl (ValueError ''model, artifact digest, and topology fingerprint are required'')
      else Inr \<lparr>plan_payload = payload_of_inputs i, plan_digest = json_digest (PyDict (payload_of_inputs i))\<rparr>)"

text \<open>\<open>set(kernel.get("isa_requirements", ()))\<close>: the strings of a list (or the characters of a string).\<close>

definition isa_set :: "pyval \<Rightarrow> pyval list res" where
  "isa_set v = rbind (opt_res (AttributeError ''get'') (py_dict v)) (\<lambda>d.
     case dget_or d ''isa_requirements'' (PyList []) of
       PyList xs \<Rightarrow> if list_ex (\<lambda>x. py_list x \<noteq> None \<or> py_dict x \<noteq> None) xs then Inl (TypeError ''unhashable type'') else Inr xs
     | PyStr s \<Rightarrow> Inr (List.map (\<lambda>c. PyStr [c]) s)
     | PyDict e \<Rightarrow> Inr (List.map (\<lambda>kv. PyStr (fst kv)) e)
     | _ \<Rightarrow> Inl (TypeError ''object is not iterable''))"

definition states_known :: "pyval list" where
  "states_known = [PyStr ''selected-plan'', PyStr ''cpu-baseline'', PyStr ''cannot_fit'']"

definition stale :: "pyval \<Rightarrow> string option \<Rightarrow> bool" where
  "stale planned current = (truthy planned \<and> (case current of None \<Rightarrow> False | Some c \<Rightarrow> c \<noteq> [] \<and> planned \<noteq> PyStr c))"

definition validate_execution_plan :: "unified_plan \<Rightarrow> string list option \<Rightarrow> string option \<Rightarrow> (bool \<times> string) res" where
  "validate_execution_plan p isa generation =
     (let d = plan_payload p; selected = jget d ''selected_state'' in
      if py_list selected \<noteq> None \<or> py_dict selected \<noteq> None then Inl (TypeError ''unhashable type'')
      else if selected \<notin> set states_known then Inr (False, ''invalid-selected-state'')
      else if selected = PyStr ''cannot_fit'' then Inr (False, ''cannot_fit'')
      else rbind (isa_set (dget_or d ''kernel'' (PyDict []))) (\<lambda>required.
        if (case isa of None \<Rightarrow> False | Some fs \<Rightarrow> \<not> set required \<subseteq> PyStr ` set fs) then Inr (False, ''unsupported-isa'')
        else if stale (jget d ''measured_generation'') generation then Inr (False, ''stale-tuning-generation'')
        else Inr (True, ''plan-valid'')))"

text \<open>
  A plan that is built validates exactly when the KV plan and the placement accept it, the host
  has every instruction set the kernel requires, and the tuning is of the current generation.
\<close>

theorem built_plan_validates:
  assumes "build_execution_plan i = Inr p" and "dget (in_kernel i) ''isa_requirements'' = Some (py_strs req)"
  shows "(\<exists>why. validate_execution_plan p (Some isa) generation = Inr (True, why)) \<longleftrightarrow>
      truthy (jget (in_kv i) ''accepted'') \<and> truthy (dget_or (in_placement i) ''accepted'' (PyBool True)) \<and> set req \<subseteq> set isa
      \<and> \<not> stale (py_opt_str (measured_generation i)) generation"
proof -
  have p: "plan_payload p = payload_of_inputs i" using assms(1) unfolding build_execution_plan_def by (auto split: if_splits)
  have f: "jget (payload_of_inputs i) ''selected_state'' = PyStr (selected_state i)"
      "dget_or (payload_of_inputs i) ''kernel'' (PyDict []) = PyDict (in_kernel i)"
      "jget (payload_of_inputs i) ''measured_generation'' = py_opt_str (measured_generation i)"
    by (simp_all add: payload_of_inputs_def jget_def dget_or_def)
  have k: "isa_set (PyDict (in_kernel i)) = Inr (List.map PyStr req)"
    using assms(2) by (auto simp: isa_set_def dget_or_def py_strs_def list_ex_iff)
  have sub: "PyStr ` set req \<subseteq> PyStr ` set isa \<longleftrightarrow> set req \<subseteq> set isa" by auto
  show ?thesis
    by (auto simp: validate_execution_plan_def Let_def p f k states_known_def selected_state_def sub)
qed

definition demo_inputs :: plan_inputs where
  "demo_inputs = \<lparr>in_model = [(''model_id'', PyStr ''m'')], in_artifact = [(''sha256'', PyStr ''d'')],
     in_topology = [(''fingerprint'', PyStr ''t'')], in_workers = [], in_kernel = [(''isa_requirements'', py_strs [''neon''])],
     in_placement = [], in_kv = [(''accepted'', PyBool True)], in_mmap = [], in_residency = [], in_speculative = [], in_baseline = [],
     measured_generation = None\<rparr>"

theorem built_plan_validates_witness:
  "\<exists>p why. build_execution_plan demo_inputs = Inr p \<and> validate_execution_plan p (Some [''neon'', ''dotprod'']) None = Inr (True, why)"
proof -
  obtain p where p: "build_execution_plan demo_inputs = Inr p"
    by (simp add: build_execution_plan_def model_id_of_def artifact_digest_of_def topology_digest_of_def demo_inputs_def dget_or_def)
  have k: "dget (in_kernel demo_inputs) ''isa_requirements'' = Some (py_strs [''neon''])" by (simp add: demo_inputs_def)
  from built_plan_validates[OF p k, of "[''neon'', ''dotprod'']" None]
  show ?thesis using p by (auto simp: demo_inputs_def jget_def dget_or_def stale_def py_opt_str_def)
qed

section \<open>Microarchitecture plans\<close>

definition MICROARCHITECTURE_PLAN_SCHEMA_V1 :: string where
  "MICROARCHITECTURE_PLAN_SCHEMA_V1 = ''simplicio-local.microarchitecture-plan/v1''"

record micro_plan =
  topology_fingerprint :: string
  bottleneck :: string
  traversal_mode :: string
  mp_prefetch_enabled :: bool
  mp_kv_policy :: string
  max_context :: int
  target_device :: string
  draft_device :: string
  mp_accepted :: bool
  mp_reason :: string
  mp_evidence :: "string list"

definition micro_dict :: "micro_plan \<Rightarrow> mapping" where
  "micro_dict p = [(''schema'', PyStr MICROARCHITECTURE_PLAN_SCHEMA_V1), (''topology_fingerprint'', PyStr (topology_fingerprint p)),
     (''bottleneck'', PyStr (bottleneck p)), (''traversal_mode'', PyStr (traversal_mode p)), (''prefetch_enabled'', PyBool (mp_prefetch_enabled p)),
     (''kv_policy'', PyStr (mp_kv_policy p)), (''max_context'', PyInt (max_context p)), (''target_device'', PyStr (target_device p)),
     (''draft_device'', PyStr (draft_device p)), (''accepted'', PyBool (mp_accepted p)), (''reason'', PyStr (mp_reason p)),
     (''evidence'', py_strs (mp_evidence p))]"

text \<open>\<open>(v or {}).get(k, d)\<close>.\<close>

definition or_empty_get :: "pyval \<Rightarrow> string \<Rightarrow> pyval \<Rightarrow> pyval res" where
  "or_empty_get v k dflt = (if \<not> truthy v then Inr dflt
     else rbind (opt_res (AttributeError ''get'') (py_dict v)) (\<lambda>d. Inr (dget_or d k dflt)))"

text \<open>\<open>cases[0].get("roofline")\<close> of a truthy value.\<close>

definition first_roofline :: "pyval \<Rightarrow> pyval res" where
  "first_roofline cases = (case cases of
      PyList (PyDict c # _) \<Rightarrow> Inr (jget c ''roofline'')
    | PyList (_ # _) \<Rightarrow> Inl (AttributeError ''get'')
    | PyStr _ \<Rightarrow> Inl (AttributeError ''get'')
    | PyDict _ \<Rightarrow> Inl (KeyError ''0'')
    | _ \<Rightarrow> Inl (TypeError ''object is not subscriptable''))"

definition bottleneck_of :: "mapping \<Rightarrow> string res" where
  "bottleneck_of baseline = (let cases = dget_or baseline ''cases'' (PyList []) in
     if \<not> truthy cases then Inr ''unavailable''
     else rbind (first_roofline cases) (\<lambda>r. rbind (or_empty_get r ''classification'' (PyStr ''unavailable'')) (\<lambda>c. Inr (py_str c))))"

definition plan_micro :: "mapping \<Rightarrow> mapping \<Rightarrow> mapping \<Rightarrow> mapping \<Rightarrow> mapping \<Rightarrow> micro_plan res" where
  "plan_micro topology baseline traversal kv execution =
     (let fingerprint = py_str (dget_or topology ''fingerprint'' (PyStr []));
          measured = (jget baseline ''status'' = PyStr ''measured'');
          prefetch = (truthy (dget_or traversal ''prefetch_enabled'' (PyBool False)) \<and> measured);
          accepted = (truthy (jget kv ''accepted'') \<and> truthy (jget execution ''accepted''));
          fmt = dget_or kv ''format'' (PyStr ''unknown'') in
      if jget topology ''schema'' \<noteq> PyStr ''simplicio-local.hardware-topology/v1''
      then Inl (ValueError ''a versioned hardware topology is required'')
      else if fingerprint = [] then Inl (ValueError ''topology fingerprint is required'')
      else rbind (bottleneck_of baseline) (\<lambda>bn.
        rbind (or_empty_get (jget kv ''format'') ''name'' fmt) (\<lambda>policy.
        rbind (to_int (dget_or kv ''max_context'' (PyInt 0))) (\<lambda>ctx.
        rbind (or_empty_get (jget execution ''placement'') ''draft_device'' (PyStr ''none'')) (\<lambda>draft.
          Inr \<lparr>topology_fingerprint = fingerprint, bottleneck = bn,
            traversal_mode = (if prefetch then ''cache-aware'' else ''upstream-fallback''), mp_prefetch_enabled = prefetch,
            mp_kv_policy = py_str policy, max_context = ctx, target_device = py_str (dget_or execution ''backend'' (PyStr ''none'')),
            draft_device = py_str draft, mp_accepted = accepted,
            mp_reason = (if accepted then ''measured plan accepted'' else ''baseline-safe fallback: memory or execution plan rejected'')
              @ (if measured then [] else ''; benchmark evidence unavailable, optimization remains disabled''),
            mp_evidence = [''topology:'' @ fingerprint, ''roofline:'' @ bn, ''cache-observation-not-pinning'', ''kv:'' @ py_str fmt]\<rparr>)))))"

text \<open>
  Prefetching is never enabled without a measured benchmark, and a plan is accepted exactly when the
  KV plan and the execution plan are.
\<close>

theorem micro_plan_needs_evidence:
  assumes "plan_micro topology baseline traversal kv execution = Inr p"
  shows "(mp_prefetch_enabled p \<longrightarrow> jget baseline ''status'' = PyStr ''measured'')
    \<and> (mp_accepted p \<longleftrightarrow> truthy (jget kv ''accepted'') \<and> truthy (jget execution ''accepted''))
    \<and> (traversal_mode p = ''cache-aware'' \<longleftrightarrow> mp_prefetch_enabled p)"
  using assms unfolding plan_micro_def Let_def if_Inl_eq_Inr rbind_eq_Inr sum.inject by (elim exE conjE) (erule subst, simp)

section \<open>Telemetry levels\<close>

definition TELEMETRY_SCHEMA_V1 :: string where
  "TELEMETRY_SCHEMA_V1 = ''simplicio-local.telemetry-levels/v1''"

datatype telemetry_level = MINIMAL | STANDARD | DEEP

fun level_name :: "telemetry_level \<Rightarrow> string" where
  "level_name MINIMAL = ''minimal''"
| "level_name STANDARD = ''standard''"
| "level_name DEEP = ''deep''"

definition level_of :: "string \<Rightarrow> telemetry_level option" where
  "level_of s = find (\<lambda>l. level_name l = s) [MINIMAL, STANDARD, DEEP]"

definition minimal_metrics :: "string list" where
  "minimal_metrics = [''tok_s'', ''ttft_ms'', ''peak_memory_bytes'', ''acceptance_rate'', ''plan_digest'']"

definition standard_metrics :: "string list" where
  "standard_metrics = minimal_metrics @ [''bandwidth_class'', ''transfer_bytes'', ''kv_bytes_per_token'', ''placement'']"

fun METRICS :: "telemetry_level \<Rightarrow> string list" where
  "METRICS MINIMAL = minimal_metrics"
| "METRICS STANDARD = standard_metrics"
| "METRICS DEEP = standard_metrics @ [''ipc'', ''cache_misses'', ''energy_per_token'', ''roofline'']"

record telemetry_receipt =
  requested_level :: telemetry_level
  effective_level :: telemetry_level
  available_metrics :: "string list"
  unavailable :: "(string \<times> string) list"
  overhead_ms :: "pyfloat option"
  budget_ms :: pyfloat
  tr_metrics :: mapping

definition telemetry_dict :: "telemetry_receipt \<Rightarrow> mapping" where
  "telemetry_dict r = [(''schema'', PyStr TELEMETRY_SCHEMA_V1), (''requested'', PyStr (level_name (requested_level r))),
     (''effective'', PyStr (level_name (effective_level r))), (''available_metrics'', py_strs (available_metrics r)),
     (''unavailable'', PyDict (List.map (\<lambda>(k, v). (k, PyStr v)) (unavailable r))),
     (''overhead_ms'', case overhead_ms r of None \<Rightarrow> PyNone | Some x \<Rightarrow> PyFloat x), (''budget_ms'', PyFloat (budget_ms r)),
     (''metrics'', PyDict (tr_metrics r))]"

definition degrade :: "telemetry_level \<Rightarrow> bool \<Rightarrow> telemetry_level" where
  "degrade requested over =
     (let effective = (if over \<and> requested = DEEP then STANDARD else requested)
      in if over \<and> effective = STANDARD then MINIMAL else effective)"

definition level_metrics :: "telemetry_level \<Rightarrow> mapping \<Rightarrow> mapping" where
  "level_metrics level available = List.map (\<lambda>k. (k, jget available k)) (filter (\<lambda>k. dget available k \<noteq> None) (METRICS level))"

definition receipt_at :: "telemetry_level \<Rightarrow> telemetry_level \<Rightarrow> mapping \<Rightarrow> pyfloat option \<Rightarrow> pyfloat \<Rightarrow> telemetry_receipt" where
  "receipt_at requested effective available overhead budget =
     (let metrics = level_metrics effective available in
      \<lparr>requested_level = requested, effective_level = effective, available_metrics = sort (dkeys metrics),
       unavailable = List.map (\<lambda>k. (k, ''metric unavailable or unsupported at effective level''))
         (filter (\<lambda>k. k \<notin> set (dkeys metrics)) (METRICS effective)),
       overhead_ms = overhead, budget_ms = budget, tr_metrics = metrics\<rparr>)"

definition over_budget :: "pyfloat option \<Rightarrow> pyfloat \<Rightarrow> bool" where
  "over_budget overhead budget = (case overhead of None \<Rightarrow> False | Some x \<Rightarrow> flt budget x)"

definition collect_telemetry :: "string \<Rightarrow> mapping \<Rightarrow> pyfloat option \<Rightarrow> pyfloat \<Rightarrow> telemetry_receipt res" where
  "collect_telemetry requested available overhead budget =
     rbind (opt_res (ValueError ''requested telemetry level must be minimal, standard, or deep'') (level_of requested)) (\<lambda>level.
       if flt budget (Fin 0) then Inl (ValueError ''telemetry budget must be non-negative'')
       else Inr (receipt_at level (degrade level (over_budget overhead budget)) available overhead budget))"

text \<open>
  Every metric of the effective level is either reported, with the value that was measured, or
  listed as unavailable; over its budget the collector falls back to the minimal metrics.
\<close>

theorem telemetry_accounts_for_metrics:
  assumes "collect_telemetry requested available overhead budget = Inr r"
  shows "set (METRICS (effective_level r)) = set (dkeys (tr_metrics r)) \<union> set (dkeys (unavailable r))
    \<and> set (dkeys (tr_metrics r)) \<inter> set (dkeys (unavailable r)) = {}
    \<and> (\<forall>(k, v) \<in> set (tr_metrics r). dget available k = Some v)
    \<and> (over_budget overhead budget \<longrightarrow> effective_level r = MINIMAL)"
proof -
  obtain level where "r = receipt_at level (degrade level (over_budget overhead budget)) available overhead budget"
    using assms by (auto simp: collect_telemetry_def split: if_splits)
  moreover define eff where "eff = degrade level (over_budget overhead budget)"
  ultimately have r: "r = receipt_at level eff available overhead budget" by simp
  have f: "effective_level r = eff" "tr_metrics r = level_metrics eff available"
      "set (dkeys (unavailable r)) = {k \<in> set (METRICS eff). k \<notin> set (dkeys (level_metrics eff available))}"
    unfolding r by (simp_all add: receipt_at_def Let_def image_image)
  have "degrade level True = MINIMAL" by (cases level) (simp_all add: degrade_def)
  then have "over_budget overhead budget \<longrightarrow> eff = MINIMAL" by (simp add: eff_def)
  moreover have "\<forall>(k, v) \<in> set (level_metrics eff available). dget available k = Some v"
    by (auto simp: level_metrics_def jget_def dget_or_def)
  moreover have "set (dkeys (level_metrics eff available)) \<subseteq> set (METRICS eff)" by (auto simp: level_metrics_def)
  ultimately show ?thesis unfolding f by blast
qed

end
