(* ===== verification/Promotion_Gates.thy ===== *)
theory Promotion_Gates
  imports Registry
begin

text \<open>
  The gates an optimisation passes before it is used: \<open>local_data_plane/fused_contraction.py\<close>,
  \<open>qphys.py\<close>, \<open>kv_compression.py\<close>, \<open>qwen.py\<close>, \<open>mlx.py\<close> and the release gates of \<open>conformance.py\<close>.
\<close>

section \<open>Fused contraction\<close>

record fused_plan =
  fp_representation :: string
  tile_m :: int
  tile_n :: int
  fp_scratch_bytes :: int
  accumulator_bytes :: int
  fused :: bool
  fp_accepted :: bool
  fp_reason :: string

definition meets :: "pyfloat \<Rightarrow> pyfloat option \<Rightarrow> bool" where
  "meets tolerance err = (case err of None \<Rightarrow> False | Some e \<Rightarrow> fle e tolerance)"

definition gain_above :: "rat \<Rightarrow> pyfloat option \<Rightarrow> bool" where
  "gain_above r gain = (case gain of None \<Rightarrow> False | Some g \<Rightarrow> flt (lit r) g)"

definition fused_reason :: "bool \<Rightarrow> bool \<Rightarrow> bool \<Rightarrow> bool \<Rightarrow> string" where
  "fused_reason promoted isa_supported over_budget good =
     (if promoted then ''fused contraction promoted by bounds, quality, ISA, scratch, and measurement gates''
      else if \<not> isa_supported then ''ISA unsupported; reference factor path selected''
      else if over_budget then ''scratch budget exceeded; dense materialization prohibited''
      else if \<not> good then ''quality evidence missing or outside tolerance''
      else ''no measured gain; reference factor path selected'')"

definition plan_fused_contraction ::
    "string \<Rightarrow> pyval list \<Rightarrow> pyval list \<Rightarrow> pyval \<Rightarrow> pyval \<Rightarrow> pyval \<Rightarrow> pyval \<Rightarrow> bool \<Rightarrow> pyfloat option \<Rightarrow> pyfloat option \<Rightarrow> pyfloat \<Rightarrow> fused_plan res" where
  "plan_fused_contraction rep dims rks tm tn budget acc isa_supported gain err tolerance =
     (let vals = dims @ rks @ [tm, tn, budget, acc] in
      if list_ex (bad_int 1) vals then Inl (ValueError ''dimensions, ranks, tile, and budgets must be positive integers'')
      else if rep = [] \<or> length dims > 8 \<or> length rks > 8 then Inl (ValueError ''representation and bounded dimensions are required'')
      else if list_ex (\<lambda>v. int_of_val v > 2 ^ 31) vals then Inl (OverflowError ''tensor dimension exceeds bounded contraction range'')
      else let m = int_of_val tm; n = int_of_val tn; a = int_of_val acc; scratch = m * n * a; over = (scratch > int_of_val budget);
          good = meets tolerance err; promoted = (isa_supported \<and> \<not> over \<and> good \<and> gain_above (2 / 100) gain)
        in Inr \<lparr>fp_representation = rep, tile_m = m, tile_n = n, fp_scratch_bytes = scratch, accumulator_bytes = a, fused = promoted,
             fp_accepted = True, fp_reason = fused_reason promoted isa_supported over good\<rparr>)"

definition healthy_path_materializes_dense :: "fused_plan \<Rightarrow> bool" where
  "healthy_path_materializes_dense p = False"

text \<open>A fused plan fits its scratch budget, and the scratch of any plan is below \<open>2 ^ 93\<close> bytes.\<close>

theorem fused_plan_bounded:
  assumes "plan_fused_contraction rep dims rks tm tn budget acc isa_ok gain err tolerance = Inr p"
  shows "fp_scratch_bytes p = tile_m p * tile_n p * accumulator_bytes p
    \<and> 0 < fp_scratch_bytes p \<and> fp_scratch_bytes p \<le> 2 ^ 93
    \<and> (fused p \<longleftrightarrow> isa_ok \<and> fp_scratch_bytes p \<le> int_of_val budget \<and> meets tolerance err \<and> gain_above (2 / 100) gain)"
proof -
  let ?m = "int_of_val tm" and ?n = "int_of_val tn" and ?a = "int_of_val acc"
  let ?vals = "dims @ rks @ [tm, tn, budget, acc]"
  have ok: "\<not> list_ex (bad_int 1) ?vals" and small: "\<not> list_ex (\<lambda>v. int_of_val v > 2 ^ 31) ?vals"
    using assms unfolding plan_fused_contraction_def Let_def by (auto split: if_splits)
  have pos: "1 \<le> ?m" "1 \<le> ?n" "1 \<le> ?a" by (rule all_good_int[OF ok]; simp)+
  have le: "?m \<le> 2 ^ 31" "?n \<le> 2 ^ 31" "?a \<le> 2 ^ 31" using small by auto
  have "?m * ?n \<le> 2 ^ 31 * 2 ^ 31" using pos le by (intro mult_mono) auto
  then have "?m * ?n * ?a \<le> (2 ^ 31 * 2 ^ 31) * 2 ^ 31" using pos le by (intro mult_mono) auto
  moreover have "0 < ?m * ?n * ?a" using pos by simp
  moreover have "fp_scratch_bytes p = ?m * ?n * ?a" "tile_m p = ?m" "tile_n p = ?n" "accumulator_bytes p = ?a"
      "fused p \<longleftrightarrow> isa_ok \<and> \<not> ?m * ?n * ?a > int_of_val budget \<and> meets tolerance err \<and> gain_above (2 / 100) gain"
    using assms unfolding plan_fused_contraction_def Let_def by (auto split: if_splits)
  ultimately show ?thesis by auto
qed

section \<open>Factorised representations\<close>

definition METHODS :: "string list" where
  "METHODS = [''low_rank'', ''tensor_train'', ''mps'', ''mpo'', ''tucker'', ''tensor_ring'']"

record factorized =
  qp_method :: string
  original_shape :: "int list"
  qp_ranks :: "int list"
  quant_bits :: int
  materialize_full_precision :: bool

definition validate_factorized :: "factorized \<Rightarrow> unit res" where
  "validate_factorized f =
     (if qp_method f \<notin> set METHODS then Inl (ValueError ''unsupported QPHYS method'')
      else if original_shape f = [] \<or> list_ex (\<lambda>v. v < 1) (original_shape f) then Inl (ValueError ''original_shape must contain positive dimensions'')
      else if qp_ranks f = [] \<or> list_ex (\<lambda>v. v < 1) (qp_ranks f) then Inl (ValueError ''ranks must contain positive dimensions'')
      else if quant_bits f \<notin> set [2, 3, 4, 8, 16] then Inl (ValueError ''quant_bits is unsupported'')
      else if materialize_full_precision f then Inl (ValueError ''QPHYS representation cannot materialize full precision weights'')
      else Inr ())"

record qphys_promotion =
  qp_accepted :: bool
  promoted_method :: string
  qp_reason :: string
  qp_representation :: "factorized option"
  quality_drop :: pyfloat
  memory_reduction :: pyfloat
  qp_speedup :: "pyfloat option"

text \<open>\<open>m / n\<close> of two integers is the nearest float.\<close>

definition int_truediv :: "int \<Rightarrow> int \<Rightarrow> pyfloat res" where
  "int_truediv m n = (if n = 0 then Inl ZeroDivisionError
     else case fl (of_int m / of_int n) of Fin r \<Rightarrow> Inr (Fin r) | _ \<Rightarrow> Inl (OverflowError ''integer division result too large for a float''))"

definition speedup_of :: "pyfloat option \<Rightarrow> pyfloat option \<Rightarrow> pyfloat option res" where
  "speedup_of base cand = (case (base, cand) of
      (Some b, Some c) \<Rightarrow> if feq b (Fin 0) then Inr None
        else rbind (opt_res ZeroDivisionError (fdiv c b)) (\<lambda>q. Inr (Some (fsub q (Fin 1))))
    | _ \<Rightarrow> Inr None)"

definition qphys_outcome :: "factorized \<Rightarrow> pyfloat \<Rightarrow> pyfloat \<Rightarrow> pyfloat \<Rightarrow> pyfloat \<Rightarrow> pyfloat option \<Rightarrow> qphys_promotion" where
  "qphys_outcome f max_drop min_reduction dq reduction speedup =
     (let ok = (fle dq max_drop \<and> fle min_reduction reduction) in
      \<lparr>qp_accepted = ok, promoted_method = qp_method f,
       qp_reason = (if ok then ''quality and memory gates passed'' else ''QPHYS candidate remains experimental; promotion gates failed''),
       qp_representation = (if ok then Some f else None), quality_drop = dq, memory_reduction = reduction, qp_speedup = speedup\<rparr>)"

definition promote_qphys ::
    "pyfloat \<Rightarrow> pyfloat \<Rightarrow> int \<Rightarrow> int \<Rightarrow> pyfloat option \<Rightarrow> pyfloat option \<Rightarrow> factorized \<Rightarrow> pyfloat \<Rightarrow> pyfloat \<Rightarrow> qphys_promotion res" where
  "promote_qphys base_q cand_q base_bytes cand_bytes base_tok cand_tok f max_drop min_reduction =
     rbind (validate_factorized f) (\<lambda>_.
     if base_bytes \<le> 0 \<or> cand_bytes \<le> 0 \<or> fle base_q (Fin 0) \<or> fle cand_q (Fin 0)
     then Inl (ValueError ''baseline and candidate measurements must be positive'')
     else rbind (opt_res ZeroDivisionError (fdiv (fsub base_q cand_q) base_q)) (\<lambda>dq.
       rbind (int_truediv cand_bytes base_bytes) (\<lambda>ratio. rbind (speedup_of base_tok cand_tok) (\<lambda>speedup.
         Inr (qphys_outcome f max_drop min_reduction dq (fsub (Fin 1) ratio) speedup)))))"

section \<open>KV compression\<close>

record kv_observation =
  quality_delta :: pyfloat
  ttft_delta :: pyfloat
  generation_delta :: pyfloat
  compression_ratio :: pyfloat
  kc_scratch_bytes :: int
  kc_measured :: bool

record kv_compression_plan =
  recent_policy :: string
  cold_policy :: string
  kc_identity_key :: string
  kc_accepted :: bool
  kc_reason :: string
  kc_observation :: kv_observation

definition identity_key :: "string \<Rightarrow> string \<Rightarrow> string \<Rightarrow> string \<Rightarrow> string \<Rightarrow> string" where
  "identity_key model tokenizer template session prefix = sha256_hex (ascii_bytes (json_dumps json_str '', '' '': '' True
     (PyDict [(''model'', PyStr model), (''tokenizer'', PyStr tokenizer), (''template'', PyStr template), (''session'', PyStr session),
        (''prefix'', PyStr prefix)])))"

definition kv_gates :: "kv_observation \<Rightarrow> pyfloat \<Rightarrow> pyfloat \<Rightarrow> pyfloat \<Rightarrow> pyfloat \<Rightarrow> bool" where
  "kv_gates obs quality ttft generation ratio \<longleftrightarrow> fle (fneg quality) (quality_delta obs) \<and> fle (ttft_delta obs) ttft
     \<and> fle (fneg generation) (generation_delta obs) \<and> fle ratio (compression_ratio obs) \<and> 0 \<le> kc_scratch_bytes obs"

definition select_kv_compression ::
    "string \<Rightarrow> kv_observation \<Rightarrow> pyfloat \<Rightarrow> pyfloat \<Rightarrow> pyfloat \<Rightarrow> pyfloat \<Rightarrow> kv_compression_plan" where
  "select_kv_compression key obs quality ttft generation ratio =
     (let ok = (kc_measured obs \<and> kv_gates obs quality ttft generation ratio) in
      \<lparr>recent_policy = ''reference_recent_window'', cold_policy = (if ok then ''factorized_quantized_cold'' else ''reference_cold''),
       kc_identity_key = key, kc_accepted = ok,
       kc_reason = (if \<not> kc_measured obs then ''unmeasured KV compression remains experimental/off''
         else if ok then ''cold KV factorization passed quality/latency/compression gates''
         else ''KV compression regressed or lacks ratio evidence''), kc_observation = obs\<rparr>)"

text \<open>Neither representation replaces the reference without evidence within the tolerances.\<close>

lemma promoted_representation:
  assumes "promote_qphys base_q cand_q base_bytes cand_bytes base_tok cand_tok f max_drop min_reduction = Inr q"
  shows "qp_accepted q \<longleftrightarrow> fle (quality_drop q) max_drop \<and> fle min_reduction (memory_reduction q)"
    and "qp_representation q = (if qp_accepted q then Some f else None)" and "validate_factorized f = Inr ()"
proof -
  obtain dq reduction speedup where v: "validate_factorized f = Inr ()"
    and q: "q = qphys_outcome f max_drop min_reduction dq reduction speedup"
    using assms unfolding promote_qphys_def rbind_eq_Inr if_Inl_eq_Inr sum.inject by auto
  show "validate_factorized f = Inr ()" by (rule v)
  show "qp_accepted q \<longleftrightarrow> fle (quality_drop q) max_drop \<and> fle min_reduction (memory_reduction q)"
    "qp_representation q = (if qp_accepted q then Some f else None)" unfolding q qphys_outcome_def Let_def by simp_all
qed

lemma cold_factorization_needs_evidence:
  "cold_policy (select_kv_compression key obs quality ttft generation ratio) = ''factorized_quantized_cold'' \<longleftrightarrow>
     kc_measured obs \<and> kv_gates obs quality ttft generation ratio"
  unfolding select_kv_compression_def Let_def by simp

section \<open>Qwen hybrid state\<close>

record qwen_state =
  qw_model_id :: string
  weights_ref :: string
  attention_kv_ref :: string
  recurrent_state_ref :: string
  mtp_state_ref :: string

definition qwen_refs :: "qwen_state \<Rightarrow> string list" where
  "qwen_refs s = [weights_ref s, attention_kv_ref s, recurrent_state_ref s, mtp_state_ref s]"

definition validate_qwen :: "qwen_state \<Rightarrow> unit res" where
  "validate_qwen s =
     (if qw_model_id s = [] \<or> [] \<in> set (qwen_refs s) then Inl (ValueError ''Qwen hybrid state requires all four component references'')
      else if \<not> distinct (qwen_refs s) then Inl (ValueError ''Qwen hybrid state components must not alias one another'')
      else Inr ())"

record qwen_probe =
  qp_architecture :: "string option"
  recurrent_layers :: "int option"
  mtp_depth :: "int option"
  hybrid :: bool
  probe_reason :: string

definition probe_metadata :: "(string \<times> pyval) list \<Rightarrow> qwen_probe" where
  "probe_metadata d = (case py_string (jget d ''architecture'') of
      None \<Rightarrow> \<lparr>qp_architecture = None, recurrent_layers = None, mtp_depth = None, hybrid = False, probe_reason = ''architecture metadata is missing''\<rparr>
    | Some a \<Rightarrow> (case (py_int (jget d ''recurrent_layers''), py_int (jget d ''mtp_depth'')) of
        (Some r, Some m) \<Rightarrow> \<lparr>qp_architecture = Some a, recurrent_layers = Some r, mtp_depth = Some m, hybrid = (0 < r \<or> 0 < m),
          probe_reason = ''architecture metadata is explicit''\<rparr>
      | _ \<Rightarrow> \<lparr>qp_architecture = Some a, recurrent_layers = None, mtp_depth = None, hybrid = False,
          probe_reason = ''recurrent_layers and mtp_depth metadata are required''\<rparr>))"

record qwen_promotion =
  qw_promoted :: bool
  qw_evidence_level :: evidence_level
  requested_model :: string
  effective_model :: "string option"
  qw_reason :: string
  qw_state :: "qwen_state option"

definition not_promoted :: "evidence_level \<Rightarrow> string \<Rightarrow> string \<Rightarrow> qwen_promotion" where
  "not_promoted level model why = \<lparr>qw_promoted = False, qw_evidence_level = level, requested_model = model, effective_model = None,
     qw_reason = why, qw_state = None\<rparr>"

definition promote_hybrid ::
    "string \<Rightarrow> (string \<times> pyval) list \<Rightarrow> qwen_state \<Rightarrow> string list \<Rightarrow> string list \<Rightarrow> evidence_level \<Rightarrow> qwen_promotion" where
  "promote_hybrid model metadata s reference candidate level = (case validate_qwen s of
      Inl e \<Rightarrow> not_promoted level model (exc_message e)
    | Inr _ \<Rightarrow>
        if \<not> hybrid (probe_metadata metadata) then not_promoted level model (probe_reason (probe_metadata metadata))
        else if reference \<noteq> candidate then not_promoted level model ''hybrid output parity failed''
        else if level < FIXTURE_EXECUTED then not_promoted level model ''observed execution evidence is required''
        else \<lparr>qw_promoted = True, qw_evidence_level = level, requested_model = model, effective_model = Some model,
               qw_reason = ''explicit architecture and output parity passed'', qw_state = Some s\<rparr>)"

section \<open>MLX\<close>

record mlx_host =
  mlx_system :: string
  mlx_machine :: string
  mlx_spec_found :: bool
  mlx_native_file :: bool

record mlx_probe =
  apple_silicon :: bool
  mlx_lm_importable :: bool
  native_source_present :: bool
  mlx_available :: bool
  mlx_reason :: string

definition probe_mlx :: "mlx_host \<Rightarrow> mlx_probe" where
  "probe_mlx h =
     (let apple = (mlx_system h = ''Darwin'' \<and> lower (mlx_machine h) \<in> set [''arm64'', ''aarch64'']) in
      if \<not> apple then \<lparr>apple_silicon = False, mlx_lm_importable = mlx_spec_found h, native_source_present = mlx_native_file h,
        mlx_available = False, mlx_reason = ''MLX requires Apple Silicon''\<rparr>
      else if \<not> mlx_spec_found h then \<lparr>apple_silicon = True, mlx_lm_importable = False, native_source_present = mlx_native_file h,
        mlx_available = False, mlx_reason = ''mlx_lm is not importable''\<rparr>
      else \<lparr>apple_silicon = True, mlx_lm_importable = True, native_source_present = mlx_native_file h, mlx_available = True,
        mlx_reason = ''MLX-LM import probe passed''\<rparr>)"

record mlx_promotion =
  promoted :: bool
  promoted_level :: evidence_level
  promotion_reason :: string
  mlx_requested :: string
  mlx_effective :: "string option"
  artifact_refs :: "string list"

definition refuse_mlx :: "evidence_level \<Rightarrow> string \<Rightarrow> mlx_promotion" where
  "refuse_mlx level why = \<lparr>promoted = False, promoted_level = level, promotion_reason = why, mlx_requested = ''mlx'',
     mlx_effective = None, artifact_refs = []\<rparr>"

definition accept_mlx :: "evidence_level \<Rightarrow> string \<Rightarrow> string \<Rightarrow> mlx_promotion" where
  "accept_mlx level why artifact = \<lparr>promoted = True, promoted_level = level, promotion_reason = why, mlx_requested = ''mlx'',
     mlx_effective = Some ''mlx'', artifact_refs = [artifact]\<rparr>"

definition promote_fixture :: "string list \<Rightarrow> string list \<Rightarrow> string \<Rightarrow> mlx_promotion" where
  "promote_fixture reference candidate artifact =
     (if reference \<noteq> candidate then refuse_mlx SOURCE_PRESENT ''fixture output mismatch''
      else accept_mlx FIXTURE_EXECUTED ''fixture parity passed'' artifact)"

definition promote_real_model :: "string list \<Rightarrow> string list \<Rightarrow> string \<Rightarrow> string \<Rightarrow> pyfloat \<Rightarrow> string \<Rightarrow> mlx_promotion" where
  "promote_real_model reference candidate model hardware elapsed artifact =
     (if model = [] \<or> hardware = [] \<or> flt elapsed (Fin 0) then refuse_mlx FIXTURE_EXECUTED ''model, hardware and timing are required''
      else if reference \<noteq> candidate then refuse_mlx FIXTURE_EXECUTED ''real-model parity mismatch''
      else accept_mlx REAL_MODEL_EXECUTED (''real model parity passed on '' @ hardware) artifact)"

text \<open>\<open>f"{x:.3f}"\<close>: the exact value rounded half to even to three decimals.\<close>

definition pad3 :: "int \<Rightarrow> string" where
  "pad3 n = (let s = str_of_int n in replicate (3 - length s) (CHR ''0'') @ s)"

fun fixed3 :: "pyfloat \<Rightarrow> string" where
  "fixed3 (Fin r) = (let (p, q) = quotient_of \<bar>r\<bar>; n = round_div (p * 1000) q in
     (if r < 0 then ''-'' else []) @ str_of_int (n div 1000) @ ''.'' @ pad3 (n mod 1000))"
| "fixed3 PosInf = ''inf''"
| "fixed3 NegInf = ''-inf''"
| "fixed3 NaN = ''nan''"

definition tokens_per_second :: "int \<Rightarrow> pyfloat \<Rightarrow> pyfloat res" where
  "tokens_per_second tokens elapsed =
     rbind (opt_res ZeroDivisionError (fdiv elapsed (Fin 1000))) (\<lambda>s.
     rbind (opt_res (OverflowError ''int too large to convert to float'') (float_of_int tokens)) (\<lambda>n.
       opt_res ZeroDivisionError (fdiv n s)))"

definition promote_benchmark :: "mlx_promotion \<Rightarrow> string \<Rightarrow> string \<Rightarrow> int \<Rightarrow> pyfloat \<Rightarrow> string \<Rightarrow> mlx_promotion res" where
  "promote_benchmark run hardware model tokens elapsed artifact =
     (if \<not> promoted run \<or> promoted_level run < REAL_MODEL_EXECUTED
      then Inr (refuse_mlx (promoted_level run) ''real-model evidence is required before benchmark promotion'')
      else if hardware = [] \<or> model = [] \<or> tokens \<le> 0 \<or> fle elapsed (Fin 0)
      then Inr (refuse_mlx (promoted_level run) ''benchmark metadata is incomplete'')
      else rbind (tokens_per_second tokens elapsed) (\<lambda>x.
        Inr (accept_mlx BENCHMARKED_ON_TARGET (fixed3 x @ '' tokens/s observed'') artifact)))"

text \<open>A backend reaches the benchmarked level only over outputs that matched on a named model and machine.\<close>

theorem benchmark_needs_real_parity:
  assumes "promote_benchmark (promote_real_model reference candidate model hardware elapsed artifact) hw m tokens ms a = Inr p"
    and "promoted p"
  shows "reference = candidate \<and> model \<noteq> [] \<and> hardware \<noteq> [] \<and> 0 < tokens \<and> \<not> fle ms (Fin 0) \<and> promoted_level p = BENCHMARKED_ON_TARGET"
proof -
  let ?r = "promote_real_model reference candidate model hardware elapsed artifact"
  have r: "promoted ?r" and t: "0 < tokens" "\<not> fle ms (Fin 0)"
    using assms by (auto simp: promote_benchmark_def refuse_mlx_def split: if_splits)
  have "promoted_level p = BENCHMARKED_ON_TARGET"
    using assms by (auto simp: promote_benchmark_def refuse_mlx_def accept_mlx_def split: if_splits)
  with r t show ?thesis by (auto simp: promote_real_model_def refuse_mlx_def split: if_splits)
qed

section \<open>Release conformance\<close>

definition CONFORMANCE_SCHEMA_V1 :: string where
  "CONFORMANCE_SCHEMA_V1 = ''simplicio-local.release-conformance/v1''"

record gate =
  gate_name :: string
  gate_passed :: bool
  gate_reason :: string
  waiver_allowed :: bool

definition hard_gate :: "string \<Rightarrow> bool \<Rightarrow> string \<Rightarrow> string \<Rightarrow> gate" where
  "hard_gate name ok good bad = \<lparr>gate_name = name, gate_passed = ok, gate_reason = (if ok then good else bad), waiver_allowed = False\<rparr>"

definition endpoint_gate :: "(string \<times> pyval) list \<Rightarrow> string \<Rightarrow> gate" where
  "endpoint_gate endpoints name = (if jget endpoints name = PyBool False
     then \<lparr>gate_name = ''endpoint:'' @ name, gate_passed = True, gate_reason = ''endpoint not supported by backend'', waiver_allowed = True\<rparr>
     else hard_gate (''endpoint:'' @ name) (jget endpoints name = PyBool True) ''endpoint smoke passed'' ''endpoint smoke missing'')"

text \<open>\<open>evidence.get(k, {})\<close> of which \<open>.get\<close> is called.\<close>

definition sub_mapping :: "(string \<times> pyval) list \<Rightarrow> string \<Rightarrow> (string \<times> pyval) list res" where
  "sub_mapping d k = opt_res (AttributeError ''get'') (py_dict (dget_or d k (PyDict [])))"

definition chaos_mapping :: "(string \<times> pyval) list \<Rightarrow> (string \<times> pyval) list res" where
  "chaos_mapping d = (let v = jget d ''chaos'' in if \<not> truthy v then Inr [] else opt_res (AttributeError ''get'') (py_dict v))"

definition chaos_gate :: "(string \<times> pyval) list \<Rightarrow> string \<Rightarrow> gate res" where
  "chaos_gate ev case_name = rbind (chaos_mapping ev) (\<lambda>chaos.
     Inr (hard_gate (''chaos:'' @ case_name) (truthy (dget_or chaos case_name (PyBool False))) ''chaos case handled'' ''chaos case failed''))"

definition base_gates :: "(string \<times> pyval) list \<Rightarrow> (string \<times> pyval) list \<Rightarrow> gate list" where
  "base_gates ev endpoints =
     [hard_gate ''correctness'' (truthy (jget ev ''correctness'')) ''backend-compatible output equivalence'' ''correctness evidence missing'']
     @ List.map (endpoint_gate endpoints) [''models'', ''chat_completions'', ''completions'']
     @ [hard_gate ''baseline-available'' (truthy (jget ev ''baseline_available'')) ''baseline fallback is present'' ''baseline fallback missing'',
        hard_gate ''artifact-provenance'' (truthy (jget ev ''artifact_sha256'') \<and> truthy (jget ev ''backend_identity''))
          ''artifact and backend identity pinned'' ''artifact/backend identity missing'',
        hard_gate ''oom-safety'' (jget ev ''oom_safe'' = PyBool True) ''safe plan stayed within budget'' ''OOM safety failure'']"

record conformance =
  cf_ready :: bool
  cf_gates :: "gate list"
  cf_blockers :: "string list"
  cf_evidence_digest :: pyval

definition regression_gate :: gate where
  "regression_gate = \<lparr>gate_name = ''performance-budget'', gate_passed = False,
     gate_reason = ''optimization disabled or explicit waiver required'', waiver_allowed = True\<rparr>"

definition run_conformance :: "(string \<times> pyval) list \<Rightarrow> string list \<Rightarrow> conformance res" where
  "run_conformance ev chaos_cases =
     rbind (sub_mapping ev ''endpoints'') (\<lambda>endpoints. rbind (map_res (chaos_gate ev) chaos_cases) (\<lambda>chaos.
     rbind (sub_mapping ev ''performance'') (\<lambda>performance.
       let gates = base_gates ev endpoints @ chaos;
           failures = List.map gate_name (filter (\<lambda>g. \<not> gate_passed g \<and> \<not> waiver_allowed g) gates)
       in Inr \<lparr>cf_ready = (failures = []), cf_gates = gates @ (if truthy (jget performance ''regressed'') then [regression_gate] else []),
            cf_blockers = failures, cf_evidence_digest = jget ev ''plan_digest''\<rparr>)))"

definition conformance_dict :: "conformance \<Rightarrow> (string \<times> pyval) list" where
  "conformance_dict c = [(''schema'', PyStr CONFORMANCE_SCHEMA_V1), (''status'', PyStr (if cf_ready c then ''passed'' else ''blocked'')),
     (''gates'', PyList (List.map (\<lambda>g. PyDict [(''name'', PyStr (gate_name g)), (''passed'', PyBool (gate_passed g)),
        (''reason'', PyStr (gate_reason g)), (''waiver_allowed'', PyBool (waiver_allowed g))]) (cf_gates c))),
     (''blockers'', py_strs (cf_blockers c)), (''evidence_digest'', cf_evidence_digest c), (''ready'', PyBool (cf_ready c))]"

lemma chaos_gates:
  "chaos_mapping ev = Inr m \<Longrightarrow> map_res (chaos_gate ev) cs = Inr gs \<Longrightarrow>
     gs = List.map (\<lambda>c. hard_gate (''chaos:'' @ c) (truthy (dget_or m c (PyBool False))) ''chaos case handled'' ''chaos case failed'') cs"
  by (induction cs arbitrary: gs) (auto simp: chaos_gate_def)

text \<open>
  A release is ready exactly when the outputs were equivalent, a baseline and the identities are
  present, memory safety was observed, every endpoint either passed its smoke test or is declared
  unsupported, and every chaos case was handled; a performance regression never blocks it.
\<close>

theorem release_ready_iff:
  assumes "run_conformance ev cases = Inr c" and "sub_mapping ev ''endpoints'' = Inr endpoints" and "chaos_mapping ev = Inr chaos"
  shows "cf_ready c \<longleftrightarrow> truthy (jget ev ''correctness'') \<and> truthy (jget ev ''baseline_available'')
     \<and> truthy (jget ev ''artifact_sha256'') \<and> truthy (jget ev ''backend_identity'') \<and> jget ev ''oom_safe'' = PyBool True
     \<and> list_all (\<lambda>n. jget endpoints n \<in> {PyBool True, PyBool False}) [''models'', ''chat_completions'', ''completions'']
     \<and> list_all (\<lambda>n. truthy (dget_or chaos n (PyBool False))) cases"
proof -
  obtain gs where gs: "map_res (chaos_gate ev) cases = Inr gs" "cf_ready c \<longleftrightarrow> filter (\<lambda>g. \<not> gate_passed g \<and> \<not> waiver_allowed g) (base_gates ev endpoints @ gs) = []"
    using assms(1,2) unfolding run_conformance_def Let_def by auto
  have "gs = List.map (\<lambda>c. hard_gate (''chaos:'' @ c) (truthy (dget_or chaos c (PyBool False))) ''chaos case handled'' ''chaos case failed'') cases"
    by (rule chaos_gates[OF assms(3) gs(1)])
  then have "filter (\<lambda>g. \<not> gate_passed g \<and> \<not> waiver_allowed g) gs = [] \<longleftrightarrow> list_all (\<lambda>n. truthy (dget_or chaos n (PyBool False))) cases"
    by (auto simp: filter_empty_conv hard_gate_def list_all_iff)
  moreover have "filter (\<lambda>g. \<not> gate_passed g \<and> \<not> waiver_allowed g) (base_gates ev endpoints) = [] \<longleftrightarrow>
      truthy (jget ev ''correctness'') \<and> truthy (jget ev ''baseline_available'')
     \<and> truthy (jget ev ''artifact_sha256'') \<and> truthy (jget ev ''backend_identity'') \<and> jget ev ''oom_safe'' = PyBool True
     \<and> list_all (\<lambda>n. jget endpoints n \<in> {PyBool True, PyBool False}) [''models'', ''chat_completions'', ''completions'']"
    unfolding base_gates_def endpoint_gate_def hard_gate_def by auto
  ultimately show ?thesis unfolding gs(2) by simp
qed

definition demo_evidence :: "(string \<times> pyval) list" where
  "demo_evidence = [(''correctness'', PyBool True), (''baseline_available'', PyBool True), (''artifact_sha256'', PyStr ''d''),
     (''backend_identity'', PyStr ''b''), (''oom_safe'', PyBool True), (''chaos'', PyDict [(''kill'', PyBool True)]),
     (''endpoints'', PyDict [(''models'', PyBool True), (''chat_completions'', PyBool False), (''completions'', PyBool True)]),
     (''performance'', PyDict [(''regressed'', PyBool True)])]"

theorem release_ready_iff_witness:
  "\<exists>c. run_conformance demo_evidence [''kill''] = Inr c \<and> cf_ready c"
proof -
  have "ok_with (run_conformance demo_evidence [''kill'']) (\<lambda>c. True)" by code_simp
  then obtain c where c: "run_conformance demo_evidence [''kill''] = Inr c" by (elim ok_withE)
  have e: "sub_mapping demo_evidence ''endpoints'' = Inr [(''models'', PyBool True), (''chat_completions'', PyBool False), (''completions'', PyBool True)]"
      "chaos_mapping demo_evidence = Inr [(''kill'', PyBool True)]"
    by (simp_all add: sub_mapping_def chaos_mapping_def demo_evidence_def jget_def dget_or_def Let_def)
  from release_ready_iff[OF c e] c show ?thesis by (auto simp: demo_evidence_def jget_def dget_or_def)
qed

end
