(* ===== verification/Kernel_Dispatch.thy ===== *)
theory Kernel_Dispatch
  imports Py_Json
begin

text \<open>
  \<open>local_data_plane/kernel_dispatch.py\<close>: the choice of a quantised kernel by instruction set and
  measurement, the bounded benchmark loop, and the persistent tuning cache.  The benchmark is a
  parameter; the cache file is absent, holds the JSON value of its text, or is garbled.
\<close>

section \<open>Candidates and plans\<close>

definition KERNEL_DISPATCH_SCHEMA_V1 :: string where
  "KERNEL_DISPATCH_SCHEMA_V1 = ''simplicio-local.kernel-dispatch/v1''"

record kernel_candidate =
  kc_name :: string
  isa_requirements :: "string list"
  measured_speedup :: "pyfloat option"
  numeric_error :: "pyfloat option"
  startup_ms :: pyfloat
  kc_operation :: string
  kc_dtype :: string
  kc_shape_class :: string
  kc_kernel_version :: string
  kc_layout_version :: string

record kernel_plan =
  kp_selected :: string
  kp_fallback :: string
  kp_tuning_key :: string
  kp_cache_hit :: bool
  kp_accepted :: bool
  kp_reason :: string
  kp_evidence :: "string list"

definition kernel_plan_dict :: "kernel_plan \<Rightarrow> (string \<times> pyval) list" where
  "kernel_plan_dict p = [(''schema'', PyStr KERNEL_DISPATCH_SCHEMA_V1), (''selected'', PyStr (kp_selected p)), (''fallback'', PyStr (kp_fallback p)),
     (''tuning_key'', PyStr (kp_tuning_key p)), (''cache_hit'', PyBool (kp_cache_hit p)), (''accepted'', PyBool (kp_accepted p)),
     (''reason'', PyStr (kp_reason p)), (''evidence'', py_strs (kp_evidence p))]"

record tuning_observation =
  ob_kernel :: string
  ob_p50 :: pyfloat
  ob_p95 :: pyfloat
  ob_runs :: int
  ob_correct :: bool
  ob_error :: pyval

record tuning_result =
  tr_selected :: string
  tr_reason :: string
  tr_observations :: "tuning_observation list"

record tuning_identity =
  ti_hardware :: string
  ti_backend :: string
  ti_model :: string
  ti_runtime :: string
  ti_isa :: "string list"
  ti_os :: "(string \<times> bool) list"
  ti_operation :: string
  ti_dtype :: string
  ti_shape :: string
  ti_kernel :: string
  ti_layout :: string

definition tuning_key :: "tuning_identity \<Rightarrow> string" where
  "tuning_key t = json_digest (PyDict [(''hardware'', PyStr (ti_hardware t)), (''backend'', PyStr (ti_backend t)), (''model'', PyStr (ti_model t)),
     (''runtime'', PyStr (ti_runtime t)), (''isa'', py_strs (sort (remdups (ti_isa t)))),
     (''os'', PyDict (List.map (\<lambda>(k, b). (k, PyBool b)) (sort_items (ti_os t)))), (''operation'', PyStr (ti_operation t)),
     (''dtype'', PyStr (ti_dtype t)), (''shape'', PyStr (ti_shape t)), (''kernel'', PyStr (ti_kernel t)), (''layout'', PyStr (ti_layout t))])"

section \<open>The tuning cache\<close>

datatype tuning_file = NoFile | Text pyval | NotJson

definition TUNING_SCHEMA :: string where
  "TUNING_SCHEMA = ''simplicio-local.tuning-cache/v1''"

definition get_in :: "pyval \<Rightarrow> string \<Rightarrow> pyval \<Rightarrow> pyval res" where
  "get_in v k dflt = rbind (opt_res (AttributeError ''get'') (py_dict v)) (\<lambda>d. Inr (dget_or d k dflt))"

definition cached_name :: "string \<Rightarrow> pyval \<Rightarrow> pyval res" where
  "cached_name key document =
     rbind (get_in document ''schema'' PyNone) (\<lambda>schema.
       if schema \<noteq> PyStr TUNING_SCHEMA then Inr PyNone
       else rbind (get_in document ''entries'' (PyDict [])) (\<lambda>entries.
         rbind (get_in entries key (PyDict [])) (\<lambda>entry. get_in entry ''selected'' PyNone)))"

definition tuning_load :: "string \<Rightarrow> kernel_candidate list \<Rightarrow> tuning_file \<Rightarrow> string option" where
  "tuning_load key candidates tfile = (case tfile of
      Text document \<Rightarrow> (case cached_name key document of
          Inr (PyStr s) \<Rightarrow> if list_ex (\<lambda>c. kc_name c = s) candidates then Some s else None
        | _ \<Rightarrow> None)
    | _ \<Rightarrow> None)"

definition empty_document :: "(string \<times> pyval) list" where
  "empty_document = [(''schema'', PyStr TUNING_SCHEMA), (''entries'', PyDict [])]"

text \<open>
  \<open>document["entries"][key] = ...\<close> on the value that was read: the handler for \<open>AttributeError\<close>
  leaves a document that is no mapping in place.
\<close>

definition tuning_document :: "tuning_file \<Rightarrow> (string \<times> pyval) list res" where
  "tuning_document tfile = (case tfile of
      Text (PyDict d) \<Rightarrow> Inr (if jget d ''schema'' = PyStr TUNING_SCHEMA \<and> py_dict (jget d ''entries'') \<noteq> None then d else empty_document)
    | Text v \<Rightarrow> Inl (TypeError ''indices must be integers'')
    | _ \<Rightarrow> Inr empty_document)"

definition tuning_entry :: "string \<Rightarrow> (string \<times> string) list \<Rightarrow> pyval" where
  "tuning_entry selected metadata = PyDict [(''selected'', PyStr selected), (''metadata'', PyDict (List.map (\<lambda>(k, v). (k, PyStr v)) (sort_items metadata)))]"

definition tuning_store :: "string \<Rightarrow> string \<Rightarrow> (string \<times> string) list \<Rightarrow> tuning_file \<Rightarrow> tuning_file res" where
  "tuning_store key selected metadata tfile = rbind (tuning_document tfile) (\<lambda>d.
     Inr (Text (PyDict (dput ''entries'' (PyDict (dput key (tuning_entry selected metadata)
       (case py_dict (jget d ''entries'') of Some e \<Rightarrow> e | None \<Rightarrow> []))) d))))"

lemma get_in_dict [simp]: "get_in (PyDict d) k dflt = Inr (dget_or d k dflt)"
  by (simp add: get_in_def)

lemma cached_name_dict:
  assumes "jget d ''schema'' = PyStr TUNING_SCHEMA" and "jget d ''entries'' = PyDict e"
  shows "cached_name k (PyDict d) = get_in (dget_or e k (PyDict [])) ''selected'' PyNone"
proof -
  have "dget_or d ''entries'' (PyDict []) = PyDict e" "dget_or d ''schema'' PyNone = PyStr TUNING_SCHEMA"
    using assms by (auto simp: jget_def dget_or_def split: option.splits)
  then show ?thesis by (simp add: cached_name_def)
qed

text \<open>
  What is stored in the tuning cache under a key is what is loaded for it, and the entries of
  other keys are kept, whatever well-formed or unreadable file was there before.
\<close>

theorem tuning_cache_round_trip:
  assumes "tuning_store key selected metadata tfile = Inr tfile'" and "c \<in> set candidates" and "kc_name c = selected"
  shows "tuning_load key candidates tfile' = Some selected
    \<and> (\<forall>other. other \<noteq> key \<longrightarrow> tuning_load other candidates tfile' = tuning_load other candidates tfile)"
proof -
  obtain d where d: "tuning_document tfile = Inr d" and f: "tfile' = Text (PyDict (dput ''entries'' (PyDict (dput key (tuning_entry selected metadata)
       (case py_dict (jget d ''entries'') of Some e \<Rightarrow> e | None \<Rightarrow> []))) d))"
    using assms(1) by (auto simp: tuning_store_def)
  obtain e where e: "jget d ''entries'' = PyDict e" and s: "jget d ''schema'' = PyStr TUNING_SCHEMA"
    using d by (auto simp: tuning_document_def empty_document_def jget_def dget_or_def split: tuning_file.splits pyval.splits if_splits
        elim: py_dict.elims)
  let ?d = "dput ''entries'' (PyDict (dput key (tuning_entry selected metadata) e)) d"
  have f': "tfile' = Text (PyDict ?d)" using f e by simp
  have g: "jget ?d ''schema'' = PyStr TUNING_SCHEMA" "jget ?d ''entries'' = PyDict (dput key (tuning_entry selected metadata) e)"
    using s by (simp_all add: jget_def dget_or_def map_of_dput)
  note name = cached_name_dict[OF g]
  have old: "tuning_load k candidates tfile = tuning_load k candidates (Text (PyDict d))" for k
    using d by (auto simp: tuning_document_def tuning_load_def cached_name_def get_in_def empty_document_def jget_def dget_or_def
        split: tuning_file.splits pyval.splits if_splits option.splits)
  note before = cached_name_dict[OF s e]
  have "tuning_load other candidates tfile' = tuning_load other candidates (Text (PyDict d))" if "other \<noteq> key" for other
    using that by (simp add: tuning_load_def f' name before dget_or_def map_of_dput)
  then have "tuning_load other candidates tfile' = tuning_load other candidates tfile" if "other \<noteq> key" for other
    using that old by simp
  moreover have "cached_name key (PyDict ?d) = Inr (PyStr selected)"
    unfolding name by (simp add: dget_or_def map_of_dput tuning_entry_def)
  then have "tuning_load key candidates tfile' = Some selected"
    using assms(2,3) by (auto simp: tuning_load_def f' list_ex_iff)
  ultimately show ?thesis by blast
qed

text \<open>A cache file that holds a JSON list makes every store raise.\<close>

theorem list_document_breaks_store: "tuning_store key selected metadata (Text (PyList xs)) = Inl (TypeError ''indices must be integers'')"
  by (simp add: tuning_store_def tuning_document_def)

theorem tuning_cache_round_trip_witness:
  "\<exists>tfile. tuning_store ''k'' ''neon'' [] NotJson = Inr tfile \<and>
     tuning_load ''k'' [\<lparr>kc_name = ''neon'', isa_requirements = [], measured_speedup = None, numeric_error = None, startup_ms = Fin 0,
       kc_operation = ''matmul'', kc_dtype = ''int8'', kc_shape_class = ''default'', kc_kernel_version = ''v1'', kc_layout_version = ''v1''\<rparr>] tfile = Some ''neon''"
proof -
  let ?c = "\<lparr>kc_name = ''neon'', isa_requirements = [], measured_speedup = None, numeric_error = None, startup_ms = Fin 0,
       kc_operation = ''matmul'', kc_dtype = ''int8'', kc_shape_class = ''default'', kc_kernel_version = ''v1'', kc_layout_version = ''v1''\<rparr>"
  obtain tfile where f: "tuning_store ''k'' ''neon'' [] NotJson = Inr tfile" by (simp add: tuning_store_def tuning_document_def)
  from tuning_cache_round_trip[OF f, of ?c "[?c]"] f show ?thesis by simp
qed

section \<open>Bounded autotuning\<close>

datatype bench_value = Observation tuning_observation | Value pyval

text \<open>\<open>ordered[min(n - 1, ceil(n * 0.95) - 1)]\<close>.\<close>

definition p95_index :: "nat \<Rightarrow> int" where
  "p95_index n = min (int n - 1) ((case fmul (fint (int n)) (lit (95 / 100)) of Fin r \<Rightarrow> \<lceil>r\<rceil> | _ \<Rightarrow> 0) - 1)"

definition samples_observation :: "string \<Rightarrow> pyfloat list \<Rightarrow> tuning_observation res" where
  "samples_observation kernel_id vs =
     (if vs = [] then Inl (ValueError ''benchmark returned no samples'')
      else let ordered = sort_by flt vs; n = length ordered in
        Inr \<lparr>ob_kernel = kernel_id, ob_p50 = ordered ! ((n - 1) div 2), ob_p95 = ordered ! nat (p95_index n), ob_runs = int n,
          ob_correct = True, ob_error = PyNone\<rparr>)"

definition mapping_observation :: "string \<Rightarrow> (string \<times> pyval) list \<Rightarrow> tuning_observation res" where
  "mapping_observation kernel_id d =
     rbind (opt_res (KeyError ''p50_ms'') (dget d ''p50_ms'')) (\<lambda>v50. rbind (py_float v50) (\<lambda>p50.
     rbind (py_float (dget_or d ''p95_ms'' v50)) (\<lambda>p95. rbind (to_int (dget_or d ''runs'' (PyInt 1))) (\<lambda>runs.
       Inr \<lparr>ob_kernel = kernel_id, ob_p50 = p50, ob_p95 = p95, ob_runs = runs, ob_correct = truthy (dget_or d ''correct'' (PyBool True)),
         ob_error = jget d ''error''\<rparr>))))"

definition observe :: "string \<Rightarrow> bench_value \<Rightarrow> tuning_observation res" where
  "observe kernel_id b = (case b of
      Observation ob \<Rightarrow> Inr ob
    | Value (PyDict d) \<Rightarrow> mapping_observation kernel_id d
    | Value (PyList vs) \<Rightarrow> rbind (map_res py_float vs) (samples_observation kernel_id)
    | Value (PyStr s) \<Rightarrow> rbind (map_res (\<lambda>c. py_float (PyStr [c])) s) (samples_observation kernel_id)
    | Value PyNone \<Rightarrow> Inl (TypeError ''object is not iterable'')
    | Value v \<Rightarrow> rbind (py_float v) (\<lambda>x. Inr \<lparr>ob_kernel = kernel_id, ob_p50 = x, ob_p95 = x, ob_runs = 1, ob_correct = True, ob_error = PyNone\<rparr>))"

text \<open>\<open>except (ArithmeticError, KeyError, TypeError, ValueError)\<close>.\<close>

fun benchmark_failure :: "py_exc \<Rightarrow> bool" where
  "benchmark_failure (OverflowError _) = True"
| "benchmark_failure ZeroDivisionError = True"
| "benchmark_failure (KeyError _) = True"
| "benchmark_failure (TypeError _) = True"
| "benchmark_failure (ValueError _) = True"
| "benchmark_failure _ = False"

type_synonym benchmark = "kernel_candidate \<Rightarrow> bench_value res"

definition measure_kernel :: "benchmark \<Rightarrow> kernel_candidate \<Rightarrow> tuning_observation res" where
  "measure_kernel bench c = rbind (bench c) (observe (kc_name c))"

definition isa_supported :: "string list \<Rightarrow> kernel_candidate \<Rightarrow> bool" where
  "isa_supported features c \<longleftrightarrow> set (isa_requirements c) \<subseteq> set features"

record tuning_limits =
  tl_tolerance :: pyfloat
  tl_budget_ms :: pyfloat
  tl_max_candidates :: int
  tl_max_runs :: int
  tl_max_p95 :: pyfloat

definition timings_finite :: "tuning_observation \<Rightarrow> bool" where
  "timings_finite ob \<longleftrightarrow> isfinite (ob_p50 ob) \<and> isfinite (ob_p95 ob) \<and> flt (Fin 0) (ob_p50 ob) \<and> flt (Fin 0) (ob_p95 ob)"

definition promotable :: "tuning_limits \<Rightarrow> tuning_observation \<Rightarrow> kernel_candidate \<Rightarrow> tuning_observation \<Rightarrow> bool" where
  "promotable l base c ob \<longleftrightarrow> ob_runs ob \<le> tl_max_runs l
     \<and> ob_correct ob \<and> (case numeric_error c of None \<Rightarrow> True | Some e \<Rightarrow> fle e (tl_tolerance l))
     \<and> timings_finite ob \<and> flt (ob_p50 ob) (fmul (ob_p50 base) (fsub (Fin 1) (lit (2 / 100))))
     \<and> fle (ob_p95 ob) (fmul (ob_p95 base) (fadd (Fin 1) (tl_max_p95 l)))"

record tuning_state =
  best :: "kernel_candidate option"
  seen :: "tuning_observation list"

definition tune_one :: "benchmark \<Rightarrow> tuning_limits \<Rightarrow> tuning_observation \<Rightarrow> tuning_state \<Rightarrow> kernel_candidate \<Rightarrow> tuning_state res" where
  "tune_one bench l base s c = (case measure_kernel bench c of
      Inl e \<Rightarrow> if benchmark_failure e then Inr s else Inl e
    | Inr ob \<Rightarrow> (let s1 = s\<lparr>seen := seen s @ [ob]\<rparr> in
        if \<not> promotable l base c ob then Inr s1
        else case best s of
          None \<Rightarrow> Inr (s1\<lparr>best := Some c\<rparr>)
        | Some b \<Rightarrow> (case find (\<lambda>x. ob_kernel x = kc_name b) (seen s1) of
            None \<Rightarrow> Inl StopIteration
          | Some old \<Rightarrow> Inr (if flt (ob_p50 ob) (ob_p50 old) then s1\<lparr>best := Some c\<rparr> else s1))))"

definition scalar_result :: "string \<Rightarrow> tuning_observation list \<Rightarrow> tuning_result" where
  "scalar_result why obs = \<lparr>tr_selected = ''scalar'', tr_reason = why, tr_observations = obs\<rparr>"

definition is_scalar :: "kernel_candidate \<Rightarrow> bool" where
  "is_scalar c \<longleftrightarrow> kc_name c = ''scalar''"

definition run_bounded_autotune :: "kernel_candidate list \<Rightarrow> benchmark \<Rightarrow> string list \<Rightarrow> tuning_limits \<Rightarrow> tuning_result res" where
  "run_bounded_autotune candidates bench features l =
     (if tl_max_candidates l < 1 \<or> tl_max_runs l < 1 \<or> fle (tl_budget_ms l) (Fin 0)
      then Inl (ValueError ''bounded tuning limits must be positive'')
      else rbind (opt_res (ValueError ''portable scalar fallback candidate is required'') (find is_scalar candidates)) (\<lambda>scalar.
        let supported = take (nat (tl_max_candidates l))
              (filter (\<lambda>c. \<not> is_scalar c \<and> isa_supported features c \<and> fle (startup_ms c) (tl_budget_ms l)) candidates) in
        case measure_kernel bench scalar of
          Inl e \<Rightarrow> if benchmark_failure e then Inr (scalar_result ''scalar-baseline-benchmark-failed'' []) else Inl e
        | Inr base \<Rightarrow>
            if \<not> ob_correct base \<or> \<not> timings_finite base then Inr (scalar_result ''invalid-scalar-baseline'' [base])
            else rbind (fold_res (tune_one bench l base) \<lparr>best = None, seen = [base]\<rparr> supported) (\<lambda>s.
              Inr (case best s of
                None \<Rightarrow> scalar_result ''no-candidate-beat-safe-baseline'' (seen s)
              | Some c \<Rightarrow> \<lparr>tr_selected = kc_name c, tr_reason = ''bounded-autotune-promoted'', tr_observations = seen s\<rparr>))))"

definition tuned :: "benchmark \<Rightarrow> tuning_limits \<Rightarrow> tuning_observation \<Rightarrow> kernel_candidate set \<Rightarrow> tuning_state \<Rightarrow> bool" where
  "tuned bench l base cs s \<longleftrightarrow>
     (\<forall>c. best s = Some c \<longrightarrow> c \<in> cs \<and> (\<exists>ob. measure_kernel bench c = Inr ob \<and> ob \<in> set (seen s) \<and> promotable l base c ob))"

lemma tune_one_tuned: "tune_one bench l base s c = Inr s' \<Longrightarrow> c \<in> cs \<Longrightarrow> tuned bench l base cs s \<Longrightarrow> tuned bench l base cs s'"
  by (auto simp: tune_one_def tuned_def Let_def split: sum.splits if_splits option.splits)

lemma promotable_iff:
  "promotable l base c ob \<longleftrightarrow> ob_runs ob \<le> tl_max_runs l \<and> ob_correct ob \<and> timings_finite ob
     \<and> (\<forall>e. numeric_error c = Some e \<longrightarrow> fle e (tl_tolerance l))
     \<and> flt (ob_p50 ob) (fmul (ob_p50 base) (fsub (Fin 1) (lit (2 / 100))))
     \<and> fle (ob_p95 ob) (fmul (ob_p95 base) (fadd (Fin 1) (tl_max_p95 l)))"
  by (auto simp: promotable_def split: option.splits)

lemma promoted_kernel:
  assumes "run_bounded_autotune candidates bench features l = Inr r" and "tr_selected r \<noteq> ''scalar''"
  shows "\<exists>c \<in> set candidates. kc_name c = tr_selected r \<and> isa_supported features c \<and> fle (startup_ms c) (tl_budget_ms l)
     \<and> (\<exists>base ob scalar. scalar \<in> set candidates \<and> is_scalar scalar \<and> measure_kernel bench scalar = Inr base
          \<and> ob_correct base \<and> timings_finite base \<and> measure_kernel bench c = Inr ob \<and> ob \<in> set (tr_observations r) \<and> promotable l base c ob)"
proof -
  let ?sup = "take (nat (tl_max_candidates l))
     (filter (\<lambda>c. \<not> is_scalar c \<and> isa_supported features c \<and> fle (startup_ms c) (tl_budget_ms l)) candidates)"
  obtain scalar where sc: "find is_scalar candidates = Some scalar" using assms(1) by (auto simp: run_bounded_autotune_def split: if_splits)
  obtain base where base: "measure_kernel bench scalar = Inr base" "ob_correct base" "timings_finite base"
    using assms sc by (auto simp: run_bounded_autotune_def scalar_result_def Let_def split: if_splits sum.splits)
  obtain s where s: "fold_res (tune_one bench l base) \<lparr>best = None, seen = [base]\<rparr> ?sup = Inr s"
    and r: "r = (case best s of None \<Rightarrow> scalar_result ''no-candidate-beat-safe-baseline'' (seen s)
              | Some c \<Rightarrow> \<lparr>tr_selected = kc_name c, tr_reason = ''bounded-autotune-promoted'', tr_observations = seen s\<rparr>)"
    using assms(1) sc base unfolding run_bounded_autotune_def Let_def by (auto split: if_splits)
  have "tuned bench l base (set ?sup) s"
    by (rule fold_res_invariant[OF s]) (auto simp: tuned_def dest: tune_one_tuned[of bench l base _ _ _ "set ?sup", unfolded tuned_def])
  moreover obtain c where c: "best s = Some c" using assms(2) r by (cases "best s") (auto simp: scalar_result_def)
  ultimately obtain ob where ob: "c \<in> set ?sup" "measure_kernel bench c = Inr ob" "ob \<in> set (seen s)" "promotable l base c ob"
    by (auto simp: tuned_def)
  from ob(1) have "c \<in> set candidates" "isa_supported features c" "fle (startup_ms c) (tl_budget_ms l)"
    using set_take_subset by fastforce+
  moreover have "scalar \<in> set candidates" "is_scalar scalar" using sc by (auto simp: find_Some_iff)
  ultimately show ?thesis using base ob r c by auto
qed

text \<open>
  C9: a kernel promoted over the scalar one is a candidate the host's instruction set supports, that
  starts within the budget, and whose own measurement was correct, finite, at least two per cent
  faster than the measured scalar baseline and within the p95 bound.
\<close>

theorem autotune_promotes_only_proven:
  assumes "run_bounded_autotune candidates bench features l = Inr r" and "tr_selected r \<noteq> ''scalar''"
  shows "\<exists>c \<in> set candidates. kc_name c = tr_selected r \<and> isa_supported features c \<and> fle (startup_ms c) (tl_budget_ms l)
     \<and> (\<exists>base ob scalar. scalar \<in> set candidates \<and> is_scalar scalar \<and> measure_kernel bench scalar = Inr base
          \<and> ob_correct base \<and> timings_finite base \<and> measure_kernel bench c = Inr ob \<and> ob \<in> set (tr_observations r)
          \<and> ob_runs ob \<le> tl_max_runs l \<and> ob_correct ob \<and> timings_finite ob
          \<and> (\<forall>e. numeric_error c = Some e \<longrightarrow> fle e (tl_tolerance l))
          \<and> flt (ob_p50 ob) (fmul (ob_p50 base) (fsub (Fin 1) (lit (2 / 100))))
          \<and> fle (ob_p95 ob) (fmul (ob_p95 base) (fadd (Fin 1) (tl_max_p95 l))))"
  by (rule promoted_kernel[OF assms, unfolded promotable_iff])

definition demo_kernel :: "string \<Rightarrow> kernel_candidate" where
  "demo_kernel n = \<lparr>kc_name = n, isa_requirements = (if n = ''scalar'' then [] else [''neon'']), measured_speedup = None, numeric_error = None,
     startup_ms = Fin 1, kc_operation = ''matmul'', kc_dtype = ''int8'', kc_shape_class = ''default'', kc_kernel_version = ''v1'', kc_layout_version = ''v1''\<rparr>"

definition demo_bench :: benchmark where
  "demo_bench c = Inr (Value (PyFloat (if kc_name c = ''scalar'' then Fin 10 else Fin 5)))"

definition demo_limits :: tuning_limits where
  "demo_limits = \<lparr>tl_tolerance = Fin 1, tl_budget_ms = Fin 100, tl_max_candidates = 8, tl_max_runs = 32, tl_max_p95 = lit (10 / 100)\<rparr>"

theorem autotune_promotes_only_proven_witness:
  "\<exists>r c. run_bounded_autotune [demo_kernel ''scalar'', demo_kernel ''fast''] demo_bench [''neon''] demo_limits = Inr r
     \<and> tr_selected r = ''fast'' \<and> c \<in> {demo_kernel ''scalar'', demo_kernel ''fast''} \<and> kc_name c = ''fast'' \<and> isa_supported [''neon''] c"
proof -
  let ?r = "run_bounded_autotune [demo_kernel ''scalar'', demo_kernel ''fast''] demo_bench [''neon''] demo_limits"
  have "ok_with ?r (\<lambda>r. tr_selected r = ''fast'')" by code_simp
  then obtain r where r: "?r = Inr r" "tr_selected r = ''fast''" by (elim ok_withE)
  then have "tr_selected r \<noteq> ''scalar''" by simp
  from autotune_promotes_only_proven[OF r(1) this] r show ?thesis by auto
qed

section \<open>Selection\<close>

datatype tuning_mode = Off | Cache_only | Bounded | Force_retune | Other_mode string

definition proven :: "pyfloat \<Rightarrow> pyfloat \<Rightarrow> string list \<Rightarrow> kernel_candidate \<Rightarrow> bool" where
  "proven tolerance budget features c \<longleftrightarrow> \<not> is_scalar c \<and> isa_supported features c
     \<and> (case measured_speedup c of None \<Rightarrow> False | Some x \<Rightarrow> flt (Fin 0) x)
     \<and> (case numeric_error c of None \<Rightarrow> False | Some e \<Rightarrow> fle e tolerance) \<and> fle (startup_ms c) budget"

definition faster_kernel :: "kernel_candidate \<Rightarrow> kernel_candidate \<Rightarrow> bool" where
  "faster_kernel a b = (let x = the (measured_speedup a); y = the (measured_speedup b) in
     flt y x \<or> feq x y \<and> flt (fneg (startup_ms b)) (fneg (startup_ms a)))"

definition kernel_choice :: "string \<Rightarrow> string \<Rightarrow> bool \<Rightarrow> string \<Rightarrow> string list \<Rightarrow> kernel_plan" where
  "kernel_choice selected key hit why evidence = \<lparr>kp_selected = selected, kp_fallback = ''scalar'', kp_tuning_key = key, kp_cache_hit = hit,
     kp_accepted = True, kp_reason = why, kp_evidence = evidence\<rparr>"

definition mode_name :: "tuning_mode \<Rightarrow> string" where
  "mode_name m = (case m of Off \<Rightarrow> ''off'' | Cache_only \<Rightarrow> ''cache-only'' | Bounded \<Rightarrow> ''bounded'' | Force_retune \<Rightarrow> ''force-retune'' | Other_mode s \<Rightarrow> s)"

text \<open>The persistent cache is optional; storing into an absent one does nothing.\<close>

definition store_choice :: "string \<Rightarrow> string \<Rightarrow> tuning_mode \<Rightarrow> string \<Rightarrow> tuning_file option \<Rightarrow> tuning_file option res" where
  "store_choice key selected mode backend cache = (case cache of
      None \<Rightarrow> Inr None
    | Some f \<Rightarrow> rbind (tuning_store key selected [(''mode'', mode_name mode), (''backend'', backend)] f) (\<lambda>f. Inr (Some f)))"

definition cached_choice :: "tuning_mode \<Rightarrow> string \<Rightarrow> kernel_candidate list \<Rightarrow> (string \<times> string) list \<Rightarrow> tuning_file option \<Rightarrow> string option" where
  "cached_choice mode key candidates mem cache =
     (if mode = Force_retune then None
      else case dget mem key of
          Some s \<Rightarrow> Some s
        | None \<Rightarrow> (case cache of None \<Rightarrow> None | Some f \<Rightarrow> tuning_load key candidates f))"

definition tuned_choice ::
    "kernel_candidate list \<Rightarrow> benchmark \<Rightarrow> string list \<Rightarrow> tuning_limits \<Rightarrow> string \<Rightarrow> tuning_mode \<Rightarrow> string \<Rightarrow> tuning_file option \<Rightarrow> (kernel_plan \<times> tuning_file option) res" where
  "tuned_choice candidates bench features l key mode backend cache =
     rbind (run_bounded_autotune candidates bench features l) (\<lambda>r.
     rbind (if tr_selected r \<noteq> ''scalar'' then store_choice key (tr_selected r) mode backend cache else Inr cache) (\<lambda>cache.
       Inr (kernel_choice (tr_selected r) key False (tr_reason r) [''isa-capability'', ''numeric-equivalence'', ''bounded-autotune''], cache)))"

definition measured_kernel ::
    "kernel_candidate list \<Rightarrow> string \<Rightarrow> tuning_mode \<Rightarrow> string \<Rightarrow> tuning_file option \<Rightarrow> (kernel_plan \<times> tuning_file option) res" where
  "measured_kernel supported key mode backend cache = (case py_max faster_kernel supported of
      None \<Rightarrow> Inr (kernel_choice ''scalar'' key False ''no supported measured kernel; portable fallback'' [''scalar-fallback''], cache)
    | Some c \<Rightarrow> rbind (store_choice key (kc_name c) mode backend cache) (\<lambda>cache.
        Inr (kernel_choice (kc_name c) key False ''ISA and numeric gates passed; measured kernel promoted''
          [''isa-capability'', ''numeric-equivalence'', ''bounded-autotune''], cache)))"

definition default_limits :: "pyfloat \<Rightarrow> pyfloat \<Rightarrow> tuning_limits" where
  "default_limits tolerance budget = \<lparr>tl_tolerance = tolerance, tl_budget_ms = budget, tl_max_candidates = 8, tl_max_runs = 32,
     tl_max_p95 = lit (10 / 100)\<rparr>"

definition select_uncached ::
    "kernel_candidate list \<Rightarrow> string list \<Rightarrow> pyfloat \<Rightarrow> pyfloat \<Rightarrow> string \<Rightarrow> tuning_mode \<Rightarrow> string \<Rightarrow> tuning_file option
       \<Rightarrow> benchmark option \<Rightarrow> kernel_candidate list \<Rightarrow> (kernel_plan \<times> tuning_file option) res" where
  "select_uncached candidates features tolerance budget key mode backend cache bench supported =
     (if mode = Cache_only then Inr (kernel_choice ''scalar'' key False ''cache miss; scalar fallback'' [''scalar-fallback''], cache)
      else case bench of
          Some b \<Rightarrow> tuned_choice candidates b features (default_limits tolerance budget) key mode backend cache
        | None \<Rightarrow> measured_kernel supported key mode backend cache)"

definition select_kernel ::
    "tuning_identity \<Rightarrow> kernel_candidate list \<Rightarrow> (string \<times> string) list \<Rightarrow> pyfloat \<Rightarrow> pyfloat \<Rightarrow> tuning_mode \<Rightarrow> tuning_file option
       \<Rightarrow> benchmark option \<Rightarrow> (kernel_plan \<times> tuning_file option) res" where
  "select_kernel ident candidates mem tolerance budget mode cache bench =
     (let key = tuning_key ident; features = ti_isa ident; backend = ti_backend ident;
          supported = filter (proven tolerance budget features) candidates;
          cached = cached_choice mode key candidates mem cache in
      if (case mode of Other_mode s \<Rightarrow> True | _ \<Rightarrow> False) then Inl (ValueError ''unsupported tuning mode'')
      else if find is_scalar candidates = None then Inl (ValueError ''portable scalar fallback candidate is required'')
      else if mode = Off then Inr (kernel_choice ''scalar'' key False ''tuning disabled by policy'' [''scalar-fallback''], cache)
      else case cached of
          Some s \<Rightarrow> if s \<noteq> [] \<and> list_ex (\<lambda>c. kc_name c = s) supported
            then Inr (kernel_choice s key True ''cached tuning selected'' [''tuning-cache''], cache)
            else select_uncached candidates features tolerance budget key mode backend cache bench supported
        | None \<Rightarrow> select_uncached candidates features tolerance budget key mode backend cache bench supported)"

lemma promoted_supported:
  "run_bounded_autotune candidates bench features l = Inr r \<Longrightarrow>
     tr_selected r = ''scalar'' \<or> (\<exists>c \<in> set candidates. kc_name c = tr_selected r \<and> isa_supported features c)"
  using promoted_kernel[of candidates bench features l r] by blast

text \<open>
  Whatever the caches and the benchmark say, the selected kernel is the portable scalar one or a
  candidate whose instruction set the host has; a cached kernel is selected only if it still passes
  every gate.
\<close>

theorem selected_kernel_is_supported:
  assumes "select_kernel ident candidates mem tolerance budget mode cache bench = Inr (p, cache')"
  shows "(kp_selected p = ''scalar'' \<or> (\<exists>c \<in> set candidates. kc_name c = kp_selected p \<and> isa_supported (ti_isa ident) c))
    \<and> (kp_cache_hit p \<longrightarrow> (\<exists>c \<in> set candidates. kc_name c = kp_selected p \<and> proven tolerance budget (ti_isa ident) c))
    \<and> kp_fallback p = ''scalar'' \<and> list_ex is_scalar candidates"
proof -
  let ?sup = "filter (proven tolerance budget (ti_isa ident)) candidates"
  let ?key = "tuning_key ident"
  have sc: "list_ex is_scalar candidates"
    using assms unfolding select_kernel_def Let_def by (auto simp: find_None_iff list_ex_iff split: if_splits)
  have u: "(kp_selected p = ''scalar'' \<or> (\<exists>c \<in> set candidates. kc_name c = kp_selected p \<and> isa_supported (ti_isa ident) c))
      \<and> \<not> kp_cache_hit p \<and> kp_fallback p = ''scalar''"
    if h: "select_uncached candidates (ti_isa ident) tolerance budget ?key mode (ti_backend ident) cache bench ?sup = Inr (p, cache')"
  proof (cases "mode = Cache_only")
    case True
    then show ?thesis using h by (auto simp: select_uncached_def kernel_choice_def)
  next
    case False
    show ?thesis
    proof (cases bench)
      case None
      show ?thesis
      proof (cases "py_max faster_kernel ?sup")
        case n: None
        then show ?thesis using h False None by (auto simp: select_uncached_def measured_kernel_def kernel_choice_def)
      next
        case (Some c)
        then have "c \<in> set candidates" "isa_supported (ti_isa ident) c" using py_max_mem[OF Some] by (auto simp: proven_def)
        then show ?thesis using h False None Some by (auto simp: select_uncached_def measured_kernel_def kernel_choice_def)
      qed
    next
      case (Some b)
      then obtain r where r: "run_bounded_autotune candidates b (ti_isa ident) (default_limits tolerance budget) = Inr r"
          "kp_selected p = tr_selected r" "\<not> kp_cache_hit p" "kp_fallback p = ''scalar''"
        using h False by (auto simp: select_uncached_def tuned_choice_def kernel_choice_def)
      then show ?thesis using promoted_supported[OF r(1)] by auto
    qed
  qed
  show ?thesis
    using assms sc u unfolding select_kernel_def Let_def
    by (auto simp: kernel_choice_def list_ex_iff proven_def split: if_splits option.splits)
qed

definition demo_identity :: tuning_identity where
  "demo_identity = \<lparr>ti_hardware = ''m1'', ti_backend = ''cpu'', ti_model = ''m'', ti_runtime = ''1'', ti_isa = [''neon''], ti_os = [],
     ti_operation = ''matmul'', ti_dtype = ''int8'', ti_shape = ''default'', ti_kernel = ''v1'', ti_layout = ''v1''\<rparr>"

theorem selected_kernel_is_supported_witness:
  "\<exists>p c. select_kernel demo_identity [demo_kernel ''scalar'', demo_kernel ''fast''\<lparr>measured_speedup := Some (Fin 1), numeric_error := Some (Fin 0)\<rparr>]
       [] (Fin 1) (Fin 10) Bounded None None = Inr (p, None) \<and> kp_selected p = ''fast'' \<and> isa_supported [''neon''] c \<and> kc_name c = ''fast''"
proof -
  let ?f = "demo_kernel ''fast''\<lparr>measured_speedup := Some (Fin 1), numeric_error := Some (Fin 0)\<rparr>"
  let ?cs = "[demo_kernel ''scalar'', ?f]"
  have s: "filter (proven (Fin 1) (Fin 10) [''neon'']) ?cs = [?f]" "find is_scalar ?cs = Some (demo_kernel ''scalar'')" by code_simp+
  have n: "kc_name ?f = ''fast''" by (simp add: demo_kernel_def)
  obtain p where p: "select_kernel demo_identity ?cs [] (Fin 1) (Fin 10) Bounded None None = Inr (p, None)" "kp_selected p = ''fast''"
    using s n by (auto simp: select_kernel_def cached_choice_def select_uncached_def measured_kernel_def store_choice_def Let_def
        demo_identity_def kernel_choice_def simp del: filter.simps find.simps)
  from selected_kernel_is_supported[OF p(1)] p show ?thesis by (auto simp: demo_identity_def)
qed

end
