(* ===== verification/Model_Files.thy ===== *)
theory Model_Files
  imports Artifacts Interfaces
begin

text \<open>
  \<open>local_data_plane/model_cache.py\<close> (the resumable download cache) and
  \<open>local_data_plane/mapped_loader.py\<close> (verified read-only mappings).  The cache's directories are maps
  from file names; a source is a local file or what a web server answers.  Reference ids with the
  pattern characters of \<open>glob\<close> are left out.
\<close>

section \<open>Artifacts of the cache\<close>

record cache_artifact =
  ca_model_id :: string
  ca_quantization :: string
  ca_source :: string
  ca_size_bytes :: int
  ca_sha256 :: string

text \<open>\<open>str.isalnum\<close> of a character below 256.\<close>

definition is_alnum :: "char \<Rightarrow> bool" where
  "is_alnum c \<longleftrightarrow> (let n = of_char c :: int in
     48 \<le> n \<and> n \<le> 57 \<or> 65 \<le> n \<and> n \<le> 90 \<or> 97 \<le> n \<and> n \<le> 122 \<or> n \<in> set [170, 178, 179, 181, 185, 186, 188, 189, 190]
     \<or> 192 \<le> n \<and> n \<noteq> 215 \<and> n \<noteq> 247)"

definition safe_name :: "string \<Rightarrow> string" where
  "safe_name s = List.map (\<lambda>c. if is_alnum c \<or> c \<in> set ''._-'' then c else CHR ''_'') s"

definition ref_id :: "cache_artifact \<Rightarrow> string" where
  "ref_id a = safe_name (ca_model_id a) @ ''--'' @ safe_name (ca_quantization a) @ ''--'' @ ca_sha256 a"

record cache_ref =
  ref_artifact :: cache_artifact
  ref_object :: string
  ref_aliases :: "string list"

record model_cache =
  c_objects :: "(string \<times> byte list) list"
  c_refs :: "(string \<times> cache_ref) list"
  c_parts :: "(string \<times> byte list) list"

definition new_model_cache :: model_cache where
  "new_model_cache = \<lparr>c_objects = [], c_refs = [], c_parts = []\<rparr>"

definition write_ref :: "cache_artifact \<Rightarrow> string list \<Rightarrow> model_cache \<Rightarrow> model_cache" where
  "write_ref a aliases c = c\<lparr>c_refs := dput (ref_id a) \<lparr>ref_artifact = a, ref_object = ca_sha256 a, ref_aliases = aliases\<rparr> (c_refs c)\<rparr>"

section \<open>Downloads\<close>

text \<open>
  An opened source: its status (206 for a file), the bytes it gives, and the exception that cuts
  the transfer short, if one does.
\<close>

record opened =
  op_status :: int
  op_bytes :: "byte list"
  op_fault :: "py_exc option"

record cache_host =
  ch_files :: file_system
  ch_web :: "string \<Rightarrow> nat \<Rightarrow> opened res"
  ch_free :: int

definition open_source :: "cache_host \<Rightarrow> string \<Rightarrow> nat \<Rightarrow> opened res" where
  "open_source h source offset = (case ch_files h source of
      Some bs \<Rightarrow> Inr \<lparr>op_status = 206, op_bytes = drop offset bs, op_fault = None\<rparr>
    | None \<Rightarrow> ch_web h source offset)"

definition part_of :: "model_cache \<Rightarrow> string \<Rightarrow> byte list" where
  "part_of c sha = (case dget (c_parts c) sha of None \<Rightarrow> [] | Some p \<Rightarrow> p)"

definition copied :: "string \<Rightarrow> byte list \<Rightarrow> opened \<Rightarrow> model_cache \<Rightarrow> unit res \<times> model_cache" where
  "copied sha before src c =
     (let c1 = c\<lparr>c_parts := dput sha (before @ op_bytes src) (c_parts c)\<rparr> in
      (case op_fault src of None \<Rightarrow> Inr () | Some e \<Rightarrow> Inl e, c1))"

definition fetch :: "cache_host \<Rightarrow> cache_artifact \<Rightarrow> byte list \<Rightarrow> model_cache \<Rightarrow> unit res \<times> model_cache" where
  "fetch h a before c = (case open_source h (ca_source a) (length before) of
      Inl e \<Rightarrow> (Inl e, c)
    | Inr src \<Rightarrow>
        if before \<noteq> [] \<and> op_status src = 200
        then (let c0 = c\<lparr>c_parts := dpop (ca_sha256 a) (c_parts c)\<rparr> in
          case open_source h (ca_source a) 0 of Inl e \<Rightarrow> (Inl e, c0) | Inr fresh \<Rightarrow> copied (ca_sha256 a) [] fresh c0)
        else copied (ca_sha256 a) before src c)"

definition install_part :: "cache_artifact \<Rightarrow> string list \<Rightarrow> model_cache \<Rightarrow> string res \<times> model_cache" where
  "install_part a aliases c =
     (let p = part_of c (ca_sha256 a) in
      if int (length p) \<noteq> ca_size_bytes a then (Inl (OSError ''download did not reach the catalogued artifact size''), c)
      else if lower (sha256_hex p) \<noteq> lower (ca_sha256 a) then (Inl (ValueError ''downloaded artifact failed checksum verification''), c)
      else (Inr (ca_sha256 a), write_ref a aliases
        (c\<lparr>c_parts := dpop (ca_sha256 a) (c_parts c), c_objects := dput (ca_sha256 a) p (c_objects c)\<rparr>)))"

definition download_part :: "cache_host \<Rightarrow> cache_artifact \<Rightarrow> string list \<Rightarrow> model_cache \<Rightarrow> string res \<times> model_cache" where
  "download_part h a aliases c =
     (let before = part_of c (ca_sha256 a);
          (before, c) = (if int (length before) > ca_size_bytes a then ([], c\<lparr>c_parts := dpop (ca_sha256 a) (c_parts c)\<rparr>) else (before, c)) in
      if ch_free h < ca_size_bytes a - int (length before) then (Inl (OSError ''insufficient disk space for model artifact''), c)
      else case fetch h a before c of
          (Inl e, c) \<Rightarrow> (Inl e, c)
        | (Inr _, c) \<Rightarrow> install_part a aliases c)"

definition download :: "cache_host \<Rightarrow> cache_artifact \<Rightarrow> string list \<Rightarrow> model_cache \<Rightarrow> string res \<times> model_cache" where
  "download h a aliases c =
     (if ca_size_bytes a \<le> 0 \<or> length (ca_sha256 a) \<noteq> 64 then (Inl (ValueError ''artifact size and SHA-256 are required''), c)
      else case dget (c_objects c) (ca_sha256 a) of
          Some bs \<Rightarrow>
            if sha256_hex bs = ca_sha256 a \<and> int (length bs) = ca_size_bytes a then (Inr (ca_sha256 a), write_ref a aliases c)
            else download_part h a aliases (c\<lparr>c_objects := dpop (ca_sha256 a) (c_objects c)\<rparr>)
        | None \<Rightarrow> download_part h a aliases c)"

definition load_ref :: "string \<Rightarrow> model_cache \<Rightarrow> cache_ref res" where
  "load_ref r c = opt_res (KeyError r) (dget (c_refs c) r)"

definition verify_ref :: "string \<Rightarrow> model_cache \<Rightarrow> bool res" where
  "verify_ref r c = rbind (load_ref r c) (\<lambda>x. Inr (case dget (c_objects c) (ref_object x) of
      None \<Rightarrow> False
    | Some bs \<Rightarrow> sha256_hex bs = ca_sha256 (ref_artifact x) \<and> int (length bs) = ca_size_bytes (ref_artifact x)))"

definition ends_with :: "string \<Rightarrow> string \<Rightarrow> bool" where
  "ends_with s suffix \<longleftrightarrow> starts_with (rev suffix) (rev s)"

definition remove_ref :: "string \<Rightarrow> model_cache \<Rightarrow> unit res \<times> model_cache" where
  "remove_ref r c = (case load_ref r c of
      Inl e \<Rightarrow> (Inl e, c)
    | Inr x \<Rightarrow> (let c1 = c\<lparr>c_refs := dpop r (c_refs c)\<rparr> in
        if list_ex (\<lambda>k. ends_with k (''--'' @ ca_sha256 (ref_artifact x))) (dkeys (c_refs c1)) then (Inr (), c1)
        else (Inr (), c1\<lparr>c_objects := dpop (ref_object x) (c_objects c1)\<rparr>)))"

definition repair :: "cache_host \<Rightarrow> string \<Rightarrow> model_cache \<Rightarrow> string res \<times> model_cache" where
  "repair h r c = (case load_ref r c of
      Inl e \<Rightarrow> (Inl e, c)
    | Inr x \<Rightarrow> if verify_ref r c = Inr True then (Inr (ref_object x), c) else download h (ref_artifact x) (ref_aliases x) c)"

definition cache_status :: "model_cache \<Rightarrow> (string \<times> pyval) list" where
  "cache_status c = [(''schema'', PyStr ''simplicio-local.model-cache/v1''), (''entries'', PyInt (int (length (c_refs c)))),
     (''objects'', PyInt (int (length (c_objects c)))), (''bytes'', PyInt (sum_list (List.map (\<lambda>kv. int (length (snd kv))) (c_objects c))))]"

section \<open>Objects carry their digest\<close>

datatype cache_op = Download cache_artifact "string list" | Remove string | Repair string

fun cache_step :: "cache_host \<times> cache_op \<Rightarrow> model_cache \<Rightarrow> model_cache" where
  "cache_step (h, Download a aliases) c = snd (download h a aliases c)"
| "cache_step (h, Remove r) c = snd (remove_ref r c)"
| "cache_step (h, Repair r) c = snd (repair h r c)"

definition objects_hashed :: "(string \<times> byte list) list \<Rightarrow> bool" where
  "objects_hashed os \<longleftrightarrow> dict_ok os \<and> (\<forall>d b. dget os d = Some b \<longrightarrow> lower (sha256_hex b) = lower d)"

definition cache_inv :: "model_cache \<Rightarrow> bool" where
  "cache_inv c \<longleftrightarrow> objects_hashed (c_objects c) \<and> dict_ok (c_refs c) \<and> (\<forall>r x. dget (c_refs c) r = Some x \<longrightarrow> ref_object x = ca_sha256 (ref_artifact x))"

lemma objects_hashed_put: "objects_hashed os \<Longrightarrow> lower (sha256_hex b) = lower d \<Longrightarrow> objects_hashed (dput d b os)"
  by (auto simp: objects_hashed_def pydict.lookup_put pydict.ok_put)

lemma objects_hashed_pop: "objects_hashed os \<Longrightarrow> objects_hashed (dpop d os)"
  by (auto simp: objects_hashed_def pydict.lookup_pop pydict.ok_pop split: if_splits)

lemma write_ref_inv: "cache_inv c \<Longrightarrow> cache_inv (write_ref a aliases c)"
  by (auto simp: cache_inv_def write_ref_def pydict.lookup_put pydict.ok_put)

lemma cache_inv_cong: "c_objects c' = c_objects c \<Longrightarrow> c_refs c' = c_refs c \<Longrightarrow> cache_inv c' = cache_inv c"
  by (simp add: cache_inv_def)

lemma fetch_keeps: "fetch h a before c = (r, c') \<Longrightarrow> c_objects c' = c_objects c \<and> c_refs c' = c_refs c"
  by (auto simp: fetch_def copied_def Let_def split: sum.splits if_splits)

lemma install_part_inv: "cache_inv c \<Longrightarrow> cache_inv (snd (install_part a aliases c))"
proof -
  assume c: "cache_inv c"
  let ?p = "part_of c (ca_sha256 a)"
  let ?c = "c\<lparr>c_parts := dpop (ca_sha256 a) (c_parts c), c_objects := dput (ca_sha256 a) ?p (c_objects c)\<rparr>"
  have "lower (sha256_hex ?p) = lower (ca_sha256 a) \<Longrightarrow> cache_inv ?c" using c by (simp add: cache_inv_def objects_hashed_put)
  then show ?thesis using c write_ref_inv[of ?c a aliases] by (simp add: install_part_def Let_def)
qed

lemma download_part_inv:
  assumes "cache_inv c"
  shows "cache_inv (snd (download_part h a aliases c))"
proof -
  define c1 where "c1 = (if int (length (part_of c (ca_sha256 a))) > ca_size_bytes a then c\<lparr>c_parts := dpop (ca_sha256 a) (c_parts c)\<rparr> else c)"
  define before where "before = (if int (length (part_of c (ca_sha256 a))) > ca_size_bytes a then [] else part_of c (ca_sha256 a))"
  have c1: "cache_inv c1" using assms by (simp add: c1_def cache_inv_def)
  obtain r c2 where f: "fetch h a before c1 = (r, c2)" by fastforce
  have c2: "cache_inv c2" using fetch_keeps[OF f] c1 cache_inv_cong by metis
  have "download_part h a aliases c = (if ch_free h < ca_size_bytes a - int (length before) then (Inl (OSError ''insufficient disk space for model artifact''), c1)
      else case r of Inl e \<Rightarrow> (Inl e, c2) | Inr u \<Rightarrow> install_part a aliases c2)"
    using f by (auto simp: download_part_def Let_def c1_def before_def split: sum.splits)
  then show ?thesis using c1 c2 install_part_inv by (auto split: sum.splits)
qed

lemma download_inv: "cache_inv c \<Longrightarrow> cache_inv (snd (download h a aliases c))"
proof -
  assume c: "cache_inv c"
  then have "cache_inv (c\<lparr>c_objects := dpop (ca_sha256 a) (c_objects c)\<rparr>)" by (simp add: cache_inv_def objects_hashed_pop)
  then show ?thesis using c download_part_inv write_ref_inv by (auto simp: download_def split: option.splits)
qed

lemma remove_ref_inv: "cache_inv c \<Longrightarrow> cache_inv (snd (remove_ref r c))"
  by (auto simp: remove_ref_def Let_def cache_inv_def objects_hashed_pop pydict.lookup_pop pydict.ok_pop split: sum.splits if_splits)

lemma cache_step_inv: "cache_inv c \<Longrightarrow> cache_inv (cache_step op c)"
  by (cases op; cases "snd op") (auto simp: download_inv remove_ref_inv repair_def split: sum.splits)

lemma new_model_cache_inv: "cache_inv new_model_cache"
  by (simp add: cache_inv_def objects_hashed_def new_model_cache_def)

interpretation model_cache: machine "\<lambda>c. c = new_model_cache" cache_step cache_inv
  by unfold_locales (auto simp: new_model_cache_inv cache_step_inv)

lemma lower_hex [simp]: "lower (sha256_hex b) = sha256_hex b"
proof -
  have "list_all (\<lambda>c. lower_char c = c) hex_alphabet" by code_simp
  then have "\<forall>c \<in> set (sha256_hex b). lower_char c = c" using sha256_hex_digits by (fastforce simp: list_all_iff)
  then show ?thesis by (simp add: lower_def map_idI)
qed

lemma download_verifies:
  assumes "download h a aliases c = (Inr p, c')" and "lower (ca_sha256 a) = ca_sha256 a"
  shows "verify_ref (ref_id a) c' = Inr True"
proof -
  have "\<exists>c0. c' = write_ref a aliases c0 \<and> (\<exists>bs. dget (c_objects c0) (ca_sha256 a) = Some bs \<and> sha256_hex bs = ca_sha256 a \<and> int (length bs) = ca_size_bytes a)"
  proof -
    have i: "\<exists>c0. x' = write_ref a aliases c0 \<and> (\<exists>bs. dget (c_objects c0) (ca_sha256 a) = Some bs \<and> sha256_hex bs = ca_sha256 a \<and> int (length bs) = ca_size_bytes a)"
      if "install_part a aliases x = (Inr p, x')" for x x'
      using that assms(2)
      by (intro exI[of _ "x\<lparr>c_parts := dpop (ca_sha256 a) (c_parts x), c_objects := dput (ca_sha256 a) (part_of x (ca_sha256 a)) (c_objects x)\<rparr>"])
        (auto simp: install_part_def Let_def pydict.lookup_put split: if_splits)
    have d: "\<exists>y. install_part a aliases y = (Inr p, x')" if "download_part h a aliases x = (Inr p, x')" for x x'
      using that by (auto simp: download_part_def Let_def split: if_splits sum.splits prod.splits)
    show ?thesis using assms(1) i d
      by (fastforce simp: download_def split: option.splits if_splits)
  qed
  then show ?thesis by (auto simp: verify_ref_def load_ref_def write_ref_def pydict.lookup_put)
qed

text \<open>
  C7: over every run of downloads, removals and repairs, whatever the sources send, cut short or
  change, an object of the cache has the SHA-256 it is named by; and right after a download that
  succeeds the artifact verifies, if its digest is written in lower case.
\<close>

theorem cached_objects_are_verified:
  assumes "c = fold cache_step ops new_model_cache"
  shows "(\<forall>d b. dget (c_objects c) d = Some b \<longrightarrow> sha256_hex b = lower d)
    \<and> (\<forall>h a aliases p c'. download h a aliases c = (Inr p, c') \<and> lower (ca_sha256 a) = ca_sha256 a \<longrightarrow> verify_ref (ref_id a) c' = Inr True)"
proof -
  have "cache_inv c" unfolding assms by (rule model_cache.reach_inv) simp
  then have "\<forall>d b. dget (c_objects c) d = Some b \<longrightarrow> sha256_hex b = lower d"
    by (auto simp: cache_inv_def objects_hashed_def)
  then show ?thesis using download_verifies by blast
qed

definition demo_cache_host :: cache_host where
  "demo_cache_host = \<lparr>ch_files = (\<lambda>p. if p = ''s'' then Some [1] else None), ch_web = (\<lambda>u n. Inl (OSError ''down'')), ch_free = 10\<rparr>"

definition demo_cache_artifact :: cache_artifact where
  "demo_cache_artifact = \<lparr>ca_model_id = ''m'', ca_quantization = ''q4'', ca_source = ''s'', ca_size_bytes = 1, ca_sha256 = sha256_hex [1]\<rparr>"

theorem cached_objects_are_verified_witness:
  "\<exists>p c. download demo_cache_host demo_cache_artifact [] new_model_cache = (Inr p, c) \<and> verify_ref (ref_id demo_cache_artifact) c = Inr True"
proof -
  obtain p c where d: "download demo_cache_host demo_cache_artifact [] new_model_cache = (Inr p, c)"
    by (simp add: download_def download_part_def fetch_def open_source_def copied_def install_part_def part_of_def Let_def
        demo_cache_host_def demo_cache_artifact_def new_model_cache_def pydict.lookup_put)
  have l: "lower (ca_sha256 demo_cache_artifact) = ca_sha256 demo_cache_artifact" by (simp add: demo_cache_artifact_def)
  from cached_objects_are_verified[of new_model_cache "[]"] d l show ?thesis by auto
qed

section \<open>Three ways the cache gets stuck\<close>

text \<open>A digest written in upper case downloads but never verifies.\<close>

theorem upper_case_never_verifies:
  assumes "load_ref r c = Inr x" and "lower (ca_sha256 (ref_artifact x)) \<noteq> ca_sha256 (ref_artifact x)"
  shows "verify_ref r c = Inr False"
  using assms by (auto simp: verify_ref_def split: option.splits) (metis lower_hex)

text \<open>A complete part file with the wrong bytes is kept: every later download resumes it and fails.\<close>

theorem corrupt_part_is_never_replaced:
  assumes "dget (c_parts c) (ca_sha256 a) = Some p" and "int (length p) = ca_size_bytes a" and "sha256_hex p \<noteq> lower (ca_sha256 a)"
    and "dget (c_objects c) (ca_sha256 a) = None" and "ch_files h (ca_source a) = Some b" and "int (length b) = ca_size_bytes a"
    and "0 < ca_size_bytes a" and "length (ca_sha256 a) = 64" and "0 \<le> ch_free h"
  shows "fst (download h a aliases c) = Inl (ValueError ''downloaded artifact failed checksum verification'')
    \<and> dget (c_parts (snd (download h a aliases c))) (ca_sha256 a) = Some p"
  using assms
  by (auto simp: download_def download_part_def part_of_def Let_def fetch_def open_source_def copied_def install_part_def pydict.lookup_put)

text \<open>
  A download that names another size for an object that is already there deletes the object before
  it has another one: the model that used it no longer verifies.
\<close>

theorem failed_download_deletes_shared_object:
  assumes "load_ref r c = Inr x" and "ref_object x = ca_sha256 (ref_artifact x)" and "cache_inv c"
    and "ca_sha256 a = ca_sha256 (ref_artifact x)" and "verify_ref r c = Inr True" and "ca_size_bytes a \<noteq> ca_size_bytes (ref_artifact x)"
    and "0 < ca_size_bytes a" and "ch_files h (ca_source a) = None" and "\<And>n. ch_web h (ca_source a) n = Inl e"
    and "part_of c (ca_sha256 a) = []"
  shows "verify_ref r (snd (download h a aliases c)) = Inr False"
proof -
  obtain bs where bs: "dget (c_objects c) (ca_sha256 a) = Some bs" "sha256_hex bs = ca_sha256 a" "int (length bs) \<noteq> ca_size_bytes a"
    using assms(1,2,4,5,6) by (auto simp: verify_ref_def split: option.splits)
  then have l: "length (ca_sha256 a) = 64" by (metis sha256_hex_length)
  have ok: "dict_ok (c_objects c)" using assms(3) by (simp add: cache_inv_def objects_hashed_def)
  let ?c = "c\<lparr>c_objects := dpop (ca_sha256 a) (c_objects c)\<rparr>"
  have "snd (download h a aliases c) = ?c"
    using bs l assms(7-10) by (simp add: download_def download_part_def part_of_def Let_def fetch_def open_source_def)
  moreover have "verify_ref r ?c = Inr False"
    using assms(1,2,4) ok by (simp add: verify_ref_def load_ref_def opt_res_eq_Inr pydict.lookup_pop)
  ultimately show ?thesis by simp
qed

section \<open>Verified mappings\<close>

record mapping_identity =
  mi_path :: string
  mi_sha256 :: string
  mi_generation :: string
  mi_size_bytes :: int

record model_mapping =
  mapped :: "byte list"
  mm_identity :: mapping_identity
  mm_closed :: bool

definition map_verified :: "file_system \<Rightarrow> string \<Rightarrow> string \<Rightarrow> string \<Rightarrow> model_mapping res" where
  "map_verified fs path expected generation = (case fs path of
      None \<Rightarrow> Inl (FileNotFoundError path)
    | Some bs \<Rightarrow>
        if lower (sha256_hex bs) \<noteq> lower expected then Inl (ValueError ''artifact checksum does not match mapping identity'')
        else if bs = [] then Inl (ValueError ''cannot mmap an empty file'')
        else Inr \<lparr>mapped = bs, mm_identity = \<lparr>mi_path = path, mi_sha256 = sha256_hex bs, mi_generation = generation,
          mi_size_bytes = int (length bs)\<rparr>, mm_closed = False\<rparr>)"

definition mapping_read :: "int \<Rightarrow> int option \<Rightarrow> model_mapping \<Rightarrow> byte list res" where
  "mapping_read start nbytes m =
     (let total_bytes = mi_size_bytes (mm_identity m);
          len = (case nbytes of None \<Rightarrow> total_bytes - start | Some n \<Rightarrow> n) in
      if mm_closed m then Inl (ValueError ''mapping is closed'')
      else if start < 0 \<or> start > total_bytes then Inl (ValueError ''mapping read start is outside artifact'')
      else if len < 0 \<or> start + len > total_bytes then Inl (ValueError ''mapping read exceeds artifact bounds'')
      else Inr (take (nat len) (drop (nat start) (mapped m))))"

definition mapping_close :: "model_mapping \<Rightarrow> model_mapping" where
  "mapping_close m = m\<lparr>mm_closed := True\<rparr>"

definition read_buffered :: "file_system \<Rightarrow> string \<Rightarrow> string \<Rightarrow> byte list res" where
  "read_buffered fs path expected = (case fs path of
      None \<Rightarrow> Inl (FileNotFoundError path)
    | Some bs \<Rightarrow> if lower (sha256_hex bs) \<noteq> lower expected then Inl (ValueError ''artifact checksum does not match buffered identity'')
        else Inr bs)"

definition can_replace :: "model_mapping option \<Rightarrow> string \<Rightarrow> bool" where
  "can_replace active generation = (case active of None \<Rightarrow> True | Some m \<Rightarrow> mi_generation (mm_identity m) \<noteq> generation)"

definition remove_mapped :: "file_system \<Rightarrow> string \<Rightarrow> model_mapping option \<Rightarrow> file_system res" where
  "remove_mapped fs path active =
     (if (case active of None \<Rightarrow> False | Some m \<Rightarrow> mi_path (mm_identity m) = path \<and> \<not> mm_closed m)
      then Inl (RuntimeError ''mapped artifact is active; close the generation before removal'')
      else if fs path = None then Inl (FileNotFoundError path) else Inr (fs(path := None)))"

text \<open>
  A mapping reads exactly the requested bytes of the file whose SHA-256 was asked for, reads of
  adjacent ranges join up, no read crosses the end, none works after \<open>close\<close>, and the file of an
  open mapping cannot be removed.
\<close>

theorem mapped_reads_are_verified:
  assumes "map_verified fs path expected generation = Inr m"
  shows "\<exists>bs. fs path = Some bs \<and> sha256_hex bs = lower expected \<and> mapping_read 0 None m = Inr bs
    \<and> (\<forall>start n. mapping_read start (Some n) m =
         (if 0 \<le> start \<and> 0 \<le> n \<and> start + n \<le> int (length bs) then Inr (take (nat n) (drop (nat start) bs))
          else if start < 0 \<or> int (length bs) < start then Inl (ValueError ''mapping read start is outside artifact'')
          else Inl (ValueError ''mapping read exceeds artifact bounds'')))
    \<and> (\<forall>start n. \<exists>e. mapping_read start n (mapping_close m) = Inl e) \<and> (\<exists>e. remove_mapped fs path (Some m) = Inl e)"
proof -
  obtain bs where bs: "fs path = Some bs" "sha256_hex bs = lower expected" "mapped m = bs" "mi_size_bytes (mm_identity m) = int (length bs)"
      "\<not> mm_closed m" "mi_path (mm_identity m) = path"
    using assms by (auto simp: map_verified_def split: option.splits if_splits)
  then show ?thesis
    by (intro exI[of _ bs]) (auto simp: mapping_read_def mapping_close_def remove_mapped_def Let_def)
qed

theorem mapped_reads_are_verified_witness:
  "\<exists>m. map_verified (\<lambda>p. Some [1, 2, 3]) ''p'' (sha256_hex [1, 2, 3]) ''g'' = Inr m \<and> mapping_read 1 (Some 2) m = Inr [2, 3]"
proof -
  obtain m where m: "map_verified (\<lambda>p. Some [1, 2, 3]) ''p'' (sha256_hex [1, 2, 3]) ''g'' = Inr m"
    by (simp add: map_verified_def)
  from mapped_reads_are_verified[OF m] m show ?thesis by auto
qed

end
