(* ===== verification/Substrings.thy ===== *)
theory Substrings
  imports Py_Base "HOL-Library.Sublist"
begin

text \<open>
  \<open>str.find\<close> and \<open>in\<close> on texts: the first position at which one of several patterns starts, and how
  it changes when the text grows.
\<close>

definition py_in :: "'a list \<Rightarrow> 'a list \<Rightarrow> bool" where
  "py_in pat t = sublist pat t"

lemma py_in_code [code]: "py_in pat [] = (pat = [])" "py_in pat (c # t) = (prefix pat (c # t) \<or> py_in pat t)"
  by (simp_all add: py_in_def sublist_Cons_right)

text \<open>\<open>find\<close> gives the first index (\<open>-1\<close> is \<open>None\<close>).\<close>

fun py_find :: "'a list \<Rightarrow> 'a list \<Rightarrow> nat option" where
  "py_find pat [] = (if pat = [] then Some 0 else None)"
| "py_find pat (c # t) = (if prefix pat (c # t) then Some 0 else map_option Suc (py_find pat t))"

lemma py_find_None: "py_find pat t = None \<longleftrightarrow> \<not> py_in pat t"
  by (induction t) (auto simp: py_in_def sublist_Cons_right)

lemma py_find_Some:
  "py_find pat t = Some i \<longleftrightarrow> i \<le> length t \<and> prefix pat (drop i t) \<and> (\<forall>j < i. \<not> prefix pat (drop j t))"
proof (induction t arbitrary: i)
  case Nil
  then show ?case by auto
next
  case (Cons c t)
  show ?case
  proof (cases i)
    case 0
    then show ?thesis by auto
  next
    case (Suc k)
    then show ?thesis using Cons[of k] by (auto simp: All_less_Suc2)
  qed
qed

section \<open>Occurrences\<close>

text \<open>One of the patterns starts at position \<open>i\<close>.\<close>

definition starts_at :: "'a list list \<Rightarrow> 'a list \<Rightarrow> nat \<Rightarrow> bool" where
  "starts_at ps t i \<longleftrightarrow> i \<le> length t \<and> (\<exists>p \<in> set ps. prefix p (drop i t))"

definition occurs :: "'a list list \<Rightarrow> 'a list \<Rightarrow> bool" where
  "occurs ps t \<longleftrightarrow> (\<exists>p \<in> set ps. py_in p t)"

lemma occurs_iff_starts: "occurs ps t \<longleftrightarrow> (\<exists>i. starts_at ps t i)"
proof
  assume "occurs ps t"
  then obtain p a b where p: "p \<in> set ps" and t: "t = a @ p @ b" by (auto simp: occurs_def py_in_def sublist_def)
  have "starts_at ps t (length a)" using p by (auto simp: starts_at_def t intro!: bexI[of _ p])
  then show "\<exists>i. starts_at ps t i" ..
next
  assume "\<exists>i. starts_at ps t i"
  then obtain i p where i: "p \<in> set ps" "prefix p (drop i t)" by (auto simp: starts_at_def)
  then obtain zs where "drop i t = p @ zs" by (auto simp: prefix_def)
  then have "t = take i t @ p @ zs" by (metis append_take_drop_id)
  then have "sublist p t" by (metis sublist_def)
  then show "occurs ps t" using i(1) by (auto simp: occurs_def py_in_def)
qed

text \<open>The text up to the first occurrence of a pattern.\<close>

definition before_first :: "'a list list \<Rightarrow> 'a list \<Rightarrow> 'a list" where
  "before_first ps t = (if occurs ps t then take (LEAST i. starts_at ps t i) t else t)"

lemma before_firstI:
  assumes "starts_at ps t i" and "\<And>j. j < i \<Longrightarrow> \<not> starts_at ps t j"
  shows "before_first ps t = take i t"
proof -
  have "(LEAST i. starts_at ps t i) = i" using assms by (intro Least_equality) (auto simp: not_less[symmetric])
  moreover have "occurs ps t" using assms(1) by (auto simp: occurs_iff_starts)
  ultimately show ?thesis by (simp add: before_first_def)
qed

lemma before_first_absent: "\<not> occurs ps t \<Longrightarrow> before_first ps t = t"
  by (simp add: before_first_def)

lemma before_first_prefix: "prefix (before_first ps t) t"
  by (simp add: before_first_def take_is_prefix)

lemma starts_at_mono: "starts_at ps t i \<Longrightarrow> starts_at ps (t @ u) i"
  by (auto simp: starts_at_def intro: prefix_prefix)

lemma starts_at_take_iff:
  assumes "\<And>p. p \<in> set ps \<Longrightarrow> i + length p \<le> length t"
  shows "starts_at ps (t @ u) i \<longleftrightarrow> starts_at ps t i"
proof
  assume "starts_at ps (t @ u) i"
  then obtain p where p: "p \<in> set ps" "prefix p (drop i (t @ u))" by (auto simp: starts_at_def)
  have l: "i \<le> length t" "length p \<le> length (drop i t)" using assms[OF p(1)] by simp_all
  have "p = take (length p) (drop i (t @ u))" using p(2) by (auto simp: prefix_def simp del: drop_append)
  also have "\<dots> = take (length p) (drop i t)" using l by simp
  finally have "prefix p (drop i t)" by (metis take_is_prefix)
  then show "starts_at ps t i" using p(1) l by (auto simp: starts_at_def)
qed (rule starts_at_mono)

lemma occurs_mono: "occurs ps t \<Longrightarrow> occurs ps (t @ u)"
  by (auto simp: occurs_iff_starts intro: starts_at_mono)

text \<open>A pattern that is not in the text starts too late to have ended before it.\<close>

lemma late_start:
  assumes "\<not> occurs ps t" and "starts_at ps (t @ u) i" and "\<And>p. p \<in> set ps \<Longrightarrow> length p \<le> Suc k"
  shows "length t \<le> i + k"
proof (rule ccontr)
  assume "\<not> length t \<le> i + k"
  then have "\<And>p. p \<in> set ps \<Longrightarrow> i + length p \<le> length t" using assms(3) by fastforce
  from starts_at_take_iff[OF this] assms(1,2) show False by (auto simp: occurs_iff_starts)
qed

text \<open>The text before the first occurrence holds no occurrence.\<close>

lemma before_first_clean:
  assumes "\<And>p. p \<in> set ps \<Longrightarrow> p \<noteq> []"
  shows "\<not> occurs ps (before_first ps t)"
proof (cases "occurs ps t")
  case False
  then show ?thesis by (simp add: before_first_def)
next
  case True
  then obtain i where i: "starts_at ps t i" by (auto simp: occurs_iff_starts)
  define m where "m = (LEAST i. starts_at ps t i)"
  have m: "before_first ps t = take m t" using True by (simp add: before_first_def m_def)
  show ?thesis
  proof
    assume "occurs ps (before_first ps t)"
    then obtain j where j: "starts_at ps (take m t) j" by (auto simp: m occurs_iff_starts)
    then obtain p where p: "p \<in> set ps" "prefix p (drop j (take m t))" by (auto simp: starts_at_def)
    have "starts_at ps (take m t @ drop m t) j" by (rule starts_at_mono[OF j])
    then have "starts_at ps t j" by simp
    then have "m \<le> j" unfolding m_def by (rule Least_le)
    then have "p = []" using p(2) by simp
    then show False using assms p(1) by blast
  qed
qed

text \<open>Patterns of one length: more text does not move the first occurrence.\<close>

lemma before_first_extend:
  assumes occ: "occurs ps t" and len: "\<And>p q. p \<in> set ps \<Longrightarrow> q \<in> set ps \<Longrightarrow> length p = length q"
  shows "before_first ps (t @ u) = before_first ps t"
proof -
  define m where "m = (LEAST i. starts_at ps t i)"
  obtain i where "starts_at ps t i" using occ by (auto simp: occurs_iff_starts)
  then have m: "starts_at ps t m" unfolding m_def by (rule LeastI)
  have least: "\<not> starts_at ps t j" if "j < m" for j using that not_less_Least unfolding m_def by blast
  have b: "before_first ps t = take m t" by (rule before_firstI[OF m]) (rule least)
  obtain q where q: "q \<in> set ps" "prefix q (drop m t)" using m by (auto simp: starts_at_def)
  have ml: "m + length q \<le> length t" using m q(2) prefix_length_le[OF q(2)] by (auto simp: starts_at_def)
  have "before_first ps (t @ u) = take m (t @ u)"
  proof (rule before_firstI[OF starts_at_mono[OF m]])
    fix j assume j: "j < m"
    have "j + length p \<le> length t" if "p \<in> set ps" for p using len[OF that q(1)] j ml by simp
    from starts_at_take_iff[OF this] least[OF j] show "\<not> starts_at ps (t @ u) j" by blast
  qed
  then show ?thesis using b ml by simp
qed

end
