(* ===== verification/Stop_Filter.thy ===== *)
theory Stop_Filter
  imports Substrings Bytes
begin

text \<open>
  The text side of \<open>engine/c/openai_server.py\<close>: \<open>StopFilter\<close> (stop sequences cut out of a stream of
  chunks), \<open>read_engine_turn\<close> (one turn of the engine's output, up to its sentinel) and
  \<open>UTF8StreamDecoder\<close>.  A callback is the list of its calls.  Texts and bytes are lists of any type.
\<close>

section \<open>The stop filter\<close>

record 'a stop_filter =
  stops :: "'a list list"
  pending :: "'a list"
  matched :: bool
  keep :: nat

definition longest :: "'a list list \<Rightarrow> nat" where
  "longest ps = foldr (\<lambda>p m. max (length p) m) ps 0"

definition new_filter :: "'a list list \<Rightarrow> 'a stop_filter" where
  "new_filter ps = \<lparr>stops = ps, pending = [], matched = False, keep = longest ps - 1\<rparr>"

definition feed :: "'a list \<Rightarrow> 'a stop_filter \<Rightarrow> 'a list list \<times> 'a stop_filter" where
  "feed t f =
     (if matched f then ([], f)
      else let p = pending f @ t; matches = List.map_filter (\<lambda>v. py_find v p) (stops f) in
        if matches \<noteq> [] then
          (let index = min_list matches in
           (if index \<noteq> 0 then [take index p] else [], f\<lparr>pending := [], matched := True\<rparr>))
        else let safe = length p - keep f in
          if 0 < safe then ([take safe p], f\<lparr>pending := drop safe p\<rparr>) else ([], f\<lparr>pending := p\<rparr>))"

definition finish_filter :: "'a stop_filter \<Rightarrow> 'a list list \<times> 'a stop_filter" where
  "finish_filter f = (if \<not> matched f \<and> pending f \<noteq> [] then [pending f] else [], f\<lparr>pending := []\<rparr>)"

fun feed_all :: "'a list list \<Rightarrow> 'a stop_filter \<Rightarrow> 'a list list \<times> 'a stop_filter" where
  "feed_all [] f = ([], f)"
| "feed_all (t # ts) f = (let (out, f1) = feed t f; (outs, f2) = feed_all ts f1 in (out @ outs, f2))"

text \<open>What the client is sent for the chunks of a generation, and whether a stop was met.\<close>

definition filtered :: "'a list list \<Rightarrow> 'a list list \<Rightarrow> 'a list list \<times> bool" where
  "filtered ps chunks = (let (out, f) = feed_all chunks (new_filter ps); (rest, f') = finish_filter f in (out @ rest, matched f'))"

lemma length_le_longest: "p \<in> set ps \<Longrightarrow> length p \<le> longest ps"
  unfolding longest_def by (induction ps) auto

lemma py_in_iff: "py_in p t \<longleftrightarrow> py_find p t \<noteq> None"
  by (simp add: py_find_None)

lemma finds_empty: "List.map_filter (\<lambda>v. py_find v t) ps = [] \<longleftrightarrow> \<not> occurs ps t"
  by (induction ps) (auto simp: List.map_filter_simps occurs_def py_in_iff split: option.splits)

lemma set_map_filter_iff: "y \<in> set (List.map_filter f xs) \<longleftrightarrow> (\<exists>x \<in> set xs. f x = Some y)"
  by (force simp: List.map_filter_def)

lemma min_list_in: "xs \<noteq> [] \<Longrightarrow> min_list xs \<in> set xs" for xs :: "nat list"
  by (simp add: min_list_Min)

lemma min_find_least:
  assumes "List.map_filter (\<lambda>v. py_find v t) ps \<noteq> []"
  defines "i \<equiv> min_list (List.map_filter (\<lambda>v. py_find v t) ps)"
  shows "starts_at ps t i" and "j < i \<Longrightarrow> \<not> starts_at ps t j"
proof -
  let ?ms = "List.map_filter (\<lambda>v. py_find v t) ps"
  have "i \<in> set ?ms" unfolding i_def by (rule min_list_in[OF assms(1)])
  then obtain p where "p \<in> set ps" "py_find p t = Some i" by (auto simp: set_map_filter_iff)
  then show "starts_at ps t i" by (auto simp: starts_at_def py_find_Some)
  assume j: "j < i"
  show "\<not> starts_at ps t j"
  proof
    assume "starts_at ps t j"
    then obtain p where p: "p \<in> set ps" "j \<le> length t" "prefix p (drop j t)" by (auto simp: starts_at_def)
    have "py_in p t" using p by (metis (no_types) prefix_imp_sublist py_in_def sublist_drop sublist_order.dual_order.trans)
    then obtain k where k: "py_find p t = Some k" using py_find_None[of p t] by auto
    then have "k \<le> j" using p(3) by (meson not_le py_find_Some)
    moreover have "k \<in> set ?ms" using k p(1) by (auto simp: set_map_filter_iff)
    then have "i \<le> k" unfolding i_def using assms(1) by (simp add: min_list_Min)
    ultimately show False using j by simp
  qed
qed

subsection \<open>What has been emitted\<close>

text \<open>
  \<open>filter_inv ps t n out f\<close>: after the chunks of text \<open>t\<close>, \<open>out\<close> was emitted.  While no stop has been
  met everything but the pending tail is out, and the tail is long enough to complete any stop.
\<close>

definition filter_inv :: "'a list list \<Rightarrow> 'a list \<Rightarrow> 'a list \<Rightarrow> 'a stop_filter \<Rightarrow> bool" where
  "filter_inv ps t out f \<longleftrightarrow> stops f = ps \<and> keep f = longest ps - 1 \<and> \<not> matched f
     \<and> t = out @ pending f \<and> \<not> occurs ps t \<and> (out = [] \<or> keep f \<le> length (pending f))"

lemma filter_invD:
  assumes "filter_inv ps t out f"
  shows "stops f = ps" "keep f = longest ps - 1" "\<not> matched f" "t = out @ pending f" "\<not> occurs ps t"
    "out = [] \<or> keep f \<le> length (pending f)"
  using assms unfolding filter_inv_def by blast+

lemma filter_inv_new: "(\<And>p. p \<in> set ps \<Longrightarrow> p \<noteq> []) \<Longrightarrow> filter_inv ps [] [] (new_filter ps)"
  by (auto simp: filter_inv_def new_filter_def occurs_def py_in_def)

lemma starts_at_shift: "starts_at ps (o' @ p) (length o' + j) \<longleftrightarrow> starts_at ps p j"
  by (auto simp: starts_at_def)

text \<open>A stop met by the grown text starts in the pending tail.\<close>

lemma starts_in_tail:
  assumes inv: "filter_inv ps t out f" and i: "starts_at ps (t @ u) i"
  shows "length out \<le> i"
proof (cases "out = []")
  case False
  have "length p \<le> Suc (longest ps - 1)" if "p \<in> set ps" for p using length_le_longest[OF that] by simp
  moreover have "\<not> occurs ps t" and k: "keep f = longest ps - 1" by (rule filter_invD[OF inv])+
  ultimately have "length t \<le> i + keep f" unfolding k by (intro late_start[OF _ i])
  then show ?thesis using inv False by (simp add: filter_inv_def)
qed simp

lemma occurs_tail: "filter_inv ps t out f \<Longrightarrow> occurs ps (t @ u) \<longleftrightarrow> occurs ps (pending f @ u)"
proof
  assume inv: "filter_inv ps t out f" and "occurs ps (t @ u)"
  then obtain i where i: "starts_at ps (t @ u) i" by (auto simp: occurs_iff_starts)
  have "length out \<le> i" by (rule starts_in_tail[OF inv i])
  then obtain j where j: "i = length out + j" using nat_le_iff_add by blast
  have "t @ u = out @ (pending f @ u)" using inv by (simp add: filter_inv_def)
  with i j have "starts_at ps (pending f @ u) j" by (simp only: starts_at_shift)
  then show "occurs ps (pending f @ u)" by (auto simp: occurs_iff_starts)
next
  assume inv: "filter_inv ps t out f" and "occurs ps (pending f @ u)"
  then obtain j where "starts_at ps (pending f @ u) j" by (auto simp: occurs_iff_starts)
  then have "starts_at ps (out @ (pending f @ u)) (length out + j)" by (simp only: starts_at_shift)
  then show "occurs ps (t @ u)" using inv by (auto simp: filter_inv_def occurs_iff_starts)
qed

text \<open>A chunk without a stop keeps the invariant.\<close>

lemma feed_clean:
  assumes inv: "filter_inv ps t out f" and clean: "\<not> occurs ps (t @ u)"
  shows "filter_inv ps (t @ u) (out @ concat (fst (feed u f))) (snd (feed u f))"
proof -
  have "\<not> occurs ps (pending f @ u)" using occurs_tail[OF inv] clean by simp
  then have n: "List.map_filter (\<lambda>v. py_find v (pending f @ u)) (stops f) = []"
    using inv by (simp only: finds_empty) (simp add: filter_inv_def)
  show ?thesis
    using inv clean unfolding feed_def n Let_def filter_inv_def by (auto simp del: take_append drop_append)
qed

text \<open>The chunk that completes a stop: the text before its first occurrence is out.\<close>

lemma feed_match:
  assumes inv: "filter_inv ps t out f" and occ: "occurs ps (t @ u)"
  shows "matched (snd (feed u f)) \<and> out @ concat (fst (feed u f)) = before_first ps (t @ u)"
proof -
  let ?p = "pending f @ u"
  have st: "stops f = ps" and t: "t = out @ pending f" and nm: "\<not> matched f" using inv by (auto simp: filter_inv_def)
  let ?ms = "List.map_filter (\<lambda>v. py_find v ?p) ps"
  have ne: "?ms \<noteq> []" using occ occurs_tail[OF inv, of u] finds_empty[of ?p ps] by simp
  have tu: "t @ u = out @ ?p" using t by simp
  have "before_first ps (t @ u) = take (length out + min_list ?ms) (t @ u)"
  proof (rule before_firstI)
    show "starts_at ps (t @ u) (length out + min_list ?ms)"
      unfolding tu starts_at_shift by (rule min_find_least(1)[OF ne])
    fix j assume j: "j < length out + min_list ?ms"
    show "\<not> starts_at ps (t @ u) j"
    proof
      assume s: "starts_at ps (t @ u) j"
      from starts_in_tail[OF inv this] obtain k where k: "j = length out + k" using nat_le_iff_add by blast
      from s have "starts_at ps ?p k" unfolding tu k starts_at_shift .
      then show False using min_find_least(2)[OF ne, of k] j k by simp
    qed
  qed
  also have "\<dots> = out @ take (min_list ?ms) ?p" unfolding tu by simp
  finally show ?thesis
    using nm ne by (simp add: feed_def Let_def st)
qed

lemma feed_matched [simp]: "matched f \<Longrightarrow> feed u f = ([], f)"
  by (simp add: feed_def)

lemma feed_all_matched [simp]: "matched f \<Longrightarrow> feed_all ts f = ([], f)"
  by (induction ts) auto

text \<open>
  Over a list of chunks: either no stop occurs, or the chunks up to some point complete the first
  one and the rest is ignored.
\<close>

lemma feed_all_spec:
  assumes "filter_inv ps t out f"
  shows "case feed_all ts f of (outs, f') \<Rightarrow>
     if occurs ps (t @ concat ts)
     then matched f' \<and> (\<exists>n \<le> length ts. occurs ps (t @ concat (take n ts)) \<and> (\<forall>m < n. \<not> occurs ps (t @ concat (take m ts)))
            \<and> out @ concat outs = before_first ps (t @ concat (take n ts)))
     else filter_inv ps (t @ concat ts) (out @ concat outs) f'"
  using assms
proof (induction ts arbitrary: t out f)
  case Nil
  then show ?case using filter_invD(5)[OF Nil] by simp
next
  case (Cons u ts)
  obtain o1 f1 where f1: "feed u f = (o1, f1)" by fastforce
  obtain o2 f2 where f2: "feed_all ts f1 = (o2, f2)" by fastforce
  have clean0: "\<not> occurs ps t" by (rule filter_invD(5)[OF Cons.prems])
  show ?case
  proof (cases "occurs ps (t @ u)")
    case True
    from feed_match[OF Cons.prems True] have m: "matched f1" "out @ concat o1 = before_first ps (t @ u)" by (simp_all add: f1)
    have "occurs ps (t @ concat (u # ts))" using occurs_mono[OF True, of "concat ts"] by simp
    moreover have "occurs ps (t @ concat (take 1 (u # ts))) \<and> (\<forall>m < 1. \<not> occurs ps (t @ concat (take m (u # ts))))"
      using True clean0 by simp
    ultimately show ?thesis using m by (auto simp: f1 intro!: exI[of _ 1])
  next
    case False
    from feed_clean[OF Cons.prems False] have i1: "filter_inv ps (t @ u) (out @ concat o1) f1" by (simp add: f1)
    note ih = Cons.IH[OF i1]
    show ?thesis
    proof (cases "occurs ps (t @ u @ concat ts)")
      case occ: True
      then obtain n where n: "n \<le> length ts" "occurs ps ((t @ u) @ concat (take n ts))"
          "\<forall>m < n. \<not> occurs ps ((t @ u) @ concat (take m ts))"
          "(out @ concat o1) @ concat o2 = before_first ps ((t @ u) @ concat (take n ts))" and mt: "matched f2"
        using ih by (auto simp: f2)
      have "\<not> occurs ps (t @ concat (take m (u # ts)))" if "m < Suc n" for m
        using that clean0 n(3) by (cases m) auto
      then show ?thesis using occ n mt by (auto simp: f1 f2 intro!: exI[of _ "Suc n"])
    next
      case none: False
      then show ?thesis using ih by (simp add: f1 f2)
    qed
  qed
qed

lemma filtered_spec:
  assumes ne: "\<And>p. p \<in> set ps \<Longrightarrow> p \<noteq> []" and r: "filtered ps chunks = (outs, m)"
  shows "m \<longleftrightarrow> occurs ps (concat chunks)"
    and "\<not> m \<Longrightarrow> concat outs = concat chunks"
    and "m \<Longrightarrow> \<exists>n \<le> length chunks. occurs ps (concat (take n chunks)) \<and> (\<forall>k < n. \<not> occurs ps (concat (take k chunks)))
           \<and> concat outs = before_first ps (concat (take n chunks))"
proof -
  obtain o1 f1 where f1: "feed_all chunks (new_filter ps) = (o1, f1)" by fastforce
  have "filter_inv ps [] [] (new_filter ps)" by (rule filter_inv_new) (rule ne)
  from feed_all_spec[OF this, of chunks, unfolded f1]
  have s: "if occurs ps (concat chunks)
     then matched f1 \<and> (\<exists>n \<le> length chunks. occurs ps (concat (take n chunks)) \<and> (\<forall>m < n. \<not> occurs ps (concat (take m chunks)))
            \<and> concat o1 = before_first ps (concat (take n chunks)))
     else filter_inv ps (concat chunks) (concat o1) f1" by (simp only: append_Nil prod.case)
  have o: "outs = o1 @ fst (finish_filter f1)" and m: "m = matched f1"
    using r by (auto simp: filtered_def f1 finish_filter_def)
  show "m \<longleftrightarrow> occurs ps (concat chunks)" using s m by (auto simp: filter_inv_def split: if_splits)
  show "concat outs = concat chunks" if "\<not> m"
    using s m that by (auto simp: o finish_filter_def filter_inv_def split: if_splits)
  show "\<exists>n \<le> length chunks. occurs ps (concat (take n chunks)) \<and> (\<forall>k < n. \<not> occurs ps (concat (take k chunks)))
           \<and> concat outs = before_first ps (concat (take n chunks))" if "m"
    using s m that by (auto simp: o finish_filter_def filter_inv_def split: if_splits)
qed

lemma stop_filter_exact_lemma:
  assumes ne: "\<forall>p \<in> set ps. p \<noteq> []" and r: "filtered ps chunks = (outs, m)"
  shows "(m \<longleftrightarrow> occurs ps (concat chunks))
    \<and> (\<not> m \<longrightarrow> concat outs = concat chunks)
    \<and> prefix (concat outs) (concat chunks) \<and> \<not> occurs ps (concat outs)
    \<and> ((\<forall>p \<in> set ps. \<forall>q \<in> set ps. length p = length q) \<longrightarrow> concat outs = before_first ps (concat chunks))"
proof (cases m)
  case False
  have ne': "\<And>p. p \<in> set ps \<Longrightarrow> p \<noteq> []" using ne by blast
  from filtered_spec(1,2)[OF ne' r] False show ?thesis by (auto simp: before_first_absent)
next
  case True
  have ne': "\<And>p. p \<in> set ps \<Longrightarrow> p \<noteq> []" using ne by blast
  from filtered_spec(3)[OF ne' r True] obtain n where n: "occurs ps (concat (take n chunks))"
    "concat outs = before_first ps (concat (take n chunks))" by auto
  have split: "concat chunks = concat (take n chunks) @ concat (drop n chunks)"
    by (metis append_take_drop_id concat_append)
  have "prefix (concat outs) (concat chunks)"
    unfolding n(2) split by (intro prefix_prefix before_first_prefix)
  moreover have "\<not> occurs ps (concat outs)" unfolding n(2) by (rule before_first_clean[OF ne'])
  moreover have "concat outs = before_first ps (concat chunks)"
    if "\<forall>p \<in> set ps. \<forall>q \<in> set ps. length p = length q"
    unfolding split n(2) by (rule before_first_extend[symmetric, OF n(1)]) (use that in blast)
  moreover have "m \<longleftrightarrow> occurs ps (concat chunks)" by (rule filtered_spec(1)[OF ne' r])
  ultimately show ?thesis using True by blast
qed

text \<open>
  C15: for non-empty stops, however the text is cut into chunks, the filter reports a stop exactly when
  one occurs in the text; without one it passes the whole text on; nothing it sends ever contains a
  stop; and for stops of one length it sends exactly the text before the first occurrence.
\<close>

theorem stop_filter_exact:
  assumes ne: "\<forall>p \<in> set ps. p \<noteq> []" and r: "filtered ps chunks = (outs, m)"
  shows "(m \<longleftrightarrow> occurs ps (concat chunks))
    \<and> (\<not> m \<longrightarrow> concat outs = concat chunks)
    \<and> prefix (concat outs) (concat chunks) \<and> \<not> occurs ps (concat outs)
    \<and> ((\<forall>p \<in> set ps. \<forall>q \<in> set ps. length p = length q) \<longrightarrow> concat outs = before_first ps (concat chunks))"
  using stop_filter_exact_lemma[OF assms] .

theorem stop_filter_exact_witness:
  "\<exists>outs. filtered [''END''] [''one E'', ''N'', ''D two''] = (outs, True) \<and> concat outs = ''one ''"
proof -
  let ?t = "concat [''one E'', ''N'', ''D two'']"
  obtain outs m where r: "filtered [''END''] [''one E'', ''N'', ''D two''] = (outs, m)" by (rule prod.exhaust)
  have "\<forall>p \<in> set [''END'']. p \<noteq> []" and l: "\<forall>p \<in> set [''END'']. \<forall>q \<in> set [''END'']. length p = length q"
    by code_simp+
  note e = stop_filter_exact[OF this(1) r]
  from e l have c: "concat outs = before_first [''END''] ?t" by blast
  have "list_all (\<lambda>j. \<not> starts_at [''END''] ?t j) [0..<4]" by code_simp
  then have early: "\<not> starts_at [''END''] ?t j" if "j < 4" for j using that unfolding list_all_iff by simp
  have at: "starts_at [''END''] ?t 4" by code_simp
  have "concat outs = take 4 ?t" unfolding c by (rule before_firstI[OF at early])
  also have "take 4 ?t = ''one ''" by code_simp
  finally have o: "concat outs = ''one ''" .
  have "m = True" using e at unfolding occurs_iff_starts by blast
  with r o show ?thesis by blast
qed

text \<open>
  With stops of several lengths the result depends on how the engine cuts its text: a short stop that
  is complete before a longer one that began earlier wins.
\<close>

theorem stop_depends_on_chunks:
  "concat (fst (filtered [''abcd'', ''c''] [''xabcd''])) = ''x''
   \<and> concat (fst (filtered [''abcd'', ''c''] [''xabc'', ''d''])) = ''xab''"
  by code_simp

end
