(* ===== verification/Generation_Queue.thy ===== *)
theory Generation_Queue
  imports Py_Base
begin

text \<open>
  \<open>APIError\<close> and \<open>GenerationScheduler\<close> of \<open>engine/c/openai_server.py\<close>: bounded first-in-first-out
  admission of requests to the one engine.  Every section of the code under the condition's lock is
  one operation; a thread between two of them is waiting or generating.  The threads of the server
  are an inductive step relation over the scheduler's state.
\<close>

record api_error =
  status :: int
  message :: string
  param :: "string option"
  code :: "string option"
  error_type :: string
  headers :: "(string \<times> string) list"

text \<open>What a handler can raise.\<close>

datatype srv_exc = Api api_error | ClientCancelled | Raised py_exc

definition error_object :: "api_error \<Rightarrow> pyval" where
  "error_object e = PyDict [(''error'', PyDict [(''message'', PyStr (message e)), (''type'', PyStr (error_type e)),
     (''param'', py_opt_str (param e)), (''code'', py_opt_str (code e))])]"

section \<open>The scheduler\<close>

record gen_scheduler =
  max_queue :: int
  queue_timeout :: pyfloat
  queue :: "nat list"
  active :: bool
  closed :: bool
  admitted :: nat
  completed :: nat
  rejected :: nat
  timed_out :: nat
  cancelled :: nat

definition new_gen_scheduler :: "int \<Rightarrow> pyfloat \<Rightarrow> gen_scheduler res" where
  "new_gen_scheduler n timeout =
     (if n < 0 then Inl (ValueError ''max_queue cannot be negative'')
      else if fle timeout (Fin 0) then Inl (ValueError ''queue_timeout must be positive'')
      else Inr \<lparr>max_queue = n, queue_timeout = timeout, queue = [], active = False, closed = False,
        admitted = 0, completed = 0, rejected = 0, timed_out = 0, cancelled = 0\<rparr>)"

definition scheduler_closed :: srv_exc where
  "scheduler_closed = Api \<lparr>status = 503, message = ''The inference scheduler is shutting down.'', param = None,
     code = Some ''scheduler_closed'', error_type = ''server_error'', headers = []\<rparr>"

definition queue_full :: srv_exc where
  "queue_full = Api \<lparr>status = 429, message = ''The inference queue is full.'', param = None, code = Some ''queue_full'',
     error_type = ''rate_limit_error'', headers = [(''Retry-After'', ''1'')]\<rparr>"

definition queue_timed_out :: srv_exc where
  "queue_timed_out = Api \<lparr>status = 429, message = ''Timed out waiting for the inference engine.'', param = None,
     code = Some ''queue_timeout'', error_type = ''rate_limit_error'', headers = [(''Retry-After'', ''1'')]\<rparr>"

datatype outcome = Admitted | Waiting | Failed srv_exc

text \<open>What a waiting thread sees: its client is gone, its deadline has passed.\<close>

record sighting =
  gone :: bool
  late :: bool

text \<open>One pass of the waiting loop.\<close>

definition poll :: "nat \<Rightarrow> sighting \<Rightarrow> gen_scheduler \<Rightarrow> outcome \<times> gen_scheduler" where
  "poll t ob s =
     (if closed s then (Failed scheduler_closed, s\<lparr>queue := remove1 t (queue s)\<rparr>)
      else if \<not> active s \<and> take 1 (queue s) = [t]
      then (Admitted, s\<lparr>queue := tl (queue s), active := True, admitted := admitted s + 1\<rparr>)
      else if gone ob then (Failed ClientCancelled, s\<lparr>queue := remove1 t (queue s), cancelled := cancelled s + 1\<rparr>)
      else if late ob then (Failed queue_timed_out, s\<lparr>queue := remove1 t (queue s), timed_out := timed_out s + 1\<rparr>)
      else (Waiting, s))"

text \<open>A request arrives; if it is queued it polls before it first waits.\<close>

definition admit :: "nat \<Rightarrow> sighting \<Rightarrow> gen_scheduler \<Rightarrow> outcome \<times> gen_scheduler" where
  "admit t ob s =
     (if closed s then (Failed scheduler_closed, s)
      else if (active s \<or> queue s \<noteq> []) \<and> max_queue s \<le> int (length (queue s))
      then (Failed queue_full, s\<lparr>rejected := rejected s + 1\<rparr>)
      else poll t ob (s\<lparr>queue := queue s @ [t]\<rparr>))"

text \<open>The \<open>finally\<close> of a generation.\<close>

definition release :: "gen_scheduler \<Rightarrow> gen_scheduler" where
  "release s = s\<lparr>active := False, completed := completed s + 1\<rparr>"

definition close :: "gen_scheduler \<Rightarrow> gen_scheduler" where
  "close s = s\<lparr>closed := True\<rparr>"

definition snapshot :: "gen_scheduler \<Rightarrow> pyval" where
  "snapshot s = PyDict [(''active'', PyBool (active s)), (''queued'', PyInt (int (length (queue s)))),
     (''max_queue'', PyInt (max_queue s)), (''queue_timeout_seconds'', PyFloat (queue_timeout s)),
     (''admitted'', PyInt (int (admitted s))), (''completed'', PyInt (int (completed s))),
     (''rejected'', PyInt (int (rejected s))), (''timed_out'', PyInt (int (timed_out s))),
     (''cancelled'', PyInt (int (cancelled s)))]"

section \<open>The threads\<close>

text \<open>
  The threads inside \<open>admit\<close> and inside the generation, and the number of requests that have arrived
  (the ticket of the next one).
\<close>

record server =
  sched :: gen_scheduler
  waiting :: "nat list"
  running :: "nat list"
  arrivals :: nat

datatype event = Ran nat | Waits nat | Turned nat srv_exc | Left nat | Closed

definition event_of :: "nat \<Rightarrow> outcome \<Rightarrow> event" where
  "event_of t r = (case r of Admitted \<Rightarrow> Ran t | Waiting \<Rightarrow> Waits t | Failed e \<Rightarrow> Turned t e)"

text \<open>Where the thread of a ticket goes after an operation.\<close>

definition moved :: "nat \<Rightarrow> outcome \<times> gen_scheduler \<Rightarrow> server \<Rightarrow> server" where
  "moved t r s = s\<lparr>sched := snd r,
     waiting := (if fst r = Waiting then (if t \<in> set (waiting s) then waiting s else waiting s @ [t]) else remove1 t (waiting s)),
     running := (if fst r = Admitted then t # running s else running s)\<rparr>"

inductive srv_step :: "server \<Rightarrow> event \<Rightarrow> server \<Rightarrow> bool" where
  arrive: "r = admit (arrivals s) ob (sched s) \<Longrightarrow>
     srv_step s (event_of (arrivals s) (fst r)) ((moved (arrivals s) r s)\<lparr>arrivals := arrivals s + 1\<rparr>)"
| wake: "t \<in> set (waiting s) \<Longrightarrow> r = poll t ob (sched s) \<Longrightarrow> srv_step s (event_of t (fst r)) (moved t r s)"
| leave: "t \<in> set (running s) \<Longrightarrow> srv_step s (Left t) (s\<lparr>sched := release (sched s), running := remove1 t (running s)\<rparr>)"
| shut: "srv_step s Closed (s\<lparr>sched := close (sched s)\<rparr>)"

inductive srv_run :: "server \<Rightarrow> event list \<Rightarrow> server \<Rightarrow> bool" where
  none: "srv_run s [] s"
| more: "srv_run s es s' \<Longrightarrow> srv_step s' e s'' \<Longrightarrow> srv_run s (es @ [e]) s''"

inductive_cases srv_runE: "srv_run s es s'"

definition fresh_server :: "gen_scheduler \<Rightarrow> server" where
  "fresh_server q = \<lparr>sched = q, waiting = [], running = [], arrivals = 0\<rparr>"

definition ran :: "event list \<Rightarrow> nat list" where
  "ran es = concat (List.map (\<lambda>e. case e of Ran t \<Rightarrow> [t] | _ \<Rightarrow> []) es)"

lemma ran_append [simp]: "ran (es @ es') = ran es @ ran es'" and ran_Nil [simp]: "ran [] = []"
  by (simp_all add: ran_def)

lemma ran_event [simp]: "ran [event_of t r] = (if r = Admitted then [t] else [])" "ran [Left t] = []" "ran [Closed] = []"
  by (cases r; simp add: ran_def event_of_def)+

section \<open>The invariant\<close>

text \<open>
  The queue is the waiting threads in order of arrival; the engine is held by at most one thread; the
  threads that have run did so in order of arrival, before everyone who waits; the queue never exceeds
  its bound; and the counters account for every request.
\<close>

definition srv_inv :: "nat list \<Rightarrow> server \<Rightarrow> bool" where
  "srv_inv served s \<longleftrightarrow> queue (sched s) = waiting s \<and> sorted_wrt (<) (served @ waiting s)
     \<and> (\<forall>t \<in> set (served @ waiting s). t < arrivals s)
     \<and> (if active (sched s) then \<exists>t \<in> set served. running s = [t] else running s = [])
     \<and> int (length (waiting s)) \<le> max_queue (sched s)
     \<and> length served = admitted (sched s) \<and> admitted (sched s) = completed (sched s) + length (running s)"

lemma poll_waits: "poll t ob s = (Waiting, s') \<Longrightarrow> s' = s"
  by (auto simp: poll_def split: if_splits)

lemma sorted_wrt_remove1: "sorted_wrt P xs \<Longrightarrow> sorted_wrt P (remove1 t xs)"
  by (induction xs) (use set_remove1_subset in fastforce)+

lemma sorted_remove1: "sorted_wrt (<) (xs @ ys) \<Longrightarrow> sorted_wrt (<) (xs @ remove1 t ys)" for xs :: "nat list"
  using set_remove1_subset[of t ys] by (auto simp: sorted_wrt_append sorted_wrt_remove1)

lemma poll_inv:
  assumes q: "queue q = w" and "sorted_wrt (<) (served @ w)" and "\<forall>t \<in> set (served @ w). t < n" and t: "t \<in> set w"
    and act: "if active q then \<exists>t \<in> set served. rs = [t] else rs = []"
    and adm: "length served = admitted q" "admitted q = completed q + length rs"
    and r: "poll t ob q = (out, q')" and w': "w' = (if out = Waiting then w else remove1 t w)"
    and rs': "rs' = (if out = Admitted then t # rs else rs)" and served': "served' = (if out = Admitted then served @ [t] else served)"
  shows "queue q' = w' \<and> sorted_wrt (<) (served' @ w') \<and> (\<forall>t \<in> set (served' @ w'). t < n)
    \<and> (if active q' then \<exists>t \<in> set served'. rs' = [t] else rs' = [])
    \<and> length served' = admitted q' \<and> admitted q' = completed q' + length rs' \<and> max_queue q' = max_queue q
    \<and> (out = Waiting \<longrightarrow> active q \<or> take 1 w \<noteq> [t])"
proof (cases "out = Admitted")
  case True
  then obtain v where v: "w = t # v" "\<not> active q" "q' = q\<lparr>queue := v, active := True, admitted := admitted q + 1\<rparr>"
    using r q t by (cases w) (auto simp: poll_def split: if_splits)
  then show ?thesis using assms True by auto
next
  case False
  have s: "sorted_wrt (<) (served @ w')" using assms(2) sorted_remove1 by (simp add: w')
  moreover have "set w' \<subseteq> set w" using set_remove1_subset[of t w] by (simp add: w')
  ultimately show ?thesis
    using False assms by (auto simp: poll_def split: if_splits)
qed

text \<open>A full queue or a closed scheduler turns an arrival away; otherwise it is queued and polled.\<close>

lemma admit_cases:
  obtains "closed q" "admit t ob q = (Failed scheduler_closed, q)"
  | "\<not> closed q" "active q \<or> queue q \<noteq> []" "max_queue q \<le> int (length (queue q))"
      "admit t ob q = (Failed queue_full, q\<lparr>rejected := rejected q + 1\<rparr>)"
  | "\<not> closed q" "\<not> active q \<and> queue q = [] \<or> int (length (queue q)) < max_queue q"
      "admit t ob q = poll t ob (q\<lparr>queue := queue q @ [t]\<rparr>)"
proof -
  show thesis
  proof (cases "closed q")
    case True
    then show thesis by (intro that(1)) (simp_all add: admit_def)
  next
    case False
    then show thesis using that(2,3) by (cases "(active q \<or> queue q \<noteq> []) \<and> max_queue q \<le> int (length (queue q))") (auto simp: admit_def)
  qed
qed

lemma wake_inv:
  assumes "srv_inv served s" and "t \<in> set (waiting s)" and "poll t ob (sched s) = (out, q')"
  shows "srv_inv (served @ ran [event_of t out]) (moved t (out, q') s)"
proof -
  let ?w = "if out = Waiting then waiting s else remove1 t (waiting s)"
  from poll_inv[OF _ _ _ assms(2) _ _ _ assms(3), of served "arrivals s" "running s" ?w
      "if out = Admitted then t # running s else running s" "if out = Admitted then served @ [t] else served"] assms(1)
  have "queue q' = ?w \<and> sorted_wrt (<) ((if out = Admitted then served @ [t] else served) @ ?w) \<and>
     (\<forall>x \<in> set ((if out = Admitted then served @ [t] else served) @ ?w). x < arrivals s) \<and>
     (if active q' then \<exists>x \<in> set (if out = Admitted then served @ [t] else served). (if out = Admitted then t # running s else running s) = [x]
      else (if out = Admitted then t # running s else running s) = []) \<and>
     length (if out = Admitted then served @ [t] else served) = admitted q' \<and>
     admitted q' = completed q' + length (if out = Admitted then t # running s else running s) \<and> max_queue q' = max_queue (sched s)"
    by (simp add: srv_inv_def)
  moreover have "length ?w \<le> length (waiting s)" by (simp add: length_remove1)
  ultimately show ?thesis
    using assms by (cases out) (auto simp: srv_inv_def moved_def)
qed

lemma turned_away_inv:
  assumes "srv_inv served s" and "q' = sched s \<or> q' = (sched s)\<lparr>rejected := k\<rparr>"
  shows "srv_inv (served @ ran [event_of (arrivals s) (Failed e)]) ((moved (arrivals s) (Failed e, q') s)\<lparr>arrivals := arrivals s + 1\<rparr>)"
proof -
  have "arrivals s \<notin> set (waiting s)" using assms(1) by (auto simp: srv_inv_def)
  then have "remove1 (arrivals s) (waiting s) = waiting s" by (rule remove1_idem)
  then show ?thesis using assms by (auto simp: srv_inv_def moved_def less_Suc_eq)
qed

lemma arrive_inv:
  assumes inv: "srv_inv served s" and a: "admit (arrivals s) ob (sched s) = (out, q')"
  shows "srv_inv (served @ ran [event_of (arrivals s) out]) ((moved (arrivals s) (out, q') s)\<lparr>arrivals := arrivals s + 1\<rparr>)"
proof (rule admit_cases[of "sched s" "arrivals s" ob])
  assume "admit (arrivals s) ob (sched s) = (Failed scheduler_closed, sched s)"
  then show ?thesis using a turned_away_inv[OF inv] by auto
next
  assume "admit (arrivals s) ob (sched s) = (Failed queue_full, (sched s)\<lparr>rejected := rejected (sched s) + 1\<rparr>)"
  then show ?thesis using a turned_away_inv[OF inv] by auto
next
  let ?t = "arrivals s" and ?q = "(sched s)\<lparr>queue := queue (sched s) @ [arrivals s]\<rparr>"
  assume room: "\<not> active (sched s) \<and> queue (sched s) = [] \<or> int (length (queue (sched s))) < max_queue (sched s)"
    and "admit ?t ob (sched s) = poll ?t ob ?q"
  then have p: "poll ?t ob ?q = (out, q')" using a by simp
  have new: "?t \<notin> set (waiting s)" using inv by (auto simp: srv_inv_def)
  let ?w = "if out = Waiting then waiting s @ [?t] else waiting s"
  from poll_inv[OF _ _ _ _ _ _ _ p, of "waiting s @ [?t]" served "?t + 1" "running s" ?w
      "if out = Admitted then ?t # running s else running s" "if out = Admitted then served @ [?t] else served"] inv new
  have "queue q' = ?w \<and> sorted_wrt (<) ((if out = Admitted then served @ [?t] else served) @ ?w) \<and>
     (\<forall>x \<in> set ((if out = Admitted then served @ [?t] else served) @ ?w). x < ?t + 1) \<and>
     (if active q' then \<exists>x \<in> set (if out = Admitted then served @ [?t] else served). (if out = Admitted then ?t # running s else running s) = [x]
      else (if out = Admitted then ?t # running s else running s) = []) \<and>
     length (if out = Admitted then served @ [?t] else served) = admitted q' \<and>
     admitted q' = completed q' + length (if out = Admitted then ?t # running s else running s) \<and> max_queue q' = max_queue (sched s)
     \<and> (out = Waiting \<longrightarrow> active (sched s) \<or> take 1 (waiting s @ [?t]) \<noteq> [?t])"
    by (simp add: srv_inv_def sorted_wrt_append remove1_append less_Suc_eq)
  moreover have "out = Waiting \<Longrightarrow> int (length (waiting s) + 1) \<le> max_queue (sched s)"
    using calculation room inv by (auto simp: srv_inv_def)
  moreover have "remove1 ?t (waiting s) = waiting s" by (rule remove1_idem[OF new])
  ultimately show ?thesis
    using inv new by (cases out) (auto simp: srv_inv_def moved_def)
qed

lemma leave_inv:
  assumes "srv_inv served s" and "t \<in> set (running s)"
  shows "srv_inv served (s\<lparr>sched := release (sched s), running := remove1 t (running s)\<rparr>)"
  using assms by (auto simp: srv_inv_def release_def split: if_splits)

lemma srv_step_inv: "srv_step s e s' \<Longrightarrow> srv_inv served s \<Longrightarrow> srv_inv (served @ ran [e]) s'"
proof (induction rule: srv_step.induct)
  case (arrive r s ob)
  then show ?case using arrive_inv[of served s ob "fst r" "snd r"] by simp
next
  case (wake t s r ob)
  then show ?case using wake_inv[of served s t ob "fst r" "snd r"] by simp
next
  case (leave t s)
  then show ?case using leave_inv by simp
next
  case (shut s)
  then show ?case by (simp add: srv_inv_def close_def)
qed

lemma srv_run_inv: "srv_run s es s' \<Longrightarrow> srv_inv served s \<Longrightarrow> srv_inv (served @ ran es) s'"
proof (induction rule: srv_run.induct)
  case (more s es s' e s'')
  from srv_step_inv[OF more.hyps(2) more.IH[OF more.prems]] show ?case by simp
qed simp

lemma poll_max_queue: "max_queue (snd (poll t ob q)) = max_queue q"
  by (simp add: poll_def)

lemma admit_max_queue: "max_queue (snd (admit t ob q)) = max_queue q"
  by (simp add: admit_def poll_max_queue)

lemma srv_step_max_queue: "srv_step s e s' \<Longrightarrow> max_queue (sched s') = max_queue (sched s)"
  by (induction rule: srv_step.induct) (auto simp: moved_def release_def close_def admit_max_queue poll_max_queue)

lemma srv_run_max_queue: "srv_run s es s' \<Longrightarrow> max_queue (sched s') = max_queue (sched s)"
  by (induction rule: srv_run.induct) (auto dest: srv_step_max_queue)

lemma fresh_inv: "new_gen_scheduler n timeout = Inr q \<Longrightarrow> srv_inv [] (fresh_server q)"
  by (auto simp: new_gen_scheduler_def fresh_server_def srv_inv_def)

text \<open>
  C4: over every interleaving of arriving, waking, leaving and closing threads, at most one request holds
  the engine; requests get it in the order they arrived, and whoever waits arrived after everyone who
  got it; no more than \<open>max_queue\<close> wait; and every admitted request is completed or running.
\<close>

theorem admission_is_fifo:
  assumes "new_gen_scheduler n timeout = Inr q" and "srv_run (fresh_server q) es s"
  shows "length (running s) \<le> 1 \<and> (active (sched s) \<longleftrightarrow> running s \<noteq> [])
    \<and> sorted_wrt (<) (ran es @ waiting s) \<and> queue (sched s) = waiting s
    \<and> int (length (waiting s)) \<le> n
    \<and> admitted (sched s) = length (ran es) \<and> admitted (sched s) = completed (sched s) + length (running s)"
proof -
  have "srv_inv ([] @ ran es) s" by (rule srv_run_inv[OF assms(2) fresh_inv[OF assms(1)]])
  moreover have "max_queue (sched s) = n"
    using srv_run_max_queue[OF assms(2)] assms(1) by (auto simp: fresh_server_def new_gen_scheduler_def split: if_splits)
  ultimately show ?thesis by (auto simp: srv_inv_def split: if_splits)
qed

text \<open>Three requests: the first runs, the second waits, the third is turned away.\<close>

definition calm :: sighting where
  "calm = \<lparr>gone = False, late = False\<rparr>"

definition arrival :: "server \<Rightarrow> server" where
  "arrival s = (let r = admit (arrivals s) calm (sched s) in (moved (arrivals s) r s)\<lparr>arrivals := arrivals s + 1\<rparr>)"

definition demo_queue :: gen_scheduler where
  "demo_queue = \<lparr>max_queue = 1, queue_timeout = Fin 300, queue = [], active = False, closed = False,
     admitted = 0, completed = 0, rejected = 0, timed_out = 0, cancelled = 0\<rparr>"

lemma demo_queue: "new_gen_scheduler 1 (Fin 300) = Inr demo_queue"
  by (simp add: new_gen_scheduler_def demo_queue_def fle_def)

lemma arrival_step: "srv_run s0 es s \<Longrightarrow> srv_run s0 (es @ [event_of (arrivals s) (fst (admit (arrivals s) calm (sched s)))]) (arrival s)"
  unfolding arrival_def Let_def by (erule more) (rule arrive[OF refl])

theorem admission_is_fifo_witness:
  "\<exists>es s. srv_run (fresh_server demo_queue) es s \<and> running s = [0] \<and> waiting s = [1] \<and> rejected (sched s) = 1
     \<and> sorted_wrt (<) (ran es @ waiting s)"
proof -
  note run = arrival_step[OF arrival_step[OF arrival_step[OF none[of "fresh_server demo_queue"]]]]
  have "running (arrival (arrival (arrival (fresh_server demo_queue)))) = [0] \<and> waiting (arrival (arrival (arrival (fresh_server demo_queue)))) = [1]
     \<and> rejected (sched (arrival (arrival (arrival (fresh_server demo_queue))))) = 1"
    by code_simp
  then show ?thesis using run admission_is_fifo[OF demo_queue run] by blast
qed

section \<open>Nobody waits for ever\<close>

text \<open>
  An infinite execution: at each instant one thread makes a step, or nothing happens (\<open>None\<close>).  It is
  fair when a thread that holds the engine leaves it in the end (the generator is exhausted or closed, and
  the \<open>finally\<close> runs) and a thread that waits polls again (\<open>condition.wait\<close> is given at most a quarter of
  a second).  Nothing else is asked of the schedule: the order of the passes, and whatever arrives,
  is cancelled, times out or closes the scheduler meanwhile, is arbitrary.
\<close>

definition execution :: "server \<Rightarrow> (nat \<Rightarrow> server) \<Rightarrow> (nat \<Rightarrow> event option) \<Rightarrow> bool" where
  "execution s0 st ev \<longleftrightarrow> st 0 = s0
     \<and> (\<forall>i. case ev i of None \<Rightarrow> st (Suc i) = st i | Some e \<Rightarrow> srv_step (st i) e (st (Suc i)))"

definition polls :: "nat \<Rightarrow> event option \<Rightarrow> bool" where
  "polls t e \<longleftrightarrow> e = Some (Ran t) \<or> e = Some (Waits t) \<or> (\<exists>x. e = Some (Turned t x))"

definition fair :: "(nat \<Rightarrow> server) \<Rightarrow> (nat \<Rightarrow> event option) \<Rightarrow> bool" where
  "fair st ev \<longleftrightarrow> (\<forall>i t. t \<in> set (running (st i)) \<longrightarrow> (\<exists>j \<ge> i. ev j = Some (Left t)))
     \<and> (\<forall>i t. t \<in> set (waiting (st i)) \<longrightarrow> (\<exists>j \<ge> i. polls t (ev j)))"

text \<open>A request is through when it got the engine or was turned away.\<close>

definition through :: "nat \<Rightarrow> event option \<Rightarrow> bool" where
  "through t e \<longleftrightarrow> e = Some (Ran t) \<or> (\<exists>x. e = Some (Turned t x))"

lemma execution_inv: "execution s0 st ev \<Longrightarrow> srv_inv served s0 \<Longrightarrow> \<exists>served. srv_inv served (st i)"
proof (induction i)
  case (Suc i)
  then obtain sv where sv: "srv_inv sv (st i)" by blast
  show ?case
  proof (cases "ev i")
    case None
    then have "st (Suc i) = st i" using Suc.prems(1) by (fastforce simp: execution_def dest: spec[of _ i])
    then show ?thesis using sv by auto
  next
    case (Some e)
    then have "srv_step (st i) e (st (Suc i))" using Suc.prems(1) by (fastforce simp: execution_def dest: spec[of _ i])
    from srv_step_inv[OF this sv] show ?thesis by blast
  qed
qed (auto simp: execution_def)

text \<open>One step seen from a waiting request: it is through, or it keeps or betters its place.\<close>

lemma remove1_before:
  assumes "x \<noteq> t"
  shows "\<exists>b a. remove1 x (before @ t # after) = b @ t # a \<and> (b = before \<or> length b < length before)"
  using assms
proof (cases "x \<in> set before")
  case True
  then have "length (remove1 x before) < length before" using length_pos_if_in_set[of x before] by (simp add: length_remove1)
  moreover have "remove1 x (before @ t # after) = remove1 x before @ t # after" using True by (simp add: remove1_append)
  ultimately show ?thesis by blast
qed (auto simp: remove1_append)

lemma moved_waiting:
  assumes "waiting s = before @ t # after" and "x \<noteq> t"
  shows "\<exists>b a. waiting (moved x r s) = b @ t # a \<and> (b = before \<or> length b < length before)"
  using assms remove1_before[of x t before after] by (auto simp: moved_def)

lemma step_keeps_place:
  assumes inv: "srv_inv served s" and w: "waiting s = before @ t # after" and st: "srv_step s e s'" and th: "\<not> through t (Some e)"
  shows "\<exists>b a. waiting s' = b @ t # a \<and> (b = before \<or> length b < length before)"
  using st
proof cases
  case (arrive r ob)
  have "arrivals s \<noteq> t" using inv w by (auto simp: srv_inv_def)
  from moved_waiting[OF w this, of r] show ?thesis using arrive by simp
next
  case (wake x r ob)
  show ?thesis
  proof (cases "x = t")
    case True
    then have "fst r = Waiting" using th wake by (cases "fst r") (auto simp: through_def event_of_def)
    then show ?thesis using wake w by (auto simp: moved_def)
  next
    case False
    from moved_waiting[OF w this, of r] show ?thesis using wake by simp
  qed
qed (use w in auto)

text \<open>An idle engine stays idle until the head of the queue polls, and then it is given to it.\<close>

lemma idle_until_head:
  assumes inv: "srv_inv served s" and w: "waiting s = h # ws" and idle: "\<not> active (sched s)" and st: "srv_step s e s'"
  shows "polls h (Some e) \<and> (e = Ran h \<or> e = Turned h scheduler_closed \<and> closed (sched s)) \<or> \<not> polls h (Some e) \<and> \<not> active (sched s')"
  using st
proof cases
  case (arrive r ob)
  have q: "queue (sched s) = h # ws" using inv w by (simp add: srv_inv_def)
  have h: "h < arrivals s" using inv w by (auto simp: srv_inv_def)
  have "\<not> active (snd r)"
    using idle q h unfolding arrive(3) by (auto simp: admit_def poll_def)
  then show ?thesis using arrive h by (cases "fst r") (auto simp: polls_def event_of_def moved_def)
next
  case (wake x r ob)
  have q: "queue (sched s) = h # ws" using inv w by (simp add: srv_inv_def)
  show ?thesis
  proof (cases "x = h")
    case True
    then show ?thesis using wake q idle by (cases "closed (sched s)") (auto simp: poll_def polls_def event_of_def)
  next
    case False
    then have "\<not> active (snd r)" using idle q unfolding wake(4) by (auto simp: poll_def)
    then show ?thesis using wake False by (cases "fst r") (auto simp: polls_def event_of_def moved_def)
  qed
qed (use idle in \<open>auto simp: polls_def release_def close_def\<close>)

lemma execution_step: "execution s0 st ev \<Longrightarrow> ev i = Some e \<Longrightarrow> srv_step (st i) e (st (Suc i))"
  by (auto simp: execution_def dest: spec[of _ i])

lemma execution_stutter: "execution s0 st ev \<Longrightarrow> ev i = None \<Longrightarrow> st (Suc i) = st i"
  by (auto simp: execution_def dest: spec[of _ i])

text \<open>Until a request is through it waits, at a place that never gets worse.\<close>

lemma place_kept:
  assumes ex: "execution s0 st ev" and inv: "srv_inv served s0" and w: "waiting (st i) = before @ t # after"
    and th: "\<forall>j. i \<le> j \<and> j < i + k \<longrightarrow> \<not> through t (ev j)"
  shows "\<exists>b a. waiting (st (i + k)) = b @ t # a \<and> (b = before \<or> length b < length before)"
  using th
proof (induction k)
  case (Suc k)
  then obtain b a where ba: "waiting (st (i + k)) = b @ t # a" "b = before \<or> length b < length before" by fastforce
  obtain sv where sv: "srv_inv sv (st (i + k))" using execution_inv[OF ex inv] by blast
  show ?case
  proof (cases "ev (i + k)")
    case None
    then show ?thesis using execution_stutter[OF ex None] ba by auto
  next
    case (Some e)
    have "\<not> through t (Some e)" using Suc.prems Some by (metis le_add1 lessI add_Suc_right)
    from step_keeps_place[OF sv ba(1) execution_step[OF ex Some] this] ba(2) show ?thesis by fastforce
  qed
qed (use w in auto)

lemma stays_idle:
  assumes ex: "execution s0 st ev" and inv: "srv_inv served s0" and idle: "\<not> active (sched (st j))"
    and w: "\<forall>m \<ge> j. \<exists>ws. waiting (st m) = h # ws" and no: "\<forall>m. j \<le> m \<and> m < j + k \<longrightarrow> \<not> polls h (ev m)"
  shows "\<not> active (sched (st (j + k)))"
  using no
proof (induction k)
  case (Suc k)
  then have idle': "\<not> active (sched (st (j + k)))" by auto
  obtain ws where ws: "waiting (st (j + k)) = h # ws" using w by (meson le_add1)
  obtain sv where sv: "srv_inv sv (st (j + k))" using execution_inv[OF ex inv] by blast
  show ?case
  proof (cases "ev (j + k)")
    case None
    then show ?thesis using execution_stutter[OF ex None] idle' by simp
  next
    case (Some e)
    have "\<not> polls h (Some e)" using Suc.prems Some by (metis le_add1 lessI add_Suc_right)
    then show ?thesis using idle_until_head[OF sv ws idle' execution_step[OF ex Some]] by simp
  qed
qed (use idle in simp)

text \<open>In a fair execution a head of the queue that stays there would have got the engine.\<close>

lemma head_polls_idle:
  assumes ex: "execution s0 st ev" and fr: "fair st ev" and inv: "srv_inv served s0"
    and w: "\<forall>m \<ge> i. \<exists>ws. waiting (st m) = h # ws"
  shows "\<exists>m \<ge> i. through h (ev m)"
proof -
  obtain j where j: "i \<le> j" "\<not> active (sched (st j))"
  proof (cases "active (sched (st i))")
    case True
    obtain sv where sv: "srv_inv sv (st i)" using execution_inv[OF ex inv] by blast
    then obtain x where "x \<in> set (running (st i))" using True by (auto simp: srv_inv_def)
    then obtain k where k: "i \<le> k" "ev k = Some (Left x)" using fr unfolding fair_def by blast
    from execution_step[OF ex k(2)] have "\<not> active (sched (st (Suc k)))"
      by cases (auto simp: release_def event_of_def split: outcome.splits)
    then show thesis using that[of "Suc k"] k(1) by simp
  qed (use that in auto)
  have "h \<in> set (waiting (st j))" using w j(1) by (metis list.set_intros(1))
  then have "\<exists>k. polls h (ev (j + k))" using fr by (fastforce simp: fair_def dest: le_Suc_ex)
  then obtain k where k: "polls h (ev (j + k))" "\<forall>m < k. \<not> polls h (ev (j + m))"
    using exists_least_iff[of "\<lambda>k. polls h (ev (j + k))"] by blast
  have "\<forall>m. j \<le> m \<and> m < j + k \<longrightarrow> \<not> polls h (ev m)" using k(2) by (metis le_iff_add nat_add_left_cancel_less)
  moreover have "\<forall>m \<ge> j. \<exists>ws. waiting (st m) = h # ws" using w j(1) le_trans by blast
  ultimately have idle: "\<not> active (sched (st (j + k)))" using stays_idle[OF ex inv j(2)] by simp
  obtain ws where ws: "waiting (st (j + k)) = h # ws" using w j(1) by (meson trans_le_add1)
  obtain sv where sv: "srv_inv sv (st (j + k))" using execution_inv[OF ex inv] by blast
  obtain e where e: "ev (j + k) = Some e" using k(1) by (auto simp: polls_def)
  from idle_until_head[OF sv ws idle execution_step[OF ex e]] k(1) e have "through h (ev (j + k))" by (auto simp: through_def)
  then show ?thesis using j(1) by (metis trans_le_add1)
qed

lemma through_gone:
  assumes inv: "srv_inv served s" and h: "h \<in> set (waiting s)" and st: "srv_step s e s'" and th: "through h (Some e)"
  shows "h \<notin> set (waiting s')"
  using st
proof cases
  case (arrive r ob)
  have "arrivals s \<noteq> h" using inv h by (auto simp: srv_inv_def)
  then show ?thesis using arrive th by (cases "fst r") (auto simp: through_def event_of_def)
next
  case (wake x r ob)
  have "distinct (waiting s)" using inv by (auto simp: srv_inv_def sorted_wrt_append strict_sorted_iff)
  then show ?thesis using wake th by (cases "fst r") (auto simp: through_def event_of_def moved_def)
qed (use th in \<open>auto simp: through_def\<close>)

text \<open>A waiting request is turned away only for its client, its deadline, or a closed scheduler.\<close>

lemma turned_cause:
  assumes inv: "srv_inv served s" and t: "t \<in> set (waiting s)" and st: "srv_step s (Turned t x) s'"
  shows "x = ClientCancelled \<or> x = queue_timed_out \<or> x = scheduler_closed \<and> closed (sched s)"
  using st
proof cases
  case (arrive r ob)
  have "arrivals s \<noteq> t" using inv t by (auto simp: srv_inv_def)
  then show ?thesis using arrive by (cases "fst r") (auto simp: event_of_def)
next
  case (wake y r ob)
  then show ?thesis by (cases "fst r") (auto simp: event_of_def poll_def split: if_splits)
qed

lemma in_the_end_through:
  assumes ex: "execution s0 st ev" and fr: "fair st ev" and inv: "srv_inv served s0"
  shows "waiting (st i) = before @ t # after \<Longrightarrow> \<exists>m \<ge> i. through t (ev m)"
proof (induction "length before" arbitrary: i before after rule: less_induct)
  case less
  show ?case
  proof (rule ccontr)
    assume no: "\<not> (\<exists>m \<ge> i. through t (ev m))"
    have place: "\<exists>b a. waiting (st (i + k)) = b @ t # a \<and> (b = before \<or> length b < length before)" for k
      by (rule place_kept[OF ex inv less.prems]) (use no in auto)
    have same: "\<exists>a. waiting (st (i + k)) = before @ t # a" for k
    proof -
      obtain b a where ba: "waiting (st (i + k)) = b @ t # a" "b = before \<or> length b < length before" using place by blast
      have "b = before"
      proof (rule ccontr)
        assume "b \<noteq> before"
        then have "length b < length before" using ba(2) by simp
        from less.hyps[OF this ba(1)] no show False by (meson le_add1 le_trans)
      qed
      then show ?thesis using ba(1) by blast
    qed
    let ?h = "hd (before @ [t])"
    have hd: "\<exists>ws. waiting (st m) = ?h # ws" if "m \<ge> i" for m
      using same[of "m - i"] that by (cases before) auto
    then obtain m where m: "i \<le> m" "through ?h (ev m)" using head_polls_idle[OF ex fr inv] by blast
    obtain sv where sv: "srv_inv sv (st m)" using execution_inv[OF ex inv] by blast
    obtain e where e: "ev m = Some e" using m(2) by (auto simp: through_def)
    have "?h \<in> set (waiting (st m))" using hd[OF m(1)] by (metis list.set_intros(1))
    from through_gone[OF sv this execution_step[OF ex e]] m(2) e have "?h \<notin> set (waiting (st (Suc m)))" by simp
    moreover have "?h \<in> set (waiting (st (Suc m)))" using hd[of "Suc m"] m(1) by (metis le_Suc_eq list.set_intros(1))
    ultimately show False by simp
  qed
qed

lemma first_through:
  assumes ex: "execution s0 st ev" and fr: "fair st ev" and inv: "srv_inv served s0" and w: "t \<in> set (waiting (st i))"
  obtains j where "j \<ge> i" "t \<in> set (waiting (st j))" "through t (ev j)"
proof -
  obtain before after where ba: "waiting (st i) = before @ t # after" using w by (meson split_list)
  obtain m where "i \<le> m" "through t (ev m)" using in_the_end_through[OF ex fr inv ba] by blast
  then have "\<exists>k. through t (ev (i + k))" by (metis le_Suc_ex)
  then obtain k where k: "through t (ev (i + k))" "\<forall>m < k. \<not> through t (ev (i + m))"
    using exists_least_iff[of "\<lambda>k. through t (ev (i + k))"] by blast
  have "\<forall>j. i \<le> j \<and> j < i + k \<longrightarrow> \<not> through t (ev j)" using k(2) by (metis le_iff_add nat_add_left_cancel_less)
  from place_kept[OF ex inv ba this] that[of "i + k"] k(1) show thesis by auto
qed

text \<open>
  C17: in every fair execution from a new scheduler, whatever arrives, is cancelled, times out or is
  closed on the way and in whatever order the threads poll: each waiting request is let to the engine
  in the end, or it is turned away, and that only because its own client has gone, its own deadline has
  passed or the scheduler is closed.  So a waiting request that is never turned away gets the engine.
\<close>

theorem waiting_request_is_served:
  assumes "new_gen_scheduler n timeout = Inr q" and "execution (fresh_server q) st ev" and "fair st ev"
    and "t \<in> set (waiting (st i))"
  shows "\<exists>j \<ge> i. t \<in> set (waiting (st j)) \<and> (ev j = Some (Ran t) \<or> ev j = Some (Turned t ClientCancelled)
     \<or> ev j = Some (Turned t queue_timed_out) \<or> ev j = Some (Turned t scheduler_closed) \<and> closed (sched (st j)))"
proof -
  note inv = fresh_inv[OF assms(1)]
  from first_through[OF assms(2,3) inv assms(4)] obtain j where
    j: "j \<ge> i" "t \<in> set (waiting (st j))" "through t (ev j)" by blast
  obtain sv where sv: "srv_inv sv (st j)" using execution_inv[OF assms(2) inv] by blast
  from j(3) have "ev j = Some (Ran t) \<or> (\<exists>x. ev j = Some (Turned t x))" by (simp add: through_def)
  with turned_cause[OF sv j(2)] execution_step[OF assms(2)] j(1,2) show ?thesis by blast
qed

text \<open>One request runs and leaves, the second waits, runs and leaves; then nothing happens any more.\<close>

definition left :: "nat \<Rightarrow> server \<Rightarrow> server" where
  "left t s = s\<lparr>sched := release (sched s), running := remove1 t (running s)\<rparr>"

definition woken :: "nat \<Rightarrow> server \<Rightarrow> server" where
  "woken t s = moved t (poll t calm (sched s)) s"

definition demo_states :: "server list" where
  "demo_states = (let s0 = fresh_server demo_queue; s1 = arrival s0; s2 = arrival s1; s3 = left 0 s2; s4 = woken 1 s3
     in [s0, s1, s2, s3, s4, left 1 s4])"

definition demo_st :: "nat \<Rightarrow> server" where
  "demo_st i = demo_states ! min i 5"

definition demo_ev :: "nat \<Rightarrow> event option" where
  "demo_ev i = (if i < 5 then Some ([Ran 0, Waits 1, Left 0, Ran 1, Left 1] ! i) else None)"

lemma demo_values:
  "List.map running demo_states = [[], [0], [0], [], [1], []]"
  "List.map waiting demo_states = [[], [], [1], [1], [], []]"
  by code_simp+

lemma length_demo_states: "length demo_states = 6"
  by (simp add: demo_states_def Let_def)

lemma demo_running: "running (demo_st i) = (if i \<in> {1, 2} then [0] else if i = 4 then [1] else [])"
proof -
  have "running (demo_st i) = List.map running demo_states ! min i 5" by (simp add: demo_st_def length_demo_states)
  then show ?thesis unfolding demo_values by (auto simp: min_def nth_Cons' numeral_eq_Suc)
qed

lemma demo_waiting: "waiting (demo_st i) = (if i \<in> {2, 3} then [1] else [])"
proof -
  have "waiting (demo_st i) = List.map waiting demo_states ! min i 5" by (simp add: demo_st_def length_demo_states)
  then show ?thesis unfolding demo_values by (auto simp: min_def nth_Cons' numeral_eq_Suc)
qed

lemma demo_fair: "fair demo_st demo_ev"
proof -
  have "demo_ev 2 = Some (Left 0)" "demo_ev 4 = Some (Left 1)" "demo_ev 3 = Some (Ran 1)" by (simp_all add: demo_ev_def numeral_eq_Suc)
  then have "\<exists>j \<ge> i. demo_ev j = Some (Left t)" if "t \<in> set (running (demo_st i))" for i t
    using that by (auto simp: demo_running split: if_splits intro: exI[of _ 2] exI[of _ 4])
  moreover have "\<exists>j \<ge> i. polls t (demo_ev j)" if "t \<in> set (waiting (demo_st i))" for i t
    using that \<open>demo_ev 3 = Some (Ran 1)\<close> by (auto simp: demo_waiting polls_def split: if_splits intro: exI[of _ 3])
  ultimately show ?thesis by (auto simp: fair_def)
qed

lemma demo_st:
  "demo_st 0 = fresh_server demo_queue" "demo_st (Suc 0) = arrival (demo_st 0)" "demo_st 2 = arrival (demo_st (Suc 0))"
  "demo_st 3 = left 0 (demo_st 2)" "demo_st 4 = woken 1 (demo_st 3)" "demo_st 5 = left 1 (demo_st 4)"
  by (simp_all add: demo_st_def demo_states_def Let_def numeral_eq_Suc)

lemma demo_outcomes:
  "event_of (arrivals (demo_st 0)) (fst (admit (arrivals (demo_st 0)) calm (sched (demo_st 0)))) = Ran 0"
  "event_of (arrivals (demo_st (Suc 0))) (fst (admit (arrivals (demo_st (Suc 0))) calm (sched (demo_st (Suc 0))))) = Waits 1"
  "event_of 1 (fst (poll 1 calm (sched (demo_st 3)))) = Ran 1"
  by code_simp+

lemma demo_steps:
  "srv_step (demo_st 0) (Ran 0) (demo_st (Suc 0))" "srv_step (demo_st (Suc 0)) (Waits 1) (demo_st 2)"
  "srv_step (demo_st 2) (Left 0) (demo_st 3)" "srv_step (demo_st 3) (Ran 1) (demo_st 4)" "srv_step (demo_st 4) (Left 1) (demo_st 5)"
  using srv_step.arrive[OF refl, of "demo_st 0" calm] srv_step.arrive[OF refl, of "demo_st (Suc 0)" calm]
    srv_step.leave[of 0 "demo_st 2"] srv_step.leave[of 1 "demo_st 4"] srv_step.wake[OF _ refl, of 1 "demo_st 3" calm]
  unfolding demo_outcomes arrival_def[symmetric, unfolded Let_def] left_def[symmetric] woken_def[symmetric] demo_st[symmetric]
  by (simp_all add: demo_running demo_waiting)

lemma demo_execution: "execution (fresh_server demo_queue) demo_st demo_ev"
proof -
  have "case demo_ev i of None \<Rightarrow> demo_st (Suc i) = demo_st i | Some e \<Rightarrow> srv_step (demo_st i) e (demo_st (Suc i))" for i
  proof (cases "i < 5")
    case True
    then have "i = 0 \<or> i = Suc 0 \<or> i = 2 \<or> i = 3 \<or> i = 4" by auto
    then show ?thesis using demo_steps by (elim disjE) (simp_all add: demo_ev_def eval_nat_numeral)
  qed (simp add: demo_ev_def demo_st_def)
  then show ?thesis by (simp add: execution_def demo_st)
qed

theorem waiting_request_is_served_witness:
  "1 \<in> set (waiting (demo_st 2)) \<and> (\<exists>j \<ge> 2. 1 \<in> set (waiting (demo_st j)) \<and> demo_ev j = Some (Ran 1))"
proof -
  have w: "1 \<in> set (waiting (demo_st 2))" by (simp add: demo_waiting)
  have "demo_ev j \<noteq> Some (Turned 1 x)" for j x
    by (auto simp: demo_ev_def less_Suc_eq numeral_eq_Suc)
  with waiting_request_is_served[OF demo_queue demo_execution demo_fair w] w show ?thesis by blast
qed

end
