(* ===== verification/Engine_Turn.thy ===== *)
theory Engine_Turn
  imports Stop_Filter Generation_Queue Py_Json
begin

text \<open>
  The engine side of \<open>engine/c/openai_server.py\<close>: \<open>UTF8StreamDecoder\<close>, \<open>read_engine_turn\<close> and
  \<open>Engine.generate\<close>.  The engine process is what it has written and nobody has read yet; what it
  writes in answer to a request is a parameter.
\<close>

section \<open>The incremental decoder\<close>

text \<open>
  \<open>codecs.getincrementaldecoder("utf-8")("strict")\<close>: a chunk is decoded up to the start of an
  incomplete character, which is kept; bytes that can start no character raise at once.
\<close>

definition second_ok :: "nat \<Rightarrow> nat \<Rightarrow> bool" where
  "second_ok x y \<longleftrightarrow> cont y \<and> (x = 0xE0 \<longrightarrow> 0xA0 \<le> y) \<and> (x = 0xED \<longrightarrow> y < 0xA0)
     \<and> (x = 0xF0 \<longrightarrow> 0x90 \<le> y) \<and> (x = 0xF4 \<longrightarrow> y < 0x90)"

definition push_char :: "nat \<Rightarrow> (utext \<times> nat list) option \<Rightarrow> (utext \<times> nat list) option" where
  "push_char c r = map_option (\<lambda>(t, rest). (c # t, rest)) r"

fun utf8_partial :: "nat list \<Rightarrow> (utext \<times> nat list) option" where
  "utf8_partial [] = Some ([], [])"
| "utf8_partial (x # ys) =
     (if x < 0x80 then push_char x (utf8_partial ys)
      else if x < 0xC2 \<or> 0xF5 \<le> x then None
      else case ys of [] \<Rightarrow> Some ([], [x])
        | y # zs \<Rightarrow>
            if \<not> second_ok x y then None
            else if x < 0xE0 then push_char ((x - 0xC0) * 64 + (y - 0x80)) (utf8_partial zs)
            else (case zs of [] \<Rightarrow> Some ([], [x, y])
              | z # ws \<Rightarrow>
                  if \<not> cont z then None
                  else if x < 0xF0 then push_char ((x - 0xE0) * 4096 + (y - 0x80) * 64 + (z - 0x80)) (utf8_partial ws)
                  else (case ws of [] \<Rightarrow> Some ([], [x, y, z])
                    | w # vs \<Rightarrow>
                        if \<not> cont w then None
                        else push_char ((x - 0xF0) * 262144 + (y - 0x80) * 4096 + (z - 0x80) * 64 + (w - 0x80)) (utf8_partial vs))))"

text \<open>The strict decoder, character by character.\<close>

lemma decode_1: "x < 0x80 \<Longrightarrow> utf8_decode_nat (x # r) = map_option (Cons x) (utf8_decode_nat r)"
  by (cases r) auto

lemma decode_2:
  "0xC2 \<le> x \<Longrightarrow> x < 0xE0 \<Longrightarrow> cont y \<Longrightarrow>
    utf8_decode_nat (x # y # r) = map_option (Cons ((x - 0xC0) * 64 + (y - 0x80))) (utf8_decode_nat r)"
  by (simp add: cons_checked_def)

lemma decode_3:
  assumes "0xE0 \<le> x" "x < 0xF0" "second_ok x y" "cont z"
  shows "utf8_decode_nat (x # y # z # r)
    = map_option (Cons ((x - 0xE0) * 4096 + (y - 0x80) * 64 + (z - 0x80))) (utf8_decode_nat r)"
proof -
  let ?c = "(x - 0xE0) * 4096 + (y - 0x80) * 64 + (z - 0x80)"
  have y: "0x80 \<le> y" "y < 0xC0" and z: "0x80 \<le> z" "z < 0xC0" and ed: "x = 0xED \<longrightarrow> y < 0xA0" and e0: "x = 0xE0 \<longrightarrow> 0xA0 \<le> y"
    using assms(3,4) by (auto simp: second_ok_def cont_def)
  have "0x800 \<le> ?c" using assms(1,2) y z e0 by (cases "x = 0xE0") auto
  moreover have "\<not> (0xD800 \<le> ?c \<and> ?c \<le> 0xDFFF)"
    using y z ed assms(1,2) by (cases "x < 0xED"; cases "x = 0xED") auto
  moreover have "cont y" using y by (simp add: cont_def)
  ultimately show ?thesis
    using assms by (simp add: cons_checked_def Let_def)
qed

lemma decode_4:
  assumes "0xF0 \<le> x" "x < 0xF5" "second_ok x y" "cont z" "cont w"
  shows "utf8_decode_nat (x # y # z # w # r)
    = map_option (Cons ((x - 0xF0) * 262144 + (y - 0x80) * 4096 + (z - 0x80) * 64 + (w - 0x80))) (utf8_decode_nat r)"
proof -
  let ?c = "(x - 0xF0) * 262144 + (y - 0x80) * 4096 + (z - 0x80) * 64 + (w - 0x80)"
  have y: "0x80 \<le> y" "y < 0xC0" and z: "0x80 \<le> z" "z < 0xC0" and w: "0x80 \<le> w" "w < 0xC0"
    and f4: "x = 0xF4 \<longrightarrow> y < 0x90" and f0: "x = 0xF0 \<longrightarrow> 0x90 \<le> y"
    using assms(3-5) by (auto simp: second_ok_def cont_def)
  have "0x10000 \<le> ?c" using assms(1,2) y z f0 by (cases "x = 0xF0") auto
  moreover have "?c < 0x110000" using y z w f4 assms(1,2) by (cases "x = 0xF4") auto
  moreover have "cont y" using y by (simp add: cont_def)
  ultimately show ?thesis
    using assms by (simp add: cons_checked_def Let_def)
qed

text \<open>What can start no character stays undecodable whatever follows.\<close>

lemma decode_bad_first: "0x80 \<le> x \<Longrightarrow> x < 0xC2 \<or> 0xF5 \<le> x \<Longrightarrow> utf8_decode_nat (x # r) = None"
  by (cases r) auto

lemma decode_bad_second:
  assumes "0xC2 \<le> x" "x < 0xF5" "\<not> second_ok x y"
  shows "utf8_decode_nat (x # y # r) = None"
proof (cases "cont y")
  case False
  then show ?thesis using assms by (auto simp: cons_checked_def Let_def split: list.splits)
next
  case True
  then have y: "0x80 \<le> y" "y < 0xC0" by (auto simp: cont_def)
  from assms(3) True consider "x = 0xE0" "y < 0xA0" | "x = 0xED" "0xA0 \<le> y" | "x = 0xF0" "y < 0x90" | "x = 0xF4" "0x90 \<le> y"
    by (auto simp: second_ok_def)
  then show ?thesis using y by cases (auto simp: cons_checked_def cont_def Let_def split: list.splits)
qed

lemma decode_bad_third: "0xE0 \<le> x \<Longrightarrow> x < 0xF5 \<Longrightarrow> \<not> cont z \<Longrightarrow> utf8_decode_nat (x # y # z # r) = None"
  by (auto simp: cons_checked_def Let_def split: list.splits)

lemma decode_bad_fourth: "0xF0 \<le> x \<Longrightarrow> x < 0xF5 \<Longrightarrow> \<not> cont w \<Longrightarrow> utf8_decode_nat (x # y # z # w # r) = None"
  by (auto simp: cons_checked_def Let_def)

declare utf8_decode_nat.simps [simp del]

text \<open>Decoding a chunk and then the rest is decoding both at once.\<close>

definition continue_with :: "nat list \<Rightarrow> (utext \<times> nat list) option \<Rightarrow> utext option" where
  "continue_with us r = (case r of None \<Rightarrow> None | Some (t, rest) \<Rightarrow> map_option (\<lambda>u. t @ u) (utf8_decode_nat (rest @ us)))"

lemma continue_push: "continue_with us (push_char c r) = map_option (Cons c) (continue_with us r)"
proof (cases r)
  case (Some p)
  obtain a b where "p = (a, b)" by fastforce
  then show ?thesis using Some by (cases "utf8_decode_nat (b @ us)") (simp_all add: continue_with_def push_char_def)
qed (simp add: continue_with_def push_char_def)

lemma continue_None [simp]: "continue_with us None = None"
  by (simp add: continue_with_def)

lemma continue_stop [simp]: "continue_with us (Some ([], rest)) = utf8_decode_nat (rest @ us)"
  by (cases "utf8_decode_nat (rest @ us)") (simp_all add: continue_with_def)

lemma utf8_partial_decode: "utf8_decode_nat (bs @ us) = continue_with us (utf8_partial bs)"
proof (induction bs rule: utf8_partial.induct)
  case (2 x ys)
  have sec: "second_ok x y \<Longrightarrow> cont y" for y by (simp add: second_ok_def)
  show ?case
    using "2.IH" by (auto simp: decode_1 decode_2 decode_3 decode_4 decode_bad_first decode_bad_second
        decode_bad_third decode_bad_fourth continue_push sec not_less split: list.split)
qed simp

text \<open>
  \<open>UTF8StreamDecoder.feed\<close>: the state is the bytes kept; the text handed on is empty when \<open>on_text\<close> is
  not called.  With \<open>final\<close> nothing may be kept.
\<close>

definition decoder_feed :: "byte list \<Rightarrow> bool \<Rightarrow> nat list \<Rightarrow> (utext \<times> nat list) res" where
  "decoder_feed bs final kept =
     (case utf8_partial (kept @ List.map unat bs) of
       None \<Rightarrow> Inl (ValueError ''utf-8 codec: invalid bytes'')
     | Some (t, rest) \<Rightarrow> if final \<and> rest \<noteq> [] then Inl (ValueError ''utf-8 codec: unexpected end of data'') else Inr (t, rest))"

fun decode_chunks :: "byte list list \<Rightarrow> nat list \<Rightarrow> utext list \<Rightarrow> utext list res" where
  "decode_chunks [] kept out = rbind (decoder_feed [] True kept) (\<lambda>(t, _). Inr (out @ [t]))"
| "decode_chunks (c # cs) kept out = rbind (decoder_feed c False kept) (\<lambda>(t, kept'). decode_chunks cs kept' (out @ [t]))"

definition stuck :: "(utext \<times> nat list) option \<Rightarrow> bool" where
  "stuck r = (case r of None \<Rightarrow> True | Some (t, rest) \<Rightarrow> rest = [] \<or> utf8_decode_nat rest = None)"

lemma stuck_push: "stuck (push_char c r) = stuck r"
  by (auto simp: stuck_def push_char_def split: option.splits)

lemma stuck_None [simp]: "stuck None"
  by (simp add: stuck_def)

lemma stuck_short:
  "\<not> x < 0x80 \<Longrightarrow> stuck (Some (t, [x]))"
  "\<not> x < 0xE0 \<Longrightarrow> stuck (Some (t, [x, y]))"
  "\<not> x < 0xF0 \<Longrightarrow> stuck (Some (t, [x, y, z]))"
  by (simp_all add: stuck_def utf8_decode_nat.simps)

lemma utf8_partial_stuck: "stuck (utf8_partial bs)"
proof (induction bs rule: utf8_partial.induct)
  case (2 x ys)
  show ?case using "2.IH" by (auto simp: stuck_push stuck_short split: list.split)
qed (simp add: stuck_def)

lemma utf8_partial_rest: "utf8_partial bs = Some (t, rest) \<Longrightarrow> rest \<noteq> [] \<Longrightarrow> utf8_decode_nat rest = None"
  using utf8_partial_stuck[of bs] by (auto simp: stuck_def)

text \<open>However the bytes are cut, the decoder gives the text of the whole, or raises when it has none.\<close>

lemma decode_chunks_spec:
  "case utf8_decode_nat (kept @ List.map unat (concat cs)) of
     None \<Rightarrow> (\<exists>e. decode_chunks cs kept out = Inl e)
   | Some t \<Rightarrow> (\<exists>ts. decode_chunks cs kept out = Inr ts \<and> concat ts = concat out @ t)"
proof (induction cs arbitrary: kept out)
  case Nil
  show ?case
  proof (cases "utf8_partial kept")
    case None
    then show ?thesis using utf8_partial_decode[of kept "[]"] by (simp add: decoder_feed_def)
  next
    case (Some p)
    obtain t rest where p: "p = (t, rest)" by fastforce
    show ?thesis
      using Some p utf8_partial_decode[of kept "[]"] utf8_partial_rest[of kept t rest]
      by (cases "rest = []") (auto simp: decoder_feed_def continue_with_def utf8_decode_nat.simps(1))
  qed
next
  case (Cons c cs)
  show ?case
  proof (cases "utf8_partial (kept @ List.map unat c)")
    case None
    then show ?thesis
      using utf8_partial_decode[of "kept @ List.map unat c" "List.map unat (concat cs)"] by (simp add: decoder_feed_def)
  next
    case (Some p)
    obtain t rest where p: "p = (t, rest)" by fastforce
    have d: "utf8_decode_nat (kept @ List.map unat (concat (c # cs))) = map_option (\<lambda>u. t @ u) (utf8_decode_nat (rest @ List.map unat (concat cs)))"
      using utf8_partial_decode[of "kept @ List.map unat c" "List.map unat (concat cs)"] Some p by (simp add: continue_with_def)
    have f: "decode_chunks (c # cs) kept out = decode_chunks cs rest (out @ [t])" using Some p by (simp add: decoder_feed_def)
    show ?thesis using Cons[of rest "out @ [t]"] unfolding d f by (auto split: option.splits)
  qed
qed

text \<open>
  C18: the incremental decoder agrees with decoding the whole: it raises exactly when the bytes are no
  UTF-8, and otherwise the texts it hands on join to the text of all bytes, however they were cut.
\<close>

theorem incremental_decoder_exact:
  "(case utf8_decode (concat chunks) of None \<Rightarrow> (\<exists>e. decode_chunks chunks [] [] = Inl e)
    | Some t \<Rightarrow> (\<exists>ts. decode_chunks chunks [] [] = Inr ts \<and> concat ts = t))"
  using decode_chunks_spec[of chunks "[]" "[]"] by (simp add: utf8_decode_def split: option.splits)

section \<open>One turn of the engine\<close>

text \<open>
  A callback takes bytes and its own state; it may raise.  \<open>read_turn\<close> returns what it raises or nothing,
  the bytes of the stream nobody has read, and the callback's state.
\<close>

type_synonym 's on_bytes = "byte list \<Rightarrow> 's \<Rightarrow> unit res \<times> 's"

fun read_turn :: "'s on_bytes \<Rightarrow> byte list \<Rightarrow> byte list \<Rightarrow> byte list \<Rightarrow> 's \<Rightarrow> unit res \<times> byte list \<times> 's" where
  "read_turn cb sentinel p [] s = (Inl (RuntimeError ''colibri engine exited unexpectedly''), [], s)"
| "read_turn cb sentinel p (b # bs) s =
     (let p = p @ [b]; k = length p - length sentinel in
      if suffix sentinel p
      then (if take k p = [] then (Inr (), bs, s) else case cb (take k p) s of (r, s') \<Rightarrow> (r, bs, s'))
      else if length sentinel < length p
      then (case cb (take k p) s of (Inl e, s') \<Rightarrow> (Inl e, bs, s') | (Inr _, s') \<Rightarrow> read_turn cb sentinel (drop k p) bs s')
      else read_turn cb sentinel p bs s)"

fun run_cb :: "'s on_bytes \<Rightarrow> byte list list \<Rightarrow> 's \<Rightarrow> unit res \<times> 's" where
  "run_cb cb [] s = (Inr (), s)"
| "run_cb cb (c # cs) s = (case cb c s of (Inl e, s') \<Rightarrow> (Inl e, s') | (Inr _, s') \<Rightarrow> run_cb cb cs s')"

lemma read_turn_hit:
  "suffix st (p @ [b]) \<Longrightarrow> read_turn cb st p (b # s) x =
     (let d = take (length (p @ [b]) - length st) (p @ [b]) in
      if d = [] then (Inr (), s, x) else case cb d x of (r, x') \<Rightarrow> (r, s, x'))"
  by (simp add: Let_def)

lemma read_turn_emit:
  "\<not> suffix st (p @ [b]) \<Longrightarrow> length st < length (p @ [b]) \<Longrightarrow> read_turn cb st p (b # s) x =
     (case cb (take (length (p @ [b]) - length st) (p @ [b])) x of
        (Inl e, x') \<Rightarrow> (Inl e, s, x')
      | (Inr _, x') \<Rightarrow> read_turn cb st (drop (length (p @ [b]) - length st) (p @ [b])) s x')"
  by (simp only: read_turn.simps(2) Let_def if_True if_False)

lemma read_turn_hold:
  "\<not> suffix st (p @ [b]) \<Longrightarrow> \<not> length st < length (p @ [b]) \<Longrightarrow> read_turn cb st p (b # s) x = read_turn cb st (p @ [b]) s x"
  by (simp only: read_turn.simps(2) Let_def if_True if_False)

declare read_turn.simps(2) [simp del]

text \<open>After the bytes \<open>t\<close> of a turn the callback has had \<open>out\<close>; the last bytes, no more than a sentinel, are kept.\<close>

definition turn_inv :: "byte list \<Rightarrow> byte list \<Rightarrow> byte list \<Rightarrow> byte list \<Rightarrow> bool" where
  "turn_inv sentinel t out p \<longleftrightarrow> t = out @ p \<and> \<not> occurs [sentinel] t \<and> length p \<le> length sentinel
     \<and> (out = [] \<or> length p = length sentinel)"

lemma turn_invD:
  assumes "turn_inv st t out p"
  shows "t = out @ p" "\<not> occurs [st] t" "length p \<le> length st" "out = [] \<or> length p = length st"
  using assms unfolding turn_inv_def by blast+

lemma suffix_occurs: "suffix st t \<Longrightarrow> occurs [st] t"
  by (auto simp: occurs_def py_in_def suffix_def)

text \<open>The sentinel is complete exactly when the kept bytes end with it.\<close>

lemma new_occurrence:
  assumes st: "st \<noteq> []" and "\<not> occurs [st] t" and "starts_at [st] (t @ [b]) i"
  shows "i = length (t @ [b]) - length st" and "drop i (t @ [b]) = st"
proof -
  have late: "length t \<le> i + (length st - 1)" by (rule late_start[OF assms(2,3)]) simp
  have pre: "prefix st (drop i (t @ [b]))" using assms(3) by (auto simp: starts_at_def)
  have long: "length st \<le> Suc (length t) - i" using prefix_length_le[OF pre] by simp
  obtain n where n: "length st = Suc n" using st by (cases st) auto
  have i': "i = Suc (length t) - length st" using late long unfolding n by simp
  then show "i = length (t @ [b]) - length st" by simp
  have "length (drop i (t @ [b])) = length st" using long by (simp add: i')
  then show "drop i (t @ [b]) = st" using pre by (metis append_eq_conv_conj prefix_def take_all_iff order_refl)
qed

lemma suffix_iff_occurs:
  assumes st: "st \<noteq> []" and inv: "turn_inv st t out p"
  shows "suffix st (p @ [b]) \<longleftrightarrow> occurs [st] (t @ [b])"
proof
  assume "suffix st (p @ [b])"
  then have "suffix st (t @ [b])" using turn_invD(1)[OF inv] by (simp add: suffix_appendI)
  then show "occurs [st] (t @ [b])" by (rule suffix_occurs)
next
  assume "occurs [st] (t @ [b])"
  then obtain i where "starts_at [st] (t @ [b]) i" by (auto simp: occurs_iff_starts)
  from new_occurrence[OF st turn_invD(2)[OF inv] this] have "suffix st (t @ [b])" by (metis suffix_drop)
  moreover have "suffix (p @ [b]) (t @ [b])" using turn_invD(1)[OF inv] by (simp add: suffix_def)
  moreover have "length st \<le> length (p @ [b]) \<or> p @ [b] = t @ [b]" using turn_invD(1,4)[OF inv] by auto
  ultimately show "suffix st (p @ [b])" by (metis suffix_length_suffix)
qed

lemma before_new_occurrence:
  assumes st: "st \<noteq> []" and inv: "turn_inv st t out p" and suf: "suffix st (p @ [b])"
  shows "before_first [st] (t @ [b]) = out @ take (length (p @ [b]) - length st) (p @ [b])"
proof -
  let ?i = "length (t @ [b]) - length st"
  have "occurs [st] (t @ [b])" using suf suffix_iff_occurs[OF st inv] by simp
  then obtain i where "starts_at [st] (t @ [b]) i" by (auto simp: occurs_iff_starts)
  from new_occurrence(1)[OF st turn_invD(2)[OF inv]] this have "before_first [st] (t @ [b]) = take ?i (t @ [b])"
    by (intro before_firstI) auto
  moreover have "length st \<le> length (p @ [b])" using suf suffix_length_le by blast
  ultimately show ?thesis using turn_invD(1)[OF inv] by (simp add: Suc_diff_le)
qed

lemma turn_inv_keep:
  assumes st: "st \<noteq> []" and inv: "turn_inv st t out p" and no: "\<not> suffix st (p @ [b])"
  shows "length st < length (p @ [b]) \<Longrightarrow>
      turn_inv st (t @ [b]) (out @ take (length (p @ [b]) - length st) (p @ [b])) (drop (length (p @ [b]) - length st) (p @ [b]))"
    and "\<not> length st < length (p @ [b]) \<Longrightarrow> turn_inv st (t @ [b]) out (p @ [b])"
  using turn_invD[OF inv] no suffix_iff_occurs[OF st inv, of b]
  by (auto simp: turn_inv_def simp del: take_append drop_append)

definition turn_result :: "byte list \<Rightarrow> byte list \<Rightarrow> byte list" where
  "turn_result st stream = drop (length (before_first [st] stream) + length st) stream"

lemma read_turn_found:
  assumes "st \<noteq> []" and "turn_inv st t out p" and "occurs [st] (t @ s)"
  shows "\<exists>cs. out @ concat cs = before_first [st] (t @ s)
     \<and> (\<forall>x x'. run_cb cb cs x = (Inr (), x') \<longrightarrow> read_turn cb st p s x = (Inr (), turn_result st (t @ s), x'))
     \<and> (\<forall>x e x'. run_cb cb cs x = (Inl e, x') \<longrightarrow> (\<exists>u. read_turn cb st p s x = (Inl e, u, x')))"
  using assms(2,3)
proof (induction s arbitrary: t out p)
  case Nil
  then show ?case using turn_invD(2) by fastforce
next
  case (Cons b s)
  let ?p = "p @ [b]" and ?k = "length (p @ [b]) - length st"
  have ts: "t @ b # s = (t @ [b]) @ s" by simp
  show ?case
  proof (cases "suffix st ?p")
    case True
    have occ: "occurs [st] (t @ [b])" using True suffix_iff_occurs[OF assms(1) Cons.prems(1)] by simp
    have bf: "before_first [st] (t @ b # s) = out @ take ?k ?p"
      unfolding ts before_new_occurrence[OF assms(1) Cons.prems(1) True, symmetric] by (rule before_first_extend[OF occ]) simp
    have len: "length st \<le> length ?p" using True suffix_length_le by blast
    then have n: "length (out @ take ?k ?p) + length st = length (out @ ?p)" by (simp del: take_append)
    have "t @ b # s = (out @ ?p) @ s" using turn_invD(1)[OF Cons.prems(1)] by simp
    then have rest: "turn_result st (t @ b # s) = s"
      unfolding turn_result_def bf n by (metis append_eq_conv_conj)
    show ?thesis
      by (rule exI[of _ "if take ?k ?p = [] then [] else [take ?k ?p]"])
        (use True bf rest in \<open>auto simp: read_turn_hit Let_def split: sum.splits prod.splits simp del: take_append drop_append\<close>)
  next
    case False
    have occ: "occurs [st] ((t @ [b]) @ s)" using Cons.prems(2) by (simp only: ts)
    show ?thesis
    proof (cases "length st < length ?p")
      case long: True
      from Cons.IH[OF turn_inv_keep(1)[OF assms(1) Cons.prems(1) False long] occ]
      obtain cs where cs: "(out @ take ?k ?p) @ concat cs = before_first [st] (t @ b # s)"
        "\<forall>x x'. run_cb cb cs x = (Inr (), x') \<longrightarrow> read_turn cb st (drop ?k ?p) s x = (Inr (), turn_result st (t @ b # s), x')"
        "\<forall>x e x'. run_cb cb cs x = (Inl e, x') \<longrightarrow> (\<exists>u. read_turn cb st (drop ?k ?p) s x = (Inl e, u, x'))" unfolding ts[symmetric] by blast
      show ?thesis
        unfolding read_turn_emit[OF False long] using cs
        by (intro exI[of _ "take ?k ?p # cs"] conjI allI impI)
          (simp_all add: append_assoc split: sum.splits prod.splits del: take_append drop_append)
    next
      case short: False
      from Cons.IH[OF turn_inv_keep(2)[OF assms(1) Cons.prems(1) False short] occ]
      show ?thesis unfolding read_turn_hold[OF False short] ts .
    qed
  qed
qed

lemma read_turn_missing:
  assumes "st \<noteq> []" and "turn_inv st t out p" and "\<not> occurs [st] (t @ s)"
  shows "\<exists>e u x'. read_turn cb st p s x = (Inl e, u, x')"
  using assms(2,3)
proof (induction s arbitrary: t out p x)
  case (Cons b s)
  have ts: "t @ b # s = (t @ [b]) @ s" by simp
  have no: "\<not> suffix st (p @ [b])"
    using suffix_iff_occurs[OF assms(1) Cons.prems(1)] Cons.prems(2) occurs_mono unfolding ts by blast
  show ?case
  proof (cases "length st < length (p @ [b])")
    case True
    from Cons.IH[OF turn_inv_keep(1)[OF assms(1) Cons.prems(1) no True]] Cons.prems(2)
    show ?thesis unfolding read_turn_emit[OF no True] ts by (auto split: sum.splits prod.splits simp del: take_append drop_append)
  next
    case False
    from Cons.IH[OF turn_inv_keep(2)[OF assms(1) Cons.prems(1) no False]] Cons.prems(2)
    show ?thesis unfolding read_turn_hold[OF no False] ts by simp
  qed
qed simp

lemma read_turn_start: "st \<noteq> [] \<Longrightarrow> turn_inv st [] [] []"
  by (simp add: turn_inv_def occurs_def py_in_def)

section \<open>The engine\<close>

definition END :: "byte list" where
  "END = [1, 1, 0x45, 0x4E, 0x44, 1, 1, 0x0A]"

definition READY :: "byte list" where
  "READY = [1, 1, 0x52, 0x45, 0x41, 0x44, 0x59, 1, 1, 0x0A]"

record turn_stats =
  completion_tokens :: int
  tokens_per_second :: pyfloat
  cache_hit_percent :: pyfloat
  rss_gb :: pyfloat
  prompt_tokens :: int
  length_limited :: bool

text \<open>
  The status line, decoded with \<open>"replace"\<close>: a byte past ASCII stands for a replacement character, which is
  no digit and no blank.
\<close>

definition status_text :: "byte list \<Rightarrow> string" where
  "status_text bs = List.map (\<lambda>b. if b < 128 then char_of (unat b) else CHR ''?'') bs"

definition int_field :: "string \<Rightarrow> int res" where
  "int_field s = opt_res (ValueError ''invalid literal for int()'') (int10 s)"

definition float_field :: "string \<Rightarrow> pyfloat res" where
  "float_field s = opt_res (ValueError ''could not convert string to float'') (parse_float s)"

definition parse_status :: "byte list \<Rightarrow> turn_stats res" where
  "parse_status line = (let fields = split (status_text line) in
     if length fields < 5 \<or> hd fields \<noteq> ''STAT'' then Inl (RuntimeError (''invalid engine status: '' @ str_join '' '' fields))
     else rbind (int_field (fields ! 1)) (\<lambda>n. rbind (float_field (fields ! 2)) (\<lambda>tps.
       rbind (float_field (fields ! 3)) (\<lambda>hit. rbind (float_field (fields ! 4)) (\<lambda>rss.
       rbind (if 5 < length fields then int_field (fields ! 5) else Inr 0) (\<lambda>m.
       rbind (if 6 < length fields then int_field (fields ! 6) else Inr 0) (\<lambda>limited.
         Inr \<lparr>completion_tokens = n, tokens_per_second = tps, cache_hit_percent = hit, rss_gb = rss, prompt_tokens = m,
           length_limited = (limited \<noteq> 0)\<rparr>)))))))"

text \<open>\<open>read_engine_turn\<close>: the turn up to its sentinel, then one line.\<close>

definition read_engine_turn :: "'s on_bytes \<Rightarrow> byte list \<Rightarrow> byte list \<Rightarrow> 's \<Rightarrow> turn_stats res \<times> byte list \<times> 's" where
  "read_engine_turn cb sentinel stream x =
     (case read_turn cb sentinel [] stream x of
       (Inl e, rest, x') \<Rightarrow> (Inl e, rest, x')
     | (Inr _, rest, x') \<Rightarrow>
         (parse_status (takeWhile (\<lambda>b. b \<noteq> 0x0A) rest), drop 1 (dropWhile (\<lambda>b. b \<noteq> 0x0A) rest), x'))"

text \<open>\<open>format(x, ".8g")\<close>: eight significant digits without trailing zeros.\<close>

definition general8 :: "pyfloat \<Rightarrow> string" where
  "general8 x = general 8 x"

record engine =
  alive :: bool
  unread :: "byte list"
  kv_slots :: int

record sampling =
  max_tokens :: int
  temperature :: pyfloat
  top_p :: pyfloat
  seed :: "int option"

definition prompt_header :: "byte list \<Rightarrow> sampling \<Rightarrow> int \<Rightarrow> byte list" where
  "prompt_header payload o' slot = 2 # ascii_bytes (''PROMPT '' @ str_of_int (int (length payload)) @ '' '' @ str_of_int (max_tokens o') @ '' ''
     @ general8 (temperature o') @ '' '' @ general8 (top_p o') @ '' '' @ str_of_int slot @ '' ''
     @ str_of_int (case seed o' of None \<Rightarrow> -1 | Some n \<Rightarrow> n)) @ [0x0A]"

text \<open>The decoder between the engine and \<open>on_text\<close>.\<close>

definition decoding :: "(utext \<Rightarrow> 's \<Rightarrow> 's) \<Rightarrow> (nat list \<times> 's) on_bytes" where
  "decoding on_text bs s = (case decoder_feed bs False (fst s) of
      Inl e \<Rightarrow> (Inl e, s)
    | Inr (t, kept) \<Rightarrow> (Inr (), (kept, if t = [] then snd s else on_text t (snd s))))"

definition slot_ok :: "pyval \<Rightarrow> int \<Rightarrow> bool" where
  "slot_ok v slots = (case strict_int v of None \<Rightarrow> False | Some n \<Rightarrow> 0 \<le> n \<and> n < slots)"

definition bad_request :: "string \<Rightarrow> string option \<Rightarrow> string option \<Rightarrow> srv_exc" where
  "bad_request m p c = Api \<lparr>status = 400, message = m, param = p, code = c, error_type = ''invalid_request_error'', headers = []\<rparr>"

text \<open>The end of \<open>generate\<close>: the decoder may hold nothing back.\<close>

definition after_turn :: "(utext \<Rightarrow> 's \<Rightarrow> 's) \<Rightarrow> engine \<Rightarrow> turn_stats res \<times> byte list \<times> (nat list \<times> 's) \<Rightarrow> (srv_exc + turn_stats) \<times> engine \<times> 's" where
  "after_turn on_text e turn = (case turn of
      (Inl err, rest, (_, x')) \<Rightarrow> (Inl (Raised err), e\<lparr>unread := rest\<rparr>, x')
    | (Inr stats, rest, (kept, x')) \<Rightarrow>
        (case decoder_feed [] True kept of
          Inl err \<Rightarrow> (Inl (Raised err), e\<lparr>unread := rest\<rparr>, x')
        | Inr (t, _) \<Rightarrow> (Inr stats, e\<lparr>unread := rest\<rparr>, if t = [] then x' else on_text t x')))"

definition generate :: "(byte list \<Rightarrow> byte list) \<Rightarrow> string \<Rightarrow> sampling \<Rightarrow> pyval \<Rightarrow> (utext \<Rightarrow> 's \<Rightarrow> 's) \<Rightarrow> engine \<Rightarrow> 's
      \<Rightarrow> (srv_exc + turn_stats) \<times> engine \<times> 's" where
  "generate respond prompt smp slot on_text e x =
     (if \<not> slot_ok slot (kv_slots e) then (Inl (bad_request ''Invalid cache slot.'' (Some ''cache_slot'') None), e, x)
      else let payload = utf8_bytes prompt in
      if 0 \<in> set payload then (Inl (bad_request ''NUL bytes are not supported in prompts.'' (Some ''messages'') None), e, x)
      else if \<not> alive e then (Inl (Raised (RuntimeError ''colibri engine is not running'')), e, x)
      else let stream = unread e @ respond (prompt_header payload smp (int_of_val slot) @ payload @ [0x0A]) in
      after_turn on_text e (read_engine_turn (decoding on_text) END stream ([], x)))"

section \<open>What a request gets\<close>

lemma decode_run:
  "decode_chunks cs kept out = Inr ts \<Longrightarrow>
     \<exists>kept' us t r. run_cb (decoding f) cs (kept, x) = (Inr (), (kept', fold f (filter (\<lambda>u. u \<noteq> []) us) x))
       \<and> decoder_feed [] True kept' = Inr (t, r) \<and> ts = out @ us @ [t]"
proof (induction cs arbitrary: kept out x)
  case Nil
  then obtain t r where "decoder_feed [] True kept = Inr (t, r)" "ts = out @ [t]" by auto
  then show ?case by (intro exI[of _ kept] exI[of _ "[]"] exI[of _ t] exI[of _ r]) simp
next
  case (Cons c cs)
  from Cons.prems obtain t kept1 where d: "decoder_feed c False kept = Inr (t, kept1)" "decode_chunks cs kept1 (out @ [t]) = Inr ts" by auto
  let ?x = "if t = [] then x else f t x"
  from Cons.IH[OF d(2), of ?x] obtain kept' us t' r where
    "run_cb (decoding f) cs (kept1, ?x) = (Inr (), (kept', fold f (filter (\<lambda>u. u \<noteq> []) us) ?x))"
    "decoder_feed [] True kept' = Inr (t', r)" "ts = (out @ [t]) @ us @ [t']" by auto
  moreover have "run_cb (decoding f) (c # cs) (kept, x) = run_cb (decoding f) cs (kept1, ?x)" using d(1) by (simp add: decoding_def)
  moreover have "fold f (filter (\<lambda>u. u \<noteq> []) (t # us)) x = fold f (filter (\<lambda>u. u \<noteq> []) us) ?x" by simp
  ultimately show ?case by (metis append.assoc append_Cons append_Nil)
qed

lemma END_not_empty: "END \<noteq> []"
  by (simp add: END_def)

text \<open>A turn whose bytes before the sentinel are UTF-8.\<close>

lemma read_turn_decodes:
  assumes "before_first [END] (data @ END) = data" and "utf8_decode data = Some t"
  shows "\<exists>kept' us t' r. read_turn (decoding f) END [] (data @ END @ rest) ([], x)
       = (Inr (), rest, (kept', fold f (filter (\<lambda>u. u \<noteq> []) us) x))
     \<and> decoder_feed [] True kept' = Inr (t', r) \<and> concat us @ t' = t"
proof -
  have occ: "occurs [END] (data @ END)" by (rule suffix_occurs) (simp add: suffix_def)
  then have occ': "occurs [END] ([] @ data @ END @ rest)" using occurs_mono[of "[END]" "data @ END" rest] by simp
  have bf: "before_first [END] (data @ END @ rest) = data"
    using before_first_extend[OF occ, of rest] assms(1) by simp
  have tr: "turn_result END (data @ END @ rest) = rest" by (simp add: turn_result_def bf)
  from read_turn_found[OF END_not_empty read_turn_start[OF END_not_empty] occ', of "decoding f"]
  obtain cs where cs: "concat cs = data"
    "\<And>x x'. run_cb (decoding f) cs x = (Inr (), x') \<Longrightarrow> read_turn (decoding f) END [] (data @ END @ rest) x = (Inr (), rest, x')"
    by (auto simp: bf tr)
  obtain ts where ts: "decode_chunks cs [] [] = Inr ts" "concat ts = t"
    using decode_chunks_spec[where kept = "[]" and cs = cs and out = "[]"] assms(2) cs(1) by (auto simp: utf8_decode_def split: option.splits)
  from decode_run[OF ts(1), of f x] obtain kept' us t' r where
    "run_cb (decoding f) cs ([], x) = (Inr (), (kept', fold f (filter (\<lambda>u. u \<noteq> []) us) x))"
    "decoder_feed [] True kept' = Inr (t', r)" "ts = us @ [t']" by auto
  then show ?thesis using cs(2) ts(2) by auto
qed

lemma concat_filter_nonempty: "concat (filter (\<lambda>u. u \<noteq> []) us) = concat us"
  by (induction us) auto

lemma generate_turn:
  assumes "alive e" and "slot_ok slot (kv_slots e)" and "0 \<notin> set (utf8_bytes prompt)"
    and reply: "unread e @ respond (prompt_header (utf8_bytes prompt) smp (int_of_val slot) @ utf8_bytes prompt @ [0x0A])
      = data @ END @ line @ 0x0A # rest"
    and "before_first [END] (data @ END) = data" and "utf8_decode data = Some t"
    and "0x0A \<notin> set line" and "parse_status line = Inr stats"
  shows "\<exists>ts. concat ts = t \<and> [] \<notin> set ts
     \<and> generate respond prompt smp slot on_text e x = (Inr stats, e\<lparr>unread := rest\<rparr>, fold on_text ts x)"
proof -
  from read_turn_decodes[OF assms(5,6), of on_text "line @ 0x0A # rest" x] obtain kept' us t' r where
    rt: "read_turn (decoding on_text) END [] (data @ END @ line @ 0x0A # rest) ([], x)
       = (Inr (), line @ 0x0A # rest, (kept', fold on_text (filter (\<lambda>u. u \<noteq> []) us) x))"
    and fin: "decoder_feed [] True kept' = Inr (t', r)" and t: "concat us @ t' = t" by auto
  have l: "takeWhile (\<lambda>b. b \<noteq> 0x0A) (line @ 0x0A # rest) = line" "dropWhile (\<lambda>b. b \<noteq> 0x0A) (line @ 0x0A # rest) = 0x0A # rest"
    using assms(7) by (subst takeWhile_append2 dropWhile_append2; auto)+
  let ?ts = "filter (\<lambda>u. u \<noteq> []) (us @ [t'])"
  have "generate respond prompt smp slot on_text e x = (Inr stats, e\<lparr>unread := rest\<rparr>, fold on_text ?ts x)"
    using assms(1-3,8) by (simp add: generate_def after_turn_def read_engine_turn_def Let_def reply rt fin l)
  moreover have "concat ?ts = t" using t by (simp only: concat_filter_nonempty) simp
  ultimately show ?thesis by (intro exI[of _ ?ts]) auto
qed

lemma generate_reply:
  assumes "alive e" and "unread e = []" and "slot_ok slot (kv_slots e)" and "0 \<notin> set (utf8_bytes prompt)"
    and "respond (prompt_header (utf8_bytes prompt) smp (int_of_val slot) @ utf8_bytes prompt @ [0x0A]) = data @ END @ line @ [0x0A]"
    and "before_first [END] (data @ END) = data" and "utf8_decode data = Some t"
    and "0x0A \<notin> set line" and "parse_status line = Inr stats"
  shows "\<exists>ts. concat ts = t \<and> [] \<notin> set ts \<and> generate respond prompt smp slot on_text e x = (Inr stats, e, fold on_text ts x)"
proof -
  have "e\<lparr>unread := []\<rparr> = e" using assms(2) by simp
  with generate_turn[where rest = "[]" and respond = respond and data = data and line = line and prompt = prompt,
      OF assms(1,3,4) _ assms(6-9)] assms(2,5) show ?thesis by simp
qed

text \<open>
  C16: the next turn in the output of a running engine, of which bytes may be left unread from before and
  more may follow, answers a valid request: it gets the text before the sentinel, in non-empty pieces, and
  the statistics of the status line, and exactly what follows that line stays unread.
\<close>

theorem generate_delivers_reply:
  assumes "alive e" and "slot_ok slot (kv_slots e)" and "0 \<notin> set (utf8_bytes prompt)"
    and "unread e @ respond (prompt_header (utf8_bytes prompt) smp (int_of_val slot) @ utf8_bytes prompt @ [0x0A])
      = data @ END @ line @ 0x0A # rest"
    and "before_first [END] (data @ END) = data" and "utf8_decode data = Some t"
    and "0x0A \<notin> set line" and "parse_status line = Inr stats"
  shows "\<exists>ts e'. generate respond prompt smp slot on_text e x = (Inr stats, e', fold on_text ts x)
     \<and> concat ts = t \<and> [] \<notin> set ts \<and> unread e' = rest \<and> alive e' \<and> kv_slots e' = kv_slots e"
  using generate_turn[where respond = respond and data = data and line = line and prompt = prompt, OF assms, of on_text x] assms(1)
  by (elim exE conjE) (rule exI, rule exI, auto)

definition demo_sampling :: sampling where
  "demo_sampling = \<lparr>max_tokens = 8, temperature = lit (7 / 10), top_p = lit (9 / 10), seed = None\<rparr>"

definition demo_line :: "byte list" where
  "demo_line = ascii_bytes ''STAT 3 10 50 1 2''"

definition demo_engine :: engine where
  "demo_engine = \<lparr>alive = True, unread = [], kv_slots = 1\<rparr>"

lemma before_first_code:
  "before_first ps t = (case find (starts_at ps t) [0..<Suc (length t)] of None \<Rightarrow> t | Some i \<Rightarrow> take i t)"
proof (cases "find (starts_at ps t) [0..<Suc (length t)]")
  case None
  then have "\<not> starts_at ps t i" if "i \<le> length t" for i using that by (auto simp: find_None_iff less_Suc_eq_le simp del: upt_Suc)
  then have "\<not> occurs ps t" unfolding occurs_iff_starts using starts_at_def by blast
  then show ?thesis using None by (simp add: before_first_def)
next
  case (Some i)
  then have "starts_at ps t i" "\<forall>j < i. \<not> starts_at ps t j" by (auto simp: find_Some_iff simp del: upt_Suc)
  then show ?thesis using Some by (simp add: before_firstI)
qed

theorem generate_delivers_reply_witness:
  "\<exists>stats ts e'. generate (\<lambda>_. ascii_bytes ''ok'' @ END @ demo_line @ 0x0A # [7]) ''hi'' demo_sampling (PyInt 0) (\<lambda>t out. out @ [t]) demo_engine []
      = (Inr stats, e', fold (\<lambda>t out. out @ [t]) ts []) \<and> concat ts = [111, 107] \<and> completion_tokens stats = 3 \<and> unread e' = [7]"
proof -
  have pre: "alive demo_engine" "slot_ok (PyInt 0) (kv_slots demo_engine)" "0 \<notin> set (utf8_bytes ''hi'')"
    by code_simp+
  have un: "unread demo_engine @ (\<lambda>_. ascii_bytes ''ok'' @ END @ demo_line @ 0x0A # [7]) y = ascii_bytes ''ok'' @ END @ demo_line @ 0x0A # [7]" for y
    by (simp add: demo_engine_def)
  have bf: "before_first [END] (ascii_bytes ''ok'' @ END) = ascii_bytes ''ok''" unfolding before_first_code by code_simp
  have d: "utf8_decode (ascii_bytes ''ok'') = Some [111, 107]" by code_simp
  have l: "0x0A \<notin> set demo_line" by code_simp
  have "ok_with (parse_status demo_line) (\<lambda>st. completion_tokens st = 3)" by code_simp
  then obtain stats where st: "parse_status demo_line = Inr stats" "completion_tokens stats = 3" by (elim ok_withE)
  from generate_delivers_reply[where respond = "\<lambda>_. ascii_bytes ''ok'' @ END @ demo_line @ 0x0A # [7]" and smp = demo_sampling
      and on_text = "\<lambda>t out. out @ [t]" and x = "[]", OF pre un bf d l st(1)] st(2) show ?thesis by blast
qed

text \<open>
  A reply that is no UTF-8 fails its own request and the next one: the rest of the turn stays unread, and
  the next request is sent it as its answer.
\<close>

definition demo_broken :: "byte list" where
  "demo_broken = 0xFF # ascii_bytes ''12345678secret'' @ END @ demo_line @ [0x0A]"

definition leftover :: engine where
  "leftover = demo_engine\<lparr>unread := ascii_bytes ''secret'' @ END @ demo_line @ [0x0A]\<rparr>"

lemma broken_turn:
  "read_engine_turn (decoding (\<lambda>t out. out @ t)) END demo_broken ([], [])
    = (Inl (ValueError ''utf-8 codec: invalid bytes''), unread leftover, ([], []))"
  by code_simp

lemma next_turn:
  "snd (snd (after_turn (\<lambda>t out. out @ t) leftover (read_engine_turn (decoding (\<lambda>t out. out @ t)) END (unread leftover) ([], []))))
    = List.map of_char ''secret''"
  by code_simp

theorem failed_turn_leaks_into_next:
  "generate (\<lambda>_. demo_broken) ''a'' smp (PyInt 0) (\<lambda>t out. out @ t) demo_engine []
     = (Inl (Raised (ValueError ''utf-8 codec: invalid bytes'')), leftover, [])
   \<and> snd (snd (generate (\<lambda>_. []) ''b'' smp (PyInt 0) (\<lambda>t out. out @ t) leftover [])) = List.map of_char ''secret''"
proof -
  have "slot_ok (PyInt 0) (kv_slots demo_engine)" "0 \<notin> set (utf8_bytes ''a'')" "alive demo_engine" "unread demo_engine = []"
    "slot_ok (PyInt 0) (kv_slots leftover)" "0 \<notin> set (utf8_bytes ''b'')" "alive leftover"
    by code_simp+
  moreover have "demo_engine\<lparr>unread := unread leftover\<rparr> = leftover" by (simp add: leftover_def)
  ultimately show ?thesis
    by (simp only: generate_def Let_def not_True_eq_False if_False simp_thms append_Nil append_Nil2 broken_turn next_turn)
      (simp add: after_turn_def)
qed

end
