(* ===== verification/Chat_Templates.thy ===== *)
theory Chat_Templates
  imports Substrings Py_Json
begin

text \<open>
  \<open>engine/c/chat_templates.py\<close>: the chat templates of the model families, their validation, the detection
  of a family and the rendering of a conversation.  The contract's file and a model's files are given
  as the JSON values they hold.  A \<open>ChatTemplateError\<close> is \<open>Inl\<close> of its message, without the
  path of the file; texts have code points
  below 256, as elsewhere in the development.
\<close>

type_synonym 'a tres = "string + 'a"

definition SUPPORTED_ROLES :: "string list" where
  "SUPPORTED_ROLES = [''system'', ''developer'', ''user'', ''assistant'']"

section \<open>Text operations\<close>

text \<open>\<open>t.rsplit(marker, 1)[1]\<close> for a marker in the text: what follows its last occurrence.\<close>

fun after_last :: "'a list \<Rightarrow> 'a list \<Rightarrow> 'a list option" where
  "after_last pat [] = (if pat = [] then Some [] else None)"
| "after_last pat (c # t) = (case after_last pat t of Some u \<Rightarrow> Some u
     | None \<Rightarrow> if prefix pat (c # t) then Some (drop (length pat) (c # t)) else None)"

lemma after_last_None: "after_last pat t = None \<longleftrightarrow> \<not> py_in pat t"
  by (induction t) (auto simp: py_in_def sublist_Cons_right split: option.splits)

text \<open>\<open>t.replace(pat, new)\<close> for a pattern that is not empty.\<close>

function replace_all :: "'a list \<Rightarrow> 'a list \<Rightarrow> 'a list \<Rightarrow> 'a list" where
  "replace_all pat new [] = []"
| "replace_all pat new (c # t) =
     (if pat \<noteq> [] \<and> prefix pat (c # t) then new @ replace_all pat new (drop (length pat - 1) t) else c # replace_all pat new t)"
  by pat_completeness auto
termination
  by (relation "measure (\<lambda>(p, n, t). length t)") auto

section \<open>Templates\<close>

record role_rule =
  before :: string
  behind :: string
  strip_after :: string
  trim :: bool

record template =
  bos :: string
  default_system :: string
  system_mode :: string
  system_separator :: string
  effort_format :: string
  generation_prompt :: string
  thinking_prompt :: string
  supports_thinking :: bool
  aliases :: "string list"
  roles :: "(string \<times> role_rule) list"

definition guard :: "bool \<Rightarrow> string \<Rightarrow> unit tres" where
  "guard b m = (if b then Inr () else Inl m)"

lemma guard_eq_Inr [simp]: "guard b m = Inr u \<longleftrightarrow> b"
  by (simp add: guard_def)

definition validate_rule :: "string \<Rightarrow> string \<Rightarrow> pyval \<Rightarrow> role_rule tres" where
  "validate_rule family role v = (let bad = ''template '' @ family @ '' has invalid role '' @ role in
     rbind (opt_res bad (py_dict v)) (\<lambda>rule.
     rbind (opt_res bad (py_string (jget rule ''prefix''))) (\<lambda>b.
     rbind (opt_res bad (py_string (jget rule ''suffix''))) (\<lambda>e.
     rbind (opt_res bad (py_string (jget rule ''strip_after''))) (\<lambda>s.
     rbind (opt_res bad (py_bool (jget rule ''trim''))) (\<lambda>t.
       Inr \<lparr>before = b, behind = e, strip_after = s, trim = t\<rparr>))))))"

definition validate_aliases :: "string \<Rightarrow> pyval \<Rightarrow> string list tres" where
  "validate_aliases family v = (let bad = ''template '' @ family @ '' has invalid aliases'' in
     rbind (opt_res bad (py_list v)) (\<lambda>xs.
     rbind (guard (xs \<noteq> []) bad) (\<lambda>_.
       map_res (\<lambda>x. case py_string x of Some s \<Rightarrow> if s = [] then Inl bad else Inr s | None \<Rightarrow> Inl bad) xs)))"

definition validate_roles :: "string \<Rightarrow> pyval \<Rightarrow> (string \<times> role_rule) list tres" where
  "validate_roles family v = (let bad = ''template '' @ family @ '' has invalid roles'' in
     rbind (opt_res bad (py_dict v)) (\<lambda>rs.
     rbind (guard (set (dkeys rs) = set SUPPORTED_ROLES) bad) (\<lambda>_.
       map_res (\<lambda>(role, rule). rbind (validate_rule family role rule) (\<lambda>r. Inr (role, r))) rs)))"

text \<open>\<open>_validate\<close>; what it checked is read off into the record.\<close>

definition validate_template :: "string \<Rightarrow> pyval \<Rightarrow> template tres" where
  "validate_template family v =
     rbind (opt_res (''invalid template for '' @ family) (py_dict v)) (\<lambda>t.
     let text = (\<lambda>k. opt_res (''template '' @ family @ '' has invalid string fields'') (py_string (jget t k))) in
     rbind (text ''bos'') (\<lambda>b. rbind (text ''default_system'') (\<lambda>ds. rbind (text ''system_mode'') (\<lambda>sm.
     rbind (text ''system_separator'') (\<lambda>sep. rbind (text ''reasoning_effort_format'') (\<lambda>ef.
     rbind (text ''generation_prompt'') (\<lambda>gp. rbind (text ''thinking_generation_prompt'') (\<lambda>tp.
     rbind (guard (sm = ''role'' \<or> sm = ''prefix'') (''template '' @ family @ '' has invalid system_mode'')) (\<lambda>_.
     rbind (opt_res (''template '' @ family @ '' has invalid supports_thinking'') (py_bool (jget t ''supports_thinking''))) (\<lambda>st.
     rbind (validate_aliases family (jget t ''aliases'')) (\<lambda>al.
     rbind (validate_roles family (jget t ''roles'')) (\<lambda>rs.
       Inr \<lparr>bos = b, default_system = ds, system_mode = sm, system_separator = sep, effort_format = ef,
         generation_prompt = gp, thinking_prompt = tp, supports_thinking = st, aliases = al, roles = rs\<rparr>))))))))))))"

type_synonym registry = "(string \<times> template) list"

text \<open>\<open>ChatTemplateRegistry.__init__\<close> on the JSON value of the contract's file.\<close>

definition new_registry :: "string + pyval \<Rightarrow> registry tres" where
  "new_registry file =
     rbind (case file of Inl e \<Rightarrow> Inl (''cannot load chat template contract: '' @ e) | Inr v \<Rightarrow> Inr v) (\<lambda>v.
     rbind (opt_res ''JSON document must be an object'' (py_dict v)) (\<lambda>doc.
     rbind (guard (py_int (jget doc ''schema_version'') = Some 1 \<or> jget doc ''schema_version'' = PyFloat (Fin 1)) ''unsupported chat template schema'') (\<lambda>_.
     rbind (opt_res ''chat template contract has no families'' (py_dict (jget doc ''families''))) (\<lambda>fs.
     rbind (guard (fs \<noteq> []) ''chat template contract has no families'') (\<lambda>_.
       map_res (\<lambda>(family, t). rbind (validate_template family t) (\<lambda>x. Inr (family, x))) fs)))))"

definition get :: "registry \<Rightarrow> string \<Rightarrow> template tres" where
  "get reg family = opt_res (''unsupported model family: '' @ repr_str family) (map_of reg family)"

section \<open>Detection\<close>

text \<open>A model's file is absent, unreadable, or holds a JSON value.\<close>

type_synonym model_files = "string \<Rightarrow> (string + pyval) option"

definition file_fingerprints :: "model_files \<Rightarrow> string \<Rightarrow> string list tres" where
  "file_fingerprints files name = (case files name of
      None \<Rightarrow> Inr []
    | Some (Inl e) \<Rightarrow> Inl (''cannot load chat template contract: '' @ e)
    | Some (Inr v) \<Rightarrow> rbind (opt_res (''JSON document must be an object'') (py_dict v)) (\<lambda>doc.
        Inr (List.map lower (List.map_filter (\<lambda>k. py_string (jget doc k)) [''model_type'', ''tokenizer_class'', ''name_or_path''])
          @ (case jget doc ''architectures'' of PyList xs \<Rightarrow> List.map lower (List.map_filter py_string xs) | _ \<Rightarrow> []))))"

definition family_matches :: "string list \<Rightarrow> template \<Rightarrow> bool" where
  "family_matches fps t = list_ex (\<lambda>v. list_ex (\<lambda>a. py_in (lower a) v) (aliases t)) fps"

definition detect :: "registry \<Rightarrow> model_files \<Rightarrow> string tres" where
  "detect reg files =
     rbind (map_res (file_fingerprints files) [''config.json'', ''tokenizer_config.json'']) (\<lambda>fps.
       case List.map fst (filter (\<lambda>(f, t). family_matches (concat fps) t) reg) of
         [f] \<Rightarrow> Inr f
       | [] \<Rightarrow> Inl ''model family is unknown; refusing implicit template''
       | fs \<Rightarrow> Inl (''model family is ambiguous ('' @ str_join '', '' fs @ ''); refusing implicit template''))"

section \<open>Rendering\<close>

type_synonym msg = "string \<times> string"

definition is_system :: "msg \<Rightarrow> bool" where
  "is_system m \<longleftrightarrow> fst m = ''system'' \<or> fst m = ''developer''"

definition normalize :: "nat \<times> pyval \<Rightarrow> msg tres" where
  "normalize im = (let (i, m) = im in
     rbind (opt_res (''message '' @ str_of_int (int i) @ '' must be an object'') (py_dict m)) (\<lambda>d.
     case jget d ''role'' of
       PyStr r \<Rightarrow> if r \<in> set SUPPORTED_ROLES
         then rbind (opt_res (''message '' @ str_of_int (int i) @ '' content must be text'') (py_string (jget d ''content''))) (\<lambda>c. Inr (r, c))
         else Inl (''unsupported message role: '' @ repr_str r)
     | r \<Rightarrow> Inl (''unsupported message role: '' @ py_repr r)))"

definition wrap :: "role_rule \<Rightarrow> string \<Rightarrow> string" where
  "wrap rule c = before rule @ c @ behind rule"

definition rule_of :: "template \<Rightarrow> string \<Rightarrow> role_rule" where
  "rule_of t role = dget_or (roles t) role \<lparr>before = [], behind = [], strip_after = [], trim = False\<rparr>"

definition message_text :: "template \<Rightarrow> msg \<Rightarrow> string" where
  "message_text t m =
     (if system_mode t = ''prefix'' \<and> is_system m then []
      else let rule = rule_of t (fst m); c = snd m;
          c = (if strip_after rule = [] then c else case after_last (strip_after rule) c of Some u \<Rightarrow> u | None \<Rightarrow> c);
          c = (if trim rule then strip c else c) in wrap rule c)"

definition system_text :: "template \<Rightarrow> msg list \<Rightarrow> string" where
  "system_text t ms =
     (if system_mode t = ''prefix'' then str_join (system_separator t) (List.map snd (filter is_system ms))
      else if \<not> is_system (hd ms) \<and> default_system t \<noteq> [] then wrap (rule_of t ''system'') (default_system t)
      else [])"

definition effort_text :: "template \<Rightarrow> bool \<Rightarrow> string option \<Rightarrow> string" where
  "effort_text t thinking effort =
     (if thinking \<and> effort_format t \<noteq> []
      then wrap (rule_of t ''system'') (replace_all ''{effort}'' (if effort = Some ''high'' then ''High'' else ''Max'') (effort_format t))
      else [])"

definition conversation :: "template \<Rightarrow> bool \<Rightarrow> string option \<Rightarrow> msg list \<Rightarrow> string" where
  "conversation t thinking effort ms = bos t @ system_text t ms @ effort_text t thinking effort @ concat (List.map (message_text t) ms)"

definition render :: "registry \<Rightarrow> pyval \<Rightarrow> string \<Rightarrow> bool \<Rightarrow> string option \<Rightarrow> bool \<Rightarrow> string tres" where
  "render reg messages family thinking effort add_prompt =
     rbind (get reg family) (\<lambda>t.
     rbind (opt_res ''messages must be a non-empty array'' (py_list messages)) (\<lambda>ms.
     rbind (guard (ms \<noteq> []) ''messages must be a non-empty array'') (\<lambda>_.
     rbind (guard (\<not> thinking \<or> supports_thinking t) (''thinking is not supported for family '' @ family)) (\<lambda>_.
     rbind (map_res normalize (List.enumerate 0 ms)) (\<lambda>msgs.
       Inr (conversation t thinking effort msgs
         @ (if add_prompt then (if thinking then thinking_prompt t else generation_prompt t) else [])))))))"

section \<open>What a loaded contract guarantees\<close>

definition message_val :: "msg \<Rightarrow> pyval" where
  "message_val m = PyDict [(''role'', PyStr (fst m)), (''content'', PyStr (snd m))]"

lemma normalize_message_val: "fst m \<in> set SUPPORTED_ROLES \<Longrightarrow> normalize (i, message_val m) = Inr m"
  by (cases m) (simp add: normalize_def message_val_def jget_def dget_or_def)

lemma normalize_all:
  "list_all (\<lambda>m. fst m \<in> set SUPPORTED_ROLES) ms \<Longrightarrow> map_res normalize (List.enumerate i (List.map message_val ms)) = Inr ms"
  by (induction ms arbitrary: i) (simp_all add: normalize_message_val)

lemma render_messages:
  assumes "get reg family = Inr t" and "list_all (\<lambda>m. fst m \<in> set SUPPORTED_ROLES) ms" and "ms \<noteq> []"
    and "thinking \<longrightarrow> supports_thinking t"
  shows "render reg (PyList (List.map message_val ms)) family thinking effort add =
     Inr (conversation t thinking effort ms @ (if add then (if thinking then thinking_prompt t else generation_prompt t) else []))"
  using assms(3,4) by (simp add: render_def assms(1) normalize_all[OF assms(2)])

lemma validated_roles:
  assumes "validate_template family v = Inr t"
  shows "set (dkeys (roles t)) = set SUPPORTED_ROLES"
proof -
  let ?each = "map_res (\<lambda>(role, rule). rbind (validate_rule family role rule) (\<lambda>r. Inr (role, r)))"
  have keys: "?each rs = Inr xs \<Longrightarrow> dkeys xs = dkeys rs" for rs xs by (induction rs arbitrary: xs) auto
  obtain w where "validate_roles family w = Inr (roles t)"
    using assms unfolding validate_template_def Let_def by auto
  then obtain rs where "set (dkeys rs) = set SUPPORTED_ROLES" "?each rs = Inr (roles t)"
    unfolding validate_roles_def Let_def rbind_eq_Inr guard_eq_Inr by blast
  with keys show ?thesis by simp
qed

lemma registry_templates:
  assumes "new_registry file = Inr reg" and "get reg family = Inr t"
  shows "set (dkeys (roles t)) = set SUPPORTED_ROLES"
proof -
  let ?load = "map_res (\<lambda>(family, t). rbind (validate_template family t) (\<lambda>x. Inr (family, x)))"
  have each: "?load fs = Inr reg \<Longrightarrow> (f, x) \<in> set reg \<Longrightarrow> \<exists>v. validate_template f v = Inr x" for fs f x reg
    by (induction fs arbitrary: reg) auto
  obtain fs where "?load fs = Inr reg" using assms(1) unfolding new_registry_def by auto
  moreover have "(family, t) \<in> set reg" using assms(2) by (auto simp: get_def dest: map_of_SomeD)
  ultimately obtain v where "validate_template family v = Inr t" using each by blast
  then show ?thesis by (rule validated_roles)
qed

lemma system_text_extends:
  "ms \<noteq> [] \<Longrightarrow> (system_mode t = ''prefix'' \<Longrightarrow> list_all (\<lambda>m. \<not> is_system m) ms') \<Longrightarrow> system_text t (ms @ ms') = system_text t ms"
  by (simp add: system_text_def list_all_iff hd_append filter_False)

text \<open>
  Once the contract is loaded, every conversation of supported roles renders for each of its families,
  with a rule for every role; and appending turns only extends the rendered text (in prefix mode, as
  long as no system message is among them), so a prefix already computed can be reused.
\<close>

theorem appended_turns_extend_prompt:
  assumes "new_registry file = Inr reg" and "get reg family = Inr t"
    and "list_all (\<lambda>m. fst m \<in> set SUPPORTED_ROLES) (ms @ ms')" and "ms \<noteq> []" and "thinking \<longrightarrow> supports_thinking t"
    and "system_mode t = ''prefix'' \<longrightarrow> list_all (\<lambda>m. \<not> is_system m) ms'"
  shows "\<exists>p q. render reg (PyList (List.map message_val ms)) family thinking effort False = Inr p
     \<and> render reg (PyList (List.map message_val (ms @ ms'))) family thinking effort add = Inr q
     \<and> prefix p q \<and> (\<forall>m \<in> set (ms @ ms'). map_of (roles t) (fst m) = Some (rule_of t (fst m)))"
proof -
  have l: "list_all (\<lambda>m. fst m \<in> set SUPPORTED_ROLES) ms" using assms(3) by simp
  have ne: "ms @ ms' \<noteq> []" using assms(4) by simp
  have sys: "system_text t (ms @ ms') = system_text t ms" by (rule system_text_extends[OF assms(4)]) (use assms(6) in blast)
  have "prefix (conversation t thinking effort ms) (conversation t thinking effort (ms @ ms'))"
    by (simp add: conversation_def sys)
  moreover have "map_of (roles t) (fst m) = Some (rule_of t (fst m))" if "m \<in> set (ms @ ms')" for m
  proof -
    have "fst m \<in> set (dkeys (roles t))" using that assms(3) registry_templates[OF assms(1,2)] by (auto simp: list_all_iff)
    then obtain r where "map_of (roles t) (fst m) = Some r" by (metis map_of_None_keys not_None_eq)
    then show ?thesis by (simp add: rule_of_def dget_or_def)
  qed
  ultimately show ?thesis
    unfolding render_messages[OF assms(2) l assms(4,5)] render_messages[OF assms(2,3) ne assms(5)]
    by (auto intro: prefix_prefix)
qed

definition demo_rule :: "string \<Rightarrow> pyval" where
  "demo_rule p = PyDict [(''prefix'', PyStr p), (''suffix'', PyStr []), (''trim'', PyBool False), (''strip_after'', PyStr [])]"

definition demo_contract :: pyval where
  "demo_contract = PyDict [(''schema_version'', PyInt 1), (''families'', PyDict [(''glm'', PyDict
     [(''aliases'', PyList [PyStr ''glm'']), (''bos'', PyStr ''<sop>''), (''default_system'', PyStr []), (''system_mode'', PyStr ''role''),
      (''system_separator'', PyStr []), (''supports_thinking'', PyBool True), (''reasoning_effort_format'', PyStr ''{effort}''),
      (''roles'', PyDict [(''system'', demo_rule ''<s>''), (''developer'', demo_rule ''<s>''), (''user'', demo_rule ''<u>''), (''assistant'', demo_rule ''<a>'')]),
      (''generation_prompt'', PyStr ''<a>''), (''thinking_generation_prompt'', PyStr ''<t>'')])])]"

theorem appended_turns_extend_prompt_witness:
  "\<exists>reg p q. new_registry (Inr demo_contract) = Inr reg
     \<and> render reg (PyList (List.map message_val [(''user'', ''hi'')])) ''glm'' False None False = Inr p
     \<and> render reg (PyList (List.map message_val ([(''user'', ''hi'')] @ [(''assistant'', ''yo''), (''user'', ''more'')]))) ''glm'' False None True = Inr q
     \<and> prefix p q"
proof -
  have "ok_with (new_registry (Inr demo_contract)) (\<lambda>reg. ok_with (get reg ''glm'') (\<lambda>t. system_mode t = ''role''))" by code_simp
  then obtain reg t where r: "new_registry (Inr demo_contract) = Inr reg" "get reg ''glm'' = Inr t" "system_mode t = ''role''"
    by (elim ok_withE)
  have m: "list_all (\<lambda>m. fst m \<in> set SUPPORTED_ROLES) ([(''user'', ''hi'')] @ [(''assistant'', ''yo''), (''user'', ''more'')])"
    by code_simp
  have s: "system_mode t = ''prefix'' \<longrightarrow> list_all (\<lambda>m. \<not> is_system m) [(''assistant'', ''yo''), (''user'', ''more'')]" by (simp add: r(3))
  from appended_turns_extend_prompt[OF r(1,2) m _ _ s, of False None True] r(1) show ?thesis by blast
qed

end
