(* ===== verification/Openai_Server.thy ===== *)
theory Openai_Server
  imports Engine_Turn Chat_Templates
begin

text \<open>
  The gateway of \<open>engine/c/openai_server.py\<close>: message content, sampling options, completions (plain and
  streamed) and the routing of requests.  A handler returns what it writes and the engine; a request's
  body is the JSON value it parses to; writes succeed (the client stays connected).  Whether the
  scheduler admits the request, after which wait, is a parameter (\<open>Generation_Queue\<close> models it).
\<close>

type_synonym 'a hres = "srv_exc + 'a"

section \<open>Content and options\<close>

definition part_text :: "string \<Rightarrow> nat \<times> pyval \<Rightarrow> string hres" where
  "part_text prm ip = (let (i, v) = ip; loc = prm @ ''.'' @ str_of_int (int i) in
     case v of
       PyDict d \<Rightarrow>
         if jget d ''type'' \<in> {PyStr ''text'', PyStr ''input_text''}
         then opt_res (bad_request ''Text content parts require a string `text` field.'' (Some (loc @ ''.text'')) None) (py_string (jget d ''text''))
         else Inl (bad_request ''Colibri currently supports text message content only.'' (Some loc) (Some ''unsupported_content_type''))
     | _ \<Rightarrow> Inl (bad_request ''Colibri currently supports text message content only.'' (Some loc) (Some ''unsupported_content_type'')))"

definition content_text :: "pyval \<Rightarrow> string \<Rightarrow> string hres" where
  "content_text content prm = (case content of
      PyStr s \<Rightarrow> Inr s
    | PyList ps \<Rightarrow> rbind (map_res (part_text prm) (List.enumerate 0 ps)) (\<lambda>ts. Inr (concat ts))
    | _ \<Rightarrow> Inl (bad_request ''Message content must be a string or an array of text parts.'' (Some prm) None))"

definition message_of :: "nat \<times> pyval \<Rightarrow> pyval hres" where
  "message_of im = (let (i, m) = im; loc = ''messages.'' @ str_of_int (int i) in
     rbind (opt_res (bad_request ''Each message must be an object.'' (Some loc) None) (py_dict m)) (\<lambda>d.
     rbind (content_text (jget d ''content'') (loc @ ''.content'')) (\<lambda>t.
     let unsupported = bad_request (''Unsupported message role: '' @ py_repr (jget d ''role'') @ ''.'') (Some (loc @ ''.role'')) (Some ''unsupported_role'') in
     rbind (opt_res unsupported (py_string (jget d ''role''))) (\<lambda>r.
       if r \<in> set SUPPORTED_ROLES then Inr (message_val (r, t)) else Inl unsupported))))"

definition render_chat :: "registry \<Rightarrow> pyval \<Rightarrow> string \<Rightarrow> bool \<Rightarrow> string option \<Rightarrow> string hres" where
  "render_chat reg messages family thinking effort =
     (let missing = bad_request ''`messages` must be a non-empty array.'' (Some ''messages'') None in
     rbind (opt_res missing (py_list messages)) (\<lambda>ms.
     if ms = [] then Inl missing
     else rbind (map_res message_of (List.enumerate 0 ms)) (\<lambda>normalized.
       case render reg (PyList normalized) family thinking effort True of
         Inl m \<Rightarrow> Inl (bad_request m (Some ''messages'') (Some ''invalid_chat_template''))
       | Inr p \<Rightarrow> Inr p)))"

definition unsupported :: "string \<Rightarrow> string option \<Rightarrow> srv_exc" where
  "unsupported m p = bad_request m p (Some ''unsupported_parameter'')"

definition must :: "bool \<Rightarrow> srv_exc \<Rightarrow> unit hres" where
  "must b e = (if b then Inr () else Inl e)"

lemma must_eq_Inr [simp]: "must b e = Inr u \<longleftrightarrow> b"
  by (simp add: must_def)

definition is_one :: "pyval \<Rightarrow> bool" where
  "is_one v \<longleftrightarrow> v = PyInt 1 \<or> v = PyBool True \<or> v = PyFloat (Fin 1)"

definition stop_error :: srv_exc where
  "stop_error = bad_request ''`stop` must be a non-empty string or an array of 1 to 4 non-empty strings (maximum 256 characters each).''
     (Some ''stop'') None"

definition stop_item :: "pyval \<Rightarrow> string hres" where
  "stop_item v = (case v of PyStr s \<Rightarrow> if s = [] \<or> 256 < length s then Inl stop_error else Inr s | _ \<Rightarrow> Inl stop_error)"

definition stop_list :: "pyval \<Rightarrow> string list hres" where
  "stop_list v = (case v of
      PyNone \<Rightarrow> Inr []
    | PyStr s \<Rightarrow> rbind (stop_item v) (\<lambda>x. Inr [x])
    | PyList xs \<Rightarrow> if 1 \<le> length xs \<and> length xs \<le> 4 then map_res stop_item xs else Inl stop_error
    | _ \<Rightarrow> Inl stop_error)"

definition seed_of :: "pyval \<Rightarrow> int option hres" where
  "seed_of v = (let bad = bad_request ''`seed` must be an integer between 0 and 2^63-1.'' (Some ''seed'') None in case v of
      PyNone \<Rightarrow> Inr None
    | PyInt n \<Rightarrow> if 0 \<le> n \<and> n \<le> 0x7fffffffffffffff then Inr (Some n) else Inl bad
    | _ \<Rightarrow> Inl bad)"

text \<open>A number, not a boolean, within bounds; returned as a float.\<close>

definition number_in :: "(pyfloat \<Rightarrow> bool) \<Rightarrow> srv_exc \<Rightarrow> pyval \<Rightarrow> pyfloat hres" where
  "number_in within_bounds bad v = (case v of
      PyBool _ \<Rightarrow> Inl bad
    | _ \<Rightarrow> (case py_number v of
        None \<Rightarrow> Inl bad
      | Some x \<Rightarrow> if within_bounds x then (case py_float v of Inr y \<Rightarrow> Inr y | Inl e \<Rightarrow> Inl (Raised e)) else Inl bad))"

definition or_val :: "pyval \<Rightarrow> pyval \<Rightarrow> pyval" where
  "or_val v w = (if v = PyNone then w else v)"

definition generation_options :: "(string \<times> pyval) list \<Rightarrow> int \<Rightarrow> (sampling \<times> string list) hres" where
  "generation_options body limit =
     rbind (must (is_one (dget_or body ''n'' (PyInt 1))) (bad_request ''Colibri currently supports `n=1` only.'' (Some ''n'') (Some ''unsupported_value''))) (\<lambda>_.
     rbind (must (\<not> truthy (jget body ''tools'')) (unsupported ''`tools` is not supported yet.'' (Some ''tools''))) (\<lambda>_.
     rbind (must (\<not> truthy (jget body ''functions'')) (unsupported ''`functions` is not supported yet.'' (Some ''functions''))) (\<lambda>_.
     rbind (stop_list (jget body ''stop'')) (\<lambda>stops.
     rbind (must (\<not> truthy (jget body ''logprobs'')) (unsupported ''Log probabilities are not supported yet.'' (Some ''logprobs''))) (\<lambda>_.
     rbind (must (\<not> truthy (jget body ''frequency_penalty'') \<and> \<not> truthy (jget body ''presence_penalty''))
       (unsupported ''Token penalties are not supported yet.'' None)) (\<lambda>_.
     rbind (seed_of (jget body ''seed'')) (\<lambda>sd.
     rbind (must (jget body ''response_format'' \<in> {PyNone, PyDict [(''type'', PyStr ''text'')]})
       (unsupported ''Only the default text response format is supported.'' (Some ''response_format''))) (\<lambda>_.
     let maximum = or_val (or_val (jget body ''max_completion_tokens'') (jget body ''max_tokens'')) (PyInt (min 256 limit));
         maximum_param = (if jget body ''max_completion_tokens'' = PyNone then ''max_tokens'' else ''max_completion_tokens'') in
     rbind (opt_res (bad_request (''`'' @ maximum_param @ ''` must be an integer between 1 and '' @ str_of_int limit @ ''.'') (Some maximum_param) None)
       (case strict_int maximum of Some n \<Rightarrow> if 1 \<le> n \<and> n \<le> limit then Some n else None | None \<Rightarrow> None)) (\<lambda>m.
     rbind (number_in (\<lambda>x. fle (Fin 0) x \<and> fle x (Fin 2)) (bad_request ''`temperature` must be between 0 and 2.'' (Some ''temperature'') None)
       (or_val (jget body ''temperature'') (PyFloat (lit (7 / 10))))) (\<lambda>t.
     rbind (number_in (\<lambda>x. flt (Fin 0) x \<and> fle x (Fin 1)) (bad_request ''`top_p` must be greater than 0 and at most 1.'' (Some ''top_p'') None)
       (or_val (jget body ''top_p'') (PyFloat (lit (9 / 10))))) (\<lambda>p.
       Inr (\<lparr>max_tokens = m, temperature = t, top_p = p, seed = sd\<rparr>, stops))))))))))))"

section \<open>Completions\<close>

record usage =
  used_prompt :: int
  used_completion :: int
  used_total :: int

definition usage_of :: "turn_stats \<Rightarrow> usage" where
  "usage_of st = \<lparr>used_prompt = prompt_tokens st, used_completion = completion_tokens st,
     used_total = prompt_tokens st + completion_tokens st\<rparr>"

text \<open>The events of a stream; the flag says whether the event carries the \<open>usage\<close> field.\<close>

datatype sse = RoleEvent | Delta utext | FinishEvent string | UsageEvent usage

datatype http_out =
    JsonOut int pyval "(string \<times> string) list"
  | CompletionOut string utext string usage
  | StreamStart
  | Event bool sse
  | StreamDone

record api_server =
  engine_of :: engine
  model_id :: string
  api_key :: "string option"
  max_tokens_of :: int
  scheduler :: gen_scheduler
  family :: string
  registry_of :: registry
  created :: int

definition utext_of_string :: "string \<Rightarrow> utext" where
  "utext_of_string s = List.map of_char s"

text \<open>The stop filter as the engine's \<open>on_text\<close>; what it emits is collected.\<close>

definition collect :: "utext \<Rightarrow> nat stop_filter \<times> utext list \<Rightarrow> nat stop_filter \<times> utext list" where
  "collect t s = (case feed t (fst s) of (cs, f) \<Rightarrow> (f, snd s @ cs))"

definition finish_reason :: "bool \<Rightarrow> turn_stats \<Rightarrow> string" where
  "finish_reason stopped st = (if stopped then ''stop'' else if length_limited st then ''length'' else ''stop'')"

record options =
  smp :: sampling
  stop_texts :: "string list"
  slot_value :: pyval
  streamed :: bool
  with_usage :: bool

definition read_options :: "api_server \<Rightarrow> (string \<times> pyval) list \<Rightarrow> options hres" where
  "read_options s body =
     rbind (generation_options body (max_tokens_of s)) (\<lambda>(sm, stops).
     let slot = dget_or body ''cache_slot'' (PyInt 0); slots = kv_slots (engine_of s) in
     rbind (must (slot_ok slot slots) (bad_request (''`cache_slot` must be an integer between 0 and '' @ str_of_int (slots - 1) @ ''.'') (Some ''cache_slot'') None)) (\<lambda>_.
     rbind (opt_res (bad_request ''`stream` must be a boolean.'' (Some ''stream'') None) (py_bool (dget_or body ''stream'' (PyBool False)))) (\<lambda>st.
     rbind (if st then (case jget body ''stream_options'' of PyNone \<Rightarrow> Inr [] | PyDict d \<Rightarrow> Inr d
         | _ \<Rightarrow> Inl (bad_request ''`stream_options` must be an object.'' (Some ''stream_options'') None)) else Inr []) (\<lambda>so.
       Inr \<lparr>smp = sm, stop_texts = stops, slot_value = slot, streamed = st, with_usage = truthy (jget so ''include_usage'')\<rparr>))))"

text \<open>What a stream writes: the start, the role, the texts; then the end, unless the engine failed.\<close>

definition stream_outs :: "bool \<Rightarrow> options \<Rightarrow> utext list \<Rightarrow> http_out list" where
  "stream_outs chat opts cs = StreamStart # (if chat then [Event (with_usage opts) RoleEvent] else [])
     @ List.map (\<lambda>t. Event (with_usage opts) (Delta t)) cs"

definition generation :: "(byte list \<Rightarrow> byte list) \<Rightarrow> unit hres \<Rightarrow> api_server \<Rightarrow> (string \<times> pyval) list \<Rightarrow> string \<Rightarrow> bool
      \<Rightarrow> http_out list \<times> unit hres \<times> engine" where
  "generation respond admission s body prompt chat =
     (case read_options s body of
       Inl e \<Rightarrow> ([], Inl e, engine_of s)
     | Inr opts \<Rightarrow>
         (case admission of
           Inl e \<Rightarrow> ([], Inl e, engine_of s)
         | Inr _ \<Rightarrow>
             (case generate respond prompt (smp opts) (slot_value opts) collect (engine_of s)
                (new_filter (List.map utext_of_string (stop_texts opts)), []) of
               (Inl e, en, (f, cs)) \<Rightarrow> (if streamed opts then stream_outs chat opts cs else [], Inl e, en)
             | (Inr stats, en, (f, cs)) \<Rightarrow>
                 (let (rest, f') = finish_filter f; out = cs @ rest; reason = finish_reason (matched f') stats in
                  (if streamed opts
                   then stream_outs chat opts out @ [Event (with_usage opts) (FinishEvent reason)]
                     @ (if with_usage opts then [Event True (UsageEvent (usage_of stats))] else []) @ [StreamDone]
                   else [CompletionOut (if chat then ''chat.completion'' else ''text_completion'') (concat out) reason (usage_of stats)],
                   Inr (), en)))))"

definition efforts :: "string list" where
  "efforts = [''none'', ''minimal'', ''low'', ''medium'', ''high'', ''xhigh'']"

definition effort_of :: "pyval \<Rightarrow> string option hres" where
  "effort_of v = (let bad = bad_request ''`reasoning_effort` must be none, minimal, low, medium, high, or xhigh.'' (Some ''reasoning_effort'') None in
     case v of PyNone \<Rightarrow> Inr None | PyStr e \<Rightarrow> if e \<in> set efforts then Inr (Some e) else Inl bad | _ \<Rightarrow> Inl bad)"

definition chat_prompt :: "api_server \<Rightarrow> (string \<times> pyval) list \<Rightarrow> string hres" where
  "chat_prompt s body =
     rbind (effort_of (jget body ''reasoning_effort'')) (\<lambda>effort.
     rbind (opt_res (bad_request ''`enable_thinking` must be a boolean.'' (Some ''enable_thinking'') None)
       (py_bool (dget_or body ''enable_thinking'' (PyBool (effort \<notin> {None, Some ''none''}))))) (\<lambda>thinking.
       render_chat (registry_of s) (jget body ''messages'') (family s) thinking effort))"

definition text_prompt :: "(string \<times> pyval) list \<Rightarrow> string hres" where
  "text_prompt body = opt_res (bad_request ''Colibri currently requires `prompt` to be a string.'' (Some ''prompt'') None) (py_string (jget body ''prompt''))"

section \<open>Requests\<close>

definition MAX_BODY :: int where
  "MAX_BODY = 4 * 2 ^ 20"

record http_request =
  target :: string
  authorization :: "string option"
  content_length :: "string option"
  json_body :: "pyval option"

text \<open>
  \<open>urlsplit(target).path\<close> of a target in origin form, a path after one slash; the absolute form that a proxy would
  be sent is not modelled.
\<close>

definition url_path :: "string \<Rightarrow> string" where
  "url_path t = takeWhile (\<lambda>c. c \<noteq> CHR ''?'' \<and> c \<noteq> CHR ''#'') t"

definition api_fail :: "int \<Rightarrow> string \<Rightarrow> string option \<Rightarrow> string option \<Rightarrow> string \<Rightarrow> srv_exc" where
  "api_fail st m p c ty = Api \<lparr>status = st, message = m, param = p, code = c, error_type = ty, headers = []\<rparr>"

definition require_auth :: "api_server \<Rightarrow> http_request \<Rightarrow> unit hres" where
  "require_auth s q = (case api_key s of
      None \<Rightarrow> Inr ()
    | Some k \<Rightarrow> must (k = [] \<or> authorization q = Some (''Bearer '' @ k))
        (api_fail 401 ''Invalid or missing API key.'' None (Some ''invalid_api_key'') ''authentication_error''))"

definition read_json :: "http_request \<Rightarrow> (string \<times> pyval) list hres" where
  "read_json q =
     rbind (opt_res (bad_request ''Invalid Content-Length header.'' None None)
       (int10 (case content_length q of None \<Rightarrow> ''0'' | Some l \<Rightarrow> l))) (\<lambda>n.
     rbind (must (1 \<le> n \<and> n \<le> MAX_BODY) (bad_request (''Request body must be between 1 and '' @ str_of_int MAX_BODY @ '' bytes.'') None None)) (\<lambda>_.
     rbind (opt_res (bad_request ''Request body must be valid JSON.'' None None) (json_body q)) (\<lambda>v.
       opt_res (bad_request ''Request body must be a JSON object.'' None None) (py_dict v))))"

definition check_model :: "api_server \<Rightarrow> (string \<times> pyval) list \<Rightarrow> unit hres" where
  "check_model s body = must (jget body ''model'' = PyStr (model_id s))
     (api_fail 404 (''The model `'' @ py_str (jget body ''model'') @ ''` does not exist.'') (Some ''model'') (Some ''model_not_found'') ''invalid_request_error'')"

definition not_found :: srv_exc where
  "not_found = api_fail 404 ''Not found.'' None (Some ''not_found'') ''invalid_request_error''"

definition engine_error :: api_error where
  "engine_error = \<lparr>status = 500, message = ''The colibri engine failed to process the request.'', param = None,
     code = Some ''engine_error'', error_type = ''server_error'', headers = []\<rparr>"

text \<open>The \<open>except\<close> clauses of a handler.\<close>

fun error_outs :: "unit hres \<Rightarrow> http_out list" where
  "error_outs (Inr _) = []"
| "error_outs (Inl (Api e)) = [JsonOut (status e) (error_object e) (headers e)]"
| "error_outs (Inl ClientCancelled) = []"
| "error_outs (Inl (Raised e)) = [JsonOut 500 (error_object engine_error) []]"

definition prepared :: "api_server \<Rightarrow> http_request \<Rightarrow> ((string \<times> pyval) list \<times> string \<times> bool) hres" where
  "prepared s q =
     rbind (require_auth s q) (\<lambda>_.
     rbind (read_json q) (\<lambda>body.
     rbind (check_model s body) (\<lambda>_.
       if url_path (target q) = ''/v1/chat/completions'' then rbind (chat_prompt s body) (\<lambda>p. Inr (body, p, True))
       else if url_path (target q) = ''/v1/completions'' then rbind (text_prompt body) (\<lambda>p. Inr (body, p, False))
       else Inl not_found)))"

definition post :: "(byte list \<Rightarrow> byte list) \<Rightarrow> unit hres \<Rightarrow> api_server \<Rightarrow> http_request \<Rightarrow> http_out list \<times> unit hres \<times> engine" where
  "post respond admission s q = (case prepared s q of
      Inl e \<Rightarrow> ([], Inl e, engine_of s)
    | Inr (body, p, chat) \<Rightarrow> generation respond admission s body p chat)"

definition do_POST :: "(byte list \<Rightarrow> byte list) \<Rightarrow> unit hres \<Rightarrow> api_server \<Rightarrow> http_request \<Rightarrow> http_out list \<times> engine" where
  "do_POST respond admission s q = (case post respond admission s q of (outs, r, en) \<Rightarrow> (outs @ error_outs r, en))"

text \<open>\<open>unquote\<close>: the ASCII runs are bytes with their escapes, decoded as UTF-8; \<open>None\<close> when a character past 255 results.\<close>

definition hex_of :: "char \<Rightarrow> nat option" where
  "hex_of c = (case digit_value c of Some d \<Rightarrow> if d < 16 then Some (nat d) else None | None \<Rightarrow> None)"

definition flush_run :: "byte list \<Rightarrow> string option" where
  "flush_run bs = (case utf8_decode bs of
      Some t \<Rightarrow> if list_all (\<lambda>c. c < 256) t then Some (List.map char_of t) else None
    | None \<Rightarrow> None)"

definition append_opt :: "string option \<Rightarrow> string option \<Rightarrow> string option" where
  "append_opt x y = (case (x, y) of (Some a, Some b) \<Rightarrow> Some (a @ b) | _ \<Rightarrow> None)"

fun unquote_run :: "string \<Rightarrow> byte list \<Rightarrow> string option" where
  "unquote_run [] run = flush_run run"
| "unquote_run [c] run = (if (of_char c :: nat) < 128 then flush_run (run @ [of_char c]) else append_opt (flush_run run) (Some [c]))"
| "unquote_run [c, d] run = (if (of_char c :: nat) < 128 then unquote_run [d] (run @ [of_char c]) else append_opt (flush_run run) (append_opt (Some [c]) (unquote_run [d] [])))"
| "unquote_run (c # a # b # cs) run =
     (if 128 \<le> (of_char c :: nat) then append_opt (flush_run run) (append_opt (Some [c]) (unquote_run (a # b # cs) []))
      else case (if c = CHR ''%'' then (hex_of a, hex_of b) else (None, None)) of
          (Some m, Some n) \<Rightarrow> unquote_run cs (run @ [word_of_nat (16 * m + n)])
        | _ \<Rightarrow> unquote_run (a # b # cs) (run @ [of_char c]))"

definition unquote :: "string \<Rightarrow> string option" where
  "unquote t = (if CHR ''%'' \<in> set t then unquote_run t [] else Some t)"

definition model_object :: "string \<Rightarrow> int \<Rightarrow> pyval" where
  "model_object m at_time = PyDict [(''id'', PyStr m), (''object'', PyStr ''model''), (''created'', PyInt at_time), (''owned_by'', PyStr ''colibri'')]"

definition do_GET :: "api_server \<Rightarrow> http_request \<Rightarrow> http_out list" where
  "do_GET s q = (let p = url_path (target q) in
     if p = ''/health'' then [JsonOut 200 (PyDict [(''status'', PyStr ''ok''), (''scheduler'', snapshot (scheduler s)), (''kv_slots'', PyInt (kv_slots (engine_of s)))]) []]
     else case require_auth s q of
         Inl e \<Rightarrow> error_outs (Inl e)
       | Inr _ \<Rightarrow>
           if p = ''/v1/models'' then [JsonOut 200 (PyDict [(''object'', PyStr ''list''), (''data'', PyList [model_object (model_id s) (created s)])]) []]
           else if starts_with ''/v1/models/'' p \<and> unquote (drop 11 p) = Some (model_id s) then [JsonOut 200 (model_object (model_id s) (created s)) []]
           else error_outs (Inl not_found))"

section \<open>Who reaches the engine, and what is answered\<close>

text \<open>Every failure of a computation satisfies a predicate.\<close>

definition fails :: "('e \<Rightarrow> bool) \<Rightarrow> 'e + 'a \<Rightarrow> bool" where
  "fails P r \<longleftrightarrow> (\<forall>e. r = Inl e \<longrightarrow> P e)"

named_theorems fails_intro \<open>rules for \<open>fails\<close>\<close>

lemma fails_Inr [fails_intro]: "fails P (Inr x)"
  by (simp add: fails_def)

lemma fails_Inl [fails_intro]: "P e \<Longrightarrow> fails P (Inl e)"
  by (simp add: fails_def)

lemma fails_rbind [fails_intro]: "fails P r \<Longrightarrow> (\<And>x. fails P (f x)) \<Longrightarrow> fails P (rbind r f)"
  by (cases r) (auto simp: fails_def)

lemma fails_opt_res [fails_intro]: "P e \<Longrightarrow> fails P (opt_res e x)"
  by (cases x) (auto simp: fails_def)

lemma fails_must [fails_intro]: "P e \<Longrightarrow> fails P (must b e)"
  by (simp add: must_def fails_def)

lemma fails_if [fails_intro]: "fails P r \<Longrightarrow> fails P r' \<Longrightarrow> fails P (if b then r else r')"
  by simp

lemma fails_map_res [fails_intro]: "(\<And>x. fails P (f x)) \<Longrightarrow> fails P (map_res f xs)"
  by (induction xs) (auto intro!: fails_intro)

definition client_error :: "srv_exc \<Rightarrow> bool" where
  "client_error e \<longleftrightarrow> (\<exists>a. e = Api a \<and> 400 \<le> status a \<and> status a < 500)"

lemma client_error_intro [fails_intro]:
  "client_error (bad_request m p c)"
  "400 \<le> st \<Longrightarrow> st < 500 \<Longrightarrow> client_error (api_fail st m p c ty)"
  "client_error not_found"
  by (auto simp: client_error_def bad_request_def api_fail_def not_found_def)

lemma part_text_fails [fails_intro]: "fails client_error (part_text prm ip)"
  by (cases ip; cases "snd ip") (auto simp: part_text_def Let_def intro!: fails_intro)

lemma content_text_fails [fails_intro]: "fails client_error (content_text c prm)"
  by (cases c) (auto simp: content_text_def intro!: fails_intro)

lemma message_of_fails [fails_intro]: "fails client_error (message_of im)"
  by (cases im) (auto simp: message_of_def Let_def intro!: fails_intro)

lemma render_chat_fails [fails_intro]: "fails client_error (render_chat reg ms fam th ef)"
  unfolding render_chat_def Let_def by (intro fails_intro) (auto intro!: fails_intro split: sum.split)

lemma chat_prompt_fails [fails_intro]: "fails client_error (chat_prompt s body)"
proof -
  have "fails client_error (effort_of v)" for v by (cases v) (auto simp: effort_of_def Let_def intro!: fails_intro)
  then show ?thesis unfolding chat_prompt_def by (intro fails_intro)
qed

lemma prepared_fails [fails_intro]:
  "fails client_error (text_prompt body)" "fails client_error (require_auth s q)" "fails client_error (read_json q)"
  "fails client_error (check_model s body)"
  by (auto simp: text_prompt_def require_auth_def read_json_def check_model_def intro!: fails_intro split: option.split)




definition demo_server :: api_server where
  "demo_server = \<lparr>engine_of = demo_engine, model_id = ''glm'', api_key = Some ''k'', max_tokens_of = 1024,
     scheduler = demo_queue, family = ''glm'', registry_of = [], created = 0\<rparr>"

definition demo_body :: "(string \<times> pyval) list" where
  "demo_body = [(''model'', PyStr ''glm''), (''prompt'', PyStr ''hi''), (''stop'', PyStr ''END'')]"



section \<open>The text of a completion\<close>

lemma fold_collect: "fold collect ts (f, out) = (snd (feed_all ts f), out @ fst (feed_all ts f))"
  by (induction ts arbitrary: f out) (auto simp: collect_def split: prod.splits)

lemma stop_items: "map_res stop_item xs = Inr ss \<Longrightarrow> [] \<notin> set ss"
  by (induction xs arbitrary: ss) (auto simp: stop_item_def split: pyval.splits if_splits)

lemma stop_list_nonempty: "stop_list v = Inr ss \<Longrightarrow> [] \<notin> set ss"
  by (cases v) (auto simp: stop_list_def stop_item_def split: if_splits dest: stop_items)

lemma generation_options_stops: "generation_options body limit = Inr (sm, ss) \<Longrightarrow> [] \<notin> set ss"
  unfolding generation_options_def Let_def rbind_eq_Inr by (auto dest: stop_list_nonempty)

lemma read_options_ok:
  "read_options s body = Inr opts \<Longrightarrow> slot_ok (slot_value opts) (kv_slots (engine_of s)) \<and> [] \<notin> set (stop_texts opts)"
  unfolding read_options_def Let_def rbind_eq_Inr by (auto dest: generation_options_stops)

text \<open>
  C3: a healthy engine's reply reaches the client as the same text whether the request streams or not: it
  is the reply up to a stop (the whole of it when none occurs, never holding one, and exactly the text
  before the first when the stops have one length), with the finish reason \<open>stop\<close> when one occurred
  or the engine was not cut short, and the engine has nothing left unread.
\<close>

theorem completion_is_reply_up_to_stop:
  assumes "read_options s body = Inr opts" and "alive (engine_of s)" and "unread (engine_of s) = []" and "0 \<notin> set (utf8_bytes prompt)"
    and "respond (prompt_header (utf8_bytes prompt) (smp opts) (int_of_val (slot_value opts)) @ utf8_bytes prompt @ [0x0A]) = data @ END @ line @ [0x0A]"
    and "before_first [END] (data @ END) = data" and "utf8_decode data = Some t"
    and "0x0A \<notin> set line" and "parse_status line = Inr stats"
  defines "ps \<equiv> List.map utext_of_string (stop_texts opts)"
  shows "\<exists>cs. prefix (concat cs) t \<and> \<not> occurs ps (concat cs) \<and> (\<not> occurs ps t \<longrightarrow> concat cs = t)
    \<and> ((\<forall>p \<in> set ps. \<forall>q \<in> set ps. length p = length q) \<longrightarrow> concat cs = before_first ps t)
    \<and> generation respond (Inr ()) s body prompt chat =
       (let reason = (if occurs ps t \<or> \<not> length_limited stats then ''stop'' else ''length'') in
        (if streamed opts
         then stream_outs chat opts cs @ [Event (with_usage opts) (FinishEvent reason)]
           @ (if with_usage opts then [Event True (UsageEvent (usage_of stats))] else []) @ [StreamDone]
         else [CompletionOut (if chat then ''chat.completion'' else ''text_completion'') (concat cs) reason (usage_of stats)],
         Inr (), engine_of s))"
proof -
  have ok: "slot_ok (slot_value opts) (kv_slots (engine_of s))" and ne: "\<forall>p \<in> set ps. p \<noteq> []"
    using read_options_ok[OF assms(1)] by (auto simp: ps_def utext_of_string_def)
  from generate_reply[where on_text = collect and x = "(new_filter ps, [])" and respond = respond and data = data and line = line and smp = "smp opts",
      OF assms(2,3) ok assms(4-9)]
  obtain ts where ts: "concat ts = t"
    and g: "generate respond prompt (smp opts) (slot_value opts) collect (engine_of s) (new_filter ps, [])
       = (Inr stats, engine_of s, fold collect ts (new_filter ps, []))" by blast
  obtain cs f where f: "feed_all ts (new_filter ps) = (cs, f)" by fastforce
  obtain rest f' where f': "finish_filter f = (rest, f')" by fastforce
  have fl: "filtered ps ts = (cs @ rest, matched f')" by (simp add: filtered_def f f')
  note ex = stop_filter_exact_lemma[OF ne fl, unfolded ts]
  have "generation respond (Inr ()) s body prompt chat =
       (let reason = finish_reason (matched f') stats in
        (if streamed opts
         then stream_outs chat opts (cs @ rest) @ [Event (with_usage opts) (FinishEvent reason)]
           @ (if with_usage opts then [Event True (UsageEvent (usage_of stats))] else []) @ [StreamDone]
         else [CompletionOut (if chat then ''chat.completion'' else ''text_completion'') (concat (cs @ rest)) reason (usage_of stats)],
         Inr (), engine_of s))"
    using g by (simp add: generation_def assms(1) fold_collect f f' Let_def flip: ps_def)
  moreover have "finish_reason (matched f') stats = (if occurs ps t \<or> \<not> length_limited stats then ''stop'' else ''length'')"
    using ex by (simp add: finish_reason_def)
  ultimately show ?thesis using ex by (intro exI[of _ "cs @ rest"]) (simp only:, blast)
qed

definition demo_reply :: "byte list" where
  "demo_reply = ascii_bytes ''yes END no''"

lemma demo_reply_text: "utf8_decode demo_reply = Some (utext_of_string ''yes END no'')" "before_first [END] (demo_reply @ END) = demo_reply"
  unfolding before_first_code by code_simp+

theorem completion_is_reply_up_to_stop_witness:
  "\<exists>cs stats. generation (\<lambda>_. demo_reply @ END @ demo_line @ [0x0A]) (Inr ()) demo_server demo_body ''hi'' False
      = ([CompletionOut ''text_completion'' (concat cs) ''stop'' (usage_of stats)], Inr (), demo_engine)
     \<and> concat cs = utext_of_string ''yes ''"
proof -
  have "ok_with (read_options demo_server demo_body) (\<lambda>q. stop_texts q = [''END''] \<and> \<not> streamed q)" by code_simp
  then obtain opts where o: "read_options demo_server demo_body = Inr opts" "stop_texts opts = [''END'']" "\<not> streamed opts"
    by (elim ok_withE) blast
  have pre: "alive (engine_of demo_server)" "unread (engine_of demo_server) = []" "0 \<notin> set (utf8_bytes ''hi'')" by code_simp+
  have l: "0x0A \<notin> set demo_line" by code_simp
  have "ok_with (parse_status demo_line) (\<lambda>st. \<not> length_limited st)" by code_simp
  then obtain stats where st: "parse_status demo_line = Inr stats" "\<not> length_limited stats" by (elim ok_withE)
  let ?ps = "List.map utext_of_string [''END'']"
  have b: "before_first ?ps (utext_of_string ''yes END no'') = utext_of_string ''yes ''" unfolding before_first_code by code_simp
  have l1: "\<forall>p \<in> set ?ps. \<forall>q \<in> set ?ps. length p = length q" by simp
  have e: "engine_of demo_server = demo_engine" by (simp add: demo_server_def)
  have oc: "occurs ?ps (utext_of_string ''yes END no'')" by code_simp
  from completion_is_reply_up_to_stop[where respond = "\<lambda>_. demo_reply @ END @ demo_line @ [0x0A]" and chat = False,
      OF o(1) pre refl demo_reply_text(2,1) l st(1), unfolded o(2) e Let_def]
  obtain cs where c: "concat cs = before_first ?ps (utext_of_string ''yes END no'')"
    and g: "generation (\<lambda>_. demo_reply @ END @ demo_line @ [0x0A]) (Inr ()) demo_server demo_body ''hi'' False =
       (let reason = (if occurs ?ps (utext_of_string ''yes END no'') \<or> \<not> length_limited stats then ''stop'' else ''length'') in
        (if streamed opts
         then stream_outs False opts cs @ [Event (with_usage opts) (FinishEvent reason)]
           @ (if with_usage opts then [Event True (UsageEvent (usage_of stats))] else []) @ [StreamDone]
         else [CompletionOut (if False then ''chat.completion'' else ''text_completion'') (concat cs) reason (usage_of stats)],
         Inr (), demo_engine))"
    using l1 unfolding Let_def by blast
  have r: "generation (\<lambda>_. demo_reply @ END @ demo_line @ [0x0A]) (Inr ()) demo_server demo_body ''hi'' False
      = ([CompletionOut ''text_completion'' (concat cs) ''stop'' (usage_of stats)], Inr (), demo_engine)"
    unfolding g Let_def using oc o(3) by (simp only: simp_thms if_True if_False)
  show ?thesis by (rule exI[of _ cs], rule exI[of _ stats], rule conjI[OF r trans[OF c b]])
qed

text \<open>
  An engine that fails while it streams leaves the client with a second HTTP response, status line and all,
  inside the event stream, and without the end marker.
\<close>

theorem failed_stream_gets_second_response:
  assumes "prepared s q = Inr (body, p, chat)" and "read_options s body = Inr opts" and "streamed opts"
    and "generate respond p (smp opts) (slot_value opts) collect (engine_of s) (new_filter (List.map utext_of_string (stop_texts opts)), [])
      = (Inl (Raised e), en, (f, cs))"
  shows "do_POST respond (Inr ()) s q = (stream_outs chat opts cs @ [JsonOut 500 (error_object engine_error) []], en)"
  using assms by (simp add: do_POST_def post_def generation_def)

section \<open>Starting\<close>

definition serve_checks :: "int \<Rightarrow> int \<Rightarrow> int \<Rightarrow> pyfloat \<Rightarrow> int \<Rightarrow> unit res" where
  "serve_checks tokens port n timeout slots =
     (if tokens < 1 then Inl (ValueError ''max_tokens must be positive'')
      else if port < 1 \<or> 65535 < port then Inl (ValueError ''port must be between 1 and 65535'')
      else if n < 0 then Inl (ValueError ''max_queue cannot be negative'')
      else if fle timeout (Fin 0) then Inl (ValueError ''queue_timeout must be positive'')
      else if slots < 1 \<or> 16 < slots then Inl (ValueError ''kv_slots must be between 1 and 16'')
      else Inr ())"

text \<open>The family is detected before the engine is started; with valid arguments the scheduler is always built.\<close>

definition serve :: "registry \<Rightarrow> model_files \<Rightarrow> engine \<Rightarrow> string \<Rightarrow> string option \<Rightarrow> int \<Rightarrow> int \<Rightarrow> int \<Rightarrow> pyfloat \<Rightarrow> int \<Rightarrow> int \<Rightarrow> api_server res" where
  "serve reg files en mid key tokens port n timeout slots now =
     rbind (serve_checks tokens port n timeout slots) (\<lambda>_.
     rbind (case detect reg files of Inl m \<Rightarrow> Inl (ValueError m) | Inr f \<Rightarrow> Inr f) (\<lambda>fam.
     rbind (new_gen_scheduler n timeout) (\<lambda>sch.
       Inr \<lparr>engine_of = en\<lparr>kv_slots := slots\<rparr>, model_id = mid, api_key = key, max_tokens_of = tokens,
         scheduler = sch, family = fam, registry_of = reg, created = now\<rparr>)))"

lemma serve_starts:
  "serve_checks tokens port n timeout slots = Inr () \<Longrightarrow> detect reg files = Inr f \<Longrightarrow>
     \<exists>s. serve reg files en mid key tokens port n timeout slots now = Inr s \<and> family s = f"
  by (auto simp: serve_def serve_checks_def new_gen_scheduler_def split: if_splits)

end
