(* ===== verification/Backend_Contract.thy ===== *)
theory Backend_Contract
  imports Interfaces Py_Json
begin

text \<open>
  The lifecycle part of \<open>engine/c/backend_contract.py\<close>: the states of a lease, the single-flight lease
  registry, the admission estimate and the receipt.  A lease is an object the registry and its holders
  share: the heap maps its fence, which no other lease has, to its fields.
\<close>

definition PROTOCOL :: string where
  "PROTOCOL = ''simplicio.local-inference-backend/v1''"

definition DEEP_WORKLOADS :: "string list" where
  "DEEP_WORKLOADS = [''background'', ''batch'', ''deep-offline'']"

definition STATES :: "string list" where
  "STATES = [''cold'', ''loading'', ''warming'', ''ready'', ''degraded'', ''draining'', ''stopped'', ''blocked'']"

definition TRANSITIONS :: "(string \<times> string list) list" where
  "TRANSITIONS = [
     (''cold'', [''loading'', ''blocked'', ''stopped'']),
     (''loading'', [''warming'', ''degraded'', ''draining'', ''blocked'']),
     (''warming'', [''ready'', ''degraded'', ''draining'', ''blocked'']),
     (''ready'', [''degraded'', ''draining'', ''blocked'']),
     (''degraded'', [''ready'', ''draining'', ''blocked'']),
     (''draining'', [''stopped'', ''blocked'']),
     (''stopped'', [''loading'']),
     (''blocked'', [''cold'', ''stopped''])]"

section \<open>Capabilities\<close>

definition source_status :: "bool \<Rightarrow> bool \<Rightarrow> string" where
  "source_status present host_supported =
     (if \<not> present then ''planned'' else if host_supported then ''implemented'' else ''implemented-unverified-on-host'')"

text \<open>\<open>present\<close> tells which source files of the repository exist; \<open>commit\<close> and \<open>model\<close> are the environment's commit and the resolved model path.\<close>

definition capability_probe :: "(string \<Rightarrow> bool) \<Rightarrow> string \<Rightarrow> string \<Rightarrow> string option \<Rightarrow> string option \<Rightarrow> (string \<times> pyval) list" where
  "capability_probe present host_machine host_system commit model =
     (let m = lower host_machine; s = lower host_system;
          identity = [(''backend'', PyStr ''simplicio-local-any-llm-16gb''), (''protocol'', PyStr PROTOCOL), (''engine'', PyStr ''colibri-c-vendored''),
            (''build_commit'', py_opt_str commit), (''requested_model'', py_opt_str model), (''effective_model'', PyNone)]
      in [(''protocol'', PyStr PROTOCOL), (''identity'', PyDict identity), (''state'', PyStr ''cold''), (''read_only'', PyBool True),
          (''model_payload_read'', PyBool False),
          (''capabilities'', PyDict [
            (''dense'', PyStr ''implemented''), (''moe'', PyStr ''implemented''), (''cpu'', PyStr ''implemented''),
            (''neon'', PyStr (source_status (present ''runtime/neon/neon_matmul.cpp'') (m \<in> {''arm64'', ''aarch64''}))),
            (''metal'', PyStr (source_status (present ''runtime/metal/kernels/matmul.metal'') (s = ''darwin'' \<and> m = ''arm64''))),
            (''mlx'', PyStr (source_status (present ''runtime/mlx/mlx_bridge.cpp'') (s = ''darwin'' \<and> m = ''arm64''))),
            (''streaming_sse'', PyStr ''implemented''), (''expert_streaming'', PyStr ''implemented''), (''layer_streaming'', PyStr ''experimental''),
            (''cancellation'', PyStr ''implemented''), (''deterministic_seed'', PyStr ''implemented''),
            (''tool_candidates'', PyStr ''planned-no-execution-authority''), (''tool_execution'', PyStr ''forbidden'')]),
          (''routing'', PyDict [(''default_workloads'', py_strs (DEEP_WORKLOADS)), (''interactive'', PyStr ''deny-unless-explicit-runtime-policy'')])])"

section \<open>Admission\<close>

record admission =
  decision :: string
  workload_class :: string
  reasons :: "string list"
  estimate :: pyval

definition admission_reasons :: "int \<Rightarrow> int \<Rightarrow> int \<Rightarrow> int \<Rightarrow> int \<Rightarrow> string \<Rightarrow> bool \<Rightarrow> string list" where
  "admission_reasons rss limit memory model disk workload explicit_interactive =
     (if workload = ''interactive'' \<and> \<not> explicit_interactive then [''interactive-requires-explicit-runtime-policy''] else [])
     @ (if limit < rss then [''projected-rss-exceeds-hard-limit''] else [])
     @ (if memory < rss then [''projected-rss-exceeds-available-memory''] else [])
     @ (if disk < model then [''insufficient-model-storage''] else [])"

definition admission_estimate :: "pyval \<Rightarrow> pyval \<Rightarrow> pyval \<Rightarrow> pyval \<Rightarrow> pyval \<Rightarrow> string \<Rightarrow> pyval \<Rightarrow> pyval \<Rightarrow> bool \<Rightarrow> admission res" where
  "admission_estimate model_bytes dense_bytes memory disk limit workload runtime_bytes cache_bytes explicit_interactive =
     (if list_ex (\<lambda>v. case py_int v of None \<Rightarrow> True | Some n \<Rightarrow> (\<exists>b. v = PyBool b) \<or> n < 0)
           [model_bytes, dense_bytes, memory, disk, limit, runtime_bytes, cache_bytes]
      then Inl (ValueError ''resource values must be non-negative integers'')
      else if workload \<notin> set DEEP_WORKLOADS \<and> workload \<noteq> ''interactive'' then Inl (ValueError ''invalid workload class'')
      else let rss = int_of_val dense_bytes + int_of_val runtime_bytes + int_of_val cache_bytes;
          why = admission_reasons rss (int_of_val limit) (int_of_val memory) (int_of_val model_bytes) (int_of_val disk) workload explicit_interactive
        in Inr \<lparr>decision = (if why = [] then ''admit'' else ''deny''), workload_class = workload, reasons = why,
          estimate = PyDict [(''model_bytes'', PyInt (int_of_val model_bytes)), (''projected_peak_rss_bytes'', PyInt rss),
            (''available_memory_bytes'', PyInt (int_of_val memory)), (''hard_rss_limit_bytes'', PyInt (int_of_val limit)),
            (''available_disk_bytes'', PyInt (int_of_val disk)), (''cold_start_seconds'', PyNone), (''tokens_per_second'', PyNone),
            (''unobserved_reason'', PyStr ''requires a measured model/hardware run'')]\<rparr>)"

text \<open>
  A request is admitted exactly when its projected resident size fits the limit and the memory, the model fits
  the disk, and an interactive one was allowed explicitly.
\<close>

lemma no_admission_reasons:
  "admission_reasons rss limit memory model disk w ex = [] \<longleftrightarrow> rss \<le> limit \<and> rss \<le> memory \<and> model \<le> disk \<and> (w \<noteq> ''interactive'' \<or> ex)"
  by (auto simp: admission_reasons_def)

theorem admission_exact:
  assumes "admission_estimate (PyInt m) (PyInt d) (PyInt mem) (PyInt disk) (PyInt limit) w (PyInt rt) (PyInt c) ex = Inr a"
  shows "decision a = ''admit'' \<longleftrightarrow> d + rt + c \<le> limit \<and> d + rt + c \<le> mem \<and> m \<le> disk \<and> (w \<noteq> ''interactive'' \<or> ex)"
proof -
  have "decision a = (if admission_reasons (d + rt + c) limit mem m disk w ex = [] then ''admit'' else ''deny'')"
    using assms unfolding admission_estimate_def Let_def by (auto split: if_splits)
  then show ?thesis by (simp add: no_admission_reasons)
qed

section \<open>Leases\<close>

record lease =
  lease_id :: string
  lease_model :: string
  lease_profile :: string
  fence :: int
  lease_state :: string
  idempotency_keys :: "string list"

text \<open>The set of idempotency keys is a list without order; the registry only ever creates it empty.\<close>

definition transition :: "string \<Rightarrow> lease \<Rightarrow> lease res" where
  "transition to l =
     (if to \<notin> set STATES then Inl (ValueError ''invalid lifecycle state'')
      else case dget TRANSITIONS (lease_state l) of
          None \<Rightarrow> Inl (KeyError (lease_state l))
        | Some next_states \<Rightarrow>
            if to \<notin> set next_states then Inl (ValueError (''invalid lifecycle transition: '' @ lease_state l @ ''->'' @ to))
            else Inr (l\<lparr>lease_state := to\<rparr>))"

record lease_registry =
  leases :: "((string \<times> string) \<times> int) list"
  heap :: "(int \<times> lease) list"
  last_fence :: int

definition new_lease_registry :: lease_registry where
  "new_lease_registry = \<lparr>leases = [], heap = [], last_fence = 0\<rparr>"

definition required_text :: "pyval \<Rightarrow> string option" where
  "required_text v = (case v of PyStr s \<Rightarrow> if strip s = [] then None else Some s | _ \<Rightarrow> None)"

definition current_lease :: "string \<times> string \<Rightarrow> lease_registry \<Rightarrow> lease option" where
  "current_lease key r = (case dget (leases r) key of None \<Rightarrow> None | Some f \<Rightarrow> dget (heap r) f)"

definition issue :: "string \<Rightarrow> string \<Rightarrow> string \<Rightarrow> lease_registry \<Rightarrow> lease_registry" where
  "issue lid m p r = (let f = last_fence r + 1 in
     r\<lparr>leases := dput (m, p) f (leases r),
       heap := dput f \<lparr>lease_id = lid, lease_model = m, lease_profile = p, fence = f, lease_state = ''cold'', idempotency_keys = []\<rparr> (heap r),
       last_fence := f\<rparr>)"

text \<open>Returns the fence of the lease object.\<close>

definition acquire :: "pyval \<Rightarrow> pyval \<Rightarrow> pyval \<Rightarrow> lease_registry \<Rightarrow> int res \<times> lease_registry" where
  "acquire lid model profile r =
     (case (required_text lid, required_text model, required_text profile) of
       (Some i, Some m, Some p) \<Rightarrow>
         (case current_lease (m, p) r of
           Some l \<Rightarrow>
             if lease_state l \<notin> {''stopped'', ''blocked''}
             then (if lease_id l = i then (Inr (fence l), r) else (Inl (RuntimeError ''model-profile-already-leased''), r))
             else (Inr (last_fence r + 1), issue i m p r)
         | None \<Rightarrow> (Inr (last_fence r + 1), issue i m p r))
     | _ \<Rightarrow> (Inl (ValueError ''lease_id, model and profile are required''), r))"

definition lease_transition :: "int \<Rightarrow> string \<Rightarrow> lease_registry \<Rightarrow> unit res \<times> lease_registry" where
  "lease_transition f to r = (case dget (heap r) f of
      None \<Rightarrow> (Inl (KeyError ''lease''), r)
    | Some l \<Rightarrow> (case transition to l of Inl e \<Rightarrow> (Inl e, r) | Inr l' \<Rightarrow> (Inr (), r\<lparr>heap := dput f l' (heap r)\<rparr>)))"

definition release :: "int \<Rightarrow> lease_registry \<Rightarrow> lease_registry" where
  "release f r = (case dget (heap r) f of
      None \<Rightarrow> r | Some l \<Rightarrow> r\<lparr>heap := dput f (l\<lparr>lease_state := ''stopped''\<rparr>) (heap r)\<rparr>)"

section \<open>Receipts\<close>

definition allowed_metrics :: "string list" where
  "allowed_metrics = [''cache_hit_ratio'', ''peak_rss_bytes'', ''read_bytes'', ''swap_bytes'', ''tokens_per_second'', ''ttft_ms'']"

definition build_receipt :: "lease \<Rightarrow> string \<Rightarrow> pyval \<Rightarrow> pyval \<Rightarrow> string \<Rightarrow> byte list \<Rightarrow> (string \<times> pyval) list \<Rightarrow> pyval \<Rightarrow> pyval \<Rightarrow> int \<Rightarrow> pyval res" where
  "build_receipt l request_id requested effective status output metrics failure key now =
     (if status \<notin> {''completed'', ''cancelled'', ''timeout'', ''failed''} then Inl (ValueError ''invalid receipt status'')
      else if request_id = [] then Inl (ValueError ''request_id is required'')
      else if key \<noteq> PyNone \<and> required_text key = None then Inl (ValueError ''idempotency_key must be a non-empty string'')
      else Inr (PyDict [(''protocol'', PyStr PROTOCOL), (''request_id'', PyStr request_id), (''idempotency_key'', key),
        (''lease'', PyDict [(''id'', PyStr (lease_id l)), (''fence'', PyInt (fence l))]),
        (''requested_model'', requested), (''effective_model'', effective), (''status'', PyStr status), (''failure_reason'', failure),
        (''output_sha256'', PyStr (sha256_hex output)),
        (''metrics'', PyDict (List.map (\<lambda>n. (n, jget metrics n)) allowed_metrics)),
        (''created_unix_ms'', PyInt now), (''effect_authority'', PyStr ''none'')]))"

section \<open>The lifecycle\<close>

definition moves :: "string list \<Rightarrow> lease \<Rightarrow> lease res" where
  "moves ts l = fold_res (\<lambda>l t. transition t l) l ts"

lemma moves_snoc: "moves (ts @ [t]) l = rbind (moves ts l) (transition t)"
proof -
  have "rbind r Inr = r" for r :: "lease res" by (cases r) simp_all
  then show ?thesis by (simp add: moves_def fold_res_append)
qed

lemma transition_cases:
  assumes "transition to l = Inr l'"
  shows "lease_state l' = to \<and> to \<in> set (dget_or TRANSITIONS (lease_state l) [])"
  using assms by (auto simp: transition_def dget_or_def split: if_splits option.splits)

text \<open>How far a lease has come, by what it went through.\<close>

definition life_inv :: "string list \<Rightarrow> string \<Rightarrow> bool" where
  "life_inv ts st \<longleftrightarrow> st \<in> set STATES
     \<and> (''loading'' \<notin> set ts \<longrightarrow> st \<in> {''cold'', ''blocked'', ''stopped''})
     \<and> (''warming'' \<notin> set ts \<and> ''degraded'' \<notin> set ts \<longrightarrow> st \<noteq> ''ready'')"

definition table_rows :: "('a \<times> 'b list) list \<Rightarrow> ('a \<times> 'b) list" where
  "table_rows T = concat (List.map (\<lambda>(a, ts). List.map (\<lambda>t. (a, t)) ts) T)"

lemma step_in_table: "t \<in> set (dget_or T a []) \<Longrightarrow> (a, t) \<in> set (table_rows T)"
proof -
  assume t: "t \<in> set (dget_or T a [])"
  then obtain ts where ts: "map_of T a = Some ts" and "t \<in> set ts" by (cases "map_of T a") (auto simp: dget_or_def)
  from ts have "(a, ts) \<in> set T" by (rule map_of_SomeD)
  with \<open>t \<in> set ts\<close> show ?thesis by (auto simp: table_rows_def intro!: bexI[of _ "(a, ts)"])
qed

text \<open>Each row of the table keeps the invariant.\<close>

lemma table_ok:
  "list_all (\<lambda>(a, t). t \<in> set STATES \<and> (t \<noteq> ''loading'' \<and> a \<in> {''cold'', ''blocked'', ''stopped''} \<longrightarrow> t \<in> {''cold'', ''blocked'', ''stopped''})
      \<and> (t = ''ready'' \<longrightarrow> a = ''warming'' \<or> a = ''degraded'')) (table_rows TRANSITIONS)"
  by (simp add: table_rows_def TRANSITIONS_def STATES_def)

text \<open>The state a lease is in is one it started in or moved to.\<close>

lemma moves_state: "moves ts l = Inr l' \<Longrightarrow> lease_state l' \<in> insert (lease_state l) (set ts)"
proof (induction ts arbitrary: l' rule: rev_induct)
  case (snoc t ts)
  then show ?case by (auto simp: moves_snoc dest: transition_cases)
qed (simp add: moves_def)

lemma moves_life:
  assumes "lease_state l = ''cold''" and "moves ts l = Inr l'"
  shows "life_inv ts (lease_state l')"
  using assms(2)
proof (induction ts arbitrary: l' rule: rev_induct)
  case Nil
  then show ?case using assms(1) by (simp add: moves_def life_inv_def STATES_def)
next
  case (snoc t ts)
  then obtain l1 where l1: "moves ts l = Inr l1" and t: "transition t l1 = Inr l'" by (auto simp: moves_snoc)
  let ?a = "lease_state l1"
  from transition_cases[OF t] have st: "lease_state l' = t" and row: "(?a, t) \<in> set (table_rows TRANSITIONS)" by (auto intro: step_in_table)
  from bspec[OF table_ok[unfolded list_all_iff] row]
  have row': "t \<in> set STATES
      \<and> (t \<noteq> ''loading'' \<and> ?a \<in> {''cold'', ''blocked'', ''stopped''} \<longrightarrow> t \<in> {''cold'', ''blocked'', ''stopped''})
      \<and> (t = ''ready'' \<longrightarrow> ?a = ''warming'' \<or> ?a = ''degraded'')" unfolding prod.case .
  have at: "?a \<in> insert ''cold'' (set ts)" using moves_state[OF l1] assms(1) by simp
  show ?case
    unfolding life_inv_def st
  proof (intro conjI impI)
    show "t \<in> set STATES" using row' by blast
    assume "''loading'' \<notin> set (ts @ [t])"
    then show "t \<in> {''cold'', ''blocked'', ''stopped''}" using snoc.IH[OF l1] row' unfolding life_inv_def by auto
  next
    assume no: "''warming'' \<notin> set (ts @ [t]) \<and> ''degraded'' \<notin> set (ts @ [t])"
    show "t \<noteq> ''ready''"
    proof
      assume "t = ''ready''"
      with row' have "?a = ''warming'' \<or> ?a = ''degraded''" by blast
      then have "?a \<noteq> ''cold''" by auto
      with at \<open>?a = ''warming'' \<or> ?a = ''degraded''\<close> no show False by auto
    qed
  qed
qed

text \<open>
  A lease moved only by \<open>transition\<close> is always in one of the eight states, and is ready only after it
  was loading and was warming or degraded; nothing else leads there.
\<close>

theorem ready_only_after_loading:
  assumes "lease_state l = ''cold''" and "moves ts l = Inr l'"
  shows "lease_state l' \<in> set STATES
    \<and> (lease_state l' = ''ready'' \<longrightarrow> ''loading'' \<in> set ts \<and> (''warming'' \<in> set ts \<or> ''degraded'' \<in> set ts))"
  using moves_life[OF assms] unfolding life_inv_def by auto

definition demo_lease :: lease where
  "demo_lease = \<lparr>lease_id = ''a'', lease_model = ''m'', lease_profile = ''p'', fence = 1, lease_state = ''cold'', idempotency_keys = []\<rparr>"

theorem ready_only_after_loading_witness:
  "\<exists>l'. moves [''loading'', ''warming'', ''ready''] demo_lease = Inr l' \<and> lease_state l' = ''ready'' \<and> lease_state l' \<in> set STATES"
proof -
  have "ok_with (moves [''loading'', ''warming'', ''ready''] demo_lease) (\<lambda>l. lease_state l = ''ready'')" by code_simp
  then obtain l' where l': "moves [''loading'', ''warming'', ''ready''] demo_lease = Inr l'" "lease_state l' = ''ready''" by (elim ok_withE)
  have "lease_state demo_lease = ''cold''" by (simp add: demo_lease_def)
  from ready_only_after_loading[OF this l'(1)] l' show ?thesis by blast
qed

section \<open>The registry\<close>

datatype lease_op =
    Acquire pyval pyval pyval
  | Move int string
  | Release int

fun registry_step :: "lease_op \<Rightarrow> lease_registry \<Rightarrow> lease_registry" where
  "registry_step (Acquire i m p) r = snd (acquire i m p r)"
| "registry_step (Move f to) r = snd (lease_transition f to r)"
| "registry_step (Release f) r = release f r"

definition lease_key :: "lease \<Rightarrow> string \<times> string" where
  "lease_key l = (lease_model l, lease_profile l)"

text \<open>
  Every lease object carries the fence it is stored under, fences run up to the last one issued, the
  registered lease of a key is a lease of that key, and no lease of a key is newer than it.
\<close>

definition registry_inv :: "lease_registry \<Rightarrow> bool" where
  "registry_inv r \<longleftrightarrow>
     (\<forall>f l. dget (heap r) f = Some l \<longrightarrow> fence l = f \<and> 0 < f \<and> f \<le> last_fence r
        \<and> (\<exists>g. dget (leases r) (lease_key l) = Some g \<and> f \<le> g))
   \<and> (\<forall>k f. dget (leases r) k = Some f \<longrightarrow> (\<exists>l. dget (heap r) f = Some l \<and> lease_key l = k))
   \<and> 0 \<le> last_fence r"

lemma registry_invD:
  assumes "registry_inv r" and "dget (heap r) f = Some l"
  shows "fence l = f" "0 < f" "f \<le> last_fence r" "\<exists>g. dget (leases r) (lease_key l) = Some g \<and> f \<le> g"
  using assms unfolding registry_inv_def by blast+

lemma registry_inv_current:
  assumes "registry_inv r" and "dget (leases r) k = Some f"
  shows "\<exists>l. dget (heap r) f = Some l \<and> lease_key l = k"
  using assms unfolding registry_inv_def by blast

lemma issue_inv:
  assumes "registry_inv r"
  shows "registry_inv (issue i m p r)"
proof -
  let ?n = "last_fence r + 1"
  have new: "dget (heap r) ?n = None" using registry_invD(3)[OF assms, of ?n] by (cases "dget (heap r) ?n") auto
  have old: "f \<noteq> ?n" if "dget (leases r) k = Some f" for k f using registry_inv_current[OF assms that] new by auto
  show ?thesis
    unfolding registry_inv_def
  proof (intro conjI allI impI)
    fix k f assume k: "dget (leases (issue i m p r)) k = Some f"
    then show "\<exists>l. dget (heap (issue i m p r)) f = Some l \<and> lease_key l = k"
      using registry_inv_current[OF assms] old[of k f]
      by (auto simp: issue_def Let_def map_of_dput lease_key_def split: if_splits)
  qed (use assms new in \<open>auto simp: issue_def Let_def map_of_dput lease_key_def registry_inv_def split: if_splits; force\<close>)+
qed

text \<open>Changing the state of a lease in place touches neither its fence nor its key.\<close>

lemma restate_inv:
  assumes "registry_inv r" and "dget (heap r) f = Some l" and "fence l' = fence l" and "lease_key l' = lease_key l"
  shows "registry_inv (r\<lparr>heap := dput f l' (heap r)\<rparr>)"
proof -
  have same: "lease_key l = k" if "dget (leases r) k = Some f" for k
    using registry_inv_current[OF assms(1) that] assms(2) by auto
  show ?thesis
    using assms same unfolding registry_inv_def by (auto simp: map_of_dput split: if_splits)
qed

lemma required_text_Some: "required_text v = Some t \<Longrightarrow> v = PyStr t"
  by (cases v) (auto simp: required_text_def split: if_splits)

lemma acquire_cases:
  assumes "acquire i m p r = (x, r')"
  obtains (refused) e where "x = Inl e" "r' = r"
  | (held) i' m' p' l where "i = PyStr i'" "m = PyStr m'" "p = PyStr p'" "current_lease (m', p') r = Some l"
      "lease_state l \<notin> {''stopped'', ''blocked''}" "lease_id l = i'" "x = Inr (fence l)" "r' = r"
  | (fresh) i' m' p' where "i = PyStr i'" "m = PyStr m'" "p = PyStr p'"
      "\<forall>l. current_lease (m', p') r = Some l \<longrightarrow> lease_state l \<in> {''stopped'', ''blocked''}"
      "x = Inr (last_fence r + 1)" "r' = issue i' m' p' r"
proof (cases "\<exists>i' m' p'. required_text i = Some i' \<and> required_text m = Some m' \<and> required_text p = Some p'")
  case True
  then obtain i' m' p' where t: "required_text i = Some i'" "required_text m = Some m'" "required_text p = Some p'" by blast
  note v = t[THEN required_text_Some]
  from assms have a: "(case current_lease (m', p') r of
      Some l \<Rightarrow> if lease_state l \<notin> {''stopped'', ''blocked''}
        then (if lease_id l = i' then (Inr (fence l), r) else (Inl (RuntimeError ''model-profile-already-leased''), r))
        else (Inr (last_fence r + 1), issue i' m' p' r)
    | None \<Rightarrow> (Inr (last_fence r + 1), issue i' m' p' r)) = (x, r')" by (simp add: acquire_def t)
  show thesis
  proof (cases "current_lease (m', p') r")
    case None
    with a v show thesis by (intro fresh[OF v]) auto
  next
    case (Some l)
    with a v show thesis by (cases "lease_state l \<in> {''stopped'', ''blocked''}"; cases "lease_id l = i'") (auto intro: refused held fresh)
  qed
next
  case False
  then have "x = Inl (ValueError ''lease_id, model and profile are required'') \<and> r' = r"
    using assms by (auto simp: acquire_def split: option.splits)
  then show thesis using refused by blast
qed

lemma registry_step_inv: "registry_inv r \<Longrightarrow> registry_inv (registry_step a r)"
proof (induction a r rule: registry_step.induct)
  case (1 i m p r)
  obtain x r' where a: "acquire i m p r = (x, r')" by (rule prod.exhaust)
  show ?case using a by (cases rule: acquire_cases) (use 1 a issue_inv in auto)
next
  case (2 f to r)
  then show ?case
    by (auto simp: lease_transition_def transition_def lease_key_def intro!: restate_inv split: option.splits sum.splits if_splits)
next
  case (3 f r)
  then show ?case by (auto simp: release_def lease_key_def intro!: restate_inv split: option.splits)
qed

interpretation lease_machine: machine "\<lambda>r. r = new_lease_registry" registry_step registry_inv
  by unfold_locales (auto simp: registry_step_inv, simp add: registry_inv_def new_lease_registry_def)

text \<open>
  C14: on every reachable registry, \<open>acquire\<close> either gives back the caller's own live lease, or
  issues a fence above every fence issued before, and then only when the registered lease of that model and
  profile is stopped or blocked; a lease of another holder that is live refuses the caller.
\<close>

theorem acquire_single_flight:
  fixes ops :: "lease_op list"
  defines "r \<equiv> fold registry_step ops new_lease_registry"
  assumes "acquire (PyStr i) (PyStr m) (PyStr p) r = (Inr f, r')"
  shows "(\<exists>l. current_lease (m, p) r = Some l \<and> lease_id l = i \<and> fence l = f \<and> lease_state l \<notin> {''stopped'', ''blocked''} \<and> r' = r)
    \<or> ((\<forall>l. current_lease (m, p) r = Some l \<longrightarrow> lease_state l \<in> {''stopped'', ''blocked''})
       \<and> (\<forall>g l. dget (heap r) g = Some l \<longrightarrow> g < f)
       \<and> (\<exists>l. current_lease (m, p) r' = Some l \<and> fence l = f \<and> lease_id l = i \<and> lease_state l = ''cold''))"
proof -
  have inv: "registry_inv r" unfolding r_def by (rule lease_machine.reach_inv) (rule refl)
  have issued: "current_lease (m, p) (issue i m p r) = Some \<lparr>lease_id = i, lease_model = m, lease_profile = p,
      fence = last_fence r + 1, lease_state = ''cold'', idempotency_keys = []\<rparr>"
    by (simp add: current_lease_def issue_def Let_def map_of_dput)
  from assms(2) show ?thesis
  proof (cases rule: acquire_cases)
    case held then show ?thesis by auto
  next
    case fresh
    then show ?thesis using issued registry_invD(3)[OF inv] by (fastforce intro: order.strict_trans1)
  qed simp_all
qed

theorem acquire_single_flight_witness:
  "\<exists>r'. acquire (PyStr ''a'') (PyStr ''m'') (PyStr ''p'') new_lease_registry = (Inr 1, r')
     \<and> (\<exists>l. current_lease (''m'', ''p'') r' = Some l \<and> fence l = 1)"
proof -
  have "acquire (PyStr ''a'') (PyStr ''m'') (PyStr ''p'') (fold registry_step [] new_lease_registry)
      = (Inr 1, issue ''a'' ''m'' ''p'' new_lease_registry)"
    by (simp add: acquire_def required_text_def current_lease_def new_lease_registry_def strip_def is_space_def)
  from acquire_single_flight[OF this] this show ?thesis by (auto simp: current_lease_def new_lease_registry_def)
qed

text \<open>
  A blocked lease may go back to \<open>cold\<close>, and nothing checks that the registry still holds it: after another
  holder acquired the pair, both leases of one model and profile can be \<open>ready\<close>.
\<close>

definition to_ready :: "int \<Rightarrow> lease_op list" where
  "to_ready f = [Move f ''loading'', Move f ''warming'', Move f ''ready'']"

theorem two_live_leases:
  "list_all (\<lambda>f. case dget (heap (fold registry_step
       ([Acquire (PyStr ''a'') (PyStr ''m'') (PyStr ''p''), Move 1 ''blocked'', Acquire (PyStr ''b'') (PyStr ''m'') (PyStr ''p'')]
        @ Move 1 ''cold'' # to_ready 1 @ to_ready 2) new_lease_registry)) f of
       None \<Rightarrow> False | Some l \<Rightarrow> lease_key l = (''m'', ''p'') \<and> lease_state l = ''ready'') [1, 2]"
  by code_simp

end
