(* ===== verification/Fs_Paths.thy ===== *)
theory Fs_Paths
  imports Py_Json "HOL-Library.Sublist"
begin

text \<open>
  POSIX paths of \<open>pathlib\<close> and a small file system.  An absolute path is the list of its components;
  a path built with \<open>/\<close> keeps its \<open>..\<close> components until it is resolved.  There are no symbolic links, so
  resolving is lexical.  A file holds bytes, or a JSON document kept as the value it parses to.
\<close>

section \<open>Paths\<close>

type_synonym path = "string list"

fun split_at :: "char \<Rightarrow> string \<Rightarrow> string list" where
  "split_at c [] = [[]]"
| "split_at c (x # xs) = (if x = c then [] # split_at c xs else (x # hd (split_at c xs)) # tl (split_at c xs))"

definition components :: "string \<Rightarrow> path" where
  "components s = filter (\<lambda>c. c \<noteq> [] \<and> c \<noteq> ''.'') (split_at (CHR ''/'') s)"

text \<open>\<open>base / s\<close>: an absolute \<open>s\<close> replaces the base.\<close>

definition join_path :: "path \<Rightarrow> string \<Rightarrow> path" where
  "join_path base s = (if starts_with ''/'' s then components s else base @ components s)"

definition path_text :: "path \<Rightarrow> string" where
  "path_text p = (if p = [] then ''/'' else concat (List.map (\<lambda>c. CHR ''/'' # c) p))"

text \<open>The directory above, and \<open>resolve()\<close>.\<close>

definition step_path :: "path \<Rightarrow> string \<Rightarrow> path" where
  "step_path p c = (if c = ''..'' then butlast p else p @ [c])"

definition resolve :: "path \<Rightarrow> path" where
  "resolve p = foldl step_path [] p"

definition plain :: "string \<Rightarrow> bool" where
  "plain c \<longleftrightarrow> c \<noteq> [] \<and> c \<noteq> ''.'' \<and> c \<noteq> ''..'' \<and> CHR ''/'' \<notin> set c"

lemma resolve_snoc: "resolve (p @ [c]) = step_path (resolve p) c"
  by (simp add: resolve_def)

lemma resolve_append_clean: "''..'' \<notin> set q \<Longrightarrow> resolve (p @ q) = resolve p @ q"
proof (induction q rule: rev_induct)
  case (snoc c q)
  then show ?case by (auto simp: append_assoc[symmetric] resolve_snoc step_path_def simp del: append_assoc)
qed simp

lemma resolve_clean: "''..'' \<notin> set p \<Longrightarrow> resolve p = p"
  using resolve_append_clean[of p "[]"] by (simp add: resolve_def)

lemma split_at_nonempty [simp]: "split_at c s \<noteq> []"
  by (induction s) auto

lemma split_at_clean: "c \<notin> set s \<Longrightarrow> split_at c s = [s]"
  by (induction s) auto

lemma split_at_append: "c \<notin> set s \<Longrightarrow> split_at c (s @ c # t) = s # split_at c t"
  by (induction s) auto

lemma split_at_parts: "x \<in> set (split_at c s) \<Longrightarrow> c \<notin> set x"
proof (induction s arbitrary: x)
  case (Cons y ys)
  have "hd (split_at c ys) \<in> set (split_at c ys)" "set (tl (split_at c ys)) \<subseteq> set (split_at c ys)"
    using split_at_nonempty[of c ys] by (auto intro: list.set_sel)
  with Cons show ?case by (auto split: if_splits)
qed simp

lemma components_no_slash: "x \<in> set (components s) \<Longrightarrow> x \<noteq> [] \<and> x \<noteq> ''.'' \<and> CHR ''/'' \<notin> set x"
  using split_at_parts by (auto simp: components_def)

lemma components_plain: "plain c \<Longrightarrow> components c = [c]"
  by (simp add: components_def plain_def split_at_clean)

lemma join_plain: "plain c \<Longrightarrow> join_path p c = p @ [c]"
  by (cases c) (auto simp: join_path_def components_plain plain_def starts_with_def)

text \<open>The text of a path names the path.\<close>

definition nameable :: "path \<Rightarrow> bool" where
  "nameable p \<longleftrightarrow> (\<forall>c \<in> set p. c \<noteq> [] \<and> c \<noteq> ''.'' \<and> CHR ''/'' \<notin> set c)"

lemma nameable_join: "nameable p \<Longrightarrow> nameable (join_path p s)"
  using components_no_slash by (auto simp: nameable_def join_path_def)

lemma components_slashed: "nameable p \<Longrightarrow> components (CHR ''/'' # x) = components x"
  by (simp add: components_def)

lemma components_concat:
  "nameable p \<Longrightarrow> components (concat (List.map (\<lambda>c. CHR ''/'' # c) p)) = p"
proof (induction p)
  case (Cons c p)
  then have c: "c \<noteq> []" "c \<noteq> ''.''" "CHR ''/'' \<notin> set c" and p: "nameable p" by (auto simp: nameable_def)
  show ?case
  proof (cases p)
    case Nil
    then show ?thesis using c by (simp add: components_def split_at_clean)
  next
    case (Cons d ds)
    then have tail: "concat (List.map (\<lambda>c. CHR ''/'' # c) p) = CHR ''/'' # (d @ concat (List.map (\<lambda>c. CHR ''/'' # c) ds))" by simp
    have "components (c @ CHR ''/'' # u) = c # components u" for u using c by (simp add: components_def split_at_append)
    with Cons.IH[OF p] tail show ?thesis by (simp add: components_def)
  qed
qed (simp add: components_def)

lemma path_of_text: "nameable p \<Longrightarrow> join_path base (path_text p) = p"
proof (cases "p = []")
  case False
  assume n: "nameable p"
  from False obtain c ds where "p = c # ds" by (cases p) auto
  then have "starts_with ''/'' (path_text p)" by (simp add: path_text_def starts_with_def)
  then show ?thesis using False components_concat[OF n] by (simp add: join_path_def path_text_def)
qed (simp add: path_text_def join_path_def starts_with_def components_def)

section \<open>Files\<close>

datatype content = Blob "byte list" | Doc pyval

record file_tree =
  files :: "(path \<times> content) list"
  dirs :: "path list"

definition file_at :: "file_tree \<Rightarrow> path \<Rightarrow> content option" where
  "file_at fs p = dget (files fs) (resolve p)"

text \<open>\<open>mkdir(parents=True, exist_ok=True)\<close>: every prefix of the path becomes a directory, up to a file in the way.\<close>

fun make_each :: "path list \<Rightarrow> file_tree \<Rightarrow> unit res \<times> file_tree" where
  "make_each [] fs = (Inr (), fs)"
| "make_each (p # ps) fs =
     (if dget (files fs) p \<noteq> None then (Inl (OSError ''File exists''), fs)
      else make_each ps (fs\<lparr>dirs := (if p \<in> set (dirs fs) then dirs fs else dirs fs @ [p])\<rparr>))"

definition make_dirs :: "path \<Rightarrow> file_tree \<Rightarrow> unit res \<times> file_tree" where
  "make_dirs p = make_each (List.map resolve (prefixes p))"

text \<open>\<open>os.replace\<close> of a finished temporary file onto a path; the directory above exists.\<close>

definition place :: "path \<Rightarrow> content \<Rightarrow> file_tree \<Rightarrow> unit res \<times> file_tree" where
  "place p c fs = (if resolve p \<in> set (dirs fs) then (Inl (OSError ''Is a directory''), fs)
     else (Inr (), fs\<lparr>files := dput (resolve p) c (files fs)\<rparr>))"

definition unlink :: "path \<Rightarrow> file_tree \<Rightarrow> file_tree" where
  "unlink p fs = fs\<lparr>files := dpop (resolve p) (files fs)\<rparr>"

text \<open>\<open>rmdir\<close>: \<open>None\<close> when the directory does not exist or is not empty.\<close>

definition remove_dir :: "path \<Rightarrow> file_tree \<Rightarrow> file_tree option" where
  "remove_dir p fs = (let d = resolve p in
     if d \<in> set (dirs fs) \<and> \<not> list_ex (\<lambda>q. q \<noteq> [] \<and> butlast q = d) (dkeys (files fs) @ dirs fs)
     then Some (fs\<lparr>dirs := removeAll d (dirs fs)\<rparr>) else None)"

text \<open>The loop that removes the emptied directories below \<open>base\<close>.\<close>

function prune :: "path \<Rightarrow> path \<Rightarrow> file_tree \<Rightarrow> file_tree" where
  "prune base d fs = (if strict_prefix base d
     then (case remove_dir d fs of None \<Rightarrow> fs | Some fs' \<Rightarrow> prune base (butlast d) fs') else fs)"
  by auto
termination
proof (relation "measure (\<lambda>(base, d, fs). length d)")
  fix base d :: path and fs fs' :: file_tree
  assume "strict_prefix base d"
  then have "d \<noteq> []" by auto
  then show "((base, butlast d, fs'), base, d, fs) \<in> measure (\<lambda>(base, d, fs). length d)" by simp
qed simp

declare prune.simps [simp del]

lemma prune_files: "files (prune base d fs) = files fs"
proof (induction base d fs rule: prune.induct)
  case (1 base d fs)
  show ?case
  proof (cases "strict_prefix base d")
    case True
    then show ?thesis
      using "1.IH"[OF True] by (subst prune.simps) (auto simp: remove_dir_def Let_def split: option.split if_splits)
  qed (simp add: prune.simps)
qed

lemma make_each_files: "make_each ps fs = (r, fs') \<Longrightarrow> files fs' = files fs"
  by (induction ps arbitrary: fs) (auto split: if_splits)

lemma make_dirs_files: "make_dirs p fs = (r, fs') \<Longrightarrow> files fs' = files fs"
  unfolding make_dirs_def by (rule make_each_files)

lemma place_files: "place p c fs = (Inr (), fs') \<Longrightarrow> files fs' = dput (resolve p) c (files fs)"
  by (auto simp: place_def split: if_splits)

text \<open>One effect after another; a failure keeps the effects before it.\<close>

definition and_then :: "'a res \<times> 's \<Rightarrow> ('a \<Rightarrow> 's \<Rightarrow> 'b res \<times> 's) \<Rightarrow> 'b res \<times> 's" where
  "and_then r f = (case r of (Inl e, s) \<Rightarrow> (Inl e, s) | (Inr x, s) \<Rightarrow> f x s)"

lemma and_then_Inr: "and_then r f = (Inr y, s') \<longleftrightarrow> (\<exists>x s. r = (Inr x, s) \<and> f x s = (Inr y, s'))"
  by (auto simp: and_then_def split: prod.splits sum.splits)

end
