(* ===== verification/Litert.thy ===== *)
theory Litert
  imports Fs_Paths Interfaces
begin

text \<open>
  The LiteRT package and model cache of \<open>engine/c/backend_contract.py\<close>: manifests, install plans, the
  archive check, installation, offline verification and rollback, over a file tree.  What lies outside
  is a parameter, the host: local sources and downloads, archive listings, the runtime probe, the text
  of a JSON document and the clock.  A staging directory is gone when its operation ends, so it is not
  part of the tree.
\<close>

datatype probe_result = ProbeTimeout | LaunchFailed string | Exited int string

record litert_host =
  cwd :: path
  expand_user :: "string \<Rightarrow> string"
  local_source :: "string \<Rightarrow> byte list option"
  remote_source :: "string \<Rightarrow> byte list res"
  zip_members :: "byte list \<Rightarrow> (string \<times> bool) list res"
  tar_members :: "byte list \<Rightarrow> (string \<times> bool \<times> bool) list res"
  run_probe :: "byte list \<Rightarrow> probe_result"
  doc_bytes :: "pyval \<Rightarrow> byte list"
  blob_value :: "byte list \<Rightarrow> string + pyval"
  clock :: int

definition bytes_of :: "litert_host \<Rightarrow> content \<Rightarrow> byte list" where
  "bytes_of h c = (case c of Blob b \<Rightarrow> b | Doc v \<Rightarrow> doc_bytes h v)"

definition value_of :: "litert_host \<Rightarrow> content \<Rightarrow> string + pyval" where
  "value_of h c = (case c of Blob b \<Rightarrow> blob_value h b | Doc v \<Rightarrow> Inr v)"

section \<open>Manifests\<close>

definition LITERT_MANIFEST_SCHEMA :: string where
  "LITERT_MANIFEST_SCHEMA = ''simplicio.local-litert-package/v1''"

definition LITERT_INSTALL_PLAN_SCHEMA :: string where
  "LITERT_INSTALL_PLAN_SCHEMA = ''simplicio.local-litert-install-plan/v1''"

definition LITERT_RECEIPT_SCHEMA :: string where
  "LITERT_RECEIPT_SCHEMA = ''simplicio.local-litert-install-receipt/v1''"

definition hex_digest_text :: "string \<Rightarrow> bool" where
  "hex_digest_text d \<longleftrightarrow> length d = 64 \<and> set d \<subseteq> set hex_alphabet"

definition litert_platform :: "string \<Rightarrow> string \<Rightarrow> string res" where
  "litert_platform system arch =
     (let s = lower system; m = lower arch in
      if s = ''darwin'' \<and> m \<in> {''arm64'', ''aarch64''} then Inr ''darwin-arm64''
      else if s = ''linux'' \<and> m \<in> {''x86_64'', ''amd64''} then Inr ''linux-x86_64''
      else if s = ''windows'' \<and> m \<in> {''x86_64'', ''amd64''} then Inr ''windows-x86_64''
      else Inl (ValueError (''unsupported LiteRT-LM host platform: '' @ s @ ''-'' @ m)))"

definition check_artifact :: "string \<times> pyval \<Rightarrow> unit res" where
  "check_artifact kv = (let (key, v) = kv in
     rbind (opt_res (ValueError (''LiteRT artifact '' @ key @ '' must be an object'')) (py_dict v)) (\<lambda>a.
     let name = py_str (dget_or a ''name'' (PyStr [])); digest = py_str (dget_or a ''sha256'' (PyStr [])) in
     if name = [] \<or> CHR ''/'' \<in> set name \<or> CHR 0x5C \<in> set name \<or> name = ''.'' \<or> name = ''..''
     then Inl (ValueError (''unsafe LiteRT artifact name for '' @ key))
     else if (case py_int (jget a ''size_bytes'') of None \<Rightarrow> True | Some n \<Rightarrow> n < 0)
     then Inl (ValueError (''invalid LiteRT artifact size for '' @ key))
     else if \<not> hex_digest_text (lower digest)
     then Inl (ValueError (''invalid LiteRT artifact SHA-256 for '' @ key))
     else if (case jget a ''source'' of PyStr s \<Rightarrow> strip s = [] | _ \<Rightarrow> True)
     then Inl (ValueError (''missing LiteRT artifact source for '' @ key))
     else Inr ()))"

text \<open>The validation of a manifest that has been read.\<close>

definition load_litert_manifest :: "pyval \<Rightarrow> (string \<times> pyval) list res" where
  "load_litert_manifest v =
     rbind (opt_res (AttributeError ''get'') (py_dict v)) (\<lambda>m.
     if jget m ''schema'' \<noteq> PyStr LITERT_MANIFEST_SCHEMA
     then Inl (ValueError (''unsupported LiteRT package manifest schema: '' @ py_repr (jget m ''schema'')))
     else rbind (map_res (\<lambda>k. if truthy (jget m k) then Inr () else Inl (ValueError (''LiteRT package manifest missing '' @ k)))
       [''package'', ''version'', ''license'', ''components'', ''artifacts'']) (\<lambda>_.
     rbind (opt_res (ValueError ''LiteRT package manifest components must be an object'') (py_dict (jget m ''components''))) (\<lambda>_.
     rbind (opt_res (ValueError ''LiteRT package manifest artifacts must be an object'') (py_dict (jget m ''artifacts''))) (\<lambda>arts.
     rbind (map_res check_artifact arts) (\<lambda>_. Inr m)))))"

section \<open>The install plan\<close>

text \<open>Both paths are resolved; the checkout and everything below it is refused.\<close>

definition cache_outside_checkout :: "path \<Rightarrow> path \<Rightarrow> path res" where
  "cache_outside_checkout cache_dir checkout =
     (if prefix checkout cache_dir then Inl (ValueError ''LiteRT cache must be outside the checkout'') else Inr cache_dir)"

record litert_plan =
  package :: string
  version :: string
  platform :: string
  licence :: pyval
  parts :: pyval
  art_name :: string
  art_size :: pyval
  art_sha256 :: pyval
  source :: string
  source_kind :: string
  executable :: bool
  manifest_sha256 :: string
  cache :: path
  destination :: path

definition part_of_path :: "pyval \<Rightarrow> string res" where
  "part_of_path v = opt_res (TypeError ''unsupported operand for /'') (py_string v)"

definition select_artifact :: "(string \<times> pyval) list \<Rightarrow> string \<Rightarrow> (string \<times> pyval) list res" where
  "select_artifact m key =
     rbind (opt_res (TypeError ''artifacts'') (py_dict (jget m ''artifacts''))) (\<lambda>arts.
     rbind (opt_res (ValueError (''LiteRT package has no artifact for '' @ key)) (dget arts key)) (\<lambda>v.
       opt_res (TypeError ''artifact'') (py_dict v)))"

definition plan_of :: "(string \<times> pyval) list \<Rightarrow> string \<Rightarrow> (string \<times> pyval) list \<Rightarrow> path \<Rightarrow> string \<Rightarrow> string \<Rightarrow> string \<Rightarrow> string \<Rightarrow> string \<Rightarrow> litert_plan" where
  "plan_of m key a c src kind pkg ver name =
     \<lparr>package = pkg, version = ver, platform = key, licence = jget m ''license'', parts = jget m ''components'',
       art_name = name, art_size = jget a ''size_bytes'', art_sha256 = jget a ''sha256'', source = src,
       source_kind = kind, executable = truthy (jget a ''executable''),
       manifest_sha256 = json_digest (PyDict m), cache = c,
       destination = join_path (join_path (join_path (join_path c pkg) ver) key) name\<rparr>"

text \<open>A local artifact is given by its resolved text.\<close>

definition build_litert_install_plan :: "path \<Rightarrow> pyval \<Rightarrow> path \<Rightarrow> string \<Rightarrow> string option \<Rightarrow> litert_plan res" where
  "build_litert_install_plan checkout manifest cache_dir key artifact_path =
     rbind (load_litert_manifest manifest) (\<lambda>m.
     rbind (select_artifact m key) (\<lambda>a.
     rbind (opt_res (TypeError ''source'') (if artifact_path = None then py_string (jget a ''source'') else artifact_path)) (\<lambda>src.
     rbind (cache_outside_checkout cache_dir checkout) (\<lambda>c.
     rbind (part_of_path (jget m ''package'')) (\<lambda>pkg.
     rbind (part_of_path (jget m ''version'')) (\<lambda>ver.
     rbind (part_of_path (jget a ''name'')) (\<lambda>name.
       Inr (plan_of m key a c src (if artifact_path = None then ''remote'' else ''local'') pkg ver name))))))))"

definition artifact_fields :: "litert_plan \<Rightarrow> (string \<times> pyval) list" where
  "artifact_fields p =
     [(''name'', PyStr (art_name p)), (''size_bytes'', art_size p), (''sha256'', art_sha256 p), (''source'', PyStr (source p)),
      (''source_kind'', PyStr (source_kind p)), (''executable'', PyBool (executable p)),
      (''runtime_probe'', if executable p then PyDict [(''args'', PyList [PyStr ''--help'']), (''timeout_seconds'', PyInt 10)] else PyNone)]"

section \<open>Archives\<close>

text \<open>A member is its name, whether it is a directory, whether it is a link.\<close>

definition check_member :: "string \<times> bool \<times> bool \<Rightarrow> unit res" where
  "check_member m = (let (name, is_dir, is_link) = m;
       normalized = List.map (\<lambda>c. if c = CHR 0x5C then CHR ''/'' else c) name in
     if starts_with ''/'' normalized \<or> starts_with ''../'' normalized \<or> ''..'' \<in> set (split_at (CHR ''/'') normalized)
     then Inl (ValueError (''unsafe archive member: '' @ name))
     else if is_link then Inl (ValueError (''archive links are not allowed: '' @ name))
     else if \<not> is_dir \<and> normalized = [] then Inl (ValueError ''archive member has an empty name'')
     else Inr ())"

definition ends_with :: "string \<Rightarrow> string \<Rightarrow> bool" where
  "ends_with e s = (length e \<le> length s \<and> drop (length s - length e) s = e)"

definition archive_members :: "litert_host \<Rightarrow> string \<Rightarrow> byte list \<Rightarrow> (string \<times> bool \<times> bool) list res" where
  "archive_members h name b = (let n = lower name in
     if ends_with ''.zip'' n then rbind (zip_members h b) (\<lambda>ms. Inr (List.map (\<lambda>(m, d). (m, d, False)) ms))
     else if list_ex (\<lambda>e. ends_with e n) [''.tar'', ''.tar.gz'', ''.tgz'', ''.tar.bz2'', ''.tar.xz''] then tar_members h b
     else Inr [])"

definition validate_archive_members :: "litert_host \<Rightarrow> string \<Rightarrow> byte list \<Rightarrow> (string \<times> bool \<times> bool) list res" where
  "validate_archive_members h name b =
     rbind (archive_members h name b) (\<lambda>ms. rbind (map_res check_member ms) (\<lambda>_. Inr ms))"

text \<open>
  No member of an accepted archive leaves the directory it is unpacked in, and none is a link:
  joined to any directory and resolved, its name stays below it.
\<close>


theorem accepted_archives_stay_inside:
  assumes "validate_archive_members h name b = Inr ms" and "(m, is_dir, is_link) \<in> set ms"
  shows "\<not> is_link \<and> prefix (resolve checkout) (resolve (join_path checkout (List.map (\<lambda>c. if c = CHR 0x5C then CHR ''/'' else c) m)))"
proof -
  let ?n = "List.map (\<lambda>c. if c = CHR 0x5C then CHR ''/'' else c) m"
  have "check_member (m, is_dir, is_link) = Inr ()"
    using assms by (auto simp: validate_archive_members_def map_res_Inr_iff in_set_conv_nth list_all2_conv_all_nth)
  then have ok: "\<not> starts_with ''/'' ?n" "''..'' \<notin> set (split_at (CHR ''/'') ?n)" "\<not> is_link"
    by (auto simp: check_member_def Let_def split: if_splits)
  then have "''..'' \<notin> set (components ?n)" by (simp add: components_def)
  then show ?thesis using ok by (simp add: join_path_def resolve_append_clean)
qed

definition demo_host :: "byte list \<Rightarrow> litert_host" where
  "demo_host b = \<lparr>cwd = [''work''], expand_user = id, local_source = (\<lambda>s. if s = ''/dl/m.litertlm'' \<or> s = ''/dl/tool'' then Some b else None),
     remote_source = (\<lambda>_. Inl (OSError ''offline'')), zip_members = (\<lambda>_. Inr [(''lib/a.so'', False)]), tar_members = (\<lambda>_. Inr []),
     run_probe = (\<lambda>_. Exited 0 []), doc_bytes = (\<lambda>_. []), blob_value = (\<lambda>_. Inl ''not JSON''), clock = 0\<rparr>"

theorem accepted_archives_stay_inside_witness:
  "prefix [''opt''] (resolve (join_path [''opt''] ''lib/a.so''))"
proof -
  have ok: "validate_archive_members (demo_host []) ''x.zip'' [] = Inr [(''lib/a.so'', False, False)]"
    by (simp add: validate_archive_members_def archive_members_def demo_host_def ends_with_def check_member_def Let_def
      lower_def lower_char_def starts_with_def)
  have "resolve [''opt''] = [''opt'']" by (simp add: resolve_def step_path_def)
  with accepted_archives_stay_inside[OF ok, of "''lib/a.so''" False False "[''opt'']"] show ?thesis by simp
qed

section \<open>Installation\<close>

definition scheme_char :: "char \<Rightarrow> bool" where
  "scheme_char c = (let n = of_char c :: int in (97 \<le> n \<and> n \<le> 122) \<or> (65 \<le> n \<and> n \<le> 90) \<or> (48 \<le> n \<and> n \<le> 57) \<or> c \<in> {CHR ''+'', CHR ''-'', CHR ''.''})"

text \<open>The scheme of a URL and, for \<open>file\<close>, its path.\<close>

definition url_scheme :: "string \<Rightarrow> string" where
  "url_scheme s = (let t = takeWhile (\<lambda>c. c \<noteq> CHR '':'') s in
     if length t < length s \<and> t \<noteq> [] \<and> list_all scheme_char t \<and> lower_char (hd t) \<in> set ''abcdefghijklmnopqrstuvwxyz''
     then lower t else [])"

definition file_url_path :: "string \<Rightarrow> string" where
  "file_url_path s = (let r = drop 5 s; r = (if starts_with ''//'' r then dropWhile (\<lambda>c. c \<notin> {CHR ''/'', CHR ''?'', CHR ''#''}) (drop 2 r) else r) in
     takeWhile (\<lambda>c. c \<noteq> CHR ''?'' \<and> c \<noteq> CHR ''#'') r)"

definition copy_litert_source :: "litert_host \<Rightarrow> string \<Rightarrow> byte list res" where
  "copy_litert_source h src =
     (let sch = url_scheme src; local = local_source h (expand_user h (if sch = ''file'' then file_url_path src else src)) in
      case (if sch \<in> {[], ''file''} then local else None) of
        Some b \<Rightarrow> Inr b
      | None \<Rightarrow> if sch \<notin> {''http'', ''https''} then Inl (ValueError ''LiteRT artifact source must be a local file or HTTPS URL'')
          else remote_source h src)"

definition run_litert_runtime_probe :: "litert_host \<Rightarrow> byte list \<Rightarrow> litert_plan \<Rightarrow> (string \<times> pyval) list" where
  "run_litert_runtime_probe h b p =
     (if \<not> executable p then [(''checked'', PyBool False)]
      else let probe = [(''args'', PyList [PyStr ''--help'']), (''timeout_seconds'', PyInt 10)];
          failed = (\<lambda>why more_fields. [(''checked'', PyBool True), (''passed'', PyBool False), (''failure_reason'', PyStr why)] @ more_fields @ probe)
        in case run_probe h b of
            ProbeTimeout \<Rightarrow> failed ''runtime-probe-timeout'' []
          | LaunchFailed e \<Rightarrow> failed ''runtime-probe-launch-failed'' [(''detail'', PyStr e)]
          | Exited c err \<Rightarrow> if c \<noteq> 0
              then failed ''runtime-probe-exit-nonzero'' [(''returncode'', PyInt c), (''stderr'', PyStr (drop (length err - 1024) err))]
              else [(''checked'', PyBool True), (''passed'', PyBool True)] @ probe)"

definition probe_failed :: "(string \<times> pyval) list \<Rightarrow> bool" where
  "probe_failed r \<longleftrightarrow> truthy (jget r ''checked'') \<and> \<not> truthy (jget r ''passed'')"

text \<open>The checked bytes in staging, with the report of the probe.\<close>

definition staged :: "litert_host \<Rightarrow> litert_plan \<Rightarrow> (byte list \<times> (string \<times> pyval) list) res" where
  "staged h p =
     rbind (copy_litert_source h (source p)) (\<lambda>b.
     if py_int (art_size p) \<noteq> Some (int (length b))
     then Inl (ValueError (''LiteRT artifact size mismatch: expected '' @ py_str (art_size p) @ '', observed '' @ str_of_int (int (length b))))
     else if art_sha256 p \<noteq> PyStr (sha256_hex b)
     then Inl (ValueError (''LiteRT artifact SHA-256 mismatch: expected '' @ py_str (art_sha256 p) @ '', observed '' @ sha256_hex b))
     else rbind (validate_archive_members h (art_name p) b) (\<lambda>_.
       let probe = run_litert_runtime_probe h b p in
       if probe_failed probe then Inl (ValueError (''LiteRT runtime probe failed: '' @ py_str (jget probe ''failure_reason'')))
       else Inr (b, probe)))"

definition receipt_name :: string where
  "receipt_name = ''install-receipt.json''"

definition install_receipt :: "litert_host \<Rightarrow> litert_plan \<Rightarrow> byte list \<Rightarrow> (string \<times> pyval) list \<Rightarrow> (string \<times> pyval) list" where
  "install_receipt h p b probe =
     [(''schema'', PyStr LITERT_RECEIPT_SCHEMA), (''status'', PyStr ''completed''), (''package'', PyStr (package p)),
      (''version'', PyStr (version p)), (''platform'', PyStr (platform p)), (''license'', licence p), (''components'', parts p),
      (''artifact'', PyDict (artifact_fields p @ [(''observed_size_bytes'', PyInt (int (length b))), (''observed_sha256'', PyStr (sha256_hex b))])),
      (''manifest_sha256'', PyStr (manifest_sha256 p)), (''destination'', PyStr (path_text (destination p))),
      (''cache_dir'', PyStr (path_text (cache p))), (''runtime_effect'', PyStr ''package-cache-only''),
      (''created_unix_ms'', PyInt (clock h)), (''runtime_probe'', PyDict probe)]"

text \<open>Placing a checked artifact and its receipt.\<close>

definition put_with_receipt :: "path \<Rightarrow> byte list \<Rightarrow> path \<Rightarrow> (string \<times> pyval) list \<Rightarrow> file_tree \<Rightarrow> (string \<times> pyval) list res \<times> file_tree" where
  "put_with_receipt d b rp r fs =
     and_then (make_dirs (butlast d) fs) (\<lambda>_ fs.
     and_then (place d (Blob b) fs) (\<lambda>_ fs.
     and_then (place rp (Doc (PyDict r)) fs) (\<lambda>_ fs. (Inr r, fs))))"

definition install_litert_package :: "litert_host \<Rightarrow> path \<Rightarrow> pyval \<Rightarrow> path \<Rightarrow> string \<Rightarrow> string option \<Rightarrow> bool \<Rightarrow> file_tree
      \<Rightarrow> (string \<times> pyval) list res \<times> file_tree" where
  "install_litert_package h checkout manifest cache_dir key artifact_path yes fs =
     (if \<not> yes then (Inl (ValueError ''LiteRT installation requires explicit --yes or --dry-run''), fs)
      else case build_litert_install_plan checkout manifest cache_dir key artifact_path of
        Inl e \<Rightarrow> (Inl e, fs)
      | Inr p \<Rightarrow>
          and_then (make_dirs (cache p) fs) (\<lambda>_ fs.
          and_then (staged h p, fs) (\<lambda>(b, probe) fs.
            put_with_receipt (destination p) b (butlast (destination p) @ [receipt_name]) (install_receipt h p b probe) fs)))"

section \<open>Verification and rollback\<close>

definition litert_receipt_path :: "litert_plan \<Rightarrow> path res" where
  "litert_receipt_path p =
     (if strict_prefix (cache p) (resolve (destination p)) then Inr (butlast (resolve (destination p)) @ [receipt_name])
      else Inl (ValueError ''LiteRT receipt destination is outside the managed cache''))"

definition resolved_text :: "litert_host \<Rightarrow> pyval \<Rightarrow> path" where
  "resolved_text h v = resolve (join_path (cwd h) (py_str v))"

definition offline_failure :: "string \<Rightarrow> litert_plan \<Rightarrow> string \<Rightarrow> (string \<times> pyval) list \<Rightarrow> (string \<times> pyval) list" where
  "offline_failure schema p why details =
     [(''schema'', PyStr schema), (''status'', PyStr ''failed''), (''offline'', PyBool True), (''network'', PyBool False), (''writes'', PyBool False),
      (''package'', PyStr (package p)), (''version'', PyStr (version p)), (''platform'', PyStr (platform p)),
      (''cache_dir'', PyStr (path_text (cache p))), (''destination'', PyStr (path_text (destination p))), (''failure_reason'', PyStr why)] @ details"

definition LITERT_VERIFY_SCHEMA :: string where
  "LITERT_VERIFY_SCHEMA = ''simplicio.local-litert-verify/v1''"

definition LITERT_ROLLBACK_SCHEMA :: string where
  "LITERT_ROLLBACK_SCHEMA = ''simplicio.local-litert-rollback/v1''"

text \<open>Why a receipt does not vouch for the plan.\<close>

definition receipt_refused :: "litert_host \<Rightarrow> litert_plan \<Rightarrow> (string \<times> pyval) list \<Rightarrow> string option" where
  "receipt_refused h p r =
     (if jget r ''schema'' \<noteq> PyStr LITERT_RECEIPT_SCHEMA then Some ''offline-receipt-schema-mismatch''
      else if jget r ''status'' \<noteq> PyStr ''completed'' then Some ''offline-receipt-not-completed''
      else if resolved_text h (dget_or r ''destination'' (PyStr [])) \<noteq> resolve (destination p) then Some ''offline-receipt-destination-mismatch''
      else if jget r ''manifest_sha256'' \<noteq> PyStr (manifest_sha256 p) then Some ''offline-manifest-mismatch''
      else None)"

definition verified_report :: "litert_plan \<Rightarrow> path \<Rightarrow> byte list \<Rightarrow> (string \<times> pyval) list" where
  "verified_report p rp b =
     [(''schema'', PyStr LITERT_VERIFY_SCHEMA), (''status'', PyStr ''verified''), (''offline'', PyBool True), (''network'', PyBool False),
      (''writes'', PyBool False), (''package'', PyStr (package p)), (''version'', PyStr (version p)), (''platform'', PyStr (platform p)),
      (''cache_dir'', PyStr (path_text (cache p))), (''destination'', PyStr (path_text (destination p))), (''receipt_path'', PyStr (path_text rp)),
      (''artifact'', PyDict (artifact_fields p @ [(''observed_size_bytes'', PyInt (int (length b))), (''observed_sha256'', PyStr (sha256_hex b))])),
      (''manifest_sha256'', PyStr (manifest_sha256 p)), (''runtime_effect'', PyStr ''package-cache-only'')]"

definition check_installed :: "litert_host \<Rightarrow> litert_plan \<Rightarrow> path \<Rightarrow> file_tree \<Rightarrow> (string \<times> pyval) list" where
  "check_installed h p rp fs =
     (let failed = (\<lambda>why details. offline_failure LITERT_VERIFY_SCHEMA p why ((''receipt_path'', PyStr (path_text rp)) # details)) in
      case file_at fs (destination p) of
        None \<Rightarrow> failed ''offline-cache-miss'' []
      | Some c \<Rightarrow> let b = bytes_of h c in
          if py_int (art_size p) \<noteq> Some (int (length b)) \<or> art_sha256 p \<noteq> PyStr (sha256_hex b)
          then failed ''offline-integrity-failure''
            [(''expected_size_bytes'', art_size p), (''observed_size_bytes'', PyInt (int (length b))),
             (''expected_sha256'', art_sha256 p), (''observed_sha256'', PyStr (sha256_hex b))]
          else let probe = run_litert_runtime_probe h b p in
            if probe_failed probe then failed (py_str (jget probe ''failure_reason'')) [(''runtime_probe'', PyDict probe)]
            else verified_report p rp b)"

definition verify_litert_package :: "litert_host \<Rightarrow> path \<Rightarrow> pyval \<Rightarrow> path \<Rightarrow> string \<Rightarrow> file_tree \<Rightarrow> (string \<times> pyval) list res" where
  "verify_litert_package h checkout manifest cache_dir key fs =
     rbind (build_litert_install_plan checkout manifest cache_dir key None) (\<lambda>p.
     rbind (litert_receipt_path p) (\<lambda>rp.
     let failed = (\<lambda>why details. Inr (offline_failure LITERT_VERIFY_SCHEMA p why ((''receipt_path'', PyStr (path_text rp)) # details))) in
     case file_at fs rp of
       None \<Rightarrow> failed ''offline-cache-miss'' []
     | Some c \<Rightarrow> (case value_of h c of
         Inl detail \<Rightarrow> failed ''offline-receipt-invalid'' [(''detail'', PyStr detail)]
       | Inr v \<Rightarrow> rbind (opt_res (AttributeError ''get'') (py_dict v)) (\<lambda>r.
           case receipt_refused h p r of
             Some why \<Rightarrow> failed why []
           | None \<Rightarrow> Inr (check_installed h p rp fs)))))"

text \<open>The removal shared by both rollbacks: the two files, then the directories they leave empty below \<open>base\<close>.\<close>

definition remove_managed :: "string \<Rightarrow> path \<Rightarrow> path \<Rightarrow> path \<Rightarrow> file_tree \<Rightarrow> unit res \<times> file_tree" where
  "remove_managed missing base d rp fs =
     (let fs1 = unlink d fs in
      if file_at fs1 rp = None then (Inl (ValueError (missing @ path_text rp)), fs1)
      else (Inr (), prune base (butlast d) (unlink rp fs1)))"

definition rollback_litert_package :: "litert_host \<Rightarrow> path \<Rightarrow> pyval \<Rightarrow> path \<Rightarrow> string \<Rightarrow> bool \<Rightarrow> file_tree
      \<Rightarrow> (string \<times> pyval) list res \<times> file_tree" where
  "rollback_litert_package h checkout manifest cache_dir key yes fs =
     (case (if \<not> yes then Inl (ValueError ''LiteRT rollback requires explicit --yes'')
        else rbind (build_litert_install_plan checkout manifest cache_dir key None) (\<lambda>p.
          rbind (litert_receipt_path p) (\<lambda>rp.
          rbind (opt_res (ValueError ''managed LiteRT receipt not found'') (file_at fs rp)) (\<lambda>c.
          rbind (case value_of h c of Inl e \<Rightarrow> Inl (ValueError (''managed LiteRT receipt is invalid: '' @ e)) | Inr v \<Rightarrow> opt_res (AttributeError ''get'') (py_dict v)) (\<lambda>r.
          if resolved_text h (dget_or r ''destination'' (PyStr [])) \<noteq> resolve (destination p) then Inl (ValueError ''managed LiteRT receipt destination mismatch'')
          else if file_at fs (destination p) = None then Inl (ValueError ''managed LiteRT artifact is missing or unsafe'')
          else if jget r ''manifest_sha256'' \<noteq> PyStr (manifest_sha256 p) then Inl (ValueError ''managed LiteRT receipt manifest mismatch'')
          else Inr (p, rp)))))) of
       Inl e \<Rightarrow> (Inl e, fs)
     | Inr (p, rp) \<Rightarrow>
         and_then (remove_managed ''managed LiteRT path is missing or unsafe: '' (cache p) (destination p) rp fs) (\<lambda>_ fs.
           (Inr [(''schema'', PyStr LITERT_ROLLBACK_SCHEMA), (''status'', PyStr ''rolled_back''), (''offline'', PyBool True), (''network'', PyBool False),
              (''writes'', PyBool True), (''package'', PyStr (package p)), (''version'', PyStr (version p)), (''platform'', PyStr (platform p)),
              (''cache_dir'', PyStr (path_text (cache p))), (''removed'', PyList [PyStr (path_text (destination p)), PyStr (path_text rp)]),
              (''preserved'', PyStr ''unmanaged cache files, models, and configuration''), (''runtime_effect'', PyStr ''package-cache-only'')], fs)))"

lemma lower_sha256: "lower (sha256_hex b) = sha256_hex b"
proof -
  have "list_all (\<lambda>c. lower_char c = c) hex_alphabet" by code_simp
  then have "lower s = s" if "set s \<subseteq> set hex_alphabet" for s
    using that unfolding lower_def by (induction s) (auto simp: list_all_iff)
  then show ?thesis using sha256_hex_digits by simp
qed

section \<open>What the plan fixes\<close>

lemma litert_plan_cases:
  assumes "build_litert_install_plan checkout manifest cache_dir key ap = Inr p"
  obtains m a src pkg ver name where "load_litert_manifest manifest = Inr m" "select_artifact m key = Inr a"
    "cache_outside_checkout cache_dir checkout = Inr cache_dir" "part_of_path (jget m ''package'') = Inr pkg"
    "part_of_path (jget m ''version'') = Inr ver" "part_of_path (jget a ''name'') = Inr name"
    "p = plan_of m key a cache_dir src (if ap = None then ''remote'' else ''local'') pkg ver name"
proof -
  from assms obtain m a src c0 pkg ver name where f: "load_litert_manifest manifest = Inr m" "select_artifact m key = Inr a"
      "cache_outside_checkout cache_dir checkout = Inr c0" "part_of_path (jget m ''package'') = Inr pkg"
      "part_of_path (jget m ''version'') = Inr ver" "part_of_path (jget a ''name'') = Inr name"
      and p: "plan_of m key a c0 src (if ap = None then ''remote'' else ''local'') pkg ver name = p"
    unfolding build_litert_install_plan_def rbind_eq_Inr sum.inject by (elim exE conjE)
  have c0: "c0 = cache_dir" using f(3) by (simp add: cache_outside_checkout_def split: if_splits)
  show thesis by (rule that[OF f(1,2) f(3)[unfolded c0] f(4-6) p[symmetric, unfolded c0]])
qed

lemma selected_artifact:
  assumes "load_litert_manifest manifest = Inr m" and "select_artifact m key = Inr a"
  shows "check_artifact (key, PyDict a) = Inr ()"
proof -
  obtain arts where arts: "py_dict (jget m ''artifacts'') = Some arts" "dget arts key = Some (PyDict a)"
    using assms(2) unfolding select_artifact_def by (auto elim!: py_dict.elims)
  have "\<exists>us. map_res check_artifact arts = Inr us" using assms(1) arts(1) unfolding load_litert_manifest_def by auto
  with map_of_SomeD[OF arts(2)] show ?thesis by (auto simp: map_res_Inr_iff in_set_conv_nth list_all2_conv_all_nth)
qed

lemma checked_artifact:
  assumes "check_artifact (key, PyDict a) = Inr ()" and "part_of_path (jget a ''name'') = Inr name"
  shows "plain name \<and> (\<exists>s. jget a ''source'' = PyStr s)"
proof -
  have "dget_or a ''name'' (PyStr []) = PyStr name"
    using assms(2) by (auto simp: part_of_path_def jget_def dget_or_def elim!: py_string.elims split: option.splits)
  then show ?thesis
    using assms(1) unfolding check_artifact_def prod.case py_dict.simps opt_res.simps rbind.simps Let_def
    by (auto simp: plain_def split: if_splits pyval.splits)
qed

text \<open>The artifact's path ends in its name, and the plan of an offline check differs only in the source.\<close>

lemma plan_destination:
  assumes "build_litert_install_plan checkout manifest cache_dir key ap = Inr p"
  shows "plain (art_name p)" "\<exists>q. destination p = q @ [art_name p]" "cache p = cache_dir"
    "nameable cache_dir \<Longrightarrow> nameable (destination p)"
    "\<exists>src. build_litert_install_plan checkout manifest cache_dir key None = Inr (p\<lparr>source := src, source_kind := ''remote''\<rparr>)"
proof -
  from assms obtain m a src pkg ver name where c: "load_litert_manifest manifest = Inr m" "select_artifact m key = Inr a"
      "cache_outside_checkout cache_dir checkout = Inr cache_dir" "part_of_path (jget m ''package'') = Inr pkg"
      "part_of_path (jget m ''version'') = Inr ver" "part_of_path (jget a ''name'') = Inr name"
      and p: "p = plan_of m key a cache_dir src (if ap = None then ''remote'' else ''local'') pkg ver name" by (rule litert_plan_cases)
  from checked_artifact[OF selected_artifact[OF c(1,2)] c(6)] obtain s where n: "plain name" and s: "jget a ''source'' = PyStr s" by blast
  show "plain (art_name p)" "\<exists>q. destination p = q @ [art_name p]" "cache p = cache_dir"
    using n by (simp_all add: p plan_of_def join_plain)
  show "nameable cache_dir \<Longrightarrow> nameable (destination p)" by (simp add: p plan_of_def nameable_join)
  show "\<exists>src. build_litert_install_plan checkout manifest cache_dir key None = Inr (p\<lparr>source := src, source_kind := ''remote''\<rparr>)"
    by (simp add: build_litert_install_plan_def c s p plan_of_def)
qed

section \<open>Installing, verifying, rolling back\<close>

text \<open>What an installation that succeeds leaves behind.\<close>

lemma put_with_receipt_files:
  assumes "put_with_receipt d b rp r fs = (Inr x, fs')"
  shows "x = r \<and> files fs' = dput (resolve rp) (Doc (PyDict r)) (dput (resolve d) (Blob b) (files fs))"
  using assms unfolding put_with_receipt_def and_then_Inr
  by (auto dest!: make_dirs_files place_files)

lemma installed:
  assumes "install_litert_package h checkout manifest cache_dir key ap yes fs = (Inr r, fs')"
  obtains p b probe where "build_litert_install_plan checkout manifest cache_dir key ap = Inr p" "staged h p = Inr (b, probe)"
    "r = install_receipt h p b probe"
    "files fs' = dput (resolve (butlast (destination p) @ [receipt_name])) (Doc (PyDict r)) (dput (resolve (destination p)) (Blob b) (files fs))"
proof (cases "build_litert_install_plan checkout manifest cache_dir key ap")
  case (Inl e)
  with assms show ?thesis by (simp add: install_litert_package_def split: if_splits)
next
  case (Inr p)
  with assms obtain b probe fs1 where f: "files fs1 = files fs" and st: "staged h p = Inr (b, probe)"
      and put: "put_with_receipt (destination p) b (butlast (destination p) @ [receipt_name]) (install_receipt h p b probe) fs1 = (Inr r, fs')"
    by (auto simp: install_litert_package_def and_then_Inr dest!: make_dirs_files split: if_splits)
  from put_with_receipt_files[OF put] f have "r = install_receipt h p b probe"
      "files fs' = dput (resolve (butlast (destination p) @ [receipt_name])) (Doc (PyDict r)) (dput (resolve (destination p)) (Blob b) (files fs))" by auto
  with that[OF Inr st] show ?thesis by blast
qed

lemma staged_checks:
  assumes "staged h p = Inr (b, probe)"
  shows "py_int (art_size p) = Some (int (length b))" "art_sha256 p = PyStr (sha256_hex b)"
    "\<not> probe_failed (run_litert_runtime_probe h b p)" "\<exists>ms. validate_archive_members h (art_name p) b = Inr ms"
  using assms unfolding staged_def Let_def by (auto split: if_splits)

lemma probe_source: "run_litert_runtime_probe h b (p\<lparr>source := s, source_kind := k\<rparr>) = run_litert_runtime_probe h b p"
  by (simp add: run_litert_runtime_probe_def)

text \<open>The receipt stands beside the artifact, under its own name.\<close>

lemma receipt_beside:
  assumes "destination p = q @ [art_name p]" and "plain (art_name p)"
  shows "butlast (resolve (destination p)) @ [receipt_name] = resolve (butlast (destination p) @ [receipt_name])"
    "art_name p \<noteq> receipt_name \<Longrightarrow> resolve (butlast (destination p) @ [receipt_name]) \<noteq> resolve (destination p)"
  using assms by (auto simp: resolve_snoc step_path_def plain_def receipt_name_def)

lemma fresh_receipt_accepted:
  assumes "nameable (destination p)"
  shows "receipt_refused h' (p\<lparr>source := s, source_kind := k\<rparr>) (install_receipt h p b probe) = None"
    "resolved_text h' (dget_or (install_receipt h p b probe) ''destination'' (PyStr [])) = resolve (destination p)"
    "jget (install_receipt h p b probe) ''manifest_sha256'' = PyStr (manifest_sha256 p)"
proof -
  show d: "resolved_text h' (dget_or (install_receipt h p b probe) ''destination'' (PyStr [])) = resolve (destination p)"
    by (simp add: install_receipt_def dget_or_def resolved_text_def path_of_text[OF assms])
  show m: "jget (install_receipt h p b probe) ''manifest_sha256'' = PyStr (manifest_sha256 p)"
    by (simp add: install_receipt_def jget_def dget_or_def)
  have "jget (install_receipt h p b probe) ''schema'' = PyStr LITERT_RECEIPT_SCHEMA" "jget (install_receipt h p b probe) ''status'' = PyStr ''completed''"
    by (simp_all add: install_receipt_def jget_def dget_or_def)
  with d m show "receipt_refused h' (p\<lparr>source := s, source_kind := k\<rparr>) (install_receipt h p b probe) = None"
    by (simp add: receipt_refused_def)
qed

text \<open>A file tree in which an installation has just succeeded, with the plan of the later checks.\<close>

lemma installed_state:
  assumes inst: "install_litert_package h checkout manifest cache_dir key ap yes fs = (Inr r, fs')"
    and plan: "build_litert_install_plan checkout manifest cache_dir key None = Inr p"
    and inside: "strict_prefix cache_dir (resolve (destination p))" and name: "art_name p \<noteq> receipt_name" and cd: "nameable cache_dir"
  obtains b rp where "litert_receipt_path p = Inr rp" "file_at fs' rp = Some (Doc (PyDict r))" "file_at fs' (destination p) = Some (Blob b)"
    "receipt_refused h' p r = None" "py_int (art_size p) = Some (int (length b))" "art_sha256 p = PyStr (sha256_hex b)"
    "resolved_text h' (dget_or r ''destination'' (PyStr [])) = resolve (destination p)"
    "jget r ''manifest_sha256'' = PyStr (manifest_sha256 p)"
    "files fs' = dput (resolve rp) (Doc (PyDict r)) (dput (resolve (destination p)) (Blob b) (files fs))" "rp \<noteq> resolve (destination p)" "resolve rp = rp"
proof -
  from inst obtain p0 b probe where p0: "build_litert_install_plan checkout manifest cache_dir key ap = Inr p0" and st: "staged h p0 = Inr (b, probe)"
    and r: "r = install_receipt h p0 b probe"
    and fs': "files fs' = dput (resolve (butlast (destination p0) @ [receipt_name])) (Doc (PyDict r)) (dput (resolve (destination p0)) (Blob b) (files fs))"
    by (rule installed)
  note d = plan_destination[OF p0]
  from d(5) plan obtain src where p: "p = p0\<lparr>source := src, source_kind := ''remote''\<rparr>" by auto
  from d(2) obtain q where q: "destination p0 = q @ [art_name p0]" by blast
  let ?rp = "butlast (resolve (destination p0)) @ [receipt_name]"
  note beside = receipt_beside[OF q d(1)]
  have rp: "litert_receipt_path p = Inr ?rp" using inside d(3) by (simp add: litert_receipt_path_def p)
  have ne: "resolve (butlast (destination p0) @ [receipt_name]) \<noteq> resolve (destination p0)" using beside(2) name by (simp add: p)
  have rr: "resolve ?rp = ?rp"
  proof -
    have "''..'' \<notin> set (foldl step_path [] xs)" for xs
      by (induction xs rule: rev_induct) (auto simp: step_path_def dest: in_set_butlastD)
    then have "''..'' \<notin> set (resolve (butlast (destination p0) @ [receipt_name]))" unfolding resolve_def .
    then show ?thesis unfolding beside(1) by (rule resolve_clean)
  qed
  note c = staged_checks[OF st] and acc = fresh_receipt_accepted(1,2)[OF d(4)[OF cd], where h' = h'] fresh_receipt_accepted(3)[OF d(4)[OF cd]]
  show thesis
  proof (rule that[of ?rp b, OF rp])
    show "file_at fs' ?rp = Some (Doc (PyDict r))" using fs' rr beside(1) by (simp add: file_at_def map_of_dput)
    show "file_at fs' (destination p) = Some (Blob b)" using fs' ne by (simp add: file_at_def p map_of_dput)
    show "receipt_refused h' p r = None" unfolding p r by (rule acc(1))
    show "py_int (art_size p) = Some (int (length b))" "art_sha256 p = PyStr (sha256_hex b)" using c by (simp_all add: p)
    show "resolved_text h' (dget_or r ''destination'' (PyStr [])) = resolve (destination p)" using acc(2) by (simp add: p r)
    show "jget r ''manifest_sha256'' = PyStr (manifest_sha256 p)" using acc(3) by (simp add: p r)
    show "files fs' = dput (resolve ?rp) (Doc (PyDict r)) (dput (resolve (destination p)) (Blob b) (files fs))" using fs' rr beside(1) by (simp add: p)
    show "?rp \<noteq> resolve (destination p)" using ne beside(1) by (simp add: p)
    show "resolve ?rp = ?rp" by (rule rr)
  qed
qed

text \<open>The probe of an executable at a later time, on a host that is no longer the one of the installation.\<close>

definition probe_passes :: "litert_host \<Rightarrow> byte list \<Rightarrow> litert_plan \<Rightarrow> bool" where
  "probe_passes h b p \<longleftrightarrow> \<not> executable p \<or> (\<exists>err. run_probe h b = Exited 0 err)"

lemma probe_passes_iff: "probe_failed (run_litert_runtime_probe h b p) \<longleftrightarrow> \<not> probe_passes h b p"
  by (cases "run_probe h b")
    (auto simp: probe_failed_def run_litert_runtime_probe_def probe_passes_def Let_def jget_def dget_or_def)

lemma offline_failure_status: "jget (offline_failure s p w d) ''status'' = PyStr ''failed''"
  by (simp add: offline_failure_def jget_def dget_or_def)

lemma installed_verifies:
  assumes "install_litert_package h checkout manifest cache_dir key ap yes fs = (Inr r, fs')"
    and "build_litert_install_plan checkout manifest cache_dir key None = Inr p"
    and "strict_prefix cache_dir (resolve (destination p))" and "art_name p \<noteq> receipt_name" and "nameable cache_dir"
  shows "\<exists>b d. file_at fs' (destination p) = Some (Blob b) \<and> py_int (art_size p) = Some (int (length b)) \<and> art_sha256 p = PyStr (sha256_hex b)
    \<and> verify_litert_package h' checkout manifest cache_dir key fs' = Inr d
    \<and> jget d ''status'' = PyStr (if probe_passes h' b p then ''verified'' else ''failed'')"
proof -
  obtain b rp where s: "litert_receipt_path p = Inr rp" "file_at fs' rp = Some (Doc (PyDict r))" "file_at fs' (destination p) = Some (Blob b)"
    "receipt_refused h' p r = None" "py_int (art_size p) = Some (int (length b))" "art_sha256 p = PyStr (sha256_hex b)"
    by (rule installed_state[OF assms])
  have "jget (verified_report p rp b) ''status'' = PyStr ''verified''" by (simp add: verified_report_def jget_def dget_or_def)
  then have "jget (check_installed h' p rp fs') ''status'' = PyStr (if probe_passes h' b p then ''verified'' else ''failed'')"
    using s(3,5,6) by (simp add: check_installed_def Let_def bytes_of_def probe_passes_iff offline_failure_status)
  moreover have "verify_litert_package h' checkout manifest cache_dir key fs' = Inr (check_installed h' p rp fs')"
    using assms(2) s(1,2,4) by (simp add: verify_litert_package_def Let_def value_of_def)
  ultimately show ?thesis using s(3,5,6) by blast
qed

text \<open>
  C29: a package whose artifact is not itself named \<open>install-receipt.json\<close> and that was installed inside the
  cache verifies offline at any later time, on any host, exactly when its probe passes there (an artifact
  that is not executable has none); and rolling it back takes exactly its artifact and its receipt
  away: every other file is what it was before the installation.
\<close>

theorem installed_package_verifies_and_rolls_back:
  assumes "install_litert_package h checkout manifest cache_dir key ap yes fs = (Inr r, fs')"
    and "build_litert_install_plan checkout manifest cache_dir key None = Inr p"
    and "strict_prefix cache_dir (resolve (destination p))" and "art_name p \<noteq> ''install-receipt.json''" and "nameable cache_dir" and "dict_ok (files fs)"
  shows "(\<exists>b d. file_at fs' (destination p) = Some (Blob b) \<and> py_int (art_size p) = Some (int (length b)) \<and> art_sha256 p = PyStr (sha256_hex b)
       \<and> verify_litert_package h' checkout manifest cache_dir key fs' = Inr d
       \<and> jget d ''status'' = PyStr (if executable p \<longrightarrow> (\<exists>err. run_probe h' b = Exited 0 err) then ''verified'' else ''failed''))
    \<and> (\<exists>d fs'' rp. rollback_litert_package h' checkout manifest cache_dir key True fs' = (Inr d, fs'') \<and> litert_receipt_path p = Inr rp
         \<and> map_of (files fs'') = (map_of (files fs))(resolve (destination p) := None, rp := None))"
proof -
  have name: "art_name p \<noteq> receipt_name" using assms(4) by (simp add: receipt_name_def)
  obtain b rp where s: "litert_receipt_path p = Inr rp" "file_at fs' rp = Some (Doc (PyDict r))" "file_at fs' (destination p) = Some (Blob b)"
    "receipt_refused h' p r = None" "py_int (art_size p) = Some (int (length b))" "art_sha256 p = PyStr (sha256_hex b)"
    "resolved_text h' (dget_or r ''destination'' (PyStr [])) = resolve (destination p)"
    "jget r ''manifest_sha256'' = PyStr (manifest_sha256 p)"
    "files fs' = dput (resolve rp) (Doc (PyDict r)) (dput (resolve (destination p)) (Blob b) (files fs))" "rp \<noteq> resolve (destination p)" "resolve rp = rp"
    by (rule installed_state[OF assms(1-3) name assms(5)])
  note verified = installed_verifies[OF assms(1-3) name assms(5), of h', unfolded probe_passes_def imp_conv_disj[symmetric]]
  have ok: "dict_ok (files fs')" unfolding s(9) by (intro dput_dict_ok assms(6))
  let ?fs1 = "unlink (destination p) fs'"
  have "file_at ?fs1 rp \<noteq> None" using s(2,10,11) ok by (simp add: file_at_def unlink_def map_of_dpop)
  then have rm: "remove_managed m (cache p) (destination p) rp fs' = (Inr (), prune (cache p) (butlast (destination p)) (unlink rp ?fs1))" for m
    by (simp add: remove_managed_def Let_def)
  have "map_of (files (unlink rp ?fs1)) = (map_of (files fs))(resolve (destination p) := None, rp := None)"
    using ok s(9,10,11) by (auto simp: unlink_def map_of_dpop dpop_dict_ok map_of_dput)
  then have "map_of (files (prune (cache p) (butlast (destination p)) (unlink rp ?fs1))) = (map_of (files fs))(resolve (destination p) := None, rp := None)"
    by (simp add: prune_files)
  moreover have "rollback_litert_package h' checkout manifest cache_dir key True fs'
      = and_then (remove_managed ''managed LiteRT path is missing or unsafe: '' (cache p) (destination p) rp fs') (\<lambda>_ fs. (Inr
           [(''schema'', PyStr LITERT_ROLLBACK_SCHEMA), (''status'', PyStr ''rolled_back''), (''offline'', PyBool True), (''network'', PyBool False),
            (''writes'', PyBool True), (''package'', PyStr (package p)), (''version'', PyStr (version p)), (''platform'', PyStr (platform p)),
            (''cache_dir'', PyStr (path_text (cache p))), (''removed'', PyList [PyStr (path_text (destination p)), PyStr (path_text rp)]),
            (''preserved'', PyStr ''unmanaged cache files, models, and configuration''), (''runtime_effect'', PyStr ''package-cache-only'')], fs))"
    using assms(2) s(1,2,3,7,8) by (simp add: rollback_litert_package_def value_of_def)
  ultimately show ?thesis using verified s(1) by (simp add: rm and_then_def)
qed

text \<open>
  An artifact may be named like the receipt: the manifest is accepted and the package installed, but its
  receipt is written over it.
\<close>

theorem receipt_overwrites_artifact:
  assumes "install_litert_package h checkout manifest cache_dir key ap yes fs = (Inr r, fs')"
    and "build_litert_install_plan checkout manifest cache_dir key ap = Inr p" and "art_name p = receipt_name"
  shows "file_at fs' (destination p) = Some (Doc (PyDict r))"
    and "check_artifact (key, PyDict [(''name'', PyStr receipt_name), (''size_bytes'', PyInt 1), (''sha256'', PyStr (sha256_hex [1])), (''source'', PyStr ''x'')]) = Inr ()"
proof -
  from assms(1) obtain b probe where
    f: "files fs' = dput (resolve (butlast (destination p) @ [receipt_name])) (Doc (PyDict r)) (dput (resolve (destination p)) (Blob b) (files fs))"
    by (rule installed) (use assms(2) in auto)
  obtain q where "destination p = q @ [receipt_name]" using plan_destination(2)[OF assms(2)] assms(3) by auto
  then show "file_at fs' (destination p) = Some (Doc (PyDict r))" using f by (simp add: file_at_def map_of_dput)
  have "hex_digest_text (lower (sha256_hex [1]))" using sha256_hex_digits lower_sha256 by (simp add: hex_digest_text_def)
  then show "check_artifact (key, PyDict [(''name'', PyStr receipt_name), (''size_bytes'', PyInt 1), (''sha256'', PyStr (sha256_hex [1])), (''source'', PyStr ''x'')]) = Inr ()"
    by (simp add: check_artifact_def jget_def dget_or_def receipt_name_def strip_def is_space_def)
qed

text \<open>
  Whatever the tree and the receipt hold, a package is reported as verified only when the bytes at its
  destination, inside the cache, have the size and the digest its manifest states.
\<close>

theorem verified_package_is_intact:
  assumes "verify_litert_package h checkout manifest cache_dir key fs = Inr d" and "jget d ''status'' = PyStr ''verified''"
  shows "\<exists>p c. build_litert_install_plan checkout manifest cache_dir key None = Inr p \<and> strict_prefix (cache p) (resolve (destination p))
    \<and> file_at fs (destination p) = Some c \<and> py_int (art_size p) = Some (int (length (bytes_of h c)))
    \<and> art_sha256 p = PyStr (sha256_hex (bytes_of h c))"
proof -
  from assms(1) obtain p rp where p: "build_litert_install_plan checkout manifest cache_dir key None = Inr p" "litert_receipt_path p = Inr rp"
    unfolding verify_litert_package_def Let_def rbind_eq_Inr by (elim exE conjE)
  note v = assms(1)[unfolded verify_litert_package_def Let_def p rbind.simps]
  obtain c where c: "file_at fs rp = Some c" using v assms(2) by (cases "file_at fs rp") (auto simp: offline_failure_status)
  obtain u where u: "value_of h c = Inr u" using v c assms(2) by (cases "value_of h c") (auto simp: offline_failure_status)
  obtain r where r: "py_dict u = Some r" using v c u by (cases "py_dict u") auto
  have "receipt_refused h p r = None" using v c u r assms(2) by (cases "receipt_refused h p r") (auto simp: offline_failure_status)
  with v c u r have d: "d = check_installed h p rp fs" by simp
  from d assms(2) have "\<exists>c. file_at fs (destination p) = Some c \<and> py_int (art_size p) = Some (int (length (bytes_of h c)))
      \<and> art_sha256 p = PyStr (sha256_hex (bytes_of h c))"
    unfolding check_installed_def Let_def by (auto simp: offline_failure_status split: option.splits if_splits)
  with p show ?thesis by (auto simp: litert_receipt_path_def split: if_splits)
qed

section \<open>Instances\<close>

definition demo_manifest_fields :: "string \<Rightarrow> string \<Rightarrow> (string \<times> pyval) list" where
  "demo_manifest_fields pkg d = [(''schema'', PyStr LITERT_MANIFEST_SCHEMA), (''package'', PyStr pkg), (''version'', PyStr ''1''), (''license'', PyStr ''mit''),
     (''components'', PyDict [(''c'', PyStr ''1'')]),
     (''artifacts'', PyDict [(''linux'', PyDict [(''name'', PyStr ''tool''), (''source'', PyStr ''/dl/tool''), (''size_bytes'', PyInt 1), (''sha256'', PyStr d)])])]"

definition demo_artifact :: "string \<Rightarrow> (string \<times> pyval) list" where
  "demo_artifact d = [(''name'', PyStr ''tool''), (''source'', PyStr ''/dl/tool''), (''size_bytes'', PyInt 1), (''sha256'', PyStr d)]"

lemma sha256_hex_text: "hex_digest_text (lower (sha256_hex b))"
  using sha256_hex_digits lower_sha256 by (simp add: hex_digest_text_def)

lemma demo_plan:
  assumes "pkg \<noteq> []" and "hex_digest_text (lower d)"
  shows "build_litert_install_plan [''repo''] (PyDict (demo_manifest_fields pkg d)) [''c'', ''d''] ''linux'' None
    = Inr (plan_of (demo_manifest_fields pkg d) ''linux'' (demo_artifact d) [''c'', ''d''] ''/dl/tool'' ''remote'' pkg ''1'' ''tool'')"
proof -
  have "check_artifact (''linux'', PyDict (demo_artifact d)) = Inr ()"
    using assms(2) by (simp add: check_artifact_def demo_artifact_def jget_def dget_or_def strip_def is_space_def)
  then have "load_litert_manifest (PyDict (demo_manifest_fields pkg d)) = Inr (demo_manifest_fields pkg d)"
    using assms(1) by (simp add: load_litert_manifest_def demo_manifest_fields_def demo_artifact_def jget_def dget_or_def)
  then show ?thesis
    by (simp add: build_litert_install_plan_def select_artifact_def part_of_path_def cache_outside_checkout_def,
        simp add: demo_manifest_fields_def demo_artifact_def jget_def dget_or_def)
qed

abbreviation demo_litert_plan :: "string \<Rightarrow> litert_plan" where
  "demo_litert_plan pkg \<equiv> plan_of (demo_manifest_fields pkg (sha256_hex [1])) ''linux'' (demo_artifact (sha256_hex [1])) [''c'', ''d''] ''/dl/tool'' ''remote'' pkg ''1'' ''tool''"

lemma demo_staged:
  "staged (demo_host [1]) (demo_litert_plan pkg) = Inr ([1], [(''checked'', PyBool False)])"
proof -
  have "copy_litert_source (demo_host [1]) ''/dl/tool'' = Inr [1]"
    by (simp add: copy_litert_source_def demo_host_def url_scheme_def)
  moreover have "validate_archive_members (demo_host [1]) ''tool'' [1] = Inr []"
    by (simp add: validate_archive_members_def archive_members_def ends_with_def lower_def lower_char_def)
  ultimately show ?thesis
    by (simp add: staged_def plan_of_def demo_artifact_def jget_def dget_or_def run_litert_runtime_probe_def probe_failed_def)
qed

definition empty_tree :: file_tree where
  "empty_tree = \<lparr>files = [], dirs = []\<rparr>"

text \<open>Placing the artifact of a package in an empty tree, whatever the receipt says.\<close>

definition demo_placed :: "path \<Rightarrow> (string \<times> pyval) list \<Rightarrow> (string \<times> pyval) list res \<times> file_tree" where
  "demo_placed d r = and_then (make_dirs [''c'', ''d''] empty_tree) (\<lambda>_ fs. put_with_receipt d [1] (butlast d @ [receipt_name]) r fs)"

lemma demo_installs:
  assumes "pkg \<noteq> []" and "\<And>r. demo_placed (destination (demo_litert_plan pkg)) r = (Inr r, f r)"
  shows "\<exists>r. install_litert_package (demo_host [1]) [''repo''] (PyDict (demo_manifest_fields pkg (sha256_hex [1]))) [''c'', ''d''] ''linux'' None True empty_tree = (Inr r, f r)"
proof -
  let ?r = "install_receipt (demo_host [1]) (demo_litert_plan pkg) [1] [(''checked'', PyBool False)]"
  obtain fs1 where d: "make_dirs [''c'', ''d''] empty_tree = (Inr (), fs1)" by (simp add: make_dirs_def empty_tree_def)
  then have "put_with_receipt (destination (demo_litert_plan pkg)) [1] (butlast (destination (demo_litert_plan pkg)) @ [receipt_name]) ?r fs1 = (Inr ?r, f ?r)"
    using assms(2)[of ?r] by (simp add: demo_placed_def and_then_def)
  moreover have "cache (demo_litert_plan pkg) = [''c'', ''d'']" by (simp add: plan_of_def)
  ultimately show ?thesis
    using d by (simp add: install_litert_package_def demo_plan[OF assms(1) sha256_hex_text] demo_staged and_then_def)
qed

lemma demo_destination:
  "destination (demo_litert_plan ''lm'') = [''c'', ''d'', ''lm'', ''1'', ''linux'', ''tool'']"
  "destination (demo_litert_plan ''../..'') = [''c'', ''d'', ''..'', ''..'', ''1'', ''linux'', ''tool'']"
  by (simp_all add: plan_of_def join_path_def starts_with_def components_def)

lemma demo_placed_inside:
  "demo_placed [''c'', ''d'', ''lm'', ''1'', ''linux'', ''tool''] r = (Inr r,
     \<lparr>files = [([''c'', ''d'', ''lm'', ''1'', ''linux'', ''tool''], Blob [1]), ([''c'', ''d'', ''lm'', ''1'', ''linux'', receipt_name], Doc (PyDict r))],
       dirs = prefixes [''c'', ''d'', ''lm'', ''1'', ''linux'']\<rparr>)"
  by (simp add: demo_placed_def put_with_receipt_def and_then_def make_dirs_def empty_tree_def resolve_def step_path_def place_def receipt_name_def)

lemma demo_placed_outside:
  "demo_placed [''c'', ''d'', ''..'', ''..'', ''1'', ''linux'', ''tool''] r = (Inr r,
     \<lparr>files = [([''1'', ''linux'', ''tool''], Blob [1]), ([''1'', ''linux'', receipt_name], Doc (PyDict r))],
       dirs = [[], [''c''], [''c'', ''d''], [''1''], [''1'', ''linux'']]\<rparr>)"
  by (simp add: demo_placed_def put_with_receipt_def and_then_def make_dirs_def empty_tree_def resolve_def step_path_def place_def receipt_name_def)

lemma demo_inside:
  "strict_prefix [''c'', ''d''] (resolve (destination (demo_litert_plan ''lm'')))" "art_name (demo_litert_plan ''lm'') \<noteq> receipt_name"
  "nameable [''c'', ''d'']" "dict_ok (files empty_tree)"
  unfolding demo_destination by (simp_all add: resolve_def step_path_def plan_of_def receipt_name_def nameable_def empty_tree_def)

lemma demo_installed:
  obtains r fs' where "install_litert_package (demo_host [1]) [''repo''] (PyDict (demo_manifest_fields ''lm'' (sha256_hex [1]))) [''c'', ''d''] ''linux'' None True empty_tree = (Inr r, fs')"
  using demo_installs[of "''lm''", OF _ demo_placed_inside[folded demo_destination(1)]] by auto

theorem installed_package_verifies_and_rolls_back_witness:
  "\<exists>r fs' d. install_litert_package (demo_host [1]) [''repo''] (PyDict (demo_manifest_fields ''lm'' (sha256_hex [1]))) [''c'', ''d''] ''linux'' None True empty_tree = (Inr r, fs')
     \<and> verify_litert_package (demo_host []) [''repo''] (PyDict (demo_manifest_fields ''lm'' (sha256_hex [1]))) [''c'', ''d''] ''linux'' fs' = Inr d
     \<and> jget d ''status'' = PyStr ''verified''"
proof -
  obtain r fs' where inst: "install_litert_package (demo_host [1]) [''repo''] (PyDict (demo_manifest_fields ''lm'' (sha256_hex [1]))) [''c'', ''d''] ''linux'' None True empty_tree = (Inr r, fs')"
    by (rule demo_installed)
  have plan: "build_litert_install_plan [''repo''] (PyDict (demo_manifest_fields ''lm'' (sha256_hex [1]))) [''c'', ''d''] ''linux'' None = Inr (demo_litert_plan ''lm'')"
    by (rule demo_plan[OF _ sha256_hex_text]) simp
  have p: "run_probe (demo_host []) b = Exited 0 []" for b by (simp add: demo_host_def)
  from installed_package_verifies_and_rolls_back[OF inst plan demo_inside(1) _ demo_inside(3,4), of "demo_host []"] demo_inside(2) inst show ?thesis
    by (auto simp: receipt_name_def p)
qed

theorem verified_package_is_intact_witness:
  "\<exists>fs d. verify_litert_package (demo_host [1]) [''repo''] (PyDict (demo_manifest_fields ''lm'' (sha256_hex [1]))) [''c'', ''d''] ''linux'' fs = Inr d
     \<and> (\<exists>(p :: litert_plan) c. file_at fs (destination p) = Some c \<and> art_sha256 p = PyStr (sha256_hex (bytes_of (demo_host [1]) c)))"
proof -
  obtain fs d where v: "verify_litert_package (demo_host [1]) [''repo''] (PyDict (demo_manifest_fields ''lm'' (sha256_hex [1]))) [''c'', ''d''] ''linux'' fs = Inr d"
      "jget d ''status'' = PyStr ''verified''"
  proof -
    obtain r fs' where inst: "install_litert_package (demo_host [1]) [''repo''] (PyDict (demo_manifest_fields ''lm'' (sha256_hex [1]))) [''c'', ''d''] ''linux'' None True empty_tree = (Inr r, fs')"
      by (rule demo_installed)
    have "build_litert_install_plan [''repo''] (PyDict (demo_manifest_fields ''lm'' (sha256_hex [1]))) [''c'', ''d''] ''linux'' None = Inr (demo_litert_plan ''lm'')"
      by (rule demo_plan[OF _ sha256_hex_text]) simp
    moreover have "probe_passes (demo_host [1]) b q" for b q by (simp add: demo_host_def probe_passes_def)
    ultimately show thesis using installed_verifies[OF inst _ demo_inside(1-3), of "demo_host [1]"] that by auto
  qed
  from verified_package_is_intact[OF v] obtain p :: litert_plan and c where pc: "file_at fs (destination p) = Some c"
      "art_sha256 p = PyStr (sha256_hex (bytes_of (demo_host [1]) c))" by (elim exE conjE)
  show ?thesis
    by (rule exI[of _ fs], rule exI[of _ d], rule conjI, rule v(1), rule exI[of _ p], rule exI[of _ c], rule conjI, rule pc(1), rule pc(2))
qed

text \<open>
  Only the artifact's name is checked: a manifest whose package is \<open>../..\<close> is installed outside the
  cache, and cannot be verified or rolled back afterwards.
\<close>

theorem package_escapes_cache:
  "\<exists>r fs' e. install_litert_package (demo_host [1]) [''repo''] (PyDict (demo_manifest_fields ''../..'' (sha256_hex [1]))) [''c'', ''d''] ''linux'' None True empty_tree = (Inr r, fs')
     \<and> dget (files fs') [''1'', ''linux'', ''tool''] = Some (Blob [1])
     \<and> verify_litert_package (demo_host [1]) [''repo''] (PyDict (demo_manifest_fields ''../..'' (sha256_hex [1]))) [''c'', ''d''] ''linux'' fs' = Inl e"
proof -
  from demo_installs[of "''../..''", OF _ demo_placed_outside[folded demo_destination(2)]]
  obtain r fs' where inst: "install_litert_package (demo_host [1]) [''repo''] (PyDict (demo_manifest_fields ''../..'' (sha256_hex [1]))) [''c'', ''d''] ''linux'' None True empty_tree = (Inr r, fs')"
    "dget (files fs') [''1'', ''linux'', ''tool''] = Some (Blob [1])"
    by auto
  have "\<not> strict_prefix [''c'', ''d''] (resolve (destination (demo_litert_plan ''../..'')))"
    unfolding demo_destination by (simp add: resolve_def step_path_def)
  then have "\<exists>e. litert_receipt_path (demo_litert_plan ''../..'') = Inl e" by (simp add: litert_receipt_path_def plan_of_def)
  then obtain e where "litert_receipt_path (demo_litert_plan ''../..'') = Inl e" by blast
  then have "verify_litert_package (demo_host [1]) [''repo''] (PyDict (demo_manifest_fields ''../..'' (sha256_hex [1]))) [''c'', ''d''] ''linux'' fs' = Inl e"
    by (simp add: verify_litert_package_def demo_plan[OF _ sha256_hex_text])
  with inst show ?thesis by blast
qed

text \<open>The manifest may state a digest in upper case, which the installation compares as it stands: it never succeeds.\<close>

theorem upper_case_digest_never_installs:
  assumes "build_litert_install_plan checkout manifest cache_dir key ap = Inr p" and "art_sha256 p = PyStr d" and "lower d \<noteq> d"
  shows "\<exists>e. fst (install_litert_package h checkout manifest cache_dir key ap yes fs) = Inl e"
proof (cases "install_litert_package h checkout manifest cache_dir key ap yes fs")
  case (Pair r fs')
  show ?thesis
  proof (cases r)
    case (Inr x)
    with Pair have "install_litert_package h checkout manifest cache_dir key ap yes fs = (Inr x, fs')" by simp
    then obtain p' b probe where "build_litert_install_plan checkout manifest cache_dir key ap = Inr p'" "staged h p' = Inr (b, probe)"
      by (rule installed)
    with assms staged_checks(2) lower_sha256 show ?thesis by fastforce
  qed (simp add: Pair)
qed

end
