(* ===== verification/Litert_Models.thy ===== *)
theory Litert_Models
  imports Litert
begin

text \<open>
  The content-addressed model cache of \<open>engine/c/backend_contract.py\<close>: a model stands under its digest,
  with a receipt beside it.
\<close>

section \<open>Operations\<close>

definition LITERT_MODEL_PLAN_SCHEMA :: string where
  "LITERT_MODEL_PLAN_SCHEMA = ''simplicio.local-litert-model-plan/v1''"

definition LITERT_MODEL_RECEIPT_SCHEMA :: string where
  "LITERT_MODEL_RECEIPT_SCHEMA = ''simplicio.local-litert-model-receipt/v1''"

definition LITERT_MODEL_VERIFY_SCHEMA :: string where
  "LITERT_MODEL_VERIFY_SCHEMA = ''simplicio.local-litert-model-verify/v1''"

definition LITERT_MODEL_ROLLBACK_SCHEMA :: string where
  "LITERT_MODEL_ROLLBACK_SCHEMA = ''simplicio.local-litert-model-rollback/v1''"

definition validate_digest :: "pyval \<Rightarrow> string res" where
  "validate_digest v = (let d = lower (if truthy v then py_str v else []) in
     if hex_digest_text d then Inr d else Inl (ValueError ''model SHA-256 must be exactly 64 lowercase hexadecimal characters''))"

record model_plan =
  mp_digest :: string
  mp_size :: pyval
  mp_source :: "string option"
  mp_kind :: "string option"
  mp_cache :: path

definition model_destination :: "path \<Rightarrow> string \<Rightarrow> path" where
  "model_destination c d = c @ [''models'', ''sha256'', take 2 d, d @ ''.litertlm'']"

definition model_receipt_path :: "path \<Rightarrow> string \<Rightarrow> path" where
  "model_receipt_path c d = c @ [''models'', ''sha256'', take 2 d, d @ ''.receipt.json'']"

text \<open>\<open>Path(s).suffix\<close>: what follows the last dot of the name, when that dot is neither first nor last.\<close>

definition suffix_of :: "string \<Rightarrow> string" where
  "suffix_of s = (case rev (components s) of [] \<Rightarrow> []
     | n # _ \<Rightarrow> let e = rev (takeWhile (\<lambda>c. c \<noteq> CHR ''.'') (rev n)) in
         if length e + 1 < length n \<and> e \<noteq> [] then CHR ''.'' # e else [])"

definition build_litert_model_plan :: "litert_host \<Rightarrow> path \<Rightarrow> string \<Rightarrow> pyval \<Rightarrow> pyval \<Rightarrow> path \<Rightarrow> model_plan res" where
  "build_litert_model_plan h checkout src sha nbytes cache_dir =
     rbind (validate_digest sha) (\<lambda>d.
     if nbytes \<noteq> PyNone \<and> bad_int 0 nbytes then Inl (ValueError ''model size must be a non-negative integer'')
     else let sch = url_scheme src in
     if src \<noteq> [] \<and> lower (suffix_of (if sch = ''file'' then file_url_path src else src)) \<noteq> ''.litertlm''
     then Inl (ValueError ''LiteRT model source must use the .litertlm format'')
     else rbind (cache_outside_checkout cache_dir checkout) (\<lambda>c.
       Inr \<lparr>mp_digest = d, mp_size = nbytes,
         mp_source = (if src = [] then None else Some (if sch = [] then path_text (resolve (join_path (cwd h) (expand_user h src))) else src)),
         mp_kind = (if src = [] then None else Some (if sch \<in> {[], ''file''} then ''local'' else ''remote'')), mp_cache = c\<rparr>))"

definition model_plan_report :: "model_plan \<Rightarrow> (string \<times> pyval) list" where
  "model_plan_report p =
     [(''schema'', PyStr LITERT_MODEL_PLAN_SCHEMA), (''content_addressed'', PyBool True), (''sha256'', PyStr (mp_digest p)), (''size_bytes'', mp_size p),
      (''source'', py_opt_str (mp_source p)), (''source_kind'', py_opt_str (mp_kind p)), (''cache_dir'', PyStr (path_text (mp_cache p))),
      (''destination'', PyStr (path_text (model_destination (mp_cache p) (mp_digest p)))),
      (''receipt_path'', PyStr (path_text (model_receipt_path (mp_cache p) (mp_digest p)))),
      (''writes'', PyBool False), (''network'', PyBool False), (''runtime_effect'', PyStr ''model-cache-only'')]"

definition staged_model :: "litert_host \<Rightarrow> model_plan \<Rightarrow> byte list res" where
  "staged_model h p =
     rbind (opt_res (TypeError ''source'') (mp_source p)) (\<lambda>src.
     rbind (copy_litert_source h src) (\<lambda>b.
     if mp_size p \<noteq> PyInt (int (length b))
     then Inl (ValueError (''LiteRT model size mismatch: expected '' @ py_str (mp_size p) @ '', observed '' @ str_of_int (int (length b))))
     else if sha256_hex b \<noteq> mp_digest p
     then Inl (ValueError (''LiteRT model SHA-256 mismatch: expected '' @ mp_digest p @ '', observed '' @ sha256_hex b))
     else Inr b))"

definition model_receipt :: "litert_host \<Rightarrow> model_plan \<Rightarrow> byte list \<Rightarrow> (string \<times> pyval) list" where
  "model_receipt h p b =
     [(''schema'', PyStr LITERT_MODEL_RECEIPT_SCHEMA), (''status'', PyStr ''completed''), (''content_addressed'', PyBool True),
      (''sha256'', PyStr (mp_digest p)), (''size_bytes'', mp_size p), (''observed_sha256'', PyStr (sha256_hex b)),
      (''observed_size_bytes'', PyInt (int (length b))), (''source'', py_opt_str (mp_source p)), (''source_kind'', py_opt_str (mp_kind p)),
      (''destination'', PyStr (path_text (model_destination (mp_cache p) (mp_digest p)))),
      (''receipt_path'', PyStr (path_text (model_receipt_path (mp_cache p) (mp_digest p)))), (''cache_dir'', PyStr (path_text (mp_cache p))),
      (''runtime_effect'', PyStr ''model-cache-only''), (''created_unix_ms'', PyInt (clock h))]"

definition install_litert_model :: "litert_host \<Rightarrow> path \<Rightarrow> string \<Rightarrow> pyval \<Rightarrow> pyval \<Rightarrow> path \<Rightarrow> bool \<Rightarrow> file_tree
      \<Rightarrow> (string \<times> pyval) list res \<times> file_tree" where
  "install_litert_model h checkout src sha nbytes cache_dir yes fs =
     (case (if \<not> yes then Inl (ValueError ''LiteRT model installation requires explicit --yes'')
        else if src = [] then Inl (ValueError ''LiteRT model installation requires --source'')
        else if nbytes = PyNone then Inl (ValueError ''LiteRT model installation requires --size-bytes'')
        else build_litert_model_plan h checkout src sha nbytes cache_dir) of
       Inl e \<Rightarrow> (Inl e, fs)
     | Inr p \<Rightarrow>
         and_then (make_dirs (mp_cache p) fs) (\<lambda>_ fs.
         and_then (staged_model h p, fs) (\<lambda>b fs.
           put_with_receipt (model_destination (mp_cache p) (mp_digest p)) b (model_receipt_path (mp_cache p) (mp_digest p)) (model_receipt h p b) fs)))"

definition model_failure :: "model_plan \<Rightarrow> string \<Rightarrow> (string \<times> pyval) list \<Rightarrow> (string \<times> pyval) list" where
  "model_failure p why details =
     [(''schema'', PyStr LITERT_MODEL_VERIFY_SCHEMA), (''status'', PyStr ''failed''), (''content_addressed'', PyBool True), (''offline'', PyBool True),
      (''network'', PyBool False), (''writes'', PyBool False), (''sha256'', PyStr (mp_digest p)), (''cache_dir'', PyStr (path_text (mp_cache p))),
      (''destination'', PyStr (path_text (model_destination (mp_cache p) (mp_digest p)))), (''failure_reason'', PyStr why)] @ details"

text \<open>\<open>observed == receipt.get("size_bytes")\<close>, for an integer and any JSON value.\<close>

definition equals_int :: "int \<Rightarrow> pyval \<Rightarrow> bool" where
  "equals_int n v \<longleftrightarrow> py_number v = Some (fint n)"

definition check_model :: "litert_host \<Rightarrow> model_plan \<Rightarrow> (string \<times> pyval) list \<Rightarrow> file_tree \<Rightarrow> (string \<times> pyval) list" where
  "check_model h p r fs =
     (let d = model_destination (mp_cache p) (mp_digest p) in
      if jget r ''schema'' \<noteq> PyStr LITERT_MODEL_RECEIPT_SCHEMA then model_failure p ''offline-model-receipt-schema-mismatch'' []
      else if jget r ''status'' \<noteq> PyStr ''completed'' \<or> jget r ''sha256'' \<noteq> PyStr (mp_digest p) then model_failure p ''offline-model-receipt-digest-mismatch'' []
      else if resolved_text h (dget_or r ''destination'' (PyStr [])) \<noteq> resolve d then model_failure p ''offline-model-receipt-destination-mismatch'' []
      else case file_at fs d of
        None \<Rightarrow> model_failure p ''offline-model-cache-miss'' []
      | Some c \<Rightarrow> let b = bytes_of h c in
          if \<not> equals_int (int (length b)) (jget r ''size_bytes'') \<or> sha256_hex b \<noteq> mp_digest p
          then model_failure p ''offline-model-integrity-failure''
            [(''expected_size_bytes'', jget r ''size_bytes''), (''observed_size_bytes'', PyInt (int (length b))),
             (''expected_sha256'', PyStr (mp_digest p)), (''observed_sha256'', PyStr (sha256_hex b))]
          else [(''schema'', PyStr LITERT_MODEL_VERIFY_SCHEMA), (''status'', PyStr ''verified''), (''content_addressed'', PyBool True),
            (''offline'', PyBool True), (''network'', PyBool False), (''writes'', PyBool False), (''sha256'', PyStr (mp_digest p)),
            (''size_bytes'', PyInt (int (length b))), (''destination'', PyStr (path_text d)),
            (''receipt_path'', PyStr (path_text (model_receipt_path (mp_cache p) (mp_digest p)))),
            (''cache_dir'', PyStr (path_text (mp_cache p))), (''runtime_effect'', PyStr ''model-cache-only'')])"

definition verify_litert_model :: "litert_host \<Rightarrow> path \<Rightarrow> pyval \<Rightarrow> path \<Rightarrow> file_tree \<Rightarrow> (string \<times> pyval) list res" where
  "verify_litert_model h checkout sha cache_dir fs =
     rbind (build_litert_model_plan h checkout [] sha PyNone cache_dir) (\<lambda>p.
     case file_at fs (model_receipt_path (mp_cache p) (mp_digest p)) of
       None \<Rightarrow> Inr (model_failure p ''offline-model-cache-miss'' [])
     | Some c \<Rightarrow> (case value_of h c of
         Inl e \<Rightarrow> Inr (model_failure p ''offline-model-receipt-invalid'' [(''detail'', PyStr e)])
       | Inr v \<Rightarrow> rbind (opt_res (AttributeError ''get'') (py_dict v)) (\<lambda>r. Inr (check_model h p r fs))))"

definition rollback_litert_model :: "litert_host \<Rightarrow> path \<Rightarrow> pyval \<Rightarrow> path \<Rightarrow> bool \<Rightarrow> file_tree \<Rightarrow> (string \<times> pyval) list res \<times> file_tree" where
  "rollback_litert_model h checkout sha cache_dir yes fs =
     (case (if \<not> yes then Inl (ValueError ''LiteRT model rollback requires explicit --yes'')
        else rbind (build_litert_model_plan h checkout [] sha PyNone cache_dir) (\<lambda>p.
          rbind (opt_res (ValueError ''managed LiteRT model receipt not found'') (file_at fs (model_receipt_path (mp_cache p) (mp_digest p)))) (\<lambda>c.
          rbind (case value_of h c of Inl e \<Rightarrow> Inl (ValueError e) | Inr v \<Rightarrow> opt_res (AttributeError ''get'') (py_dict v)) (\<lambda>r.
          if jget r ''schema'' \<noteq> PyStr LITERT_MODEL_RECEIPT_SCHEMA then Inl (ValueError ''managed LiteRT model receipt schema mismatch'')
          else if jget r ''sha256'' \<noteq> PyStr (mp_digest p) then Inl (ValueError ''managed LiteRT model receipt digest mismatch'')
          else if file_at fs (model_destination (mp_cache p) (mp_digest p)) = None then Inl (ValueError ''managed LiteRT model is missing or unsafe'')
          else Inr p)))) of
       Inl e \<Rightarrow> (Inl e, fs)
     | Inr p \<Rightarrow> (let d = model_destination (mp_cache p) (mp_digest p); rp = model_receipt_path (mp_cache p) (mp_digest p) in
         and_then (remove_managed ''managed LiteRT model path is missing: '' (mp_cache p @ [''models'']) d rp fs) (\<lambda>_ fs.
           (Inr [(''schema'', PyStr LITERT_MODEL_ROLLBACK_SCHEMA), (''status'', PyStr ''rolled_back''), (''content_addressed'', PyBool True),
              (''offline'', PyBool True), (''network'', PyBool False), (''writes'', PyBool True), (''sha256'', PyStr (mp_digest p)),
              (''cache_dir'', PyStr (path_text (mp_cache p))), (''removed'', PyList [PyStr (path_text d), PyStr (path_text rp)]),
              (''preserved'', PyStr ''other content-addressed models and unmanaged files''), (''runtime_effect'', PyStr ''model-cache-only'')], fs))))"

section \<open>Names\<close>

definition clean :: "path \<Rightarrow> bool" where
  "clean c \<longleftrightarrow> nameable c \<and> ''..'' \<notin> set c"

lemma hex_text_plain:
  assumes "hex_digest_text d"
  shows "CHR ''/'' \<notin> set d" "CHR ''.'' \<notin> set d" "d \<noteq> []" "take 2 d \<noteq> []" "length d = 64"
proof -
  have "CHR ''/'' \<notin> set hex_alphabet" "CHR ''.'' \<notin> set hex_alphabet" by (simp_all add: hex_alphabet_def)
  with assms show "CHR ''/'' \<notin> set d" "CHR ''.'' \<notin> set d" "d \<noteq> []" "take 2 d \<noteq> []" "length d = 64" by (auto simp: hex_digest_text_def)
qed

lemma model_paths:
  assumes "clean c" and "hex_digest_text d"
  shows "resolve (model_destination c d) = model_destination c d" "resolve (model_receipt_path c d) = model_receipt_path c d"
    "nameable (model_destination c d)" "model_receipt_path c d \<noteq> model_destination c e"
proof -
  note h = hex_text_plain[OF assms(2)]
  have sub: "set (take 2 d) \<subseteq> set d" by (rule set_take_subset)
  have dots: "take 2 d \<noteq> ''..''" "take 2 d \<noteq> ''.''" using h(2) sub by auto
  have names: "d @ ''.litertlm'' \<noteq> ''..''" "d @ ''.receipt.json'' \<noteq> ''..''" "d @ ''.litertlm'' \<noteq> ''.''" using h(5) by (auto dest: arg_cong[of _ _ length])
  show "resolve (model_destination c d) = model_destination c d" "resolve (model_receipt_path c d) = model_receipt_path c d"
    using assms(1) dots names by (auto simp: model_destination_def model_receipt_path_def clean_def intro!: resolve_clean)
  show "nameable (model_destination c d)"
    using assms(1) h sub dots names by (auto simp: model_destination_def clean_def nameable_def)
  have "last (d @ ''.receipt.json'') \<noteq> last (e @ ''.litertlm'')" by simp
  then show "model_receipt_path c d \<noteq> model_destination c e" by (auto simp: model_destination_def model_receipt_path_def)
qed

lemma model_destination_inj: "model_destination c d = model_destination c e \<longleftrightarrow> d = e"
  by (auto simp: model_destination_def)

lemma validated_digest: "validate_digest v = Inr d \<Longrightarrow> hex_digest_text d"
  by (auto simp: validate_digest_def Let_def split: if_splits)

lemma model_plan_cases:
  assumes "build_litert_model_plan h checkout src sha nbytes cache_dir = Inr p"
  shows "validate_digest sha = Inr (mp_digest p)" "mp_cache p = cache_dir" "mp_size p = nbytes"
    "\<exists>p'. build_litert_model_plan h checkout [] sha PyNone cache_dir = Inr p' \<and> mp_digest p' = mp_digest p \<and> mp_cache p' = cache_dir"
proof -
  from assms obtain d where d: "validate_digest sha = Inr d" and c: "cache_outside_checkout cache_dir checkout = Inr cache_dir"
    and p: "mp_digest p = d" "mp_cache p = cache_dir" "mp_size p = nbytes"
    by (auto simp: build_litert_model_plan_def Let_def cache_outside_checkout_def split: if_splits)
  show "validate_digest sha = Inr (mp_digest p)" "mp_cache p = cache_dir" "mp_size p = nbytes" using d p by simp_all
  show "\<exists>p'. build_litert_model_plan h checkout [] sha PyNone cache_dir = Inr p' \<and> mp_digest p' = mp_digest p \<and> mp_cache p' = cache_dir"
    using d c p by (simp add: build_litert_model_plan_def Let_def)
qed

section \<open>Every stored model has the digest it is named by\<close>

datatype model_op =
    InstallModel string pyval pyval bool
  | RollbackModel pyval bool

fun model_step :: "litert_host \<Rightarrow> path \<Rightarrow> path \<Rightarrow> model_op \<Rightarrow> file_tree \<Rightarrow> file_tree" where
  "model_step h checkout c (InstallModel src sha nbytes yes) fs = snd (install_litert_model h checkout src sha nbytes c yes fs)"
| "model_step h checkout c (RollbackModel sha yes) fs = snd (rollback_litert_model h checkout sha c yes fs)"

definition models_match :: "path \<Rightarrow> file_tree \<Rightarrow> bool" where
  "models_match c fs \<longleftrightarrow> dict_ok (files fs)
     \<and> (\<forall>d x. hex_digest_text d \<longrightarrow> dget (files fs) (model_destination c d) = Some x \<longrightarrow> (\<exists>b. x = Blob b \<and> sha256_hex b = d))"

lemma staged_model_checks:
  assumes "staged_model h p = Inr b"
  shows "sha256_hex b = mp_digest p" "mp_size p = PyInt (int (length b))"
  using assms unfolding staged_model_def by (auto split: if_splits)

lemma models_match_put: "models_match c fs \<Longrightarrow> sha256_hex b = d \<Longrightarrow> models_match c (fs\<lparr>files := dput (model_destination c d) (Blob b) (files fs)\<rparr>)"
  by (auto simp: models_match_def dput_dict_ok map_of_dput model_destination_inj split: if_splits)

lemma models_match_receipt: "models_match c fs \<Longrightarrow> (\<And>d. q \<noteq> model_destination c d) \<Longrightarrow> models_match c (fs\<lparr>files := dput q x (files fs)\<rparr>)"
  by (auto simp: models_match_def dput_dict_ok map_of_dput split: if_splits)

lemma models_match_unlink: "models_match c fs \<Longrightarrow> models_match c (unlink q fs)"
  by (auto simp: models_match_def unlink_def dpop_dict_ok map_of_dpop split: if_splits)

lemma models_match_files: "files fs' = files fs \<Longrightarrow> models_match c fs \<Longrightarrow> models_match c fs'"
  by (simp add: models_match_def)

lemma put_with_receipt_cases:
  assumes "put_with_receipt d b rp r fs = (x, fs')"
  shows "files fs' = files fs \<or> files fs' = dput (resolve d) (Blob b) (files fs)
    \<or> files fs' = dput (resolve rp) (Doc (PyDict r)) (dput (resolve d) (Blob b) (files fs))"
proof -
  obtain x1 fs1 where 1: "make_dirs (butlast d) fs = (x1, fs1)" by (rule prod.exhaust)
  obtain x2 fs2 where 2: "place d (Blob b) fs1 = (x2, fs2)" by (rule prod.exhaust)
  obtain x3 fs3 where 3: "place rp (Doc (PyDict r)) fs2 = (x3, fs3)" by (rule prod.exhaust)
  have "files fs1 = files fs" by (rule make_dirs_files[OF 1])
  then show ?thesis
    using assms 1 2 3 by (auto simp: put_with_receipt_def and_then_def place_def split: sum.splits if_splits)
qed

lemma install_model_match:
  assumes c: "clean c" and inv: "models_match c fs" and inst: "install_litert_model h checkout src sha nbytes c yes fs = (x, fs')"
  shows "models_match c fs'"
proof (cases "x \<noteq> x \<or> (\<exists>p. (yes \<and> src \<noteq> [] \<and> nbytes \<noteq> PyNone) \<and> build_litert_model_plan h checkout src sha nbytes c = Inr p)")
  case False
  then have "fs' = fs" using inst by (auto simp: install_litert_model_def split: if_splits sum.splits)
  with inv show ?thesis by simp
next
  case True
  then obtain p where go: "yes" "src \<noteq> []" "nbytes \<noteq> PyNone" and p: "build_litert_model_plan h checkout src sha nbytes c = Inr p" by auto
  note pl = model_plan_cases[OF p]
  note hex = validated_digest[OF pl(1)]
  obtain x1 fs1 where d: "make_dirs c fs = (x1, fs1)" by (rule prod.exhaust)
  have m1: "models_match c fs1" by (rule models_match_files[OF make_dirs_files[OF d] inv])
  show ?thesis
  proof (cases "\<exists>u b. x1 = Inr u \<and> staged_model h p = Inr b")
    case False
    then have "fs' = fs1" using inst go p pl(2) d by (cases x1; cases "staged_model h p") (auto simp: install_litert_model_def and_then_def)
    with m1 show ?thesis by simp
  next
    case True
    then obtain b where st: "x1 = Inr ()" "staged_model h p = Inr b" by auto
    have put: "put_with_receipt (model_destination c (mp_digest p)) b (model_receipt_path c (mp_digest p)) (model_receipt h p b) fs1 = (x, fs')"
      using inst go p pl(2) d st by (simp add: install_litert_model_def and_then_def)
    let ?f1 = "fs1\<lparr>files := dput (model_destination c (mp_digest p)) (Blob b) (files fs1)\<rparr>"
    have m2: "models_match c ?f1" by (rule models_match_put[OF m1 staged_model_checks(1)[OF st(2)]])
    have m3: "models_match c (?f1\<lparr>files := dput (model_receipt_path c (mp_digest p)) y (files ?f1)\<rparr>)" for y
      by (rule models_match_receipt[OF m2 model_paths(4)[OF c hex]])
    from put_with_receipt_cases[OF put] show ?thesis
      unfolding model_paths(1,2)[OF c hex] 
      by (elim disjE) (rule models_match_files[OF _ m1], assumption, rule models_match_files[OF _ m2], simp,
        rule models_match_files[OF _ m3[of "Doc (PyDict (model_receipt h p b))"]], simp)
  qed
qed

lemma remove_managed_match: "models_match c fs \<Longrightarrow> remove_managed m top_dir d rp fs = (x, fs') \<Longrightarrow> models_match c fs'"
  by (auto simp: remove_managed_def Let_def models_match_unlink models_match_files[OF prune_files] split: if_splits)

lemma rollback_model_match:
  assumes "models_match c fs" and "rollback_litert_model h checkout sha c yes fs = (x, fs')"
  shows "models_match c fs'"
proof (cases "fs' = fs")
  case False
  with assms(2) obtain m base d rp y fs1 where "remove_managed m base d rp fs = (y, fs1)" "fs' = fs1"
    unfolding rollback_litert_model_def Let_def and_then_def by (auto split: sum.splits prod.splits)
  with remove_managed_match[OF assms(1)] show ?thesis by blast
qed (use assms(1) in simp)

lemma model_step_match: "clean c \<Longrightarrow> models_match c fs \<Longrightarrow> models_match c (model_step h checkout c a fs)"
  by (cases a) (auto intro: install_model_match rollback_model_match prod.collapse[symmetric])

interpretation model_cache: machine "\<lambda>fs. files fs = []" "\<lambda>a fs. if clean c then model_step h checkout c a fs else fs" "models_match c"
  for h checkout c
  by unfold_locales (auto simp: model_step_match, simp add: models_match_def)

text \<open>
  C30: over every sequence of installations and rollbacks that starts with an empty cache, every file
  under a model's name holds bytes of exactly the digest in that name.
\<close>

theorem stored_models_have_their_digest:
  assumes "clean c" and "files fs = []" and "hex_digest_text d"
    and "dget (files (fold (model_step h checkout c) ops fs)) (model_destination c d) = Some x"
  shows "\<exists>b. x = Blob b \<and> sha256_hex b = d"
proof -
  have "models_match c (fold (\<lambda>a fs. if clean c then model_step h checkout c a fs else fs) ops fs)"
    by (rule model_cache.reach_inv) (rule assms(2))
  then show ?thesis using assms by (simp add: models_match_def)
qed

section \<open>Installing, verifying, rolling back\<close>

lemma equals_int_PyInt: "equals_int n (PyInt n)"
  by (simp add: equals_int_def)

text \<open>
  C31: a model that was installed verifies offline under its digest, and rolling it back leaves every
  other file as it was before the installation.
\<close>

theorem installed_model_verifies_and_rolls_back:
  assumes "install_litert_model h checkout src sha nbytes c yes fs = (Inr r, fs')" and "clean c" and "dict_ok (files fs)"
  shows "\<exists>d. validate_digest sha = Inr d
    \<and> (\<exists>v. verify_litert_model h checkout sha c fs' = Inr v \<and> jget v ''status'' = PyStr ''verified'')
    \<and> (\<exists>v fs''. rollback_litert_model h checkout sha c True fs' = (Inr v, fs'')
         \<and> map_of (files fs'') = (map_of (files fs))(model_destination c d := None, model_receipt_path c d := None))"
proof -
  from assms(1) obtain p fs1 b where p: "build_litert_model_plan h checkout src sha nbytes c = Inr p"
    and mk: "make_dirs (mp_cache p) fs = (Inr (), fs1)" and st: "staged_model h p = Inr b"
    and put: "put_with_receipt (model_destination (mp_cache p) (mp_digest p)) b (model_receipt_path (mp_cache p) (mp_digest p)) (model_receipt h p b) fs1 = (Inr r, fs')"
    unfolding install_litert_model_def by (auto simp: and_then_Inr split: if_splits sum.splits)
  note pl = model_plan_cases[OF p]
  obtain q where q: "build_litert_model_plan h checkout [] sha PyNone c = Inr q" "mp_digest q = mp_digest p" "mp_cache q = c" using pl(4) by blast
  let ?d = "model_destination c (mp_digest p)" and ?rp = "model_receipt_path c (mp_digest p)"
  note paths = model_paths[OF assms(2) validated_digest[OF pl(1)]]
  have r: "r = model_receipt h p b" and fs': "files fs' = dput ?rp (Doc (PyDict r)) (dput ?d (Blob b) (files fs))"
    using put_with_receipt_files[OF put] make_dirs_files[OF mk] pl(2) paths(1,2) by simp_all
  have at: "file_at fs' ?rp = Some (Doc (PyDict r))" "file_at fs' ?d = Some (Blob b)"
    using fs' paths paths(4)[symmetric] by (simp_all add: file_at_def map_of_dput)
  have fields: "jget r ''schema'' = PyStr LITERT_MODEL_RECEIPT_SCHEMA" "jget r ''status'' = PyStr ''completed''" "jget r ''sha256'' = PyStr (mp_digest p)"
      "jget r ''size_bytes'' = PyInt (int (length b))"
      and dest: "resolved_text h (dget_or r ''destination'' (PyStr [])) = ?d"
    using pl(2) paths(1) staged_model_checks[OF st]
    by (simp_all add: r model_receipt_def jget_def dget_or_def resolved_text_def path_of_text[OF paths(3)])
  have "jget (check_model h q r fs') ''status'' = PyStr ''verified''"
    using fields dest at q staged_model_checks[OF st] paths(1)
    by (simp add: check_model_def Let_def bytes_of_def equals_int_PyInt, simp add: jget_def dget_or_def)
  then have ver: "\<exists>v. verify_litert_model h checkout sha c fs' = Inr v \<and> jget v ''status'' = PyStr ''verified''"
    using q at by (simp add: verify_litert_model_def value_of_def)
  have ok: "dict_ok (files fs')" unfolding fs' by (intro dput_dict_ok assms(3))
  have ne: "?rp \<noteq> ?d" by (rule paths(4))
  have "file_at (unlink ?d fs') ?rp \<noteq> None" using at(1) ok ne paths(1,2) by (simp add: file_at_def unlink_def map_of_dpop)
  then have rm: "remove_managed m base ?d ?rp fs' = (Inr (), prune base (butlast ?d) (unlink ?rp (unlink ?d fs')))" for m base
    by (simp add: remove_managed_def Let_def)
  have "map_of (files (unlink ?rp (unlink ?d fs'))) = (map_of (files fs))(?d := None, ?rp := None)"
    using ok fs' ne paths(1,2) by (auto simp: unlink_def map_of_dpop dpop_dict_ok map_of_dput)
  then have "map_of (files (prune base (butlast ?d) (unlink ?rp (unlink ?d fs')))) = (map_of (files fs))(?d := None, ?rp := None)" for base
    by (simp add: prune_files)
  then have "\<exists>v fs''. rollback_litert_model h checkout sha c True fs' = (Inr v, fs'') \<and> map_of (files fs'') = (map_of (files fs))(?d := None, ?rp := None)"
    using q at fields rm by (simp add: rollback_litert_model_def Let_def value_of_def and_then_def)
  with ver pl(1) show ?thesis by blast
qed

section \<open>Instances\<close>

lemma demo_model_placed:
  assumes "a \<noteq> ''..''" and "m \<noteq> ''..''" and "n \<noteq> ''..''" and "m \<noteq> n"
  shows "and_then (make_dirs [''c''] empty_tree) (\<lambda>_ fs. put_with_receipt [''c'', ''models'', ''sha256'', a, m] [1] [''c'', ''models'', ''sha256'', a, n] r fs)
    = (Inr r, \<lparr>files = [([''c'', ''models'', ''sha256'', a, m], Blob [1]), ([''c'', ''models'', ''sha256'', a, n], Doc (PyDict r))],
        dirs = prefixes [''c'', ''models'', ''sha256'', a]\<rparr>)"
  using assms by (simp add: put_with_receipt_def and_then_def make_dirs_def empty_tree_def resolve_def step_path_def place_def)

abbreviation demo_model_op :: model_op where
  "demo_model_op \<equiv> InstallModel ''/dl/m.litertlm'' (PyStr (sha256_hex [1])) (PyInt 1) True"

lemma demo_model_installs:
  obtains r fs' where "install_litert_model (demo_host [1]) [''repo''] ''/dl/m.litertlm'' (PyStr (sha256_hex [1])) (PyInt 1) [''c''] True empty_tree = (Inr r, fs')"
    "dget (files fs') (model_destination [''c''] (sha256_hex [1])) = Some (Blob [1])"
proof -
  let ?d = "sha256_hex [1]"
  have hex: "hex_digest_text ?d" using sha256_hex_text[of "[1]"] by (simp add: lower_sha256)
  note h = hex_text_plain[OF hex]
  have v: "validate_digest (PyStr ?d) = Inr ?d" using hex h(3) by (simp add: validate_digest_def Let_def lower_sha256)
  have sch: "url_scheme ''/dl/m.litertlm'' = []" by (simp add: url_scheme_def)
  have suf: "lower (suffix_of ''/dl/m.litertlm'') = ''.litertlm''"
    by (simp add: suffix_of_def components_def lower_def lower_char_def)
  obtain p where p: "build_litert_model_plan (demo_host [1]) [''repo''] ''/dl/m.litertlm'' (PyStr ?d) (PyInt 1) [''c''] = Inr p"
    and f: "mp_digest p = ?d" "mp_cache p = [''c'']" "mp_size p = PyInt 1" "mp_source p = Some ''/dl/m.litertlm''"
    by (simp add: build_litert_model_plan_def v sch suf cache_outside_checkout_def demo_host_def,
        simp add: join_path_def starts_with_def components_def resolve_def step_path_def path_text_def)
  have "copy_litert_source (demo_host [1]) ''/dl/m.litertlm'' = Inr [1]"
    by (simp add: copy_litert_source_def sch demo_host_def)
  then have st: "staged_model (demo_host [1]) p = Inr [1]" using f by (simp add: staged_model_def)
  have names: "take 2 ?d \<noteq> ''..''" "?d @ ''.litertlm'' \<noteq> ''..''" "?d @ ''.receipt.json'' \<noteq> ''..''" "?d @ ''.litertlm'' \<noteq> ?d @ ''.receipt.json''"
    using h(2,5) set_take_subset[of 2 ?d] by (auto dest: arg_cong[of _ _ length])
  let ?r = "model_receipt (demo_host [1]) p [1]"
  obtain fs1 where mk: "make_dirs [''c''] empty_tree = (Inr (), fs1)" by (simp add: make_dirs_def empty_tree_def)
  note placed = demo_model_placed[OF names, of ?r]
  then obtain fs' where fs': "put_with_receipt (model_destination [''c''] ?d) [1] (model_receipt_path [''c''] ?d) ?r fs1 = (Inr ?r, fs')"
      "dget (files fs') (model_destination [''c''] ?d) = Some (Blob [1])"
    using mk by (simp add: and_then_def model_destination_def model_receipt_path_def)
  have "install_litert_model (demo_host [1]) [''repo''] ''/dl/m.litertlm'' (PyStr ?d) (PyInt 1) [''c''] True empty_tree = (Inr ?r, fs')"
    using p f st mk fs'(1) by (simp add: install_litert_model_def and_then_def)
  from that[OF this fs'(2)] show thesis .
qed

lemma demo_clean: "clean [''c'']" "files empty_tree = []" "dict_ok (files empty_tree)"
  by (simp_all add: clean_def nameable_def empty_tree_def)

theorem stored_models_have_their_digest_witness:
  "\<exists>x b. dget (files (fold (model_step (demo_host [1]) [''repo''] [''c'']) [demo_model_op] empty_tree)) (model_destination [''c''] (sha256_hex [1])) = Some x
     \<and> x = Blob b \<and> sha256_hex b = sha256_hex [1]"
proof -
  have hex: "hex_digest_text (sha256_hex [1])" using sha256_hex_text[of "[1]"] by (simp add: lower_sha256)
  obtain r fs' where i: "install_litert_model (demo_host [1]) [''repo''] ''/dl/m.litertlm'' (PyStr (sha256_hex [1])) (PyInt 1) [''c''] True empty_tree = (Inr r, fs')"
    and at: "dget (files fs') (model_destination [''c''] (sha256_hex [1])) = Some (Blob [1])" by (rule demo_model_installs)
  have "dget (files (fold (model_step (demo_host [1]) [''repo''] [''c'']) [demo_model_op] empty_tree)) (model_destination [''c''] (sha256_hex [1])) = Some (Blob [1])"
    using i at by simp
  from stored_models_have_their_digest[OF demo_clean(1,2) hex this] this show ?thesis by blast
qed

theorem installed_model_verifies_and_rolls_back_witness:
  "\<exists>r fs' v. install_litert_model (demo_host [1]) [''repo''] ''/dl/m.litertlm'' (PyStr (sha256_hex [1])) (PyInt 1) [''c''] True empty_tree = (Inr r, fs')
     \<and> verify_litert_model (demo_host [1]) [''repo''] (PyStr (sha256_hex [1])) [''c''] fs' = Inr v \<and> jget v ''status'' = PyStr ''verified''"
proof -
  obtain r fs' where i: "install_litert_model (demo_host [1]) [''repo''] ''/dl/m.litertlm'' (PyStr (sha256_hex [1])) (PyInt 1) [''c''] True empty_tree = (Inr r, fs')"
    by (rule demo_model_installs)
  from installed_model_verifies_and_rolls_back[OF i demo_clean(1,3)] i show ?thesis by blast
qed

end
