(* ===== verification/Catalog.thy ===== *)
theory Catalog
  imports Py_Json
begin

text \<open>
  The trusted model catalogue of \<open>model_catalog.py\<close>: validation of sources, artifacts and entries, loading a
  payload, lookup, the ranking of artifacts by the trust in their source, and the verification of a file.
\<close>

section \<open>Entries\<close>

definition CATALOG_SCHEMA_V1 :: string where
  "CATALOG_SCHEMA_V1 = ''simplicio-local.model-catalog/v1''"

record catalog_source =
  cs_name :: string
  trust_rank :: int
  base_url :: string

record catalog_artifact =
  artifact_id :: string
  art_source :: string
  url :: string
  size_bytes :: int
  art_sha256 :: string
  platforms :: "string list"
  backends :: "string list"

record catalog_entry =
  model_id :: string
  family :: string
  entry_version :: string
  parameter_billions :: pyfloat
  aliases :: "string list"
  quantizations :: "string list"
  artifacts :: "catalog_artifact list"

definition SHA256 :: "string \<Rightarrow> bool" where
  "SHA256 s \<longleftrightarrow> length s = 64 \<and> set (lower s) \<subseteq> set hex_alphabet"

definition validate_source :: "catalog_source \<Rightarrow> unit res" where
  "validate_source s =
     (if strip (cs_name s) = [] \<or> trust_rank s < 0 \<or> \<not> starts_with ''https://'' (base_url s)
      then Inl (ValueError ''catalog source must have a name, non-negative trust rank, and HTTPS base_url'') else Inr ())"

definition validate_artifact :: "catalog_artifact \<Rightarrow> unit res" where
  "validate_artifact a =
     (if strip (artifact_id a) = [] \<or> strip (art_source a) = [] \<or> \<not> starts_with ''https://'' (url a)
      then Inl (ValueError ''artifact identity and HTTPS source are required'')
      else if size_bytes a \<le> 0 \<or> \<not> SHA256 (art_sha256 a) then Inl (ValueError ''artifact size and SHA-256 are required'')
      else Inr ())"

text \<open>A check of every element, in order.\<close>

fun each :: "('a \<Rightarrow> unit res) \<Rightarrow> 'a list \<Rightarrow> unit res" where
  "each f [] = Inr ()"
| "each f (x # xs) = rbind (f x) (\<lambda>_. each f xs)"

lemma each_Inr: "each f xs = Inr u \<longleftrightarrow> (\<forall>x \<in> set xs. f x = Inr ())"
  by (induction xs) auto

definition validate_entry :: "catalog_entry \<Rightarrow> unit res" where
  "validate_entry e =
     (if strip (model_id e) = [] \<or> strip (family e) = [] \<or> strip (entry_version e) = []
      then Inl (ValueError ''model_id, family, and version are required'')
      else if lower (entry_version e) = ''latest'' \<or> fle (parameter_billions e) (Fin 0)
      then Inl (ValueError ''catalog entries require an immutable version and positive parameter count'')
      else if quantizations e = [] \<or> artifacts e = [] then Inl (ValueError ''catalog entry requires quantizations and artifacts'')
      else each validate_artifact (artifacts e))"

section \<open>Reading a payload\<close>

text \<open>Iterating over a value, and \<open>payload.get(k, default)\<close> of a mapping.\<close>

definition iterate :: "pyval \<Rightarrow> pyval list res" where
  "iterate v = (case v of
      PyList xs \<Rightarrow> Inr xs
    | PyStr s \<Rightarrow> Inr (List.map (\<lambda>c. PyStr [c]) s)
    | PyDict d \<Rightarrow> Inr (List.map PyStr (dkeys d))
    | _ \<Rightarrow> Inl (TypeError ''object is not iterable''))"

definition mapping_of :: "pyval \<Rightarrow> (string \<times> pyval) list res" where
  "mapping_of v = opt_res (AttributeError ''get'') (py_dict v)"

definition texts :: "(string \<times> pyval) list \<Rightarrow> string \<Rightarrow> string list res" where
  "texts d k = rbind (iterate (dget_or d k (PyList []))) (\<lambda>xs. Inr (List.map py_str xs))"

definition text_of :: "(string \<times> pyval) list \<Rightarrow> string \<Rightarrow> string" where
  "text_of d k = py_str (dget_or d k (PyStr []))"

definition read_artifact :: "pyval \<Rightarrow> catalog_artifact res" where
  "read_artifact v =
     rbind (mapping_of v) (\<lambda>d.
     rbind (to_int (dget_or d ''size_bytes'' (PyInt 0))) (\<lambda>n.
     rbind (texts d ''platforms'') (\<lambda>ps.
     rbind (texts d ''backends'') (\<lambda>bs.
       Inr \<lparr>artifact_id = text_of d ''artifact_id'', art_source = text_of d ''source'', url = text_of d ''url'', size_bytes = n,
         art_sha256 = text_of d ''sha256'', platforms = ps, backends = bs\<rparr>))))"

definition read_entry :: "pyval \<Rightarrow> catalog_entry res" where
  "read_entry v =
     rbind (mapping_of v) (\<lambda>d.
     rbind (py_float (dget_or d ''parameter_billions'' (PyInt 0))) (\<lambda>pb.
     rbind (texts d ''aliases'') (\<lambda>al.
     rbind (texts d ''quantizations'') (\<lambda>qs.
     rbind (iterate (dget_or d ''artifacts'' (PyList []))) (\<lambda>xs.
     rbind (map_res read_artifact xs) (\<lambda>arts.
     let e = \<lparr>model_id = text_of d ''model_id'', family = text_of d ''family'', entry_version = text_of d ''version'', parameter_billions = pb,
         aliases = al, quantizations = qs, artifacts = arts\<rparr> in
     rbind (validate_entry e) (\<lambda>_. Inr e)))))))"

text \<open>\<open>item[k]\<close> of an item that may be any value.\<close>

definition item_at :: "pyval \<Rightarrow> string \<Rightarrow> pyval res" where
  "item_at v k = (case v of
      PyDict d \<Rightarrow> opt_res (KeyError k) (dget d k)
    | _ \<Rightarrow> Inl (TypeError ''indices must be integers''))"

definition read_source :: "pyval \<Rightarrow> catalog_source res" where
  "read_source v =
     rbind (item_at v ''name'') (\<lambda>n.
     rbind (item_at v ''trust_rank'') (\<lambda>t. rbind (to_int t) (\<lambda>r.
     rbind (item_at v ''base_url'') (\<lambda>b.
       Inr \<lparr>cs_name = py_str n, trust_rank = r, base_url = py_str b\<rparr>))))"

section \<open>The catalogue\<close>

record catalog =
  sources :: "catalog_source list"
  entries :: "catalog_entry list"
  revision :: string

definition source_rank :: "catalog \<Rightarrow> (string \<times> int) list" where
  "source_rank c = fold (\<lambda>s. dput (cs_name s) (trust_rank s)) (sources c) []"

definition known_source :: "catalog \<Rightarrow> catalog_artifact \<Rightarrow> unit res" where
  "known_source c a = (if art_source a \<in> set (dkeys (source_rank c)) then Inr ()
     else Inl (ValueError (''artifact references unknown source: '' @ art_source a)))"

definition new_catalog :: "catalog_source list \<Rightarrow> catalog_entry list \<Rightarrow> string \<Rightarrow> catalog res" where
  "new_catalog ss es rv = (let c = \<lparr>sources = ss, entries = es, revision = rv\<rparr> in
     if strip rv = [] \<or> lower rv = ''latest'' then Inl (ValueError ''catalog revision must be immutable'')
     else rbind (each validate_source ss) (\<lambda>_.
     if length (source_rank c) \<noteq> length ss then Inl (ValueError ''catalog source names must be unique'')
     else rbind (each (\<lambda>e. rbind (validate_entry e) (\<lambda>_. each (known_source c) (artifacts e))) es) (\<lambda>_. Inr c)))"

definition from_payload :: "pyval \<Rightarrow> catalog res" where
  "from_payload v =
     rbind (mapping_of v) (\<lambda>d.
     if jget d ''schema'' \<noteq> PyStr CATALOG_SCHEMA_V1 then Inl (ValueError (''schema must be '' @ CATALOG_SCHEMA_V1))
     else rbind (iterate (dget_or d ''sources'' (PyList []))) (\<lambda>xs.
     rbind (map_res read_source xs) (\<lambda>ss.
     rbind (iterate (dget_or d ''entries'' (PyList []))) (\<lambda>ys.
     rbind (map_res read_entry ys) (\<lambda>es.
       new_catalog ss es (text_of d ''revision''))))))"

definition source_dict :: "catalog_source \<Rightarrow> pyval" where
  "source_dict s = PyDict [(''name'', PyStr (cs_name s)), (''trust_rank'', PyInt (trust_rank s)), (''base_url'', PyStr (base_url s))]"

definition artifact_dict :: "catalog_artifact \<Rightarrow> pyval" where
  "artifact_dict a = PyDict [(''artifact_id'', PyStr (artifact_id a)), (''source'', PyStr (art_source a)), (''url'', PyStr (url a)),
     (''size_bytes'', PyInt (size_bytes a)), (''sha256'', PyStr (art_sha256 a)), (''platforms'', py_strs (platforms a)), (''backends'', py_strs (backends a))]"

definition entry_dict :: "catalog_entry \<Rightarrow> pyval" where
  "entry_dict e = PyDict [(''model_id'', PyStr (model_id e)), (''family'', PyStr (family e)), (''version'', PyStr (entry_version e)),
     (''parameter_billions'', PyFloat (parameter_billions e)), (''aliases'', py_strs (aliases e)), (''quantizations'', py_strs (quantizations e)),
     (''artifacts'', PyList (List.map artifact_dict (artifacts e)))]"

definition catalog_dict :: "catalog \<Rightarrow> pyval" where
  "catalog_dict c = PyDict [(''schema'', PyStr CATALOG_SCHEMA_V1), (''revision'', PyStr (revision c)),
     (''sources'', PyList (List.map source_dict (sources c))), (''entries'', PyList (List.map entry_dict (entries c)))]"

definition find_entry :: "string \<Rightarrow> string option \<Rightarrow> pyfloat option \<Rightarrow> catalog \<Rightarrow> catalog_entry res" where
  "find_entry mid fam pb c = (case filter (\<lambda>e. model_id e = mid) (entries c) of
      [e] \<Rightarrow>
        if fam \<noteq> None \<and> fam \<noteq> Some (family e) then Inl (ValueError ''requested family does not match canonical model'')
        else if (case pb of None \<Rightarrow> False | Some x \<Rightarrow> \<not> feq (parameter_billions e) x)
        then Inl (ValueError ''requested parameter count does not match canonical model'')
        else Inr e
    | _ \<Rightarrow> Inl (KeyError (''unknown canonical model id: '' @ mid)))"

text \<open>An empty name of a platform or backend asks for none.\<close>

definition offered :: "string \<Rightarrow> string list \<Rightarrow> bool" where
  "offered want have_names \<longleftrightarrow> want = [] \<or> have_names = [] \<or> want \<in> set have_names"

definition rank_key :: "catalog \<Rightarrow> catalog_artifact \<Rightarrow> int \<times> string \<times> string \<times> string" where
  "rank_key c a = (- dget_or (source_rank c) (art_source a) 0, art_source a, artifact_id a, url a)"

definition rank_artifacts :: "string \<Rightarrow> string \<Rightarrow> string \<Rightarrow> catalog \<Rightarrow> catalog_artifact list res" where
  "rank_artifacts mid platform_name backend_name c =
     rbind (find_entry mid None None c) (\<lambda>e.
       Inr (sort_key (rank_key c) (filter (\<lambda>a. offered platform_name (platforms a) \<and> offered backend_name (backends a)) (artifacts e))))"

section \<open>Verification and provenance\<close>

record verification =
  vr_artifact :: string
  vr_accepted :: bool
  vr_reason :: string
  vr_size :: "int option"
  vr_sha256 :: "string option"

text \<open>The file, when there is one, is its bytes.\<close>

definition verify_artifact :: "byte list option \<Rightarrow> catalog_artifact \<Rightarrow> verification" where
  "verify_artifact bytes_there a = (case bytes_there of
      None \<Rightarrow> \<lparr>vr_artifact = artifact_id a, vr_accepted = False, vr_reason = ''artifact-missing'', vr_size = None, vr_sha256 = None\<rparr>
    | Some b \<Rightarrow> (let n = int (length b); d = sha256_hex b;
          report = (\<lambda>ok why. \<lparr>vr_artifact = artifact_id a, vr_accepted = ok, vr_reason = why, vr_size = Some n, vr_sha256 = Some d\<rparr>) in
        if n \<noteq> size_bytes a then report False ''artifact-size-mismatch''
        else if lower d \<noteq> lower (art_sha256 a) then report False ''artifact-sha256-mismatch''
        else report True ''artifact-verified''))"

definition verification_dict :: "verification \<Rightarrow> pyval" where
  "verification_dict v = PyDict [(''schema'', PyStr CATALOG_SCHEMA_V1), (''artifact_id'', PyStr (vr_artifact v)), (''accepted'', PyBool (vr_accepted v)),
     (''reason'', PyStr (vr_reason v)), (''observed_size_bytes'', (case vr_size v of None \<Rightarrow> PyNone | Some n \<Rightarrow> PyInt n)),
     (''observed_sha256'', py_opt_str (vr_sha256 v))]"

text \<open>The document \<open>write_provenance\<close> puts at its destination.\<close>

definition write_provenance :: "catalog \<Rightarrow> catalog_entry \<Rightarrow> catalog_artifact \<Rightarrow> verification \<Rightarrow> pyval res" where
  "write_provenance c e a v =
     (if \<not> vr_accepted v then Inl (ValueError ''cannot persist provenance for an unverified artifact'')
      else Inr (PyDict [(''schema'', PyStr ''simplicio-local.model-provenance/v1''), (''catalog_revision'', PyStr (revision c)),
        (''model_id'', PyStr (model_id e)), (''family'', PyStr (family e)), (''parameter_billions'', PyFloat (parameter_billions e)),
        (''artifact'', artifact_dict a), (''verification'', verification_dict v)]))"

section \<open>What a loaded catalogue guarantees\<close>

definition trusted :: "catalog \<Rightarrow> bool" where
  "trusted c \<longleftrightarrow> strip (revision c) \<noteq> [] \<and> lower (revision c) \<noteq> ''latest'' \<and> distinct (List.map cs_name (sources c))
     \<and> list_all (\<lambda>s. validate_source s = Inr ()) (sources c)
     \<and> list_all (\<lambda>e. validate_entry e = Inr () \<and> list_all (\<lambda>a. art_source a \<in> cs_name ` set (sources c)) (artifacts e)) (entries c)"

lemmas dput_domain = set_dkeys_dput[simplified]

lemma dput_keys: "fst ` set (fold (\<lambda>s. dput (f s) (g s)) ss d) = fst ` set d \<union> f ` set ss"
  by (induction ss arbitrary: d) (simp_all add: dput_domain)

lemma dput_count: "length (fold (\<lambda>s. dput (f s) (g s)) ss d) \<le> length d + length ss"
proof (induction ss arbitrary: d)
  case (Cons s ss)
  show ?case using Cons[of "dput (f s) (g s) d"] by (simp add: dput_length split: if_splits)
qed simp

lemma dput_fresh:
  "length (fold (\<lambda>s. dput (f s) (g s)) ss d) = length d + length ss \<longleftrightarrow> distinct (List.map f ss) \<and> f ` set ss \<inter> set (dkeys d) = {}"
proof (induction ss arbitrary: d)
  case (Cons s ss)
  show ?case
  proof (cases "f s \<in> set (dkeys d)")
    case True
    then show ?thesis using dput_count[of f g ss "dput (f s) (g s) d"] by (simp add: dput_length)
  next
    case False
    then show ?thesis using Cons[of "dput (f s) (g s) d"] by (auto simp: dput_length dput_domain)
  qed
qed simp

lemma source_rank_keys: "set (dkeys (source_rank c)) = cs_name ` set (sources c)"
  by (simp add: source_rank_def dput_keys)

lemma source_rank_unique: "length (source_rank c) = length (sources c) \<longleftrightarrow> distinct (List.map cs_name (sources c))"
  using dput_fresh[of cs_name trust_rank "sources c" "[]"] by (simp add: source_rank_def)

lemma new_catalog_trusted: "new_catalog ss es rv = Inr c \<longleftrightarrow> c = \<lparr>sources = ss, entries = es, revision = rv\<rparr> \<and> trusted c"
  unfolding new_catalog_def Let_def trusted_def
  by (auto simp: each_Inr source_rank_unique[of "\<lparr>sources = ss, entries = es, revision = rv\<rparr>", simplified] known_source_def list_all_iff
      source_rank_keys[of "\<lparr>sources = ss, entries = es, revision = rv\<rparr>", simplified] split: if_splits)

lemma loaded_trusted: "from_payload v = Inr c \<Longrightarrow> trusted c"
  unfolding from_payload_def by (auto simp: new_catalog_trusted split: if_splits)

text \<open>
  C32: every artifact of a catalogue that was loaded from whatever payload has an HTTPS address, a positive size
  and a SHA-256, and names a source of the catalogue, whose names are distinct and whose addresses are HTTPS;
  no entry and no revision is called \<open>latest\<close>.
\<close>

theorem loaded_catalog_is_trusted:
  assumes "from_payload v = Inr c" and "e \<in> set (entries c)" and "a \<in> set (artifacts e)"
  shows "starts_with ''https://'' (url a) \<and> 0 < size_bytes a \<and> SHA256 (art_sha256 a) \<and> lower (entry_version e) \<noteq> ''latest''
    \<and> lower (revision c) \<noteq> ''latest'' \<and> distinct (List.map cs_name (sources c))
    \<and> (\<exists>s \<in> set (sources c). cs_name s = art_source a \<and> 0 \<le> trust_rank s \<and> starts_with ''https://'' (base_url s))"
proof -
  from loaded_trusted[OF assms(1)] assms(2) have e: "validate_entry e = Inr ()" "list_all (\<lambda>a. art_source a \<in> cs_name ` set (sources c)) (artifacts e)"
      and c: "lower (revision c) \<noteq> ''latest''" "distinct (List.map cs_name (sources c))" "list_all (\<lambda>s. validate_source s = Inr ()) (sources c)"
    by (auto simp: trusted_def list_all_iff)
  from e(1) assms(3) have a: "validate_artifact a = Inr ()" "lower (entry_version e) \<noteq> ''latest''"
    by (auto simp: validate_entry_def each_Inr split: if_splits)
  from e(2) assms(3) obtain s where s: "s \<in> set (sources c)" "cs_name s = art_source a" by (auto simp: list_all_iff)
  with c(3) have "validate_source s = Inr ()" by (simp add: list_all_iff)
  then have "0 \<le> trust_rank s \<and> starts_with ''https://'' (base_url s)" by (simp add: validate_source_def split: if_splits)
  with s a c(1,2) show ?thesis by (auto simp: validate_artifact_def split: if_splits)
qed

text \<open>Serialising a catalogue and loading the payload again gives it back.\<close>

lemma iterate_py_strs: "iterate (py_strs xs) = Inr (List.map PyStr xs)"
  by (simp add: iterate_def py_strs_def)

lemma read_source_dict: "read_source (source_dict s) = Inr s"
  by (simp add: read_source_def source_dict_def item_at_def to_int_def)

lemma read_artifact_dict: "read_artifact (artifact_dict a) = Inr a"
  by (simp add: read_artifact_def artifact_dict_def mapping_of_def texts_def text_of_def dget_or_def iterate_py_strs to_int_def comp_def)

lemma map_res_all: "(\<And>x. x \<in> set xs \<Longrightarrow> f (g x) = Inr x) \<Longrightarrow> map_res f (List.map g xs) = Inr xs"
  by (induction xs) auto

lemma read_sources: "map_res read_source (List.map source_dict ss) = Inr ss"
  by (rule map_res_all) (rule read_source_dict)

lemma read_artifacts: "map_res read_artifact (List.map artifact_dict as) = Inr as"
  by (rule map_res_all) (rule read_artifact_dict)

lemma read_entry_dict: "validate_entry e = Inr () \<Longrightarrow> read_entry (entry_dict e) = Inr e"
  by (cases e) (simp add: Let_def read_entry_def entry_dict_def mapping_of_def texts_def text_of_def dget_or_def iterate_py_strs py_float_def comp_def
      iterate_def[of "PyList _"] read_artifacts)

theorem catalog_round_trip:
  assumes "from_payload v = Inr c"
  shows "from_payload (catalog_dict c) = Inr c"
proof -
  note t = loaded_trusted[OF assms]
  then have es: "map_res read_entry (List.map entry_dict (entries c)) = Inr (entries c)"
    by (intro map_res_all read_entry_dict) (auto simp: trusted_def list_all_iff)
  have "new_catalog (sources c) (entries c) (revision c) = Inr c" using t by (simp add: new_catalog_trusted)
  with es show ?thesis
    by (simp add: from_payload_def catalog_dict_def mapping_of_def jget_def dget_or_def text_of_def iterate_def read_sources)
qed

text \<open>
  The ranking of a model's artifacts holds exactly those its platform and backend admit, and no
  artifact comes before one whose source is trusted more.
\<close>

theorem ranking_follows_trust:
  assumes "rank_artifacts mid p b c = Inr ranked"
  shows "\<exists>e \<in> set (entries c). model_id e = mid
    \<and> mset ranked = mset (filter (\<lambda>a. offered p (platforms a) \<and> offered b (backends a)) (artifacts e))
    \<and> sorted (List.map (\<lambda>a. - dget_or (source_rank c) (art_source a) 0) ranked)"
proof -
  from assms obtain e where e: "find_entry mid None None c = Inr e"
    and r: "ranked = sort_key (rank_key c) (filter (\<lambda>a. offered p (platforms a) \<and> offered b (backends a)) (artifacts e))"
    by (auto simp: rank_artifacts_def)
  from e have "filter (\<lambda>e. model_id e = mid) (entries c) = [e]"
    unfolding find_entry_def by (auto split: list.splits)
  then have "e \<in> set (filter (\<lambda>e. model_id e = mid) (entries c))" by simp
  moreover have "sorted (List.map (\<lambda>a. - dget_or (source_rank c) (art_source a) 0) ranked)"
  proof -
    have "sorted (List.map (rank_key c) ranked)" by (simp add: r)
    then show ?thesis by (auto simp: sorted_map rank_key_def less_eq_prod_def elim!: sorted_wrt_mono_rel[rotated])
  qed
  ultimately show ?thesis by (auto simp: r)
qed

text \<open>A file is accepted exactly when it is there with the size and the digest of the artifact.\<close>

lemma verify_artifact_accepts:
  "vr_accepted (verify_artifact f a) \<longleftrightarrow> (\<exists>b. f = Some b \<and> int (length b) = size_bytes a \<and> lower (sha256_hex b) = lower (art_sha256 a))"
  by (auto simp: verify_artifact_def Let_def split: option.splits)

section \<open>Instances\<close>

definition demo_payload :: pyval where
  "demo_payload = PyDict [(''schema'', PyStr CATALOG_SCHEMA_V1), (''revision'', PyStr ''r1''),
     (''sources'', PyList [PyDict [(''name'', PyStr ''hub''), (''trust_rank'', PyInt 9), (''base_url'', PyStr ''https://hub.example'')],
                     PyDict [(''name'', PyStr ''mirror''), (''trust_rank'', PyInt 1), (''base_url'', PyStr ''https://mirror.example'')]]),
     (''entries'', PyList [PyDict [(''model_id'', PyStr ''m''), (''family'', PyStr ''qwen''), (''version'', PyStr ''3''), (''parameter_billions'', PyInt 8),
        (''quantizations'', PyList [PyStr ''q4'']),
        (''artifacts'', PyList [
           PyDict [(''artifact_id'', PyStr ''a''), (''source'', PyStr ''mirror''), (''url'', PyStr ''https://mirror.example/a''), (''size_bytes'', PyInt 1), (''sha256'', PyStr (replicate 64 CHR ''0''))],
           PyDict [(''artifact_id'', PyStr ''b''), (''source'', PyStr ''hub''), (''url'', PyStr ''https://elsewhere.example/b''), (''size_bytes'', PyInt 1), (''sha256'', PyStr (replicate 64 CHR ''0''))]])]])]"

text \<open>
  The address of an artifact need not be under the address of the source it names: an artifact on any host
  that names the most trusted source is ranked first.
\<close>

theorem source_does_not_bind_address:
  "ok_with (from_payload demo_payload) (\<lambda>c. ok_with (rank_artifacts ''m'' [] [] c) (\<lambda>r.
     List.map (\<lambda>a. (art_source a, url a)) r = [(''hub'', ''https://elsewhere.example/b''), (''mirror'', ''https://mirror.example/a'')]
     \<and> list_all (\<lambda>e. artifacts e \<noteq> []) (entries c) \<and> entries c \<noteq> []))"
  by code_simp

lemma demo_loaded:
  obtains c r where "from_payload demo_payload = Inr c" "rank_artifacts ''m'' [] [] c = Inr r" "entries c \<noteq> []" "list_all (\<lambda>e. artifacts e \<noteq> []) (entries c)"
proof -
  have "ok_with (from_payload demo_payload) (\<lambda>c. ok_with (rank_artifacts ''m'' [] [] c) (\<lambda>r.
     entries c \<noteq> [] \<and> list_all (\<lambda>e. artifacts e \<noteq> []) (entries c)))" by code_simp
  then show thesis using that by (elim ok_withE conjE)
qed

theorem loaded_catalog_is_trusted_witness:
  "\<exists>c e a. from_payload demo_payload = Inr c \<and> e \<in> set (entries c) \<and> a \<in> set (artifacts e) \<and> SHA256 (art_sha256 a) \<and> 0 < size_bytes a"
proof -
  obtain c where c: "from_payload demo_payload = Inr c" "entries c \<noteq> []" "list_all (\<lambda>e. artifacts e \<noteq> []) (entries c)" by (rule demo_loaded)
  then have e: "hd (entries c) \<in> set (entries c)" by simp
  with c(3) have "artifacts (hd (entries c)) \<noteq> []" by (simp add: list_all_iff)
  then have a: "hd (artifacts (hd (entries c))) \<in> set (artifacts (hd (entries c)))" by simp
  from loaded_catalog_is_trusted[OF c(1) e a] c(1) e a show ?thesis by blast
qed

theorem ranking_follows_trust_witness:
  "\<exists>c r. from_payload demo_payload = Inr c \<and> rank_artifacts ''m'' [] [] c = Inr r
     \<and> sorted (List.map (\<lambda>a. - dget_or (source_rank c) (art_source a) 0) r)"
proof -
  obtain c r where c: "from_payload demo_payload = Inr c" "rank_artifacts ''m'' [] [] c = Inr r" by (rule demo_loaded)
  from ranking_follows_trust[OF c(2)] c show ?thesis by blast
qed

theorem catalog_round_trip_witness:
  "\<exists>c. from_payload demo_payload = Inr c \<and> from_payload (catalog_dict c) = Inr c"
proof -
  obtain c where c: "from_payload demo_payload = Inr c" by (rule demo_loaded)
  from catalog_round_trip[OF c] c show ?thesis by blast
qed

end
