(* ===== verification/Resolver.thy ===== *)
theory Resolver
  imports Substrings Py_Json
begin

text \<open>
  The resolution of a model request in natural language, \<open>model_resolver.py\<close>: a small backtracking matcher for
  the regular expressions it uses, the parsing of a request, the score of a candidate and the choice.
\<close>

section \<open>Regular expressions\<close>

text \<open>
  \<open>ends r s i\<close>: where a match of \<open>r\<close> that begins at \<open>i\<close> may end, in the order in which the matcher tries
  (greedy repetition, alternatives from the left).
\<close>

datatype rx = One "char \<Rightarrow> bool" | Nothing | Edge | Seq rx rx | Alt rx rx | Many rx

definition word_char :: "char \<Rightarrow> bool" where
  "word_char c = (let n = of_char c :: int in (48 \<le> n \<and> n \<le> 57) \<or> (65 \<le> n \<and> n \<le> 90) \<or> (97 \<le> n \<and> n \<le> 122) \<or> n = 95
     \<or> n \<in> {170, 178, 179, 181, 185, 186, 188, 189, 190} \<or> (192 \<le> n \<and> n \<noteq> 215 \<and> n \<noteq> 247))"

definition edge :: "string \<Rightarrow> nat \<Rightarrow> bool" where
  "edge s i \<longleftrightarrow> (0 < i \<and> i \<le> length s \<and> word_char (s ! (i - 1))) \<noteq> (i < length s \<and> word_char (s ! i))"

fun repeat :: "nat \<Rightarrow> (nat \<Rightarrow> nat list) \<Rightarrow> nat \<Rightarrow> nat list" where
  "repeat 0 f i = [i]"
| "repeat (Suc k) f i = concat (List.map (\<lambda>j. if i < j then repeat k f j else []) (f i)) @ [i]"

text \<open>A repetition takes at most as many turns as there are characters.\<close>

primrec ends :: "rx \<Rightarrow> string \<Rightarrow> nat \<Rightarrow> nat list" where
  "ends (One p) s i = (if i < length s \<and> p (s ! i) then [Suc i] else [])"
| "ends Nothing s i = [i]"
| "ends Edge s i = (if edge s i then [i] else [])"
| "ends (Seq a b) s i = concat (List.map (ends b s) (ends a s i))"
| "ends (Alt a b) s i = ends a s i @ ends b s i"
| "ends (Many a) s i = repeat (length s) (ends a s) i"

definition first_some :: "('a \<Rightarrow> 'b option) \<Rightarrow> 'a list \<Rightarrow> 'b option" where
  "first_some f xs = (case List.map_filter f xs of [] \<Rightarrow> None | y # _ \<Rightarrow> Some y)"

text \<open>The text of the group \<open>g\<close> in the first match of \<open>pre (g) post\<close>.\<close>

definition search_group :: "rx \<Rightarrow> rx \<Rightarrow> rx \<Rightarrow> string \<Rightarrow> string option" where
  "search_group pre g post s =
     first_some (\<lambda>i. first_some (\<lambda>j. first_some (\<lambda>k. if ends post s k = [] then None else Some (drop j (take k s))) (ends g s j)) (ends pre s i))
       [0..<length s + 1]"

text \<open>A literal, without regard to case; a class of characters; \<open>+\<close> and \<open>?\<close>.\<close>

definition lit_rx :: "string \<Rightarrow> rx" where
  "lit_rx t = foldr (\<lambda>c. Seq (One (\<lambda>x. lower_char x = c))) t Nothing"

definition any_of :: "string \<Rightarrow> rx" where
  "any_of cs = One (\<lambda>x. lower_char x \<in> set cs)"

definition digit :: rx where
  "digit = any_of ''0123456789''"

definition plus :: "rx \<Rightarrow> rx" where
  "plus r = Seq r (Many r)"

definition optional :: "rx \<Rightarrow> rx" where
  "optional r = Alt r Nothing"

definition QUANT_RE :: rx where
  "QUANT_RE = Alt (Seq (lit_rx ''q'') (Seq digit (Many (Seq (lit_rx ''_'') (plus (any_of ''abcdefghijklmnopqrstuvwxyz0123456789''))))))
     (Alt (Seq (lit_rx ''int'') (any_of ''248'')) (Alt (lit_rx ''bf16'') (lit_rx ''fp16'')))"

definition NUMBER_RE :: rx where
  "NUMBER_RE = Seq (plus digit) (optional (Seq (lit_rx ''.'') (plus digit)))"

definition PARAM_TAIL :: rx where
  "PARAM_TAIL = Seq (Many (One is_space)) (Seq (lit_rx ''b'') Edge)"

definition VERSION_HEAD :: rx where
  "VERSION_HEAD = Seq Edge (Seq (Alt (lit_rx ''qwen'') (Alt (lit_rx ''llama'') (Alt (lit_rx ''mistral'') (lit_rx ''mixtral'')))) (optional (any_of ''-_ '')))"

definition VERSION_RE :: rx where
  "VERSION_RE = Seq (plus digit) (Many (Seq (lit_rx ''.'') (plus digit)))"

section \<open>Requests\<close>

definition MODEL_RESOLUTION_SCHEMA_V1 :: string where
  "MODEL_RESOLUTION_SCHEMA_V1 = ''simplicio-local.model-resolution/v1''"

definition FAMILY_ALIASES :: "(string \<times> string) list" where
  "FAMILY_ALIASES = [(''qwen'', ''qwen''), (''qwen2'', ''qwen''), (''qwen3'', ''qwen''), (''llama'', ''llama''), (''llama2'', ''llama''),
     (''llama3'', ''llama''), (''mistral'', ''mistral''), (''mixtral'', ''mistral'')]"

record model_request =
  raw :: string
  rq_family :: "string option"
  rq_version :: "string option"
  rq_parameters :: "pyfloat option"
  rq_quantization :: "string option"
  rq_workload :: "string option"
  explicit_id :: "string option"
  explicit_url :: "string option"

record candidate =
  model_id :: string
  family :: string
  version :: string
  parameters :: pyfloat
  quantization :: string
  source_url :: string
  size_bytes :: int
  backend_compatibility :: "string list"
  aliases :: "string list"
  workload_intents :: "string list"

definition upper_char :: "char \<Rightarrow> char" where
  "upper_char c = (let n = of_char c :: nat in if 97 \<le> n \<and> n \<le> 122 then char_of (n - 32) else c)"

definition given :: "string option \<Rightarrow> bool" where
  "given x \<longleftrightarrow> x \<noteq> None \<and> x \<noteq> Some []"

definition family_of_text :: "string \<Rightarrow> string option" where
  "family_of_text lowered = first_some (\<lambda>(a, f). if search_group Edge (lit_rx a) Edge lowered = None then None else Some f) FAMILY_ALIASES"

definition parse_model_request :: "string \<Rightarrow> string option \<Rightarrow> string option \<Rightarrow> model_request res" where
  "parse_model_request txt eid eurl =
     (let r = strip txt; lowered = lower r in
      if r = [] \<and> \<not> given eid \<and> \<not> given eurl then Inl (ValueError ''model request cannot be empty'')
      else rbind (case search_group Edge NUMBER_RE PARAM_TAIL r of None \<Rightarrow> Inr None
          | Some t \<Rightarrow> (case parse_float t of None \<Rightarrow> Inl (ValueError ''could not convert string to float'') | Some x \<Rightarrow> Inr (Some x))) (\<lambda>ps.
        Inr \<lparr>raw = r, rq_family = family_of_text lowered, rq_version = search_group VERSION_HEAD VERSION_RE Nothing r, rq_parameters = ps,
          rq_quantization = map_option (List.map upper_char) (search_group Edge QUANT_RE Edge r),
          rq_workload = find (\<lambda>w. py_in w lowered) [''coding'', ''reasoning'', ''chat'', ''embedding''],
          explicit_id = eid, explicit_url = eurl\<rparr>))"

section \<open>Resolution\<close>

definition score :: "model_request \<Rightarrow> candidate \<Rightarrow> int" where
  "score q c =
     (if given (rq_family q) then (if rq_family q = Some (family c) then 10 else - 100) else 0)
     + (if given (rq_version q) then (if rq_version q = Some (version c) then 8 else - 30) else 0)
     + (case rq_parameters q of None \<Rightarrow> 0 | Some x \<Rightarrow> if feq (parameters c) x then 8 else - 30)
     + (case rq_quantization q of None \<Rightarrow> 0 | Some z \<Rightarrow> if z = [] then 0 else if lower (quantization c) = lower z then 8 else - 20)
     + (case rq_workload q of None \<Rightarrow> 0 | Some w \<Rightarrow> if w \<noteq> [] \<and> w \<in> set (workload_intents c) then 2 else 0)
     + (if py_in (lower (model_id c)) (lower (raw q)) \<or> list_ex (\<lambda>a. py_in (lower a) (lower (raw q))) (aliases c) then 12 else 0)"

record resolution =
  status :: string
  request :: model_request
  selected :: "candidate option"
  alternatives :: "candidate list"
  explanation :: string

definition new_resolver :: "candidate list \<Rightarrow> candidate list res" where
  "new_resolver cs = (if cs = [] then Inl (ValueError ''at least one model candidate is required'') else Inr cs)"

definition explicit_match :: "model_request \<Rightarrow> candidate \<Rightarrow> bool" where
  "explicit_match q c \<longleftrightarrow> (given (explicit_id q) \<and> explicit_id q = Some (model_id c)) \<or> (given (explicit_url q) \<and> explicit_url q = Some (source_url c))"

definition scored :: "model_request \<Rightarrow> candidate list \<Rightarrow> (int \<times> candidate) list" where
  "scored q cs = sort_key (\<lambda>(s, c). (- s, model_id c)) (List.map (\<lambda>c. (score q c, c)) cs)"

definition pick :: "model_request \<Rightarrow> (int \<times> candidate) list \<Rightarrow> resolution" where
  "pick q xs = (case xs of
      [] \<Rightarrow> \<lparr>status = ''ambiguous'', request = q, selected = None, alternatives = [], explanation = []\<rparr>
    | (best_score, best) # rest \<Rightarrow>
        (let three = List.map snd (take 3 xs) in
        if \<not> given (rq_family q) \<or> best_score < 0
        then \<lparr>status = ''ambiguous'', request = q, selected = None, alternatives = three,
               explanation = ''Request is missing a supported family or has conflicting constraints''\<rparr>
        else if rest \<noteq> [] \<and> fst (hd rest) = best_score
        then \<lparr>status = ''ambiguous'', request = q, selected = None, alternatives = three,
               explanation = ''Multiple artifacts match equally; add version, size, or quantization''\<rparr>
        else if best_score < 10
        then \<lparr>status = ''unsupported'', request = q, selected = None, alternatives = three,
               explanation = ''No candidate satisfies the requested family and artifact constraints''\<rparr>
        else \<lparr>status = ''resolved'', request = q, selected = Some best, alternatives = List.map snd (take 2 rest),
               explanation = ''Resolved '' @ family best @ '' '' @ version best @ '' '' @ general 6 (parameters best) @ ''B ''
                 @ quantization best @ '' from '' @ source_url best\<rparr>))"

text \<open>A resolver has at least one candidate, so the first case of \<open>pick\<close> is never met.\<close>

definition resolve :: "candidate list \<Rightarrow> model_request \<Rightarrow> resolution" where
  "resolve cs q =
     (if given (explicit_id q) \<or> given (explicit_url q) then
        (case filter (explicit_match q) cs of
          [c] \<Rightarrow> \<lparr>status = ''resolved'', request = q, selected = Some c, alternatives = [],
                    explanation = ''Explicit model identity override matched exactly''\<rparr>
        | _ \<Rightarrow> \<lparr>status = ''unsupported'', request = q, selected = None, alternatives = take 3 cs,
                    explanation = ''Explicit model identity did not match the trusted candidate set''\<rparr>)
      else pick q (scored q cs))"

definition resolve_model :: "string \<Rightarrow> candidate list \<Rightarrow> string option \<Rightarrow> string option \<Rightarrow> resolution res" where
  "resolve_model txt cs eid eurl = rbind (new_resolver cs) (\<lambda>cs. rbind (parse_model_request txt eid eurl) (\<lambda>q. Inr (resolve cs q)))"

text \<open>\<open>as_dict\<close>: the attributes in the order of their declaration.\<close>

definition request_dict :: "model_request \<Rightarrow> pyval" where
  "request_dict q = PyDict [(''raw'', PyStr (raw q)), (''family'', py_opt_str (rq_family q)), (''version'', py_opt_str (rq_version q)),
     (''parameter_billions'', (case rq_parameters q of None \<Rightarrow> PyNone | Some x \<Rightarrow> PyFloat x)), (''quantization'', py_opt_str (rq_quantization q)),
     (''workload'', py_opt_str (rq_workload q)), (''explicit_id'', py_opt_str (explicit_id q)), (''explicit_url'', py_opt_str (explicit_url q))]"

definition candidate_dict :: "candidate \<Rightarrow> pyval" where
  "candidate_dict c = PyDict [(''model_id'', PyStr (model_id c)), (''family'', PyStr (family c)), (''version'', PyStr (version c)),
     (''parameter_billions'', PyFloat (parameters c)), (''quantization'', PyStr (quantization c)), (''source_url'', PyStr (source_url c)),
     (''size_bytes'', PyInt (size_bytes c)), (''backend_compatibility'', py_strs (backend_compatibility c)), (''aliases'', py_strs (aliases c)),
     (''workload_intents'', py_strs (workload_intents c))]"

definition resolution_dict :: "resolution \<Rightarrow> pyval" where
  "resolution_dict r = PyDict [(''schema'', PyStr MODEL_RESOLUTION_SCHEMA_V1), (''status'', PyStr (status r)), (''request'', request_dict (request r)),
     (''selected'', (case selected r of None \<Rightarrow> PyNone | Some c \<Rightarrow> candidate_dict c)),
     (''alternatives'', PyList (List.map candidate_dict (alternatives r))), (''explanation'', PyStr (explanation r))]"

section \<open>What is resolved\<close>

lemma score_family: "10 \<le> score q c \<Longrightarrow> given (rq_family q) \<Longrightarrow> rq_family q = Some (family c)"
  by (auto simp: score_def split: if_splits option.splits)

lemma scored_mset: "mset (scored q cs) = image_mset (\<lambda>c. (score q c, c)) (mset cs)"
  by (simp add: scored_def)

lemma choose_resolved:
  assumes "status (pick q xs) = ''resolved''"
  obtains s c rest where "xs = (s, c) # rest" "selected (pick q xs) = Some c" "given (rq_family q)" "10 \<le> s" "rest = [] \<or> fst (hd rest) \<noteq> s"
proof (cases xs)
  case (Cons x rest)
  then show thesis
    using assms by (cases x) (auto simp: pick_def Let_def split: if_splits intro: that)
qed (use assms in \<open>simp add: pick_def\<close>)

text \<open>The list is sorted by falling score; the first element is the only one with its score.\<close>

lemma sorted_head_beats:
  assumes "sorted (List.map (\<lambda>(s, c). (- s, f c)) ((s0, c0) # rest))" and "rest = [] \<or> fst (hd rest) \<noteq> s0" and "(s, c) \<in> set rest"
  shows "s < (s0 :: int)"
proof -
  have le: "t \<le> s0" if "(t, d) \<in> set rest" for t d using assms(1) that by (force simp: less_eq_prod_def)
  from assms(3) obtain t d rest' where rest: "rest = (t, d) # rest'" by (cases rest) auto
  have "t < s0" using le[of t d] assms(2) by (auto simp: rest)
  moreover have "s \<le> t" using assms(1,3) by (force simp: rest less_eq_prod_def)
  ultimately show ?thesis by simp
qed

lemma choose_best:
  assumes "status (pick q (scored q cs)) = ''resolved''"
  shows "\<exists>c. selected (pick q (scored q cs)) = Some c \<and> c \<in> set cs \<and> rq_family q = Some (family c) \<and> 10 \<le> score q c
    \<and> (\<forall>d \<in># mset cs - {#c#}. score q d < score q c)"
proof -
  from assms obtain s c rest where x: "scored q cs = (s, c) # rest" and sel: "selected (pick q (scored q cs)) = Some c"
    and fam: "given (rq_family q)" and ten: "10 \<le> s" and rest: "rest = [] \<or> fst (hd rest) \<noteq> s" by (rule choose_resolved)
  have all: "image_mset (\<lambda>c. (score q c, c)) (mset cs) = add_mset (s, c) (mset rest)" using scored_mset[of q cs] x by simp
  then have "(s, c) \<in># image_mset (\<lambda>c. (score q c, c)) (mset cs)" by simp
  then have c: "c \<in> set cs" "s = score q c" by auto
  have "sorted (List.map (\<lambda>(s, c). (- s, model_id c)) (scored q cs))" by (simp add: scored_def)
  then have beats: "t < s" if "(t, d) \<in> set rest" for t d using sorted_head_beats[OF _ rest that] x by simp
  have "mset rest = image_mset (\<lambda>c. (score q c, c)) (mset cs - {#c#})"
    using all c by (simp add: image_mset_Diff)
  then have "(score q d, d) \<in># mset rest" if "d \<in># mset cs - {#c#}" for d using that by simp
  with beats c(2) have "\<forall>d \<in># mset cs - {#c#}. score q d < score q c" by (metis set_mset_mset)
  moreover have "rq_family q = Some (family c)" "10 \<le> score q c" using score_family[of q c] fam ten c(2) by simp_all
  ultimately show ?thesis using sel c(1) by blast
qed

text \<open>
  C33: a resolved request names one candidate of the trusted set: the only one that matches an explicit identity;
  otherwise one of the requested family whose score is at least 10 and greater than that of every other candidate.
\<close>

theorem resolved_candidate_is_best:
  assumes "status (resolve cs q) = ''resolved''"
  shows "\<exists>c. selected (resolve cs q) = Some c \<and> c \<in> set cs
    \<and> (if given (explicit_id q) \<or> given (explicit_url q) then filter (explicit_match q) cs = [c]
       else rq_family q = Some (family c) \<and> 10 \<le> score q c \<and> (\<forall>d \<in># mset cs - {#c#}. score q d < score q c))"
proof (cases "given (explicit_id q) \<or> given (explicit_url q)")
  case True
  with assms obtain c where c: "filter (explicit_match q) cs = [c]" by (auto simp: resolve_def split: list.splits)
  then have "c \<in> set (filter (explicit_match q) cs)" by simp
  then have "c \<in> set cs" by simp
  with c True show ?thesis by (simp add: resolve_def)
next
  case False
  then have r: "resolve cs q = pick q (scored q cs)" by (simp add: resolve_def)
  from choose_best[of q cs] assms False show ?thesis unfolding r by simp
qed

definition demo_text :: string where
  "demo_text = ''qwen-2 8b q4 chat''"

definition demo_q :: model_request where
  "demo_q = \<lparr>raw = ''qwen-2 8b q4 chat'', rq_family = Some ''qwen'', rq_version = Some ''2'', rq_parameters = Some (Fin 8), rq_quantization = Some ''Q4'',
     rq_workload = Some ''chat'', explicit_id = None, explicit_url = None\<rparr>"

text \<open>What the expressions find in a request.\<close>

lemma demo_found:
  "search_group Edge NUMBER_RE PARAM_TAIL ''qwen-2 8b q4 chat'' = Some ''8''" (is ?number)
  "search_group VERSION_HEAD VERSION_RE Nothing ''qwen-2 8b q4 chat'' = Some ''2''" (is ?version)
  "search_group Edge QUANT_RE Edge ''qwen-2 8b q4 chat'' = Some ''q4''" (is ?quant)
  "family_of_text ''qwen-2 8b q4 chat'' = Some ''qwen''" (is ?fam)
proof -
  show ?number by code_simp
  show ?version by code_simp
  show ?quant by code_simp
  show ?fam by code_simp
qed

lemma request_parses: "parse_model_request demo_text None None = Inr demo_q"
proof -
  have plain: "strip demo_text = ''qwen-2 8b q4 chat''" "lower ''qwen-2 8b q4 chat'' = ''qwen-2 8b q4 chat''" "parse_float ''8'' = Some (Fin 8)"
    "find (\<lambda>w. py_in w ''qwen-2 8b q4 chat'') [''coding'', ''reasoning'', ''chat'', ''embedding''] = Some ''chat''" "List.map upper_char ''q4'' = ''Q4''"
    by code_simp+
  have "''qwen-2 8b q4 chat'' \<noteq> ([] :: string)" by simp
  then show ?thesis
    unfolding parse_model_request_def Let_def plain demo_found demo_q_def
    by (simp only: simp_thms if_False option.case rbind.simps plain option.map)
qed

definition demo_candidate :: "string \<Rightarrow> candidate" where
  "demo_candidate v = \<lparr>model_id = ''q'', family = ''qwen'', version = v, parameters = Fin 8, quantization = ''Q4'', source_url = ''u'',
     size_bytes = 1, backend_compatibility = [], aliases = [], workload_intents = [''chat'']\<rparr>"

lemma pick_one:
  assumes "given (rq_family q)" and "10 \<le> score q c" and "\<not> given (explicit_id q)" and "\<not> given (explicit_url q)"
  shows "status (resolve [c] q) = ''resolved''" "selected (resolve [c] q) = Some c" "request (resolve [c] q) = q"
  using assms by (simp_all add: resolve_def pick_def scored_def)

lemma demo_scores: "10 \<le> score demo_q (demo_candidate ''2'')" "10 \<le> score demo_q (demo_candidate ''1'')"
  by code_simp+

lemma demo_given: "given (rq_family demo_q)" "\<not> given (explicit_id demo_q)" "\<not> given (explicit_url demo_q)"
  by (simp_all add: given_def demo_q_def)

theorem resolved_candidate_is_best_witness:
  "parse_model_request demo_text None None = Inr demo_q
     \<and> (\<exists>c. selected (resolve [demo_candidate ''2''] demo_q) = Some c \<and> rq_family demo_q = Some (family c))"
proof -
  note r = pick_one[OF demo_given(1) demo_scores(1) demo_given(2,3)]
  from resolved_candidate_is_best[OF r(1)] demo_given r(2) request_parses show ?thesis by simp
qed

text \<open>
  Although a version that does not match costs 30 points, every other match together makes up for it: a
  request for version 2 is resolved to a candidate of version 1.
\<close>

theorem other_version_is_resolved:
  "\<exists>r. resolve_model demo_text [demo_candidate ''1''] None None = Inr r \<and> status r = ''resolved''
     \<and> rq_version (request r) = Some ''2'' \<and> map_option version (selected r) = Some ''1''"
proof -
  let ?r = "resolve [demo_candidate ''1''] demo_q"
  note r = pick_one[OF demo_given(1) demo_scores(2) demo_given(2,3)]
  have "rq_version (request ?r) = Some ''2''" "map_option version (selected ?r) = Some ''1''"
    by (simp_all only: r) (simp_all add: demo_q_def demo_candidate_def)
  moreover note r(1)
  moreover have "resolve_model demo_text [demo_candidate ''1''] None None = Inr ?r"
    by (simp add: resolve_model_def new_resolver_def request_parses)
  ultimately show ?thesis by blast
qed

end
