(* ===== verification/Distribution.thy ===== *)
theory Distribution
  imports Fs_Paths Interfaces
begin

text \<open>
  The installer of \<open>distribution.py\<close> over a file tree: package manifests, verification, side-by-side
  installation through a staging directory, the active version, rollback and removal.  The package lies
  somewhere in the same tree; the name of the staging directory and the host's platform are parameters.
\<close>

section \<open>Trees of files\<close>

definition exists_at :: "path \<Rightarrow> file_tree \<Rightarrow> bool" where
  "exists_at p fs \<longleftrightarrow> resolve p \<in> set (dirs fs) \<or> file_at fs p \<noteq> None"

definition remove_tree :: "path \<Rightarrow> file_tree \<Rightarrow> file_tree" where
  "remove_tree p fs = (let r = resolve p in
     fs\<lparr>files := filter (\<lambda>(k, c). \<not> prefix r k) (files fs), dirs := filter (\<lambda>d. \<not> prefix r d) (dirs fs)\<rparr>)"

text \<open>\<open>shutil.rmtree\<close> of something that exists.\<close>

definition rmtree :: "path \<Rightarrow> file_tree \<Rightarrow> unit res \<times> file_tree" where
  "rmtree p fs = (if resolve p \<in> set (dirs fs) then (Inr (), remove_tree p fs) else (Inl (OSError ''Not a directory''), fs))"

text \<open>\<open>os.replace\<close> of a directory onto a name that is free.\<close>

definition move_tree :: "path \<Rightarrow> path \<Rightarrow> file_tree \<Rightarrow> unit res \<times> file_tree" where
  "move_tree s t fs = (let a = resolve s; b = resolve t; to = (\<lambda>k. b @ drop (length a) k) in
     if a \<notin> set (dirs fs) then (Inl (FileNotFoundError ''staging''), fs)
     else (Inr (), fs\<lparr>files := List.map (\<lambda>(k, c). (to k, c)) (filter (\<lambda>(k, c). prefix a k) (files fs)) @ filter (\<lambda>(k, c). \<not> prefix a k) (files fs),
        dirs := List.map to (filter (prefix a) (dirs fs)) @ filter (\<lambda>d. \<not> prefix a d) (dirs fs)\<rparr>))"

text \<open>\<open>shutil.copy2\<close>: into a directory under the name of the source.\<close>

definition copy_file :: "path \<Rightarrow> path \<Rightarrow> file_tree \<Rightarrow> unit res \<times> file_tree" where
  "copy_file s t fs = (case file_at fs s of
      None \<Rightarrow> (Inl (FileNotFoundError ''copy''), fs)
    | Some c \<Rightarrow> place (if resolve t \<in> set (dirs fs) then t @ [last s] else t) c fs)"

section \<open>Manifests\<close>

record package_manifest =
  version :: string
  protocol_min :: int
  protocol_max :: int
  platform :: string
  architecture :: string
  listed :: "(string \<times> string) list"
  license_name :: string
  notice :: string
  sbom :: string
  provenance :: string

definition manifest_dict :: "package_manifest \<Rightarrow> (string \<times> pyval) list" where
  "manifest_dict m = [(''version'', PyStr (version m)), (''protocol_min'', PyInt (protocol_min m)), (''protocol_max'', PyInt (protocol_max m)),
     (''platform'', PyStr (platform m)), (''architecture'', PyStr (architecture m)),
     (''files'', PyDict (List.map (\<lambda>(k, d). (k, PyStr d)) (listed m))), (''license'', PyStr (license_name m)), (''notice'', PyStr (notice m)),
     (''sbom'', PyStr (sbom m)), (''provenance'', PyStr (provenance m))]"

text \<open>\<open>PackageManifest(**data)\<close>: exactly the fields, of the declared types.\<close>

definition read_manifest :: "pyval \<Rightarrow> package_manifest res" where
  "read_manifest v =
     (let bad = TypeError ''PackageManifest''; str = (\<lambda>d k. opt_res bad (py_string (jget d k))) in
      rbind (opt_res bad (py_dict v)) (\<lambda>d.
      if set (dkeys d) \<noteq> {''version'', ''protocol_min'', ''protocol_max'', ''platform'', ''architecture'', ''files'', ''license'', ''notice'', ''sbom'', ''provenance''}
      then Inl bad
      else rbind (str d ''version'') (\<lambda>ver. rbind (opt_res bad (py_int (jget d ''protocol_min''))) (\<lambda>lo. rbind (opt_res bad (py_int (jget d ''protocol_max''))) (\<lambda>hi.
        rbind (str d ''platform'') (\<lambda>pf. rbind (str d ''architecture'') (\<lambda>ar.
        rbind (opt_res bad (py_dict (jget d ''files''))) (\<lambda>fl. rbind (map_res (\<lambda>(k, x). rbind (opt_res bad (py_string x)) (\<lambda>s. Inr (k, s))) fl) (\<lambda>fl.
        rbind (str d ''license'') (\<lambda>li. rbind (str d ''notice'') (\<lambda>no. rbind (str d ''sbom'') (\<lambda>sb. rbind (str d ''provenance'') (\<lambda>pr.
          Inr \<lparr>version = ver, protocol_min = lo, protocol_max = hi, platform = pf, architecture = ar, listed = fl, license_name = li, notice = no,
            sbom = sb, provenance = pr\<rparr>)))))))))))))"

text \<open>The host: its platform and architecture in lower case, and the bytes of a file that holds JSON.\<close>

record dist_host =
  host_platform :: string
  host_architecture :: string
  doc_bytes :: "pyval \<Rightarrow> byte list"
  blob_value :: "byte list \<Rightarrow> string + pyval"

definition digest_at :: "dist_host \<Rightarrow> content \<Rightarrow> string" where
  "digest_at h c = sha256_hex (case c of Blob b \<Rightarrow> b | Doc v \<Rightarrow> doc_bytes h v)"

definition json_at :: "dist_host \<Rightarrow> path \<Rightarrow> file_tree \<Rightarrow> pyval res" where
  "json_at h p fs = (case file_at fs p of
      None \<Rightarrow> Inl (FileNotFoundError ''json'')
    | Some (Doc v) \<Rightarrow> Inr v
    | Some (Blob b) \<Rightarrow> (case blob_value h b of Inl e \<Rightarrow> Inl (ValueError e) | Inr v \<Rightarrow> Inr v))"

text \<open>Every file of the package but a \<open>manifest.json\<close>, in the order of its path, with its digest.\<close>

definition create_manifest :: "dist_host \<Rightarrow> path \<Rightarrow> string \<Rightarrow> int \<Rightarrow> int \<Rightarrow> string \<Rightarrow> string \<Rightarrow> string \<Rightarrow> string \<Rightarrow> file_tree \<Rightarrow> package_manifest" where
  "create_manifest h r ver lo hi li no sb pr fs =
     \<lparr>version = ver, protocol_min = lo, protocol_max = hi, platform = host_platform h, architecture = host_architecture h,
       listed = List.map (\<lambda>(k, c). (str_join ''/'' (drop (length r) k), digest_at h c))
         (sort_key fst (filter (\<lambda>(k, c). strict_prefix r k \<and> last k \<noteq> ''manifest.json'') (files fs))),
       license_name = li, notice = no, sbom = sb, provenance = pr\<rparr>"

section \<open>The installer\<close>

record installer =
  root_dir :: path
  models_root :: path

definition versions :: "installer \<Rightarrow> path" where
  "versions i = root_dir i @ [''versions'']"

definition active_file :: "installer \<Rightarrow> path" where
  "active_file i = root_dir i @ [''active.json'']"

definition new_installer :: "path \<Rightarrow> path option \<Rightarrow> file_tree \<Rightarrow> installer res \<times> file_tree" where
  "new_installer d models fs = (let i = \<lparr>root_dir = d, models_root = (case models of Some m \<Rightarrow> m | None \<Rightarrow> d @ [''models''])\<rparr> in
     and_then (make_dirs (versions i) fs) (\<lambda>_ fs. and_then (make_dirs (models_root i) fs) (\<lambda>_ fs. (Inr i, fs))))"

fun check_files :: "dist_host \<Rightarrow> path \<Rightarrow> file_tree \<Rightarrow> (string \<times> string) list \<Rightarrow> unit res" where
  "check_files h pk fs [] = Inr ()"
| "check_files h pk fs ((r, d) # xs) = (case file_at fs (join_path pk r) of
      None \<Rightarrow> Inl (RuntimeError (''package checksum failed: '' @ r))
    | Some c \<Rightarrow> if digest_at h c \<noteq> d then Inl (RuntimeError (''package checksum failed: '' @ r)) else check_files h pk fs xs)"

definition verify_package :: "dist_host \<Rightarrow> path \<Rightarrow> package_manifest \<Rightarrow> file_tree \<Rightarrow> unit res" where
  "verify_package h pk m fs =
     (if platform m \<noteq> host_platform h \<or> architecture m \<noteq> host_architecture h
      then Inl (RuntimeError ''package target does not match current platform/architecture'')
      else rbind (check_files h pk fs (listed m)) (\<lambda>_.
        case find (\<lambda>n. file_at fs (join_path pk n) = None) [license_name m, notice m, sbom m, provenance m] of
          Some n \<Rightarrow> Inl (RuntimeError (''package metadata is missing: '' @ n))
        | None \<Rightarrow> Inr ()))"

fun copy_listed :: "path \<Rightarrow> path \<Rightarrow> (string \<times> string) list \<Rightarrow> file_tree \<Rightarrow> unit res \<times> file_tree" where
  "copy_listed pk st [] fs = (Inr (), fs)"
| "copy_listed pk st ((r, d) # xs) fs =
     and_then (make_dirs (butlast (join_path st r)) fs) (\<lambda>_ fs.
     and_then (copy_file (join_path pk r) (join_path st r) fs) (\<lambda>_ fs. copy_listed pk st xs fs))"

definition write_active :: "installer \<Rightarrow> string \<Rightarrow> file_tree \<Rightarrow> unit res \<times> file_tree" where
  "write_active i v fs = place (active_file i) (Doc (PyDict [(''version'', PyStr v)])) fs"

text \<open>The staging directory is removed at the end if it is still there.\<close>

definition drop_staging :: "path \<Rightarrow> 'a res \<times> file_tree \<Rightarrow> 'a res \<times> file_tree" where
  "drop_staging st r = (case r of (x, fs) \<Rightarrow> (x, if exists_at st fs then remove_tree st fs else fs))"

definition swap_in :: "installer \<Rightarrow> path \<Rightarrow> path \<Rightarrow> path \<Rightarrow> package_manifest \<Rightarrow> file_tree \<Rightarrow> package_manifest res \<times> file_tree" where
  "swap_in i pk st target m fs =
     drop_staging st
       (and_then (make_dirs st fs) (\<lambda>_ fs.
        and_then (copy_listed pk st (listed m) fs) (\<lambda>_ fs.
        and_then (place (st @ [''manifest.json'']) (Doc (PyDict (manifest_dict m))) fs) (\<lambda>_ fs.
        and_then (if exists_at target fs then rmtree target fs else (Inr (), fs)) (\<lambda>_ fs.
        and_then (move_tree st target fs) (\<lambda>_ fs.
        and_then (write_active i (version m) fs) (\<lambda>_ fs. (Inr m, fs))))))))"

definition checked_manifest :: "dist_host \<Rightarrow> path \<Rightarrow> int \<Rightarrow> file_tree \<Rightarrow> package_manifest res" where
  "checked_manifest h pk protocol fs =
     rbind (json_at h (pk @ [''manifest.json'']) fs) (\<lambda>v. rbind (read_manifest v) (\<lambda>m.
        if protocol < protocol_min m \<or> protocol_max m < protocol then Inl (RuntimeError ''Local/Runtime protocol version is incompatible'')
        else rbind (verify_package h pk m fs) (\<lambda>_. Inr m)))"

definition install :: "dist_host \<Rightarrow> string \<Rightarrow> installer \<Rightarrow> path \<Rightarrow> int \<Rightarrow> file_tree \<Rightarrow> package_manifest res \<times> file_tree" where
  "install h tmp i pk protocol fs =
     (case checked_manifest h pk protocol fs of
       Inl e \<Rightarrow> (Inl e, fs)
     | Inr m \<Rightarrow>
         (let target = join_path (versions i) (version m); st = join_path (versions i) (version m @ ''.'' @ tmp) in
          if resolve (butlast st) \<notin> set (dirs fs) then (Inl (FileNotFoundError ''staging''), fs)
          else swap_in i pk st target m fs))"

definition active_version :: "dist_host \<Rightarrow> installer \<Rightarrow> file_tree \<Rightarrow> pyval option res" where
  "active_version h i fs =
     (if file_at fs (active_file i) = None then Inr None
      else rbind (json_at h (active_file i) fs) (\<lambda>v. rbind (opt_res (TypeError ''version'') (py_dict v)) (\<lambda>d.
        rbind (opt_res (KeyError ''version'') (dget d ''version'')) (\<lambda>x. Inr (Some x)))))"

definition installed_versions :: "installer \<Rightarrow> file_tree \<Rightarrow> string list" where
  "installed_versions i fs = sort_key id (remdups (List.map last (filter (\<lambda>d. d \<noteq> [] \<and> butlast d = versions i) (dirs fs))))"

definition rollback :: "dist_host \<Rightarrow> installer \<Rightarrow> file_tree \<Rightarrow> string res \<times> file_tree" where
  "rollback h i fs = (case active_version h i fs of
      Inl e \<Rightarrow> (Inl e, fs)
    | Inr current \<Rightarrow> (case filter (\<lambda>v. Some (PyStr v) \<noteq> current) (installed_versions i fs) of
          [] \<Rightarrow> (Inl (RuntimeError ''no previous installed version is available''), fs)
        | previous \<Rightarrow> and_then (write_active i (last previous) fs) (\<lambda>_ fs. (Inr (last previous), fs))))"

definition uninstall :: "installer \<Rightarrow> file_tree \<Rightarrow> file_tree" where
  "uninstall i fs = unlink (active_file i) (fold (\<lambda>v. remove_tree (versions i @ [v])) (installed_versions i fs) fs)"

record service_plan =
  service_mode :: string
  command :: "string list"
  restart_budget :: int
  log_policy :: string

definition plan_service :: "bool \<Rightarrow> string \<Rightarrow> service_plan" where
  "plan_service standalone binary = \<lparr>service_mode = (if standalone then ''standalone'' else ''child-process''),
     command = [binary, ''daemon''], restart_budget = 3, log_policy = ''stderr-bounded''\<rparr>"

section \<open>What an installation leaves alone\<close>

text \<open>A relative name that stays in its directory; a manifest whose version and names are such.\<close>

definition safe_rel :: "string \<Rightarrow> bool" where
  "safe_rel r \<longleftrightarrow> components r \<noteq> [] \<and> ''..'' \<notin> set (components r) \<and> \<not> starts_with ''/'' r"

definition safe_manifest :: "package_manifest \<Rightarrow> bool" where
  "safe_manifest m \<longleftrightarrow> plain (version m) \<and> list_all (\<lambda>(r, d). safe_rel r) (listed m)"

definition clean :: "path \<Rightarrow> bool" where
  "clean p \<longleftrightarrow> ''..'' \<notin> set p"

text \<open>Files outside \<open>versions\<close> and other than the active mark are as they were.\<close>

definition kept :: "installer \<Rightarrow> file_tree \<Rightarrow> file_tree \<Rightarrow> bool" where
  "kept i fs fs' \<longleftrightarrow> (\<forall>p. \<not> prefix (versions i) p \<and> p \<noteq> active_file i \<longrightarrow> dget (files fs') p = dget (files fs) p)"

named_theorems kept_intro \<open>operations that keep the user's files\<close>

lemma kept_and_then [kept_intro]:
  assumes "kept i fs (snd r)" and "\<And>x s. kept i fs s \<Longrightarrow> kept i fs (snd (f x s))"
  shows "kept i fs (snd (and_then r f))"
  using assms by (cases r; cases "fst r") (auto simp: and_then_def)

lemma kept_refl: "kept i fs fs"
  by (simp add: kept_def)

lemma kept_make_dirs [kept_intro]: "kept i fs s \<Longrightarrow> kept i fs (snd (make_dirs p s))"
  using make_dirs_files[of p s "fst (make_dirs p s)" "snd (make_dirs p s)"] by (simp add: kept_def)

lemma kept_place: "kept i fs s \<Longrightarrow> prefix (versions i) (resolve p) \<or> resolve p = active_file i \<Longrightarrow> kept i fs (snd (place p c s))"
  by (auto simp: kept_def place_def map_of_dput)

lemma dget_filter_key: "dget (filter (\<lambda>(k, c). P k) xs) q = (if P q then dget xs q else None)"
  by (induction xs) auto

lemma kept_remove_tree [kept_intro]: "kept i fs s \<Longrightarrow> prefix (versions i) (resolve p) \<Longrightarrow> kept i fs (remove_tree p s)"
  by (auto simp: kept_def remove_tree_def Let_def dget_filter_key dest: prefix_order.trans)

lemma dget_moved_out:
  "\<not> prefix b q \<Longrightarrow> dget (List.map (\<lambda>(k, c). (b @ drop n k, c)) xs) q = None"
  by (induction xs) (auto simp: prefix_def)

lemma kept_move_tree: "kept i fs s \<Longrightarrow> prefix (versions i) (resolve a) \<Longrightarrow> prefix (versions i) (resolve b) \<Longrightarrow> kept i fs (snd (move_tree a b s))"
  unfolding kept_def move_tree_def Let_def
  by (auto simp: map_add_def dget_filter_key dget_moved_out split: option.split dest: prefix_order.trans)

lemma resolve_under: "clean r \<Longrightarrow> ''..'' \<notin> set q \<Longrightarrow> resolve (r @ q) = r @ q"
  by (auto simp: clean_def intro: resolve_clean)

lemma versions_clean: "clean (root_dir i) \<Longrightarrow> clean (versions i) \<and> resolve (versions i) = versions i \<and> resolve (active_file i) = active_file i"
  by (auto simp: versions_def active_file_def clean_def intro!: resolve_clean)

lemma safe_join: "safe_rel r \<Longrightarrow> join_path p r = p @ components r"
  by (simp add: join_path_def safe_rel_def)

lemma copied_under:
  assumes "clean (versions i)" and "clean st" and "prefix (versions i) st" and "list_all (\<lambda>(r, d). safe_rel r) xs" and "kept i fs s"
  shows "kept i fs (snd (copy_listed pk st xs s))"
  using assms(4,5)
proof (induction xs arbitrary: s)
  case (Cons x xs)
  obtain r d where x: "x = (r, d)" by (rule prod.exhaust)
  with Cons.prems have r: "safe_rel r" by simp
  then have "last (components r) \<noteq> ''..''" by (auto simp: safe_rel_def dest: last_in_set)
  then have l: "last (join_path pk r) \<noteq> ''..''" using r by (simp add: safe_join[OF r]) (simp add: safe_rel_def)
  have under: "prefix (versions i) (resolve (st @ components r))" "prefix (versions i) (resolve (st @ components r @ [last (join_path pk r)]))"
    using assms(2,3) r l by (auto simp: safe_rel_def resolve_under)
  have "kept i fs (snd (copy_file (join_path pk r) (join_path st r) s'))" if "kept i fs s'" for s'
    using that under by (auto simp: copy_file_def safe_join[OF r] append_assoc intro!: kept_place split: option.split)
  then show ?case using Cons.prems Cons.IH unfolding x by (auto intro!: kept_intro)
qed simp

text \<open>The paths of an installation of a safe manifest.\<close>

lemma safe_paths:
  assumes "clean (root_dir i)" and "plain v" and "CHR ''/'' \<notin> set tmp" and "tmp \<noteq> []"
  shows "join_path (versions i) v = versions i @ [v]" "join_path (versions i) (v @ ''.'' @ tmp) = versions i @ [v @ ''.'' @ tmp]"
    "resolve (versions i @ [v]) = versions i @ [v]" "clean (versions i @ [v @ ''.'' @ tmp])" "resolve (versions i @ [v @ ''.'' @ tmp]) = versions i @ [v @ ''.'' @ tmp]"
    "v \<noteq> v @ ''.'' @ tmp"
proof -
  note c = versions_clean[OF assms(1)]
  have st: "plain (v @ ''.'' @ tmp)" using assms(2-4) by (cases v; cases tmp) (auto simp: plain_def append_eq_Cons_conv)
  then show "join_path (versions i) v = versions i @ [v]" "join_path (versions i) (v @ ''.'' @ tmp) = versions i @ [v @ ''.'' @ tmp]"
    using assms(2) by (simp_all only: join_plain)
  show "clean (versions i @ [v @ ''.'' @ tmp])" using c st by (auto simp: clean_def plain_def)
  show "resolve (versions i @ [v]) = versions i @ [v]" "resolve (versions i @ [v @ ''.'' @ tmp]) = versions i @ [v @ ''.'' @ tmp]"
    using c assms(2) st by (auto simp: clean_def plain_def intro!: resolve_clean)
  show "v \<noteq> v @ ''.'' @ tmp" by simp
qed

text \<open>The manifest an installation goes by.\<close>

definition manifest_at :: "dist_host \<Rightarrow> path \<Rightarrow> file_tree \<Rightarrow> package_manifest res" where
  "manifest_at h pk fs = rbind (json_at h (pk @ [''manifest.json'']) fs) read_manifest"

lemma install_stages:
  assumes "install h tmp i pk protocol fs = (x, fs')"
  obtains (refused) e where "fs' = fs" "x = Inl e"
  | (staged) m where "manifest_at h pk fs = Inr m" "verify_package h pk m fs = Inr ()"
      "(x, fs') = swap_in i pk (join_path (versions i) (version m @ ''.'' @ tmp)) (join_path (versions i) (version m)) m fs"
proof (cases "checked_manifest h pk protocol fs")
  case (Inl e)
  with assms have "x = Inl e \<and> fs' = fs" by (simp add: install_def)
  with refused show thesis by blast
next
  case (Inr m)
  then have m: "manifest_at h pk fs = Inr m" "verify_package h pk m fs = Inr ()" by (auto simp: checked_manifest_def manifest_at_def split: if_splits)
  show thesis
  proof (cases "resolve (butlast (join_path (versions i) (version m @ ''.'' @ tmp))) \<in> set (dirs fs)")
    case True
    with Inr assms have "(x, fs') = swap_in i pk (join_path (versions i) (version m @ ''.'' @ tmp)) (join_path (versions i) (version m)) m fs"
      by (simp add: install_def Let_def)
    then show thesis by (rule staged[OF m])
  next
    case False
    with Inr assms have "x = Inl (FileNotFoundError ''staging'') \<and> fs' = fs" by (simp add: install_def Let_def)
    with refused show thesis by blast
  qed
qed

lemma kept_if [kept_intro]: "(b \<Longrightarrow> kept i fs (snd r)) \<Longrightarrow> (\<not> b \<Longrightarrow> kept i fs (snd r')) \<Longrightarrow> kept i fs (snd (if b then r else r'))"
  by simp

lemma kept_drop_staging: "kept i fs (snd r) \<Longrightarrow> prefix (versions i) (resolve st) \<Longrightarrow> kept i fs (snd (drop_staging st r))"
  by (cases r) (simp add: drop_staging_def kept_remove_tree)

lemma kept_rmtree: "kept i fs s \<Longrightarrow> prefix (versions i) (resolve p) \<Longrightarrow> kept i fs (snd (rmtree p s))"
  by (simp add: rmtree_def kept_remove_tree)

lemma kept_swap_in:
  assumes c: "clean (versions i)" "resolve (active_file i) = active_file i"
    and st: "clean st" "prefix (versions i) st" and target: "prefix (versions i) (resolve target)"
    and xs: "list_all (\<lambda>(r, d). safe_rel r) (listed m)"
  shows "kept i fs (snd (swap_in i pk st target m fs))"
proof -
  have r: "resolve st = st" "resolve (st @ [''manifest.json'']) = st @ [''manifest.json'']"
    using resolve_under[OF st(1), of "[]"] resolve_under[OF st(1), of "[''manifest.json'']"] by simp_all
  have p: "prefix (versions i) (resolve st)" "prefix (versions i) (resolve (st @ [''manifest.json'']))"
    using st(2) by (simp_all only: r prefix_prefix)
  show ?thesis
    unfolding write_active_def swap_in_def
    by (intro kept_drop_staging kept_intro kept_refl copied_under[OF c(1) st xs] kept_place kept_rmtree kept_move_tree disjI1[OF p(2)]
        disjI2[OF c(2)] p(1) target) simp_all
qed

text \<open>
  C34: an installation, whether it succeeds or fails at any step, touches only the installed versions and the
  active mark, provided the version and the listed names of the manifest stay in their directories.
\<close>

theorem installation_keeps_user_files:
  assumes "install h tmp i pk protocol fs = (x, fs')" and "clean (root_dir i)" and "CHR ''/'' \<notin> set tmp" and "tmp \<noteq> []"
    and "\<And>m. manifest_at h pk fs = Inr m \<Longrightarrow> safe_manifest m"
    and "\<not> prefix (versions i) p" and "p \<noteq> active_file i"
  shows "dget (files fs') p = dget (files fs) p"
  using assms(1)
proof (cases rule: install_stages)
  case (staged m)
  with assms(5) have m: "plain (version m)" "list_all (\<lambda>(r, d). safe_rel r) (listed m)" by (auto simp: safe_manifest_def)
  note path = safe_paths[OF assms(2) m(1) assms(3,4)]
  note c = versions_clean[OF assms(2)]
  have "kept i fs (snd (x, fs'))"
    unfolding staged(3) path(1,2)
    by (rule kept_swap_in[OF _ _ path(4) _ _ m(2)]) (simp_all only: c path(3) prefix_prefix prefix_order.refl prefixI[OF refl])
  then show ?thesis using assms(6,7) by (simp add: kept_def)
qed simp

section \<open>What an installation leaves behind\<close>

text \<open>The staging directory is new; no file of the tree lies below another file.\<close>

definition fresh :: "path \<Rightarrow> file_tree \<Rightarrow> bool" where
  "fresh st fs \<longleftrightarrow> list_all (\<lambda>k. \<not> prefix st k) (dkeys (files fs) @ dirs fs)"

definition files_are_leaves :: "file_tree \<Rightarrow> bool" where
  "files_are_leaves fs \<longleftrightarrow> list_all (\<lambda>k. list_all (\<lambda>k'. \<not> strict_prefix k k') (dkeys (files fs))) (dkeys (files fs))"

lemma fresh_none: "fresh st fs \<Longrightarrow> prefix st q \<Longrightarrow> dget (files fs) q = None"
  by (auto simp: fresh_def list_all_iff map_of_eq_None_iff)

lemma leaves_no_prefix: "files_are_leaves fs \<Longrightarrow> dget (files fs) q = Some c \<Longrightarrow> dget (files fs) q' = Some c' \<Longrightarrow> \<not> strict_prefix q q'"
  by (force simp: files_are_leaves_def list_all_iff dest!: map_of_SomeD)

lemma make_each_dirs: "make_each ps fs = (x, fs') \<Longrightarrow> set (dirs fs') \<subseteq> set (dirs fs) \<union> set ps"
  by (induction ps arbitrary: fs) (auto split: if_splits, fastforce+)

lemma make_dirs_dirs: "make_dirs p fs = (x, fs') \<Longrightarrow> clean p \<Longrightarrow> d \<in> set (dirs fs') \<Longrightarrow> d \<in> set (dirs fs) \<or> prefix d p"
proof -
  assume "make_dirs p fs = (x, fs')" "clean p" "d \<in> set (dirs fs')"
  then have "d \<in> set (dirs fs) \<or> d \<in> resolve ` {q. prefix q p}" using make_each_dirs[of "List.map resolve (prefixes p)" fs x fs'] by (auto simp: make_dirs_def)
  moreover have "resolve q = q" if "prefix q p" for q
    using that \<open>clean p\<close> by (intro resolve_clean) (auto simp: clean_def prefix_def)
  ultimately show ?thesis by auto
qed

text \<open>
  What holds while the listed names are copied: nothing outside the staging directory has changed, its
  directories are those above listed names, and the names copied so far have the contents of their sources.
\<close>

definition copying :: "path \<Rightarrow> path \<Rightarrow> file_tree \<Rightarrow> string set \<Rightarrow> string set \<Rightarrow> file_tree \<Rightarrow> bool" where
  "copying pk st fs names ready s \<longleftrightarrow>
     (\<forall>q. \<not> prefix st q \<longrightarrow> dget (files s) q = dget (files fs) q) \<and>
     (\<forall>d \<in> set (dirs s). strict_prefix st d \<longrightarrow> (\<exists>r \<in> names. strict_prefix d (st @ components r))) \<and>
     (\<forall>r \<in> ready. dget (files s) (st @ components r) = file_at fs (join_path pk r))"

lemma butlast_prefix: "prefix (butlast xs) xs"
  by (rule prefixI[of _ _ "drop (length xs - 1) xs"]) (simp add: butlast_conv_take)

lemma butlast_neq: "xs \<noteq> [] \<Longrightarrow> butlast xs \<noteq> xs"
  by (metis append_butlast_last_id not_Cons_self2 self_append_conv)

lemma copy_one:
  assumes inv: "copying pk st fs names ready s" and st: "clean st" "fresh st fs" and leaves: "files_are_leaves fs"
    and names: "r \<in> names" "\<And>r. r \<in> names \<Longrightarrow> safe_rel r \<and> file_at fs (join_path pk r) \<noteq> None"
    and run: "and_then (make_dirs (butlast (join_path st r)) s) (\<lambda>_. copy_file (join_path pk r) (join_path st r)) = (Inr u, s')"
    and "ready \<subseteq> names"
  shows "copying pk st fs names (insert r ready) s'"
proof -
  have safe: "safe_rel q" "''..'' \<notin> set (components q)" "components q \<noteq> []" "file_at fs (join_path pk q) \<noteq> None" if "q \<in> names" for q
    using names(2)[OF that] by (auto simp: safe_rel_def)
  note r = safe[OF names(1)]
  have src: "resolve (pk @ components q) = resolve pk @ components q" if "q \<in> names" for q
    using safe(2)[OF that] by (rule resolve_append_clean)
  have dst: "resolve (st @ components r) = st @ components r" using st(1) r(2) by (rule resolve_under)
  from run obtain s1 where s1: "make_dirs (st @ butlast (components r)) s = (Inr (), s1)"
    and cp: "copy_file (pk @ components r) (st @ components r) s1 = (Inr u, s')"
    using r by (auto simp: and_then_Inr safe_join butlast_append)
  have f1: "files s1 = files s" by (rule make_dirs_files[OF s1])
  have at: "file_at fs (pk @ components r) = Some c" if "file_at s1 (pk @ components r) = Some c" for c
  proof -
    have "\<not> prefix st (resolve pk @ components r)"
      using r(4) fresh_none[OF st(2)] src[OF names(1)] by (auto simp: file_at_def safe_join[OF r(1)])
    with inv that show ?thesis by (auto simp: file_at_def src[OF names(1)] f1 copying_def)
  qed
  have no_dir: "st @ components r \<notin> set (dirs s1)"
  proof
    assume "st @ components r \<in> set (dirs s1)"
    moreover have "clean (st @ butlast (components r))" using st(1) r(2) by (auto simp: clean_def dest: in_set_butlastD)
    ultimately have "st @ components r \<in> set (dirs s) \<or> prefix (st @ components r) (st @ butlast (components r))"
      using make_dirs_dirs[OF s1] by blast
    moreover have "\<not> prefix (st @ components r) (st @ butlast (components r))"
      using r(3) prefix_length_le[of "components r" "butlast (components r)"] by (cases "components r") auto
    ultimately have "st @ components r \<in> set (dirs s)" by simp
    then obtain q where q: "q \<in> names" "strict_prefix (st @ components r) (st @ components q)"
      using inv r(3) unfolding copying_def by (metis prefixI prefix_order.le_neq_trans append_self_conv)
    then have "strict_prefix (resolve pk @ components r) (resolve pk @ components q)" by (simp add: strict_prefix_def)
    moreover obtain c c' where "dget (files fs) (resolve pk @ components r) = Some c" "dget (files fs) (resolve pk @ components q) = Some c'"
      using safe(4)[OF q(1)] r(4) src[OF q(1)] src[OF names(1)] safe_join[OF r(1)] safe_join[OF safe(1)[OF q(1)]] by (auto simp: file_at_def)
    ultimately show False using leaves_no_prefix[OF leaves] by blast
  qed
  from cp no_dir obtain c where c: "file_at s1 (pk @ components r) = Some c" and s': "place (st @ components r) c s1 = (Inr u, s')"
    by (auto simp: copy_file_def dst split: option.splits)
  have f': "files s' = dput (st @ components r) c (files s)" using place_files[of _ _ s1 s'] s' f1 dst by (cases u) simp
  have d': "dirs s' = dirs s1" using s' by (auto simp: place_def split: if_splits)
  have up: "strict_prefix d (st @ components r)" if "prefix d (st @ butlast (components r))" for d
  proof -
    have "strict_prefix (st @ butlast (components r)) (st @ components r)"
      using r(3) by (intro strict_prefixI) (simp_all add: butlast_prefix butlast_neq)
    with that show ?thesis by (rule prefix_order.le_less_trans)
  qed
  have cl: "clean (st @ butlast (components r))" using st(1) r(2) by (auto simp: clean_def dest: in_set_butlastD)
  have dirs: "\<exists>q \<in> names. strict_prefix d (st @ components q)" if "d \<in> set (dirs s')" "strict_prefix st d" for d
    using that inv make_dirs_dirs[OF s1 cl, of d] up names(1) unfolding d' copying_def by blast
  have kept: "dget (files s') q = dget (files fs) q" if "\<not> prefix st q" for q
    using that inv by (auto simp: f' copying_def map_of_dput)
  have ready: "dget (files s') (st @ components q) = file_at fs (join_path pk q)" if "q \<in> insert r ready" for q
  proof (cases "components q = components r")
    case True
    moreover have "q \<in> names" using that names(1) \<open>ready \<subseteq> names\<close> by blast
    ultimately show ?thesis using at[OF c] safe_join[OF r(1)] safe_join[OF safe(1)] by (simp add: f' map_of_dput)
  next
    case False
    with that inv show ?thesis by (auto simp: f' map_of_dput copying_def)
  qed
  show ?thesis using dirs kept ready by (simp add: copying_def)
qed

lemma copy_all:
  assumes "copying pk st fs names ready s" and "clean st" "fresh st fs" "files_are_leaves fs"
    and "fst ` set xs \<subseteq> names" "\<And>r. r \<in> names \<Longrightarrow> safe_rel r \<and> file_at fs (join_path pk r) \<noteq> None"
    and "copy_listed pk st xs s = (Inr u, s')" and "ready \<subseteq> names"
  shows "copying pk st fs names (ready \<union> fst ` set xs) s'"
  using assms(1,5,7,8)
proof (induction xs arbitrary: s ready)
  case (Cons x xs)
  obtain r d where x: "x = (r, d)" by (rule prod.exhaust)
  from Cons.prems(3) obtain s1 where one: "and_then (make_dirs (butlast (join_path st r)) s) (\<lambda>_. copy_file (join_path pk r) (join_path st r)) = (Inr (), s1)"
    and rest: "copy_listed pk st xs s1 = (Inr u, s')"
    by (auto simp: x and_then_Inr)
  have r: "r \<in> names" using Cons.prems(2) by (simp add: x)
  have "copying pk st fs names (insert r ready) s1"
    by (rule copy_one[OF Cons.prems(1) assms(2,3,4) r assms(6) one Cons.prems(4)])
  moreover have "fst ` set xs \<subseteq> names" "insert r ready \<subseteq> names" using Cons.prems(2,4) r by auto
  ultimately have "copying pk st fs names (insert r ready \<union> fst ` set xs) s'" using Cons.IH[OF _ _ rest] by blast
  then show ?case by (simp add: x insert_commute)
qed simp

lemma check_files_ok: "check_files h pk fs xs = Inr u \<Longrightarrow> (r, d) \<in> set xs \<Longrightarrow> \<exists>c. file_at fs (join_path pk r) = Some c \<and> digest_at h c = d"
  by (induction xs) (auto split: option.splits if_splits)

lemma dget_moved: "dget (List.map (\<lambda>(k, c). (b @ drop (length a) k, c)) (filter (\<lambda>(k, c). prefix a k) xs)) (b @ x) = dget xs (a @ x)"
  by (induction xs) (auto elim!: prefixE, metis prefixI)

lemma move_tree_at: "move_tree a b s = (Inr u, s') \<Longrightarrow> dget (files s') (resolve b @ x) =
    (case dget (files s) (resolve a @ x) of Some c \<Rightarrow> Some c | None \<Rightarrow> if prefix (resolve a) (resolve b @ x) then None else dget (files s) (resolve b @ x))"
  by (auto simp: move_tree_def Let_def dget_moved dget_filter_key map_add_def split: if_splits option.split)

lemma other_branch: "length a = length b \<Longrightarrow> a \<noteq> b \<Longrightarrow> \<not> prefix a (b @ x)"
  by (auto simp: prefix_def append_eq_append_conv)

text \<open>The tree a successful swap leaves: the staged files at the target, and the mark.\<close>

lemma swap_in_ok:
  assumes "swap_in i pk st target m fs = (Inr m', fs')"
    and st: "clean st" "st \<noteq> []" "fresh st fs" and target: "resolve target = target" "length target = length st" "target \<noteq> st"
    and act: "resolve (active_file i) = active_file i" "\<not> prefix st (active_file i)" "\<not> prefix target (active_file i)"
  obtains s where "copy_listed pk st (listed m) (snd (make_dirs st fs)) = (Inr (), s)" "fst (make_dirs st fs) = Inr ()"
    "\<And>x c. x \<noteq> [''manifest.json''] \<Longrightarrow> dget (files s) (st @ x) = Some c \<Longrightarrow> dget (files fs') (target @ x) = Some c"
    "m' = m" "dget (files fs') (active_file i) = Some (Doc (PyDict [(''version'', PyStr (version m))]))"
proof -
  have rst: "resolve st = st" "resolve (st @ [''manifest.json'']) = st @ [''manifest.json'']"
    using resolve_under[OF st(1), of "[]"] resolve_under[OF st(1), of "[''manifest.json'']"] by simp_all
  from assms(1) obtain fs6 where run: "and_then (make_dirs st fs) (\<lambda>_ fs.
        and_then (copy_listed pk st (listed m) fs) (\<lambda>_ fs.
        and_then (place (st @ [''manifest.json'']) (Doc (PyDict (manifest_dict m))) fs) (\<lambda>_ fs.
        and_then (if exists_at target fs then rmtree target fs else (Inr (), fs)) (\<lambda>_ fs.
        and_then (move_tree st target fs) (\<lambda>_ fs.
        and_then (write_active i (version m) fs) (\<lambda>_ fs. (Inr m, fs))))))) = (Inr m', fs6)"
    and last: "fs' = (if exists_at st fs6 then remove_tree st fs6 else fs6)"
    by (auto simp: swap_in_def drop_staging_def split: prod.splits)
  from run obtain u1 s1 u2 s2 u3 s3 u4 s4 u5 s5 u6 s6 where steps: "make_dirs st fs = (Inr u1, s1)" "copy_listed pk st (listed m) s1 = (Inr u2, s2)"
      "place (st @ [''manifest.json'']) (Doc (PyDict (manifest_dict m))) s2 = (Inr u3, s3)"
      "(if exists_at target s3 then rmtree target s3 else (Inr (), s3)) = (Inr u4, s4)"
      "move_tree st target s4 = (Inr u5, s5)" "write_active i (version m) s5 = (Inr u6, s6)" "(Inr m, s6) = (Inr m', fs6)"
    unfolding and_then_Inr by (elim exE conjE) blast
  then have m': "m' = m" and eq6: "s6 = fs6" by simp_all
  have keep: "dget (files fs') q = dget (files fs6) q" if "\<not> prefix st q" for q
    using that by (simp add: last remove_tree_def Let_def dget_filter_key rst)
  have s6: "files fs6 = dput (active_file i) (Doc (PyDict [(''version'', PyStr (version m))])) (files s5)"
    using steps(6) act(1) unfolding eq6 by (auto simp: write_active_def place_def split: if_splits)
  have s4: "dget (files s4) q = dget (files s3) q" if "\<not> prefix target q" for q
    using steps(4) that by (auto simp: rmtree_def remove_tree_def Let_def dget_filter_key target(1) split: if_splits)
  have s3: "files s3 = dput (st @ [''manifest.json'']) (Doc (PyDict (manifest_dict m))) (files s2)"
    using steps(3) by (auto simp: place_def rst split: if_splits)
  show thesis
  proof (rule that)
    show "copy_listed pk st (listed m) (snd (make_dirs st fs)) = (Inr (), s2)" "fst (make_dirs st fs) = Inr ()" using steps(1,2) by (cases u1; cases u2; simp)+
    show "m' = m" by (rule m')
    show "dget (files fs') (active_file i) = Some (Doc (PyDict [(''version'', PyStr (version m))]))"
      using keep[OF act(2)] by (simp add: s6 map_of_dput)
    fix x c
    assume x: "x \<noteq> [''manifest.json'']" "dget (files s2) (st @ x) = Some c"
    have away: "\<not> prefix target (st @ x)" "\<not> prefix st (target @ x)" using target(2,3) by (simp_all add: other_branch)
    from away(1) have "dget (files s4) (st @ x) = Some c" using x by (simp add: s4 s3 map_of_dput)
    then have "dget (files s5) (target @ x) = Some c" using move_tree_at[OF steps(5), of x] by (simp add: rst target(1))
    moreover have "target @ x \<noteq> active_file i" using act(3) by (metis prefixI)
    ultimately show "dget (files fs') (target @ x) = Some c" using keep[OF away(2)] by (simp add: s6 map_of_dput)
  qed
qed

lemma swap_in_result: "swap_in i pk st target m fs = (Inr m', fs') \<Longrightarrow> m' = m"
  unfolding swap_in_def drop_staging_def by (auto simp: and_then_def split: prod.splits sum.splits)

lemma copying_start:
  assumes "make_dirs st fs = (Inr u, s)" and "clean st" "fresh st fs"
  shows "copying pk st fs names {} s"
proof -
  have "\<not> strict_prefix st d" if "d \<in> set (dirs s)" for d
  proof -
    from make_dirs_dirs[OF assms(1,2) that] have "d \<in> set (dirs fs) \<or> prefix d st" .
    then show ?thesis
    proof
      assume "d \<in> set (dirs fs)"
      then show ?thesis using assms(3) by (auto simp: fresh_def list_all_iff strict_prefix_def)
    next
      assume "prefix d st"
      then show ?thesis by (auto dest: prefix_order.antisym simp: strict_prefix_def)
    qed
  qed
  then show ?thesis using make_dirs_files[OF assms(1)] by (auto simp: copying_def)
qed

text \<open>
  C35: when an installation succeeds whose manifest is safe (a version that is one plain name, listed names
  that stay below their directory) in a staging directory that is new, the active mark names the version of
  the package, and every file the manifest lists, \<open>manifest.json\<close> apart, is installed under that
  version with the digest the manifest gives for it.  Without a safe manifest this fails: see
  \<open>listed_name_is_lost\<close>.
\<close>

theorem installed_version_is_active_and_intact:
  assumes "install h tmp i pk protocol fs = (Inr m, fs')" and "clean (root_dir i)" and "CHR ''/'' \<notin> set tmp" and "tmp \<noteq> []"
    and "safe_manifest m" and "fresh (versions i @ [version m @ ''.'' @ tmp]) fs" and "files_are_leaves fs"
    and "(r, d) \<in> set (listed m)" and "components r \<noteq> [''manifest.json'']"
  shows "active_version h i fs' = Inr (Some (PyStr (version m))) \<and>
    (\<exists>c. file_at fs' (join_path (versions i) (version m) @ components r) = Some c \<and> digest_at h c = d)"
  using assms(1)
proof (cases rule: install_stages)
  case (staged m')
  then have m': "m' = m" using swap_in_result[OF staged(3)[symmetric]] by simp
  have safe: "plain (version m)" "\<And>r d. (r, d) \<in> set (listed m) \<Longrightarrow> safe_rel r"
    using assms(5) by (auto simp: safe_manifest_def list_all_iff)
  note path = safe_paths[OF assms(2) safe(1) assms(3,4)]
  define st where "st = versions i @ [version m @ ''.'' @ tmp]"
  define target where "target = versions i @ [version m]"
  have run: "swap_in i pk st target m fs = (Inr m, fs')" using staged(3) m' path(1,2) by (simp only: st_def target_def)
  have st: "clean st" "st \<noteq> []" "fresh st fs" "length target = length st" "target \<noteq> st"
    using path(4,6) assms(6) by (simp_all add: st_def target_def)
  have target: "resolve target = target" using path(3) by (simp add: target_def)
  have act: "resolve (active_file i) = active_file i" "\<not> prefix st (active_file i)" "\<not> prefix target (active_file i)"
    using versions_clean[OF assms(2)] by (auto simp: st_def target_def versions_def active_file_def)
  obtain s where s: "copy_listed pk st (listed m) (snd (make_dirs st fs)) = (Inr (), s)" "fst (make_dirs st fs) = Inr ()"
    "\<And>x c. x \<noteq> [''manifest.json''] \<Longrightarrow> dget (files s) (st @ x) = Some c \<Longrightarrow> dget (files fs') (target @ x) = Some c"
    "dget (files fs') (active_file i) = Some (Doc (PyDict [(''version'', PyStr (version m))]))"
    by (rule swap_in_ok[OF run st(1,2,3) target st(4,5) act]) blast
  have checked: "check_files h pk fs (listed m) = Inr ()"
    using staged(2) m' by (auto simp: verify_package_def split: if_splits)
  let ?names = "fst ` set (listed m)"
  have "copying pk st fs ?names {} (snd (make_dirs st fs))"
    using copying_start[OF _ st(1,3)] s(2) by (metis prod.collapse)
  moreover have "safe_rel q \<and> file_at fs (join_path pk q) \<noteq> None" if "q \<in> ?names" for q
    using that safe(2) check_files_ok[OF checked] by fastforce
  ultimately have "copying pk st fs ?names ({} \<union> ?names) s"
    using copy_all[OF _ st(1,3) assms(7) order.refl _ s(1)] by blast
  then have "dget (files s) (st @ components r) = file_at fs (join_path pk r)" using assms(8) by (force simp: copying_def)
  moreover obtain c where c: "file_at fs (join_path pk r) = Some c" "digest_at h c = d" using check_files_ok[OF checked assms(8)] by blast
  ultimately have "dget (files fs') (target @ components r) = Some c" using s(3)[OF assms(9)] by simp
  moreover have "resolve (target @ components r) = target @ components r"
    using safe(2)[OF assms(8)] target resolve_append_clean[of "components r" target] by (simp add: safe_rel_def)
  ultimately have "file_at fs' (join_path (versions i) (version m) @ components r) = Some c" using path(1) by (simp add: file_at_def target_def)
  moreover have "active_version h i fs' = Inr (Some (PyStr (version m)))"
    using s(4) act(1) by (simp add: active_version_def json_at_def file_at_def)
  ultimately show ?thesis using c(2) by blast
qed simp

section \<open>A small installation\<close>

definition sample_host :: dist_host where
  "sample_host = \<lparr>host_platform = ''linux'', host_architecture = ''arm64'', doc_bytes = (\<lambda>_. []), blob_value = (\<lambda>_. Inl ''not json'')\<rparr>"

definition sample_manifest :: "string \<Rightarrow> (string \<times> string) list \<Rightarrow> package_manifest" where
  "sample_manifest v xs = \<lparr>version = v, protocol_min = 2, protocol_max = 2, platform = ''linux'', architecture = ''arm64'', listed = xs,
     license_name = ''a'', notice = ''a'', sbom = ''a'', provenance = ''a''\<rparr>"

definition sample_tree :: "package_manifest \<Rightarrow> file_tree" where
  "sample_tree m = \<lparr>files = [([''p'', ''manifest.json''], Doc (PyDict (manifest_dict m))), ([''p'', ''a''], Blob [97]), ([''d'', ''models'', ''w''], Blob [1])],
     dirs = [[], [''p''], [''d''], [''d'', ''versions''], [''d'', ''models'']]\<rparr>"

definition sample_installer :: installer where
  "sample_installer = \<lparr>root_dir = [''d''], models_root = [''d'', ''models'']\<rparr>"

lemmas sample_defs = sample_host_def sample_manifest_def sample_tree_def sample_installer_def

lemma sample_manifest_at: "manifest_at sample_host [''p''] (sample_tree (sample_manifest v [(''a'', x)])) = Inr (sample_manifest v [(''a'', x)])"
  by (simp add: manifest_at_def json_at_def file_at_def sample_defs resolve_def step_path_def read_manifest_def manifest_dict_def jget_def dget_or_def insert_commute)

lemma sample_checked: "checked_manifest sample_host [''p''] 2 (sample_tree (sample_manifest v [(''a'', sha256_hex [97])])) = Inr (sample_manifest v [(''a'', sha256_hex [97])])"
proof -
  let ?m = "sample_manifest v [(''a'', sha256_hex [97])]"
  have "verify_package sample_host [''p''] ?m (sample_tree ?m) = Inr ()" "\<not> 2 < protocol_min ?m" "\<not> protocol_max ?m < 2"
    by (simp_all add: verify_package_def file_at_def sample_defs resolve_def step_path_def digest_at_def join_path_def starts_with_def components_def)
  then show ?thesis using sample_manifest_at[of v "sha256_hex [97]"] by (auto simp: checked_manifest_def manifest_at_def)
qed

lemma sample_installs:
  "\<exists>fs'. install sample_host ''t'' sample_installer [''p''] 2 (sample_tree (sample_manifest ''1'' [(''a'', sha256_hex [97])]))
     = (Inr (sample_manifest ''1'' [(''a'', sha256_hex [97])]), fs')"
  unfolding install_def sample_checked
  by (simp add: swap_in_def drop_staging_def and_then_def make_dirs_def copy_file_def place_def rmtree_def move_tree_def write_active_def
      versions_def active_file_def exists_at_def file_at_def sample_defs resolve_def step_path_def join_path_def starts_with_def components_def Let_def remove_tree_def)

lemma sample_safe: "safe_manifest (sample_manifest ''1'' [(''a'', d)])" "clean (root_dir sample_installer)"
  by (simp_all add: safe_manifest_def safe_rel_def plain_def components_def starts_with_def sample_defs clean_def)

theorem installation_keeps_user_files_witness:
  "dget (files (snd (install sample_host ''t'' sample_installer [''p''] 2 (sample_tree (sample_manifest ''1'' [(''a'', sha256_hex [97])]))))) [''d'', ''models'', ''w'']
     = Some (Blob [1])"
proof -
  let ?t = "sample_tree (sample_manifest ''1'' [(''a'', sha256_hex [97])])"
  have "\<not> prefix (versions sample_installer) [''d'', ''models'', ''w'']" "[''d'', ''models'', ''w''] \<noteq> active_file sample_installer"
    by (simp_all add: sample_defs versions_def active_file_def)
  then have "dget (files (snd (install sample_host ''t'' sample_installer [''p''] 2 ?t))) [''d'', ''models'', ''w''] = dget (files ?t) [''d'', ''models'', ''w'']"
    using sample_safe sample_manifest_at
    by (intro installation_keeps_user_files[OF prod.collapse[symmetric], where i = sample_installer]) auto
  then show ?thesis by (simp add: sample_tree_def)
qed

theorem installed_version_is_active_and_intact_witness:
  "\<exists>m fs'. install sample_host ''t'' sample_installer [''p''] 2 (sample_tree (sample_manifest ''1'' [(''a'', sha256_hex [97])])) = (Inr m, fs') \<and>
     active_version sample_host sample_installer fs' = Inr (Some (PyStr ''1'')) \<and>
     (\<exists>c. file_at fs' [''d'', ''versions'', ''1'', ''a''] = Some c \<and> digest_at sample_host c = sha256_hex [97])"
proof -
  let ?m = "sample_manifest ''1'' [(''a'', sha256_hex [97])]"
  obtain fs' where run: "install sample_host ''t'' sample_installer [''p''] 2 (sample_tree ?m) = (Inr ?m, fs')" using sample_installs by blast
  have "fresh (versions sample_installer @ [version ?m @ ''.'' @ ''t'']) (sample_tree ?m)" "files_are_leaves (sample_tree ?m)"
    "(''a'', sha256_hex [97]) \<in> set (listed ?m)" "components ''a'' \<noteq> [''manifest.json'']"
    by (simp_all add: fresh_def files_are_leaves_def sample_defs versions_def components_def strict_prefix_def)
  from installed_version_is_active_and_intact[OF run sample_safe(2) _ _ sample_safe(1) this]
  have "active_version sample_host sample_installer fs' = Inr (Some (PyStr (version ?m))) \<and>
    (\<exists>c. file_at fs' (join_path (versions sample_installer) (version ?m) @ components ''a'') = Some c \<and> digest_at sample_host c = sha256_hex [97])"
    by simp
  moreover have "join_path (versions sample_installer) (version ?m) @ components ''a'' = [''d'', ''versions'', ''1'', ''a'']" "version ?m = ''1''"
    by (simp_all add: sample_defs versions_def join_path_def starts_with_def components_def)
  ultimately show ?thesis using run by auto
qed

section \<open>What the installer does not promise\<close>

text \<open>A manifest of version \<open>..\<close> passes verification, and its installation removes the user's models.\<close>

theorem parent_version_removes_models:
  "(let r = install sample_host ''t'' sample_installer [''p''] 2 (sample_tree (sample_manifest ''..'' [(''a'', sha256_hex [97])]))
    in isl (fst r) \<and> dget (files (snd r)) [''d'', ''models'', ''w''] = None)"
  unfolding install_def sample_checked
  by (simp add: swap_in_def drop_staging_def and_then_def make_dirs_def copy_file_def place_def rmtree_def move_tree_def write_active_def
      versions_def active_file_def exists_at_def file_at_def sample_defs resolve_def step_path_def join_path_def starts_with_def components_def Let_def remove_tree_def)

text \<open>
  With version 1 installed, a package of version 1 that lists \<open>../1/a\<close> installs: the file is copied into the
  old version, which is then removed, and nothing of it is left.
\<close>

definition escaping_tree :: file_tree where
  "escaping_tree = (let m = sample_manifest ''1'' [(''../1/a'', sha256_hex [97])]; t = sample_tree m in
     t\<lparr>files := files t @ [([''1'', ''a''], Blob [97])], dirs := dirs t @ [[''1''], [''d'', ''versions'', ''1'']]\<rparr>)"

lemma escaping_checked: "checked_manifest sample_host [''p''] 2 escaping_tree = Inr (sample_manifest ''1'' [(''../1/a'', sha256_hex [97])])"
proof -
  let ?m = "sample_manifest ''1'' [(''../1/a'', sha256_hex [97])]"
  have "verify_package sample_host [''p''] ?m escaping_tree = Inr ()" "\<not> 2 < protocol_min ?m" "\<not> protocol_max ?m < 2"
    by (simp_all add: escaping_tree_def verify_package_def file_at_def sample_defs resolve_def step_path_def digest_at_def join_path_def
        starts_with_def components_def Let_def)
  moreover have "json_at sample_host [''p'', ''manifest.json''] escaping_tree = Inr (PyDict (manifest_dict ?m))"
    by (simp add: escaping_tree_def json_at_def file_at_def sample_defs resolve_def step_path_def Let_def)
  moreover have "read_manifest (PyDict (manifest_dict ?m)) = Inr ?m"
    by (simp add: sample_defs read_manifest_def manifest_dict_def jget_def dget_or_def insert_commute)
  ultimately show ?thesis by (simp add: checked_manifest_def)
qed

theorem listed_name_is_lost:
  "(let r = install sample_host ''t'' sample_installer [''p''] 2 escaping_tree
    in (\<exists>m. fst r = Inr m \<and> (''../1/a'', sha256_hex [97]) \<in> set (listed m))
      \<and> file_at (snd r) [''d'', ''versions'', ''1'', ''..'', ''1'', ''a''] = None)"
  unfolding install_def escaping_checked
  by (simp add: escaping_tree_def swap_in_def drop_staging_def and_then_def make_dirs_def copy_file_def place_def rmtree_def move_tree_def write_active_def
      versions_def active_file_def exists_at_def file_at_def sample_defs resolve_def step_path_def join_path_def starts_with_def components_def Let_def remove_tree_def)

text \<open>With three versions installed, rolling back twice returns to the newest one.\<close>

theorem second_rollback_goes_forward:
  "(let fs = \<lparr>files = [([''d'', ''active.json''], Doc (PyDict [(''version'', PyStr ''3'')]))],
       dirs = [[''d'', ''versions'', ''1''], [''d'', ''versions'', ''2''], [''d'', ''versions'', ''3'']]\<rparr>;
     r = rollback sample_host sample_installer fs
    in fst r = Inr ''2'' \<and> fst (rollback sample_host sample_installer (snd r)) = Inr ''3'')"
  by code_simp

end
