(* ===== verification/Dense_Stream.thy ===== *)
theory Dense_Stream
  imports Py_Json Sha256
begin

text \<open>
  The bounded streaming of dense layers, \<open>dense_stream.py\<close>: a layer is read from its container in slabs of
  rows, each slab is decoded and multiplied with the current vector, and at most one slab of weights is held.
  How \<open>sum\<close> rounds depends on the interpreter (since 3.12 it compensates), so it is a parameter, like the files,
  the callback that cancels and the time a run takes.
\<close>

section \<open>Layers\<close>

record layer =
  path :: string
  rows :: int
  cols :: int
  dtype :: string
  scale :: pyfloat
  offset :: int
  sha256 :: "string option"

definition item_bytes :: "layer \<Rightarrow> nat res" where
  "item_bytes l = (if dtype l = ''float32'' then Inr 4 else if dtype l = ''int8'' then Inr 1
     else Inl (ValueError (''unsupported dense stream dtype: '' @ dtype l)))"

definition weight_bytes :: "layer \<Rightarrow> int res" where
  "weight_bytes l = rbind (item_bytes l) (\<lambda>n. Inr (rows l * cols l * int n))"

type_synonym disk = "string \<Rightarrow> byte list option"

definition validate_layer :: "disk \<Rightarrow> layer \<Rightarrow> unit res" where
  "validate_layer d l =
     (if rows l \<le> 0 \<or> cols l \<le> 0 \<or> offset l < 0 then Inl (ValueError ''layer dimensions and offset must be positive'')
      else case d (path l) of
        None \<Rightarrow> Inl (FileNotFoundError (path l))
      | Some bs \<Rightarrow> rbind (weight_bytes l) (\<lambda>n.
          if int (length bs) < offset l + n then Inl (ValueError ''layer descriptor extends past container'') else Inr ()))"

text \<open>\<open>struct.unpack\<close> of big-endian binary32 and of signed bytes; a binary32 value is exact in binary64.\<close>

definition float32 :: "byte list \<Rightarrow> pyfloat" where
  "float32 bs = (let n = unbe bs; negative = n div 2 ^ 31 mod 2 = 1; e = n div 2 ^ 23 mod 256; m = n mod 2 ^ 23;
     signed = (\<lambda>r. Fin (if negative then - r else r)) in
     if e = 255 then (if m \<noteq> 0 then NaN else if negative then NegInf else PosInf)
     else if e = 0 then signed (of_nat m / 2 ^ 149)
     else signed (of_nat (2 ^ 23 + m) * (if 150 \<le> e then 2 ^ (e - 150) else 1 / 2 ^ (150 - e))))"

definition item_value :: "layer \<Rightarrow> byte list \<Rightarrow> pyfloat" where
  "item_value l bs = (if dtype l = ''float32'' then float32 bs else fmul (fint (sint (hd bs))) (scale l))"

definition unpack :: "layer \<Rightarrow> nat \<Rightarrow> nat \<Rightarrow> byte list \<Rightarrow> pyfloat list" where
  "unpack l width n bs = List.map (\<lambda>i. item_value l (take width (drop (i * width) bs))) [0..<n]"

section \<open>The executor\<close>

record dense_env =
  disk_files :: disk
  cancelled :: "(nat \<Rightarrow> bool) option"
  summed :: "pyfloat list \<Rightarrow> pyfloat"

record meter =
  bytes_read :: nat
  peak :: nat
  asked :: nat

datatype 'a outcome = Completed 'a | Cancelled | Failed py_exc

text \<open>\<open>cancelled and cancelled()\<close>: the answer to the question asked the n-th time.\<close>

definition ask :: "dense_env \<Rightarrow> meter \<Rightarrow> bool \<times> meter" where
  "ask e m = (case cancelled e of None \<Rightarrow> (False, m) | Some f \<Rightarrow> (f (asked m), m\<lparr>asked := asked m + 1\<rparr>))"

text \<open>The rows of one slab.\<close>

definition put_rows :: "dense_env \<Rightarrow> nat \<Rightarrow> pyfloat list \<Rightarrow> pyfloat list \<Rightarrow> nat \<Rightarrow> nat \<Rightarrow> pyfloat list \<Rightarrow> pyfloat list" where
  "put_rows e c x w first n next_values =
     foldl (\<lambda>ys r. ys[first + r := summed e (List.map (\<lambda>k. fmul (w ! (r * c + k)) (x ! k)) [0..<c])]) next_values [0..<n]"

text \<open>
  One turn of the loop of \<open>run\<close> over the slabs that \<open>_read_layer\<close> yields: the rows so far and the position
  of the stream after it.
\<close>

definition slab_step :: "dense_env \<Rightarrow> layer \<Rightarrow> nat \<Rightarrow> nat \<Rightarrow> byte list \<Rightarrow> pyfloat list \<Rightarrow> nat \<Rightarrow> nat \<Rightarrow> pyfloat list \<Rightarrow> meter \<Rightarrow> (nat \<times> pyfloat list) outcome \<times> meter" where
  "slab_step e l width slab bs x pos first next_values m =
     (case ask e m of (stop, m) \<Rightarrow>
        if stop then (Cancelled, m)
        else (let n = min slab (nat (rows l) - first); want = n * nat (cols l) * width; payload = take want (drop pos bs) in
          if length payload \<noteq> want then (Failed (OSError ''dense layer slab read was truncated''), m)
          else (let m = m\<lparr>bytes_read := bytes_read m + want, peak := max (peak m) (want * 2)\<rparr>;
                    ys = put_rows e (nat (cols l)) x (unpack l width (n * nat (cols l)) payload) first n next_values in
            case ask e m of (stop, m) \<Rightarrow> if stop then (Cancelled, m) else (Completed (pos + want, ys), m))))"

text \<open>The constructor refuses slabs of no rows.\<close>

function run_slabs :: "dense_env \<Rightarrow> layer \<Rightarrow> nat \<Rightarrow> nat \<Rightarrow> byte list \<Rightarrow> pyfloat list \<Rightarrow> nat \<Rightarrow> nat \<Rightarrow> pyfloat list \<Rightarrow> meter \<Rightarrow> pyfloat list outcome \<times> meter" where
  "run_slabs e l width slab bs x pos first next_values m =
     (if slab = 0 then (Failed (ValueError ''range() arg 3 must not be zero''), m)
      else if nat (rows l) \<le> first then (Completed next_values, m)
      else (case slab_step e l width slab bs x pos first next_values m of
          (Completed (pos, ys), m) \<Rightarrow> run_slabs e l width slab bs x pos (first + slab) ys m
        | (Cancelled, m) \<Rightarrow> (Cancelled, m)
        | (Failed exc, m) \<Rightarrow> (Failed exc, m)))"
  by auto
termination
proof (relation "measure (\<lambda>(e, l, width, slab, bs, x, pos, first, next_values, m). nat (rows l) - first)", goal_cases)
  case 2
  then show ?case by simp
qed simp

declare run_slabs.simps [simp del]

definition run_layer :: "dense_env \<Rightarrow> nat \<Rightarrow> layer \<Rightarrow> pyfloat list \<Rightarrow> meter \<Rightarrow> pyfloat list outcome \<times> meter" where
  "run_layer e slab l x m = (case rbind (validate_layer (disk_files e) l) (\<lambda>_. item_bytes l) of
      Inl exc \<Rightarrow> (Failed exc, m)
    | Inr width \<Rightarrow>
        if cols l \<noteq> int (length x) then (Failed (ValueError ''dense layer dimensions do not form a valid chain''), m)
        else run_slabs e l width slab (the (disk_files e (path l))) x (nat (offset l)) 0 (replicate (nat (rows l)) (Fin 0)) m)"

fun run_layers :: "dense_env \<Rightarrow> nat \<Rightarrow> layer list \<Rightarrow> pyfloat list \<Rightarrow> meter \<Rightarrow> pyfloat list outcome \<times> meter" where
  "run_layers e slab [] x m = (Completed x, m)"
| "run_layers e slab (l # ls) x m = (case run_layer e slab l x m of
      (Completed y, m) \<Rightarrow> run_layers e slab ls y m
    | r \<Rightarrow> r)"

record executor =
  layers :: "layer list"
  rows_per_slab :: int
  workload :: string

definition new_executor :: "layer list \<Rightarrow> int \<Rightarrow> string \<Rightarrow> bool \<Rightarrow> executor res" where
  "new_executor ls slab work experimental =
     (if slab \<le> 0 then Inl (ValueError ''rows_per_slab must be positive'')
      else if \<not> experimental \<or> work = ''interactive'' then Inl (ValueError ''dense layer streaming is experimental and non-interactive'')
      else Inr \<lparr>layers = ls, rows_per_slab = slab, workload = work\<rparr>)"

record dense_metrics =
  layer_count :: nat
  total_read :: nat
  bytes_per_token :: "pyfloat option"
  peak_weight_bytes :: nat
  maximum_weight_slots :: nat
  elapsed_ms :: pyfloat

definition metrics_of :: "executor \<Rightarrow> pyfloat \<Rightarrow> meter \<Rightarrow> dense_metrics" where
  "metrics_of ex elapsed m =
     \<lparr>layer_count = length (layers ex), total_read = bytes_read m, bytes_per_token = (if bytes_read m = 0 then None else Some (fl (of_nat (bytes_read m)))),
       peak_weight_bytes = peak m, maximum_weight_slots = (if peak m = 0 then 0 else 2), elapsed_ms = elapsed\<rparr>"

record dense_result =
  status :: string
  output_values :: "pyfloat list"
  metrics :: dense_metrics
  error :: "string option"

definition run :: "dense_env \<Rightarrow> pyfloat \<Rightarrow> executor \<Rightarrow> pyfloat list \<Rightarrow> dense_result" where
  "run e elapsed ex x =
     (case run_layers e (nat (rows_per_slab ex)) (layers ex) x \<lparr>bytes_read = 0, peak = 0, asked = 0\<rparr> of (r, m) \<Rightarrow>
        let report = (\<lambda>st out err. \<lparr>status = st, output_values = out, metrics = metrics_of ex elapsed m, error = err\<rparr>) in
        case r of Completed y \<Rightarrow> report ''completed'' y None
        | Cancelled \<Rightarrow> report ''cancelled'' [] None
        | Failed exc \<Rightarrow> report ''failed'' [] (Some (exc_message exc)))"

text \<open>\<open>_load\<close>, which no method of the executor calls: the whole weights of a layer, with its checksum.\<close>

definition load_layer :: "disk \<Rightarrow> layer \<Rightarrow> pyfloat list res" where
  "load_layer d l = rbind (validate_layer d l) (\<lambda>_. rbind (item_bytes l) (\<lambda>width.
     let bs = the (d (path l)) in
     if sha256 l \<noteq> None \<and> sha256 l \<noteq> Some (sha256_hex bs) then Inl (OSError ''dense container checksum mismatch'')
     else Inr (unpack l width (nat (rows l * cols l)) (drop (nat (offset l)) bs))))"

section \<open>Streaming is multiplication\<close>

text \<open>The reference: the whole layer in memory, one product per layer.\<close>

definition layer_product :: "dense_env \<Rightarrow> layer \<Rightarrow> pyfloat list \<Rightarrow> pyfloat list res" where
  "layer_product e l x = rbind (validate_layer (disk_files e) l) (\<lambda>_. rbind (item_bytes l) (\<lambda>width.
     if cols l \<noteq> int (length x) then Inl (ValueError ''dense layer dimensions do not form a valid chain'')
     else (let w = unpack l width (nat (rows l * cols l)) (drop (nat (offset l)) (the (disk_files e (path l)))) in
       Inr (List.map (\<lambda>r. summed e (List.map (\<lambda>k. fmul (w ! (r * nat (cols l) + k)) (x ! k)) [0..<nat (cols l)])) [0..<nat (rows l)]))))"

definition network_product :: "dense_env \<Rightarrow> layer list \<Rightarrow> pyfloat list \<Rightarrow> pyfloat list res" where
  "network_product e ls x = fold_res (\<lambda>x l. layer_product e l x) x ls"

definition row_product :: "dense_env \<Rightarrow> nat \<Rightarrow> pyfloat list \<Rightarrow> pyfloat list \<Rightarrow> nat \<Rightarrow> pyfloat" where
  "row_product e c x w r = summed e (List.map (\<lambda>k. fmul (w ! (r * c + k)) (x ! k)) [0..<c])"

lemma unpack_nth: "i < n \<Longrightarrow> unpack l width n bs ! i = item_value l (take width (drop (i * width) bs))"
  by (simp add: unpack_def)

text \<open>A value of a slab is the value at its place in the container.\<close>

lemma slab_value:
  assumes "i < n" and "j = first * c + i" and "j < whole"
  shows "unpack l width n (take (n * width) (drop (off + first * c * width) bs)) ! i = unpack l width whole (drop off bs) ! j"
proof -
  have "Suc i \<le> n" using assms(1) by simp
  then have "Suc i * width \<le> n * width" by (rule mult_le_mono1)
  then have "take width (drop (i * width) (take (n * width) (drop (off + first * c * width) bs))) = take width (drop (i * width + (off + first * c * width)) bs)"
    by (simp add: drop_take take_take min_def ac_simps)
  also have "i * width + (off + first * c * width) = off + j * width" using assms(2) by (simp add: algebra_simps)
  finally show ?thesis using assms(1,3) by (simp add: unpack_nth add.commute)
qed

lemma row_of_slab:
  assumes "r < n" and "first + n \<le> R"
  shows "row_product e c x (unpack l width (n * c) (take (n * c * width) (drop (off + first * c * width) bs))) r
    = row_product e c x (unpack l width (R * c) (drop off bs)) (first + r)"
proof -
  have "unpack l width (n * c) (take (n * c * width) (drop (off + first * c * width) bs)) ! (r * c + k) = unpack l width (R * c) (drop off bs) ! ((first + r) * c + k)"
    if k: "k < c" for k
  proof (rule slab_value)
    have "Suc r * c \<le> n * c" "Suc (first + r) * c \<le> R * c" using assms by (intro mult_le_mono1; simp)+
    then show "r * c + k < n * c" "(first + r) * c + k < R * c" using k by simp_all
    show "(first + r) * c + k = first * c + (r * c + k)" by (simp add: algebra_simps)
  qed
  then show ?thesis unfolding row_product_def by (intro arg_cong[of _ _ "summed e"] map_cong refl) simp
qed

lemma put_rows_Suc: "put_rows e c x w first (Suc n) ys = (put_rows e c x w first n ys)[first + n := row_product e c x w n]"
  by (simp add: put_rows_def row_product_def)

lemma put_rows_length [simp]: "length (put_rows e c x w first n ys) = length ys"
  by (induction n) (simp_all add: put_rows_def)

lemma put_rows_nth: "first + n \<le> length ys \<Longrightarrow> put_rows e c x w first n ys ! i =
    (if first \<le> i \<and> i < first + n then row_product e c x w (i - first) else ys ! i)"
proof (induction n)
  case (Suc n)
  then show ?case by (auto simp: put_rows_Suc nth_list_update)
qed (auto simp: put_rows_def)

lemma run_slabs_exact:
  assumes "cancelled e = None" and "0 < slab" and "off + R * c * width \<le> length bs" and "R = nat (rows l)" "c = nat (cols l)"
  shows "first < R \<longrightarrow> pos = off + first * c * width \<Longrightarrow> length ys = R
    \<Longrightarrow> \<forall>r < R. r < first \<longrightarrow> ys ! r = row_product e c x (unpack l width (R * c) (drop off bs)) r
    \<Longrightarrow> fst (run_slabs e l width slab bs x pos first ys m) = Completed (List.map (row_product e c x (unpack l width (R * c) (drop off bs))) [0..<R])"
proof (induction "R - first" arbitrary: pos first ys m rule: less_induct)
  case less
  show ?case
  proof (cases "first < R")
    case False
    then have "ys = List.map (row_product e c x (unpack l width (R * c) (drop off bs))) [0..<R]"
      using less.prems by (intro nth_equalityI) auto
    then show ?thesis using False assms by (subst run_slabs.simps) simp
  next
    case True
    define n where "n = min slab (R - first)"
    have n: "first + n \<le> R" "0 < n" using True assms(2) by (auto simp: n_def)
    then have "(first + n) * c * width \<le> R * c * width" by (intro mult_le_mono) auto
    then have room: "n * c * width \<le> length bs - (off + first * c * width)" using assms(3) by (simp add: algebra_simps)
    have pos: "pos = off + first * c * width" using True less.prems(1) by simp
    define payload where "payload = take (n * c * width) (drop pos bs)"
    have len: "length payload = n * c * width" using room by (simp add: payload_def pos)
    define ys' where "ys' = put_rows e c x (unpack l width (n * c) payload) first n ys"
    define m' where "m' = m\<lparr>bytes_read := bytes_read m + n * c * width, peak := max (peak m) (n * c * width * 2)\<rparr>"
    have "slab_step e l width slab bs x pos first ys m = (Completed (pos + n * c * width, ys'), m')"
      using len unfolding slab_step_def Let_def assms(4,5)[symmetric] n_def[symmetric] payload_def[symmetric]
      by (simp add: ask_def assms(1) ys'_def m'_def)
    then have step: "run_slabs e l width slab bs x pos first ys m = run_slabs e l width slab bs x (pos + n * c * width) (first + slab) ys' m'"
      using True assms(2,4) by (subst run_slabs.simps) simp
    have rows: "ys' ! r = row_product e c x (unpack l width (R * c) (drop off bs)) r" if "r < R" "r < first + slab" for r
    proof (cases "first \<le> r")
      case True
      then have "r - first < n" "ys' ! r = row_product e c x (unpack l width (n * c) payload) (r - first)"
        using that n less.prems(2) by (auto simp: ys'_def put_rows_nth n_def)
      then show ?thesis using row_of_slab[of "r - first" n first R e c x l width off bs] n True by (simp add: payload_def pos)
    next
      case False
      then show ?thesis using less.prems(2,3) that n by (simp add: ys'_def put_rows_nth)
    qed
    have "R - (first + slab) < R - first" using True assms(2) by simp
    moreover have "first + slab < R \<longrightarrow> pos + n * c * width = off + (first + slab) * c * width" by (auto simp: pos n_def algebra_simps)
    moreover have "length ys' = R" using less.prems(2) by (simp add: ys'_def)
    ultimately show ?thesis unfolding step using rows by (intro less.hyps) auto
  qed
qed

lemma validated:
  assumes "validate_layer d l = Inr ()" and "item_bytes l = Inr width"
  obtains bs where "d (path l) = Some bs" "0 < rows l" "0 < cols l" "0 \<le> offset l"
    "nat (offset l) + nat (rows l) * nat (cols l) * width \<le> length bs"
proof -
  from assms obtain bs where bs: "d (path l) = Some bs" and pos: "0 < rows l" "0 < cols l" "0 \<le> offset l"
    and fits: "offset l + rows l * cols l * int width \<le> int (length bs)"
    by (auto simp: validate_layer_def weight_bytes_def split: if_splits option.splits)
  have "int (nat (offset l) + nat (rows l) * nat (cols l) * width) \<le> int (length bs)" using pos fits by simp
  then have "nat (offset l) + nat (rows l) * nat (cols l) * width \<le> length bs" by (simp only: of_nat_le_iff)
  with bs pos show thesis by (rule that)
qed

lemma run_layer_exact:
  assumes "cancelled e = None" and "0 < slab"
  shows "fst (run_layer e slab l x m) = (case layer_product e l x of Inr y \<Rightarrow> Completed y | Inl exc \<Rightarrow> Failed exc)"
proof (cases "rbind (validate_layer (disk_files e) l) (\<lambda>_. item_bytes l)")
  case (Inl exc)
  moreover from Inl have "layer_product e l x = Inl exc"
    by (cases "validate_layer (disk_files e) l") (auto simp: layer_product_def)
  ultimately show ?thesis by (simp add: run_layer_def)
next
  case (Inr width)
  then have ok: "validate_layer (disk_files e) l = Inr ()" "item_bytes l = Inr width" by auto
  obtain bs where bs: "disk_files e (path l) = Some bs" "0 < rows l" "0 < cols l"
    "nat (offset l) + nat (rows l) * nat (cols l) * width \<le> length bs" by (rule validated[OF ok])
  show ?thesis
  proof (cases "cols l = int (length x)")
    case True
    define c where "c = nat (cols l)"
    define R where "R = nat (rows l)"
    have cx: "length x = c" using True by (simp add: c_def)
    have "run_layer e slab l x m = run_slabs e l width slab bs x (nat (offset l)) 0 (replicate R (Fin 0)) m"
      using True bs(1) by (simp add: run_layer_def ok R_def)
    also have "fst \<dots> = Completed (List.map (row_product e c x (unpack l width (R * c) (drop (nat (offset l)) bs))) [0..<R])"
      using bs(4) by (intro run_slabs_exact[OF assms]) (simp_all add: c_def R_def)
    finally have run: "fst (run_layer e slab l x m) = Completed (List.map (row_product e c x (unpack l width (R * c) (drop (nat (offset l)) bs))) [0..<R])" .
    have "nat (rows l * cols l) = R * c" using bs(2) by (simp add: R_def c_def nat_mult_distrib)
    then have "layer_product e l x = Inr (List.map (row_product e c x (unpack l width (R * c) (drop (nat (offset l)) bs))) [0..<R])"
      using True bs(1) cx unfolding layer_product_def ok row_product_def by (simp add: Let_def R_def[symmetric])
    with run show ?thesis by simp
  next
    case False
    with ok show ?thesis by (simp add: run_layer_def layer_product_def)
  qed
qed

lemma run_layers_exact:
  assumes "cancelled e = None" and "0 < slab"
  shows "fst (run_layers e slab ls x m) = (case network_product e ls x of Inr y \<Rightarrow> Completed y | Inl exc \<Rightarrow> Failed exc)"
proof (induction ls arbitrary: x m)
  case (Cons l ls)
  obtain r m' where r: "run_layer e slab l x m = (r, m')" by (rule prod.exhaust)
  then have "r = (case layer_product e l x of Inr y \<Rightarrow> Completed y | Inl exc \<Rightarrow> Failed exc)" using run_layer_exact[OF assms, of l x m] by simp
  then show ?case using Cons.IH r by (cases "layer_product e l x") (simp_all add: network_product_def)
qed (simp add: network_product_def)

text \<open>
  C36: an executor that is not cancelled completes exactly when every layer is valid and the dimensions chain,
  and then its output is the product of the whole layers, whatever the number of rows per slab; otherwise it
  fails with the message of the first error.
\<close>

theorem streaming_is_exact:
  assumes "new_executor ls slab work experimental = Inr ex" and "cancelled e = None"
  shows "(case network_product e ls x of
      Inr y \<Rightarrow> status (run e elapsed ex x) = ''completed'' \<and> output_values (run e elapsed ex x) = y
    | Inl exc \<Rightarrow> status (run e elapsed ex x) = ''failed'' \<and> error (run e elapsed ex x) = Some (exc_message exc))"
proof -
  from assms(1) have ex: "ex = \<lparr>layers = ls, rows_per_slab = slab, workload = work\<rparr>" and pos: "0 < nat slab"
    by (auto simp: new_executor_def split: if_splits)
  obtain r m where r: "run_layers e (nat slab) ls x \<lparr>bytes_read = 0, peak = 0, asked = 0\<rparr> = (r, m)" by (rule prod.exhaust)
  then have "r = (case network_product e ls x of Inr y \<Rightarrow> Completed y | Inl exc \<Rightarrow> Failed exc)"
    using run_layers_exact[OF assms(2) pos, of ls x "\<lparr>bytes_read = 0, peak = 0, asked = 0\<rparr>"] by simp
  with r show ?thesis by (cases "network_product e ls x") (simp_all add: run_def ex Let_def)
qed

section \<open>One slab at a time\<close>

text \<open>The bytes of a slab of a layer; the meter's peak stays below the double of the largest.\<close>

definition slab_bytes :: "nat \<Rightarrow> layer \<Rightarrow> nat" where
  "slab_bytes slab l = slab * nat (cols l) * (case item_bytes l of Inr n \<Rightarrow> n | Inl _ \<Rightarrow> 0)"

lemma ask_peak: "ask e m = (b, m') \<Longrightarrow> peak m' = peak m"
  by (auto simp: ask_def split: option.splits)

lemma slab_step_peak:
  assumes "slab_step e l width slab bs x pos first ys m = (r, m')"
  shows "peak m' \<le> max (peak m) (2 * (slab * nat (cols l) * width))"
proof -
  define want where "want = min slab (nat (rows l) - first) * nat (cols l) * width"
  have want: "want \<le> slab * nat (cols l) * width" unfolding want_def by (intro mult_le_mono1) simp
  obtain b m1 where one: "ask e m = (b, m1)" by (rule prod.exhaust)
  obtain b2 m2 where two: "ask e (m1\<lparr>bytes_read := bytes_read m1 + want, peak := max (peak m1) (want * 2)\<rparr>) = (b2, m2)" by (rule prod.exhaust)
  have "peak m1 = peak m" "peak m2 = max (peak m) (want * 2)" using ask_peak[OF one] ask_peak[OF two] by simp_all
  moreover have "m' = m1 \<or> m' = m2"
    using assms one two unfolding slab_step_def Let_def want_def[symmetric] by (auto split: if_splits)
  ultimately show ?thesis using want by (elim disjE) simp_all
qed

lemma run_slabs_peak: "run_slabs e l width slab bs x pos first ys m = (r, m') \<Longrightarrow> peak m' \<le> max (peak m) (2 * (slab * nat (cols l) * width))"
proof (induction e l width slab bs x pos first ys m rule: run_slabs.induct)
  case (1 e l width slab bs x pos first ys m)
  obtain s m1 where s: "slab_step e l width slab bs x pos first ys m = (s, m1)" by (rule prod.exhaust)
  note one = slab_step_peak[OF s]
  show ?case
  proof (cases "slab = 0 \<or> nat (rows l) \<le> first")
    case True
    with 1(2) show ?thesis by (subst (asm) run_slabs.simps) (auto split: if_splits)
  next
    case False
    then have unfold: "run_slabs e l width slab bs x pos first ys m = (case s of Completed (pos, ys) \<Rightarrow> run_slabs e l width slab bs x pos (first + slab) ys m1
        | Cancelled \<Rightarrow> (Cancelled, m1) | Failed exc \<Rightarrow> (Failed exc, m1))"
      by (subst run_slabs.simps) (simp add: s split: outcome.split)
    show ?thesis
    proof (cases s)
      case (Completed p)
      obtain pos' ys' where p: "p = (pos', ys')" by (rule prod.exhaust)
      have "run_slabs e l width slab bs x pos' (first + slab) ys' m1 = (r, m')" using 1(2) unfold by (simp add: Completed p)
      then have "peak m' \<le> max (peak m1) (2 * (slab * nat (cols l) * width))" using 1(1)[OF _ _ s[symmetric]] False Completed p by simp
      with one show ?thesis by simp
    qed (use 1(2) unfold one in simp_all)
  qed
qed

lemma run_layer_peak: "run_layer e slab l x m = (r, m') \<Longrightarrow> peak m' \<le> max (peak m) (2 * slab_bytes slab l)"
proof (cases "rbind (validate_layer (disk_files e) l) (\<lambda>_. item_bytes l)")
  case (Inr width)
  assume run: "run_layer e slab l x m = (r, m')"
  from Inr have "item_bytes l = Inr width" by auto
  then have width: "slab * nat (cols l) * width = slab_bytes slab l" by (simp add: slab_bytes_def)
  show ?thesis
  proof (cases "cols l = int (length x)")
    case True
    with run Inr have "run_slabs e l width slab (the (disk_files e (path l))) x (nat (offset l)) 0 (replicate (nat (rows l)) (Fin 0)) m = (r, m')"
      by (simp add: run_layer_def)
    from run_slabs_peak[OF this] show ?thesis by (simp only: width)
  qed (use run Inr in \<open>simp add: run_layer_def\<close>)
qed (simp add: run_layer_def)

lemma run_layers_peak: "run_layers e slab ls x m = (r, m') \<Longrightarrow> peak m' \<le> max (peak m) (2 * foldr max (List.map (slab_bytes slab) ls) 0)"
proof (induction ls arbitrary: x m)
  case (Cons l ls)
  obtain s m1 where s: "run_layer e slab l x m = (s, m1)" by (rule prod.exhaust)
  have one: "peak m1 \<le> max (peak m) (2 * slab_bytes slab l)" by (rule run_layer_peak[OF s])
  show ?case
  proof (cases s)
    case (Completed y)
    then have "run_layers e slab ls y m1 = (r, m')" using Cons.prems s by simp
    from Cons.IH[OF this] one show ?thesis by simp
  qed (use Cons.prems s one in simp_all)
qed simp

text \<open>
  A run, whether it completes, is cancelled or fails, holds at most two slabs of weights at a time: the
  peak it reports is at most twice the bytes of the largest slab of its layers.
\<close>

theorem peak_is_two_slabs:
  assumes "new_executor ls slab work experimental = Inr ex"
  shows "peak_weight_bytes (metrics (run e elapsed ex x)) \<le> 2 * foldr max (List.map (slab_bytes (nat slab)) ls) 0"
proof -
  from assms have ex: "ex = \<lparr>layers = ls, rows_per_slab = slab, workload = work\<rparr>" by (auto simp: new_executor_def split: if_splits)
  obtain r m where r: "run_layers e (nat slab) ls x \<lparr>bytes_read = 0, peak = 0, asked = 0\<rparr> = (r, m)" by (rule prod.exhaust)
  from run_layers_peak[OF this] have "peak m \<le> 2 * foldr max (List.map (slab_bytes (nat slab)) ls) 0" by simp
  with r show ?thesis by (cases r) (simp_all add: run_def ex Let_def metrics_of_def)
qed

section \<open>A small network\<close>

definition tiny_layer :: "string option \<Rightarrow> layer" where
  "tiny_layer digest = \<lparr>path = ''w'', rows = 2, cols = 2, dtype = ''int8'', scale = Fin 2, offset = 1, sha256 = digest\<rparr>"

definition tiny_env :: dense_env where
  "tiny_env = \<lparr>disk_files = (\<lambda>p. if p = ''w'' then Some [9, 1, 2, 255, 4] else None), cancelled = None,
     summed = (\<lambda>xs. foldl fadd (Fin 0) xs)\<rparr>"

lemma tiny_executor: "new_executor [tiny_layer dg] 1 ''deep-offline'' True = Inr \<lparr>layers = [tiny_layer dg], rows_per_slab = 1, workload = ''deep-offline''\<rparr>"
  by (simp add: new_executor_def)

lemma tiny_product: "network_product tiny_env [tiny_layer None] [Fin 1, Fin 3] = Inr [Fin 14, Fin 22]"
  by code_simp

theorem streaming_is_exact_witness:
  "status (run tiny_env (Fin 5) \<lparr>layers = [tiny_layer None], rows_per_slab = 1, workload = ''deep-offline''\<rparr> [Fin 1, Fin 3]) = ''completed''
    \<and> output_values (run tiny_env (Fin 5) \<lparr>layers = [tiny_layer None], rows_per_slab = 1, workload = ''deep-offline''\<rparr> [Fin 1, Fin 3]) = [Fin 14, Fin 22]"
  using streaming_is_exact[OF tiny_executor[of None], where e = tiny_env and x = "[Fin 1, Fin 3]" and elapsed = "Fin 5"] tiny_product by (simp add: tiny_env_def)

theorem peak_is_two_slabs_witness:
  "peak_weight_bytes (metrics (run tiny_env (Fin 5) \<lparr>layers = [tiny_layer None], rows_per_slab = 1, workload = ''deep-offline''\<rparr> [Fin 1, Fin 3])) \<le> 4"
  using peak_is_two_slabs[OF tiny_executor[of None], where e = tiny_env and x = "[Fin 1, Fin 3]" and elapsed = "Fin 5"]
  by (simp add: slab_bytes_def tiny_layer_def item_bytes_def)

text \<open>A run never looks at the checksum of a layer: it completes on a container that loading would refuse.\<close>

theorem run_ignores_checksum:
  "isl (load_layer (disk_files tiny_env) (tiny_layer (Some ''0''))) \<and>
   status (run tiny_env (Fin 5) \<lparr>layers = [tiny_layer (Some ''0'')], rows_per_slab = 1, workload = ''deep-offline''\<rparr> [Fin 1, Fin 3]) = ''completed''"
proof
  have "''0'' \<noteq> sha256_hex bs" for bs by (rule notI) (drule arg_cong[of _ _ length], simp)
  then show "isl (load_layer (disk_files tiny_env) (tiny_layer (Some ''0'')))"
    by (simp add: load_layer_def tiny_layer_def tiny_env_def validate_layer_def weight_bytes_def item_bytes_def Let_def)
  have "network_product tiny_env [tiny_layer (Some ''0'')] [Fin 1, Fin 3] = Inr [Fin 14, Fin 22]" by code_simp
  then show "status (run tiny_env (Fin 5) \<lparr>layers = [tiny_layer (Some ''0'')], rows_per_slab = 1, workload = ''deep-offline''\<rparr> [Fin 1, Fin 3]) = ''completed''"
    using streaming_is_exact[OF tiny_executor[of "Some ''0''"], where e = tiny_env and x = "[Fin 1, Fin 3]" and elapsed = "Fin 5"] by (simp add: tiny_env_def)
qed

end
