(* ===== verification/Openai_Adapter.thy ===== *)
theory Openai_Adapter
  imports Daemon_Safety
begin

text \<open>
  The OpenAI-compatible adapter over the daemon, \<open>openai_adapter.py\<close>.  \<open>dispatch\<close> answers one request and may
  raise (the HTTP server then drops the connection); a JSON body is the value it encodes.  The bytes of a request
  are their length and the value they parse to, if any; the page is the file \<open>qwen38.html\<close> when it is served.
\<close>

section \<open>The adapter\<close>

definition LOOPBACK :: "string list" where
  "LOOPBACK = [''127.0.0.1'', ''::1'', ''localhost'']"

definition MAX_BODY :: nat where
  "MAX_BODY = 2 ^ 20"

record adapter =
  served_daemon :: daemon
  host :: string
  auth_token :: "string option"
  page :: "byte list option"
  request_id :: int

definition new_adapter :: "daemon \<Rightarrow> string \<Rightarrow> string option \<Rightarrow> byte list option \<Rightarrow> adapter res" where
  "new_adapter d h token pg =
     (if h \<notin> set LOOPBACK \<and> (token = None \<or> token = Some []) then Inl (ValueError ''auth_token is required when OpenAI adapter is not loopback-only'')
      else Inr \<lparr>served_daemon = d, host = h, auth_token = token, page = pg, request_id = 1000\<rparr>)"

record http_request =
  verb :: string
  route :: string
  req_headers :: "(string \<times> string) list"
  body_length :: nat
  body_value :: "pyval option"

datatype http_body = Json pyval | Page "byte list" | Events "pyval list" | Empty

record http_answer =
  code :: int
  content_type :: string
  content :: http_body

text \<open>The headers by lower-case name; the last of a name counts.\<close>

definition header :: "string \<Rightarrow> http_request \<Rightarrow> string option" where
  "header name r = map_of (rev (List.map (\<lambda>(k, v). (lower k, v)) (req_headers r))) name"

text \<open>\<open>compare_digest\<close> refuses texts that are not ASCII.\<close>

definition compare_digest :: "string \<Rightarrow> string \<Rightarrow> bool res" where
  "compare_digest a b = (if list_all (\<lambda>c. (of_char c :: nat) < 128) (a @ b) then Inr (a = b)
     else Inl (TypeError ''comparing strings with non-ASCII characters is not supported''))"

definition authorized :: "adapter \<Rightarrow> http_request \<Rightarrow> bool res" where
  "authorized a r = (case auth_token a of
      None \<Rightarrow> Inr (host a \<in> set LOOPBACK)
    | Some t \<Rightarrow> compare_digest (case header ''authorization'' r of None \<Rightarrow> [] | Some v \<Rightarrow> v) (''Bearer '' @ t))"

definition json_answer :: "int \<Rightarrow> (string \<times> pyval) list \<Rightarrow> http_answer" where
  "json_answer n d = \<lparr>code = n, content_type = ''application/json'', content = Json (PyDict d)\<rparr>"

definition problem :: "int \<Rightarrow> string \<Rightarrow> http_answer" where
  "problem n m = json_answer n [(''error'', PyDict [(''message'', PyStr m)])]"

section \<open>Talking to the daemon\<close>

definition ask_daemon :: "daemon_env \<Rightarrow> payload \<Rightarrow> int \<Rightarrow> adapter \<Rightarrow> event list res \<times> adapter" where
  "ask_daemon env q rid a = (case handle env (PyDict q) rid (served_daemon a) of (r, d) \<Rightarrow> (r, a\<lparr>served_daemon := d\<rparr>))"

text \<open>The payload of the first event of the answer to \<open>status\<close>.\<close>

definition status_of :: "daemon_env \<Rightarrow> adapter \<Rightarrow> payload res \<times> adapter" where
  "status_of env a = (case ask_daemon env [(''method'', PyStr ''status'')] 0 a of
      (Inl e, a) \<Rightarrow> (Inl e, a)
    | (Inr [], a) \<Rightarrow> (Inl (IndexError ''list index out of range''), a)
    | (Inr ((k, p) # _), a) \<Rightarrow> (Inr p, a))"

definition listed_handles :: "payload \<Rightarrow> pyval list" where
  "listed_handles p = (case jget p ''handles'' of PyList hs \<Rightarrow> hs | _ \<Rightarrow> [])"

definition health :: "daemon_env \<Rightarrow> adapter \<Rightarrow> http_answer res \<times> adapter" where
  "health env a = (case status_of env a of (r, a) \<Rightarrow>
     (rbind r (\<lambda>p. let ready = listed_handles p \<noteq> [] \<and> jget p ''state'' \<noteq> PyStr ''stopped'' in
        Inr (json_answer (if ready then 200 else 503)
          [(''status'', PyStr (if ready then ''ready'' else ''degraded'')), (''effect_authority'', PyStr ''none'')])), a))"

definition model_list :: "daemon_env \<Rightarrow> adapter \<Rightarrow> http_answer res \<times> adapter" where
  "model_list env a = (case status_of env a of (r, a) \<Rightarrow>
     (rbind r (\<lambda>p. rbind (map_res (\<lambda>h. rbind (opt_res (TypeError ''handle'') (py_dict h)) (\<lambda>h. opt_res (KeyError ''model_id'') (map_of h ''model_id''))) (listed_handles p)) (\<lambda>ids.
        Inr (json_answer 200 [(''object'', PyStr ''list''),
          (''data'', PyList (List.map (\<lambda>m. PyDict [(''id'', m), (''object'', PyStr ''model''), (''owned_by'', PyStr ''simplicio-local'')]) ids))]))), a))"

section \<open>Completions\<close>

text \<open>\<open>v == 1\<close> and \<open>v == False\<close>.\<close>

definition eq_one :: "pyval \<Rightarrow> bool" where
  "eq_one v \<longleftrightarrow> v = PyInt 1 \<or> v = PyBool True \<or> v = PyFloat (Fin 1)"

definition eq_false :: "pyval \<Rightarrow> bool" where
  "eq_false v \<longleftrightarrow> v = PyInt 0 \<or> v = PyBool False \<or> v = PyFloat (Fin 0)"

text \<open>What is refused before the daemon is asked.\<close>

definition refusal :: "payload \<Rightarrow> http_answer option" where
  "refusal q =
     (if map_of q ''tools'' \<noteq> None \<or> jget q ''tool_choice'' \<notin> {PyNone, PyStr ''none''} then Some (problem 400 ''tool execution is forbidden in Local'')
      else if \<not> eq_one (dget_or q ''n'' (PyInt 1)) \<or> (jget q ''logprobs'' \<noteq> PyNone \<and> \<not> eq_false (jget q ''logprobs''))
      then Some (problem 400 ''unsupported sampling field'')
      else None)"

text \<open>The prompt: that of a completion, or the content of the last message of a chat.\<close>

definition prompt_of :: "string \<Rightarrow> payload \<Rightarrow> http_answer + pyval" where
  "prompt_of rt q =
     (if rt = ''/v1/chat/completions'' then
        (case dget_or q ''messages'' (PyList []) of
          PyList (m # ms) \<Rightarrow> Inr (case last (m # ms) of PyDict d \<Rightarrow> PyStr (py_str (dget_or d ''content'' (PyStr []))) | _ \<Rightarrow> PyStr [])
        | _ \<Rightarrow> Inl (problem 400 ''messages is required''))
      else Inr (dget_or q ''prompt'' (PyStr [])))"

definition generate_request :: "payload \<Rightarrow> payload \<Rightarrow> pyval \<Rightarrow> payload res" where
  "generate_request active q p =
     rbind (opt_res (KeyError ''handle_id'') (map_of active ''handle_id'')) (\<lambda>hid.
     rbind (to_int (dget_or q ''max_tokens'' (PyInt 8))) (\<lambda>n.
       Inr [(''method'', PyStr ''generate''), (''handle_id'', hid),
         (''backend'', PyStr (py_str (dget_or q ''backend'' (dget_or active ''backend'' (PyStr ''fixture''))))),
         (''prompt'', PyStr (py_str p)), (''max_tokens'', PyInt n), (''profile'', PyStr (py_str (dget_or q ''profile'' (PyStr ''resident''))))]))"

text \<open>\<open>x.get(k) or {}\<close> of a dictionary, and the token counts of a receipt.\<close>

definition sub_dict :: "payload \<Rightarrow> string \<Rightarrow> payload res" where
  "sub_dict d k = (if truthy (jget d k) then opt_res (AttributeError ''get'') (py_dict (jget d k)) else Inr [])"

definition token_counts :: "payload \<Rightarrow> (int \<times> int) res" where
  "token_counts t =
     rbind (sub_dict t ''receipt'') (\<lambda>rc. rbind (sub_dict rc ''metrics'') (\<lambda>ms.
     rbind (sub_dict ms ''tokens.prompt'') (\<lambda>p. rbind (to_int (py_or (jget p ''value'') (PyInt 0))) (\<lambda>np.
     rbind (sub_dict ms ''tokens.generated'') (\<lambda>g. rbind (to_int (py_or (jget g ''value'') (dget_or t ''generated_tokens'' (PyInt 0)))) (\<lambda>ng.
       Inr (np, ng)))))))"

definition completion_id :: "int \<Rightarrow> pyval" where
  "completion_id n = PyStr (''chatcmpl-simplicio-'' @ str_of_int n)"

definition chunk_of :: "int \<Rightarrow> event \<Rightarrow> pyval res" where
  "chunk_of n ev = rbind (opt_res (KeyError ''text'') (map_of (snd ev) ''text'')) (\<lambda>t. Inr (PyDict [(''id'', completion_id n), (''object'', PyStr ''chat.completion.chunk''),
     (''choices'', PyList [PyDict [(''index'', PyInt 0), (''delta'', PyDict [(''content'', t)]), (''finish_reason'', PyNone)]])]))"

definition completion :: "string \<Rightarrow> int \<Rightarrow> payload \<Rightarrow> payload \<Rightarrow> int \<times> int \<Rightarrow> http_answer" where
  "completion rt n active t counts =
     (let txt = dget_or t ''text'' (PyStr []); rc = jget t ''receipt'' in
      json_answer 200 [(''id'', completion_id n), (''object'', PyStr (if rt = ''/v1/chat/completions'' then ''chat.completion'' else ''text_completion'')),
        (''model'', dget_or active ''model_id'' (dget_or t ''handle_id'' (PyStr ''fixture''))),
        (''choices'', PyList [PyDict [(''index'', PyInt 0), (''text'', txt), (''message'', PyDict [(''role'', PyStr ''assistant''), (''content'', txt)]),
           (''finish_reason'', dget_or t ''stop_reason'' (PyStr ''length''))]]),
        (''usage'', PyDict [(''prompt_tokens'', PyInt (fst counts)), (''completion_tokens'', PyInt (snd counts)), (''total_tokens'', PyInt (fst counts + snd counts))]),
        (''metadata'', PyDict [(''requested_backend'', jget t ''requested_backend''), (''effective_backend'', jget t ''effective_backend''),
           (''receipt'', py_or rc (PyDict []))])])"

text \<open>The answer made of the daemon's events; a stream carries the texts of the token events.\<close>

definition answer_events :: "string \<Rightarrow> int \<Rightarrow> payload \<Rightarrow> payload \<Rightarrow> event list \<Rightarrow> http_answer res" where
  "answer_events rt n active q evs =
     (if evs = [] then Inl (IndexError ''list index out of range'')
      else (let t = snd (last evs) in
        if \<not> truthy (dget_or t ''ok'' (PyBool False))
        then Inr (json_answer 409 [(''error'', dget_or t ''error'' (PyDict [(''message'', PyStr ''generation failed'')])), (''receipt'', jget t ''receipt'')])
        else rbind (token_counts t) (\<lambda>counts.
          if truthy (jget q ''stream'')
          then rbind (map_res (chunk_of n) (filter (\<lambda>(k, p). k = 3) evs)) (\<lambda>cs. Inr \<lparr>code = 200, content_type = ''text/event-stream'', content = Events cs\<rparr>)
          else Inr (completion rt n active t counts))))"

definition complete_request :: "daemon_env \<Rightarrow> string \<Rightarrow> payload \<Rightarrow> adapter \<Rightarrow> http_answer res \<times> adapter" where
  "complete_request env rt q a = (case status_of env a of
      (Inl e, a) \<Rightarrow> (Inl e, a)
    | (Inr p, a) \<Rightarrow> (case listed_handles p of
        [] \<Rightarrow> (Inr (problem 503 ''no model is loaded''), a)
      | h # _ \<Rightarrow> (case prompt_of rt q of
          Inl bad \<Rightarrow> (Inr bad, a)
        | Inr prm \<Rightarrow>
            (let a = a\<lparr>request_id := request_id a + 1\<rparr>; n = request_id a in
             case rbind (opt_res (TypeError ''handle'') (py_dict h)) (\<lambda>active. rbind (generate_request active q prm) (\<lambda>g. Inr (active, g))) of
               Inl e \<Rightarrow> (Inl e, a)
             | Inr (active, g) \<Rightarrow> (case ask_daemon env g n a of (r, a) \<Rightarrow> (rbind r (answer_events rt n active q), a))))))"

section \<open>Routing\<close>

definition post :: "daemon_env \<Rightarrow> http_request \<Rightarrow> adapter \<Rightarrow> http_answer res \<times> adapter" where
  "post env r a = (case (if body_length r = 0 then Some (PyDict []) else body_value r) of
      None \<Rightarrow> (Inr (problem 400 ''malformed JSON''), a)
    | Some (PyDict q) \<Rightarrow> (case refusal q of Some bad \<Rightarrow> (Inr bad, a) | None \<Rightarrow> complete_request env (route r) q a)
    | Some _ \<Rightarrow> (Inr (problem 400 ''request must be an object''), a))"

definition dispatch :: "daemon_env \<Rightarrow> http_request \<Rightarrow> adapter \<Rightarrow> http_answer res \<times> adapter" where
  "dispatch env r a = (case authorized a r of
      Inl e \<Rightarrow> (Inl e, a)
    | Inr False \<Rightarrow> (Inr (problem 401 ''unauthorized''), a)
    | Inr True \<Rightarrow>
        if MAX_BODY < body_length r then (Inr (problem 413 ''request body is too large''), a)
        else if verb r = ''OPTIONS'' then (Inr \<lparr>code = 204, content_type = [], content = Empty\<rparr>, a)
        else if verb r = ''GET'' \<and> page a \<noteq> None \<and> route r \<in> {''/'', ''/qwen38.html''}
        then (Inr \<lparr>code = 200, content_type = ''text/html; charset=utf-8'', content = Page (the (page a))\<rparr>, a)
        else if verb r = ''GET'' \<and> route r = ''/health'' then health env a
        else if verb r = ''GET'' \<and> route r = ''/v1/models'' then model_list env a
        else if verb r \<noteq> ''POST'' \<or> route r \<notin> {''/v1/completions'', ''/v1/chat/completions''}
        then (Inr (if route r = ''/v1/embeddings'' then problem 501 ''embeddings capability is not enabled'' else problem 404 ''unknown route''), a)
        else post env r a)"

section \<open>What a client can change\<close>

text \<open>Two adapters that differ only in the number of requests seen.\<close>

definition same_service :: "adapter \<Rightarrow> adapter \<Rightarrow> bool" where
  "same_service a b \<longleftrightarrow> host b = host a \<and> auth_token b = auth_token a \<and> page b = page a
     \<and> (\<exists>n. request_count (served_daemon a) \<le> n \<and> served_daemon b = (served_daemon a)\<lparr>request_count := n\<rparr>) \<and> request_id a \<le> request_id b"

lemma same_service_refl [simp]: "same_service a a"
  by (auto simp: same_service_def intro: exI[of _ "request_count (served_daemon a)"])

lemma same_service_trans: "same_service a b \<Longrightarrow> same_service b c \<Longrightarrow> same_service a c"
proof -
  assume ab: "same_service a b" and bc: "same_service b c"
  from ab obtain n where n: "request_count (served_daemon a) \<le> n" "served_daemon b = (served_daemon a)\<lparr>request_count := n\<rparr>" by (auto simp: same_service_def)
  from bc obtain k where k: "request_count (served_daemon b) \<le> k" "served_daemon c = (served_daemon b)\<lparr>request_count := k\<rparr>" by (auto simp: same_service_def)
  from n k have "request_count (served_daemon a) \<le> k" "served_daemon c = (served_daemon a)\<lparr>request_count := k\<rparr>" by simp_all
  then show "same_service a c" using ab bc unfolding same_service_def by (intro conjI exI[of _ k]) simp_all
qed

lemma same_service_next [simp]: "same_service a b \<Longrightarrow> same_service a (b\<lparr>request_id := request_id b + 1\<rparr>)"
  by (auto simp: same_service_def)

lemma same_service_inv: "same_service a b \<Longrightarrow> daemon_inv (served_daemon a) \<Longrightarrow> daemon_inv (served_daemon b)"
  by (auto simp: same_service_def)

text \<open>The daemon is asked for its status and for generations only, and these keep it.\<close>

lemma handle_reads:
  assumes "daemon_inv d" and "m \<in> {''status'', ''generate''}"
  shows "snd (handle env (PyDict ((''method'', PyStr m) # q)) rid d) = d\<lparr>request_count := request_count d + 1\<rparr>"
  using assms by (auto simp: handle_def METHODS_def jget_def dget_or_def handle_plain_def Let_def generate_state)

lemma ask_same:
  assumes "daemon_inv (served_daemon a)" and "m \<in> {''status'', ''generate''}"
  shows "same_service a (snd (ask_daemon env ((''method'', PyStr m) # q) rid a))"
proof -
  have "snd (ask_daemon env ((''method'', PyStr m) # q) rid a) = a\<lparr>served_daemon := (served_daemon a)\<lparr>request_count := request_count (served_daemon a) + 1\<rparr>\<rparr>"
    using handle_reads[OF assms, of env q rid] by (simp add: ask_daemon_def case_prod_unfold)
  then show ?thesis by (auto simp: same_service_def intro: exI[of _ "request_count (served_daemon a) + 1"])
qed

lemma status_same: "daemon_inv (served_daemon a) \<Longrightarrow> same_service a (snd (status_of env a))"
  using ask_same[of a "''status''" env "[]" 0] unfolding status_of_def by (auto split: prod.splits sum.splits list.splits)

lemma generate_request_method: "generate_request active q p = Inr g \<Longrightarrow> \<exists>g'. g = (''method'', PyStr ''generate'') # g'"
  by (auto simp: generate_request_def)

lemma complete_same:
  assumes "daemon_inv (served_daemon a)"
  shows "same_service a (snd (complete_request env rt q a))"
proof -
  obtain r b where st: "status_of env a = (r, b)" by (rule prod.exhaust)
  with status_same[OF assms, of env] have b: "same_service a b" by simp
  let ?b = "b\<lparr>request_id := request_id b + 1\<rparr>"
  have nb: "same_service a ?b" "daemon_inv (served_daemon ?b)" using b same_service_inv[OF b assms] by simp_all
  have asked: "same_service a (snd (ask_daemon env g n ?b))" if "generate_request active q p = Inr g" for g n active p
    using generate_request_method[OF that] ask_same[OF nb(2), of "''generate''" env _ n] same_service_trans[OF nb(1)] by blast
  show ?thesis
  proof (cases r)
    case (Inr p)
    show ?thesis
    proof (cases "listed_handles p")
      case (Cons h hs)
      show ?thesis
      proof (cases "prompt_of rt q")
        case (Inr prm)
        show ?thesis
        proof (cases "rbind (opt_res (TypeError ''handle'') (py_dict h)) (\<lambda>active. rbind (generate_request active q prm) (\<lambda>g. Inr (active, g)))")
          case (Inr ag)
          then obtain active g where g: "ag = (active, g)" "generate_request active q prm = Inr g" by auto
          have "snd (complete_request env rt q a) = snd (ask_daemon env g (request_id ?b) ?b)"
            using Inr \<open>prompt_of rt q = Inr prm\<close> Cons \<open>r = Inr p\<close> st unfolding complete_request_def by (simp add: g Let_def split: prod.split)
          then show ?thesis using asked[OF g(2)] by simp
        qed (use \<open>prompt_of rt q = Inr prm\<close> Cons \<open>r = Inr p\<close> st nb in \<open>simp add: complete_request_def Let_def\<close>)
      qed (use Cons \<open>r = Inr p\<close> st b in \<open>simp add: complete_request_def\<close>)
    qed (use \<open>r = Inr p\<close> st b in \<open>simp add: complete_request_def\<close>)
  qed (use st b in \<open>simp add: complete_request_def\<close>)
qed

lemma dispatch_same:
  assumes "daemon_inv (served_daemon a)"
  shows "same_service a (snd (dispatch env r a))"
proof -
  have "same_service a (snd (health env a))" "same_service a (snd (model_list env a))"
    using status_same[OF assms, of env] by (simp_all add: health_def model_list_def case_prod_unfold)
  moreover have "same_service a (snd (post env r a))"
    using complete_same[OF assms] by (auto simp: post_def split: option.split pyval.split)
  ultimately show ?thesis unfolding dispatch_def by (auto split: sum.split bool.split)
qed

text \<open>
  C37: whatever requests an adapter serves, authorised or not, in whatever order and surroundings, the daemon keeps
  its models, its servers, its replays and its state; only the number of requests it has seen grows.  So no
  client of the adapter can load, unload, drain or stop a model.
\<close>

theorem adapter_only_reads_the_daemon:
  assumes "daemon_inv (served_daemon a)"
  shows "(let b = fold (\<lambda>(env, r) a. snd (dispatch env r a)) reqs a in
     host b = host a \<and> auth_token b = auth_token a
     \<and> (\<exists>n. request_count (served_daemon a) \<le> n \<and> served_daemon b = (served_daemon a)\<lparr>request_count := n\<rparr>))"
proof -
  have "same_service a (fold (\<lambda>(env, r) a. snd (dispatch env r a)) reqs a)"
    using assms
  proof (induction reqs arbitrary: a)
    case (Cons x reqs)
    obtain env r where x: "x = (env, r)" by (rule prod.exhaust)
    have one: "same_service a (snd (dispatch env r a))" by (rule dispatch_same[OF Cons.prems])
    from same_service_trans[OF one Cons.IH[OF same_service_inv[OF one Cons.prems]]] show ?case by (simp add: x)
  qed simp
  then show ?thesis by (simp add: same_service_def Let_def)
qed

section \<open>A served daemon\<close>

definition served_fixture :: adapter where
  "served_fixture = \<lparr>served_daemon = fold daemon_step [load_request ''b'' ''fixture'' PyNone] new_daemon, host = ''127.0.0.1'', auth_token = None, page = None, request_id = 1000\<rparr>"

definition chat_request :: "payload \<Rightarrow> http_request" where
  "chat_request q = \<lparr>verb = ''POST'', route = ''/v1/chat/completions'', req_headers = [], body_length = 9, body_value = Some (PyDict q)\<rparr>"

theorem adapter_only_reads_the_daemon_witness:
  "\<exists>n. served_daemon (snd (dispatch demo_env (chat_request [(''messages'', PyList [PyDict [(''content'', PyStr ''a b'')]])]) served_fixture))
     = (served_daemon served_fixture)\<lparr>request_count := n\<rparr>"
proof -
  have "daemon_inv (served_daemon served_fixture)" by (simp only: served_fixture_def adapter.simps) (rule daemon.reach_inv, simp)
  from adapter_only_reads_the_daemon[OF this, of "[(demo_env, chat_request [(''messages'', PyList [PyDict [(''content'', PyStr ''a b'')]])])]"]
  show ?thesis by (auto simp: Let_def)
qed

text \<open>Of a chat only the last message reaches the daemon: instructions and earlier turns are dropped.\<close>

theorem earlier_messages_are_dropped:
  "complete_request env ''/v1/chat/completions'' ((''messages'', PyList (ms @ [m])) # q) a
   = complete_request env ''/v1/chat/completions'' ((''messages'', PyList [m]) # q) a"
proof -
  have p: "prompt_of ''/v1/chat/completions'' ((''messages'', PyList (ms @ [m])) # q) = prompt_of ''/v1/chat/completions'' ((''messages'', PyList [m]) # q)"
    by (cases ms) (simp_all add: prompt_of_def dget_or_def)
  have g: "generate_request active ((''messages'', v) # q) prm = generate_request active q prm" for active v prm
    by (simp add: generate_request_def dget_or_def)
  have e: "answer_events rt k active ((''messages'', v) # q) = answer_events rt k active q" for rt k active v
  proof (rule ext)
    fix evs
    have "jget ((''messages'', v) # q) ''stream'' = jget q ''stream''" by (simp add: jget_def dget_or_def)
    then show "answer_events rt k active ((''messages'', v) # q) evs = answer_events rt k active q evs" by (simp only: answer_events_def)
  qed
  show ?thesis by (simp only: complete_request_def p g e)
qed

text \<open>A number of tokens that is no number is not answered with a 400: the request raises.\<close>

lemma fixture_listed:
  "case status_of demo_env served_fixture of (Inr p, a) \<Rightarrow> (case listed_handles p of PyDict h # hs \<Rightarrow> map_of h ''handle_id'' \<noteq> None | _ \<Rightarrow> False) | _ \<Rightarrow> False"
  by code_simp

theorem bad_max_tokens_raises:
  "isl (fst (dispatch demo_env (chat_request [(''messages'', PyList [PyDict [(''content'', PyStr ''a'')]]), (''max_tokens'', PyStr ''many'')]) served_fixture))"
proof -
  obtain p a h hs where st: "status_of demo_env served_fixture = (Inr p, a)" "listed_handles p = PyDict h # hs"
    using fixture_listed by (auto split: prod.splits sum.splits list.splits pyval.splits)
  have "isl (to_int (PyStr ''many''))" by code_simp
  then obtain e where bad: "to_int (PyStr ''many'') = Inl e" by (cases "to_int (PyStr ''many'')") auto
  show ?thesis
    using st by (cases "map_of h ''handle_id''") (simp_all add: Let_def dispatch_def authorized_def chat_request_def served_fixture_def LOOPBACK_def MAX_BODY_def post_def refusal_def jget_def dget_or_def
        eq_one_def complete_request_def prompt_of_def generate_request_def bad)
qed

end
