(* ===== verification/Server_Manager.thy ===== *)
theory Server_Manager
  imports Py_Json
begin

text \<open>
  The lifecycle of a local OpenAI-compatible server, \<open>server_manager.py\<close>.  The state is what lies in the state
  directory (the connection and the key), the processes this manager started itself, and the servers alive on the
  machine.  What an operation sees of its surroundings is a record: the answers to health checks, the outcome of
  the spawn and what the readiness loop sees on each turn until its deadline.
\<close>

section \<open>State\<close>

record server_spec =
  sp_model :: string
  sp_backend :: string
  sp_quantization :: string
  sp_command :: "string list"
  sp_host :: string
  sp_port :: int
  sp_strategy :: string
  auth_enabled :: bool

record connection =
  base_url :: string
  model_id :: string
  backend :: string
  quantization :: string
  strategy :: string
  api_key :: "string option"
  pid :: int
  health_state :: string

definition SERVER_METADATA_SCHEMA_V1 :: string where
  "SERVER_METADATA_SCHEMA_V1 = ''simplicio-local.connection-metadata/v1''"

definition connection_dict :: "connection \<Rightarrow> (string \<times> pyval) list" where
  "connection_dict c = [(''schema'', PyStr SERVER_METADATA_SCHEMA_V1), (''base_url'', PyStr (base_url c)), (''model_id'', PyStr (model_id c)),
     (''backend'', PyStr (backend c)), (''quantization'', PyStr (quantization c)), (''strategy'', PyStr (strategy c)), (''api_key'', py_opt_str (api_key c)),
     (''pid'', PyInt (pid c)), (''health'', PyStr (health_state c))]"

text \<open>\<open>alive\<close> are the servers that run, \<open>own\<close> the keys of \<open>_processes\<close>.\<close>

record manager =
  saved :: "connection option"
  key_file :: "string option"
  own :: "int list"
  alive :: "int list"

text \<open>
  One turn of the readiness loop: the process is gone, or the server answers, or neither, or the health check raises
  what \<open>_health\<close> does not catch (an \<open>HTTPException\<close>: an answer that is no HTTP, a host that makes no URL).
\<close>

datatype look = Exited string | Answers | Waiting | Breaks py_exc

text \<open>\<open>record_fault\<close> is what the write of the connection raises, if it does.\<close>

record surroundings =
  healthy :: "connection \<Rightarrow> bool res"
  free_port :: "int res"
  fresh_key :: "string res"
  spawn :: "string list \<Rightarrow> int res"
  watch :: "look list"
  record_fault :: "py_exc option"
  may_signal :: "int \<Rightarrow> bool"
  stubborn :: "int \<Rightarrow> bool"

section \<open>Operations\<close>

text \<open>\<open>str.format\<close> with named fields and doubled braces.\<close>

fun format_item :: "(string \<times> string) list \<Rightarrow> string \<Rightarrow> string res" where
  "format_item d [] = Inr []"
| "format_item d (c # cs) =
     (if c = CHR ''{'' then
        (case cs of
          [] \<Rightarrow> Inl (ValueError ''Single { encountered in format string'')
        | x # xs \<Rightarrow>
            if x = CHR ''{'' then rbind (format_item d xs) (\<lambda>t. Inr (CHR ''{'' # t))
            else (let name = takeWhile (\<lambda>y. y \<noteq> CHR ''}'') cs; rest = dropWhile (\<lambda>y. y \<noteq> CHR ''}'') cs in
              if rest = [] then Inl (ValueError ''expected } before end of string'')
              else if name = [] then Inl (IndexError ''Replacement index 0 out of range'')
              else (case map_of d name of None \<Rightarrow> Inl (KeyError name)
                | Some v \<Rightarrow> rbind (format_item d (drop (length name + 1) cs)) (\<lambda>t. Inr (v @ t)))))
      else if c = CHR ''}'' then
        (case cs of
          x # xs \<Rightarrow> if x = CHR ''}'' then rbind (format_item d xs) (\<lambda>t. Inr (CHR ''}'' # t)) else Inl (ValueError ''Single } encountered in format string'')
        | [] \<Rightarrow> Inl (ValueError ''Single } encountered in format string''))
      else rbind (format_item d cs) (\<lambda>t. Inr (c # t)))"

definition key_for :: "surroundings \<Rightarrow> bool \<Rightarrow> manager \<Rightarrow> string option res \<times> manager" where
  "key_for w enabled m = (if \<not> enabled then (Inr None, m)
     else case key_file m of
       Some k \<Rightarrow> (Inr (Some (strip k)), m)
     | None \<Rightarrow> (case fresh_key w of Inl e \<Rightarrow> (Inl e, m)
         | Inr k \<Rightarrow> (Inr (Some k), m\<lparr>key_file := Some (k @ [char_of (10 :: nat)])\<rparr>)))"

text \<open>
  A server dies of SIGTERM unless it is stubborn.  A manager waits for a process of its own, and kills it if need
  be; it cannot wait for one that another manager started.
\<close>

definition terminate :: "surroundings \<Rightarrow> int \<Rightarrow> manager \<Rightarrow> manager" where
  "terminate w p m = (if stubborn w p then m else m\<lparr>alive := removeAll p (alive m)\<rparr>)"

definition reap :: "int \<Rightarrow> manager \<Rightarrow> manager" where
  "reap p m = (if p \<in> set (own m) then m\<lparr>own := removeAll p (own m), alive := removeAll p (alive m)\<rparr> else m)"

definition stopped_report :: "int option \<Rightarrow> pyval" where
  "stopped_report p = PyDict ((''schema'', PyStr SERVER_METADATA_SCHEMA_V1) # (case p of
      None \<Rightarrow> [(''stopped'', PyBool False), (''reason'', PyStr ''no-managed-server'')]
    | Some p \<Rightarrow> [(''stopped'', PyBool True), (''pid'', PyInt p)]))"

definition stop :: "surroundings \<Rightarrow> manager \<Rightarrow> pyval res \<times> manager" where
  "stop w m = (case saved m of
      None \<Rightarrow> (Inr (stopped_report None), m)
    | Some c \<Rightarrow>
        if pid c \<in> set (alive m) \<and> \<not> may_signal w (pid c)
        then (Inl (RuntimeError ''cannot stop managed server''), m)
        else (Inr (stopped_report (Some (pid c))), (reap (pid c) (terminate w (pid c) m))\<lparr>saved := None\<rparr>))"

text \<open>
  The readiness loop: whether the server answered before the deadline.  It raises when the process has ended, and
  when a health check does; \<open>ended\<close> tells the two apart, for the process of the second goes on.
\<close>

fun await :: "look list \<Rightarrow> bool res" where
  "await [] = Inr False"
| "await (Exited detail # ls) = Inl (RuntimeError (''server exited before readiness: '' @ detail))"
| "await (Answers # ls) = Inr True"
| "await (Waiting # ls) = await ls"
| "await (Breaks e # ls) = Inl e"

fun ended :: "look list \<Rightarrow> bool" where
  "ended [] = False"
| "ended (Exited detail # ls) = True"
| "ended (Answers # ls) = False"
| "ended (Waiting # ls) = ended ls"
| "ended (Breaks e # ls) = False"

definition serve_until_ready :: "surroundings \<Rightarrow> server_spec \<Rightarrow> string \<Rightarrow> string option \<Rightarrow> int \<Rightarrow> manager \<Rightarrow> connection res \<times> manager" where
  "serve_until_ready w s url key p m =
     (let m = m\<lparr>own := p # removeAll p (own m), alive := p # alive m\<rparr> in
      case await (watch w) of
        Inl e \<Rightarrow> (Inl e, if ended (watch w) then m\<lparr>alive := removeAll p (alive m)\<rparr> else m)
      | Inr False \<Rightarrow> (Inl (OSError ''OpenAI-compatible server did not become ready''), terminate w p m)
      | Inr True \<Rightarrow>
          (let c = \<lparr>base_url = url, model_id = sp_model s, backend = sp_backend s, quantization = sp_quantization s, strategy = sp_strategy s,
              api_key = key, pid = p, health_state = ''ready''\<rparr> in
           case record_fault w of Some e \<Rightarrow> (Inl e, m) | None \<Rightarrow> (Inr c, m\<lparr>saved := Some c\<rparr>)))"

definition launch :: "surroundings \<Rightarrow> server_spec \<Rightarrow> manager \<Rightarrow> connection res \<times> manager" where
  "launch w s m =
     (case (if sp_port s = 0 then free_port w else Inr (sp_port s)) of
       Inl e \<Rightarrow> (Inl e, m)
     | Inr port \<Rightarrow>
         (case key_for w (auth_enabled s) m of
           (Inl e, m) \<Rightarrow> (Inl e, m)
         | (Inr key, m) \<Rightarrow>
             (let fields = [(''host'', sp_host s), (''port'', str_of_int port), (''api_key'', (case key of None \<Rightarrow> [] | Some k \<Rightarrow> k))] in
              case rbind (map_res (format_item fields) (sp_command s)) (spawn w) of
                Inl e \<Rightarrow> (Inl e, m)
              | Inr p \<Rightarrow> serve_until_ready w s (''http://'' @ sp_host s @ '':'' @ str_of_int port @ ''/v1'') key p m)))"

definition reusable :: "surroundings \<Rightarrow> server_spec \<Rightarrow> connection \<Rightarrow> bool res" where
  "reusable w s c =
     (if model_id c = sp_model s \<and> backend c = sp_backend s \<and> quantization c = sp_quantization s then healthy w c else Inr False)"

definition start :: "surroundings \<Rightarrow> server_spec \<Rightarrow> manager \<Rightarrow> connection res \<times> manager" where
  "start w s m = (case saved m of
      None \<Rightarrow> launch w s m
    | Some c \<Rightarrow> (case reusable w s c of
          Inl e \<Rightarrow> (Inl e, m)
        | Inr True \<Rightarrow> (Inr c, m)
        | Inr False \<Rightarrow> (case stop w m of (Inl e, m) \<Rightarrow> (Inl e, m) | (Inr _, m) \<Rightarrow> launch w s m)))"

definition health :: "surroundings \<Rightarrow> connection \<Rightarrow> pyval res" where
  "health w c = rbind (healthy w c) (\<lambda>up.
     Inr (PyDict [(''ready'', PyBool up), (''models'', PyBool up), (''chat_completions'', PyBool up), (''base_url'', PyStr (base_url c))]))"

definition status :: "surroundings \<Rightarrow> manager \<Rightarrow> pyval res" where
  "status w m = (case saved m of
      None \<Rightarrow> Inr (PyDict [(''schema'', PyStr SERVER_METADATA_SCHEMA_V1), (''state'', PyStr ''empty''), (''health'', PyDict [(''ready'', PyBool False)])])
    | Some c \<Rightarrow> rbind (healthy w c) (\<lambda>up. rbind (health w c) (\<lambda>h.
        Inr (PyDict (dput ''health'' h (dput ''state'' (PyStr (if up then ''running'' else ''stale'')) (connection_dict c)))))))"

section \<open>At most one server\<close>

datatype operation = Start surroundings server_spec | Stop surroundings

fun seen_by :: "operation \<Rightarrow> surroundings" where
  "seen_by (Start w s) = w"
| "seen_by (Stop w) = w"

fun manage :: "operation \<Rightarrow> manager \<Rightarrow> manager" where
  "manage (Start w s) m = snd (start w s m)"
| "manage (Stop w) m = snd (stop w m)"

definition idle :: manager where
  "idle = \<lparr>saved = None, key_file = None, own = [], alive = []\<rparr>"

text \<open>Every server alive is the recorded one.\<close>

definition one_server :: "manager \<Rightarrow> bool" where
  "one_server m \<longleftrightarrow> (\<forall>p \<in> set (alive m). \<exists>c. saved m = Some c \<and> pid c = p)"

lemma no_server: "one_server m \<Longrightarrow> saved m = None \<Longrightarrow> alive m = []"
  by (cases "alive m") (auto simp: one_server_def)

lemma reap_alive: "set (alive (reap p m)) \<subseteq> set (alive m)" and reap_saved: "saved (reap p m) = saved m"
  by (auto simp: reap_def)

lemma stop_one:
  assumes "stop w m = (r, m')" and "one_server m" and "\<not> stubborn w (case saved m of None \<Rightarrow> 0 | Some c \<Rightarrow> pid c)"
  shows "one_server m' \<and> (\<forall>x. r = Inr x \<longrightarrow> saved m' = None)"
proof (cases "saved m")
  case None
  with assms(1,2) show ?thesis by (auto simp: stop_def)
next
  case (Some c)
  show ?thesis
  proof (cases "pid c \<in> set (alive m) \<and> \<not> may_signal w (pid c)")
    case True
    with Some assms(1,2) show ?thesis by (auto simp: stop_def)
  next
    case False
    have "set (alive m) \<subseteq> {pid c}" using assms(2) Some by (auto simp: one_server_def)
    then have "set (alive (terminate w (pid c) m)) = {}" using assms(3) Some by (auto simp: terminate_def)
    then have "alive (reap (pid c) (terminate w (pid c) m)) = []" using reap_alive[of "pid c" "terminate w (pid c) m"] by simp
    moreover have "m' = (reap (pid c) (terminate w (pid c) m))\<lparr>saved := None\<rparr>" using assms(1) Some False by (auto simp: stop_def)
    ultimately show ?thesis by (simp add: one_server_def)
  qed
qed

lemma key_for_state: "key_for w b m = (k, m') \<Longrightarrow> alive m' = alive m \<and> saved m' = saved m"
  by (auto simp: key_for_def split: if_splits option.splits sum.splits)

text \<open>Nothing on the way makes a start raise while its server runs: the health checks return, the record is written.\<close>

definition recording :: "surroundings \<Rightarrow> bool" where
  "recording w \<longleftrightarrow> (\<forall>l \<in> set (watch w). \<forall>e. l \<noteq> Breaks e) \<and> record_fault w = None"

lemma await_ended: "await ls = Inl e \<Longrightarrow> \<forall>l \<in> set ls. \<forall>e. l \<noteq> Breaks e \<Longrightarrow> ended ls"
  by (induction ls rule: await.induct) auto

lemma serve_one:
  assumes "serve_until_ready w s url key p m = (r, m')" and "alive m = []" and "saved m = None" and "\<And>p. \<not> stubborn w p" and "recording w"
  shows "one_server m' \<and> (\<forall>c. r = Inr c \<longrightarrow> saved m' = Some c \<and> pid c \<in> set (alive m'))"
proof (cases "await (watch w)")
  case (Inl e)
  then have "ended (watch w)" using await_ended assms(5) by (auto simp: recording_def)
  then have "r = Inl e" "alive m' = []" using assms(1,2) Inl by (auto simp: serve_until_ready_def Let_def)
  then show ?thesis by (simp add: one_server_def)
next
  case (Inr ready)
  then show ?thesis
    using assms by (cases ready) (auto simp: serve_until_ready_def recording_def Let_def terminate_def one_server_def)
qed

lemma launch_one:
  assumes "launch w s m = (r, m')" and "alive m = []" and "saved m = None" and "\<And>p. \<not> stubborn w p" and "recording w"
  shows "one_server m' \<and> (\<forall>c. r = Inr c \<longrightarrow> saved m' = Some c \<and> pid c \<in> set (alive m'))"
proof (cases "if sp_port s = 0 then free_port w else Inr (sp_port s)")
  case (Inl e)
  with assms(1-3) show ?thesis by (auto simp: launch_def one_server_def)
next
  case (Inr port)
  obtain k m1 where k: "key_for w (auth_enabled s) m = (k, m1)" by (rule prod.exhaust)
  with key_for_state assms(2,3) have m1: "alive m1 = []" "saved m1 = None" by force+
  show ?thesis
  proof (cases k)
    case (Inl e)
    then show ?thesis using assms(1) m1 k Inr by (auto simp: launch_def one_server_def)
  next
    case key: (Inr key)
    let ?fields = "[(''host'', sp_host s), (''port'', str_of_int port), (''api_key'', (case key of None \<Rightarrow> [] | Some k \<Rightarrow> k))]"
    show ?thesis
    proof (cases "rbind (map_res (format_item ?fields) (sp_command s)) (spawn w)")
      case (Inl e)
      with assms(1) have "r = Inl e" "m' = m1" by (simp_all add: launch_def k key Inr Let_def)
      then show ?thesis using m1 by (simp add: one_server_def)
    next
      case spawned: (Inr p)
      with assms(1) have "serve_until_ready w s (''http://'' @ sp_host s @ '':'' @ str_of_int port @ ''/v1'') key p m1 = (r, m')"
        by (simp add: launch_def k key Inr Let_def)
      from serve_one[OF this m1 assms(4,5)] show ?thesis .
    qed
  qed
qed

lemma start_one:
  assumes "start w s m = (r, m')" and "one_server m" and "\<And>p. \<not> stubborn w p" and "recording w"
  shows "one_server m' \<and> (\<forall>c. r = Inr c \<longrightarrow> saved m' = Some c)"
proof (cases "saved m")
  case None
  with assms(1) have "launch w s m = (r, m')" by (simp add: start_def)
  from launch_one[OF this no_server[OF assms(2) None] None assms(3,4)] show ?thesis by blast
next
  case (Some c)
  consider e where "reusable w s c = Inl e" | "reusable w s c = Inr True" | "reusable w s c = Inr False"
    by (cases "reusable w s c") auto
  then show ?thesis
  proof cases
    case 3
    obtain x m1 where st: "stop w m = (x, m1)" by (rule prod.exhaust)
    note one = stop_one[OF st assms(2) assms(3)]
    show ?thesis
    proof (cases x)
      case (Inl e)
      with Some 3 st assms(1) one show ?thesis by (auto simp: start_def)
    next
      case (Inr v)
      with one have gone: "one_server m1" "saved m1 = None" by auto
      have "launch w s m1 = (r, m')" using Inr Some 3 st assms(1) by (simp add: start_def)
      from launch_one[OF this no_server[OF gone] gone(2) assms(3,4)] show ?thesis by blast
    qed
  qed (use Some assms(1,2) in \<open>auto simp: start_def\<close>)
qed

text \<open>
  C38: over every sequence of starts and stops by a manager that began with none, when servers obey SIGTERM and no
  start is left between its spawn and its record (no health check of the readiness loop raises, and the record can
  be written), every server alive is the one on record, even when a port, a key, a spawn, the readiness,
  the reuse check or a permission fails.  Without the last two conditions it does not hold: see
  \<open>unrecorded_server_is_lost\<close>.
\<close>

theorem at_most_one_server:
  assumes "\<forall>a \<in> set ops. (\<forall>p. \<not> stubborn (seen_by a) p) \<and> (\<forall>l \<in> set (watch (seen_by a)). \<forall>e. l \<noteq> Breaks e) \<and> record_fault (seen_by a) = None"
  shows "\<forall>p \<in> set (alive (fold manage ops idle)). \<exists>c. saved (fold manage ops idle) = Some c \<and> pid c = p"
proof -
  have "one_server (fold manage ops m)" if "one_server m" for m
    using assms that
  proof (induction ops arbitrary: m)
    case (Cons a ops)
    have "one_server (manage a m)"
    proof (cases a)
      case (Start w s)
      then show ?thesis using start_one[of w s m "fst (start w s m)" "snd (start w s m)"] Cons.prems by (simp add: recording_def)
    next
      case (Stop w)
      then show ?thesis using stop_one[of w m "fst (stop w m)" "snd (stop w m)"] Cons.prems by simp
    qed
    then show ?case using Cons.IH Cons.prems(1) by simp
  qed simp
  then have "one_server (fold manage ops idle)" by (simp add: idle_def one_server_def)
  then show ?thesis by (simp add: one_server_def)
qed

definition calm :: "int \<Rightarrow> look list \<Rightarrow> surroundings" where
  "calm p looks = \<lparr>healthy = (\<lambda>c. Inr True), free_port = Inr 80, fresh_key = Inr ''k'', spawn = (\<lambda>cmd. Inr p), watch = looks, record_fault = None,
     may_signal = (\<lambda>p. True), stubborn = (\<lambda>p. False)\<rparr>"

definition small_spec :: "string \<Rightarrow> bool \<Rightarrow> server_spec" where
  "small_spec m auth = \<lparr>sp_model = m, sp_backend = ''b'', sp_quantization = ''q'', sp_command = [''serve'', ''--port={port}''], sp_host = ''h'', sp_port = 0,
     sp_strategy = ''baseline'', auth_enabled = auth\<rparr>"

theorem at_most_one_server_witness:
  "alive (fold manage [Start (calm 7 [Waiting, Answers]) (small_spec ''a'' False), Start (calm 8 [Answers]) (small_spec ''c'' False)] idle) = [8] \<and>
   (\<exists>c. saved (fold manage [Start (calm 7 [Waiting, Answers]) (small_spec ''a'' False), Start (calm 8 [Answers]) (small_spec ''c'' False)] idle) = Some c \<and> pid c = 8)"
proof -
  let ?ops = "[Start (calm 7 [Waiting, Answers]) (small_spec ''a'' False), Start (calm 8 [Answers]) (small_spec ''c'' False)]"
  have a: "alive (fold manage ?ops idle) = [8]" by code_simp
  have "\<forall>a \<in> set ?ops. (\<forall>p. \<not> stubborn (seen_by a) p) \<and> (\<forall>l \<in> set (watch (seen_by a)). \<forall>e. l \<noteq> Breaks e) \<and> record_fault (seen_by a) = None"
    by (simp add: calm_def)
  from at_most_one_server[OF this] a show ?thesis by simp
qed

text \<open>
  A start that asks for authentication is given the running server of the same model, which has none.
\<close>

theorem start_reuses_open_server:
  "(let m = manage (Start (calm 7 [Answers]) (small_spec ''a'' False)) idle in
    case fst (start (calm 8 [Answers]) (small_spec ''a'' True) m) of Inr c \<Rightarrow> api_key c = None | Inl e \<Rightarrow> False)"
  by code_simp

text \<open>
  A start whose health check raises, or whose record cannot be written, leaves a server that no record names: the
  next start runs a second one, and a stop does not find the first.
\<close>

definition unlucky :: "surroundings list" where
  "unlucky = [calm 7 [Waiting, Breaks (ValueError ''InvalidURL: nonnumeric port'')], (calm 7 [Answers])\<lparr>record_fault := Some (OSError ''disk full'')\<rparr>]"

theorem unrecorded_server_is_lost:
  "list_all (\<lambda>w. (let m = manage (Start w (small_spec ''a'' False)) idle;
       m2 = manage (Start (calm 8 [Answers]) (small_spec ''a'' False)) m in
     alive m = [7] \<and> saved m = None \<and> alive m2 = [8, 7] \<and> alive (manage (Stop (calm 9 [])) m2) = [7])) unlucky"
  by code_simp

end
