(* ===== verification/Resource_Plan.thy ===== *)
theory Resource_Plan
  imports Py_Json
begin

text \<open>
  The placement of a model over disk, RAM and VRAM, \<open>engine/c/resource_plan.py\<close>: the sizes in the headers of
  the safetensors shards, the plan and its warnings, the environment it gives the engine and the ceiling on the
  resident peak.  The parsed configuration, the shards with their parsed headers, the free memory and disk and the
  detected GPUs are arguments.
\<close>

definition GB :: int where
  "GB = 1000000000"

section \<open>Analysis of a model\<close>

text \<open>A shard: its path, its size in bytes, its first eight bytes and the header that follows them.\<close>

record shard =
  shard_path :: string
  shard_bytes :: int
  length_field :: "byte list"
  header :: "string + pyval"

definition le_value :: "byte list \<Rightarrow> int" where
  "le_value bs = int (unbe (rev bs))"

text \<open>
  \<open>start, end = meta["data_offsets"]\<close>, compared and subtracted: whole numbers, where a boolean counts as one.  A
  negative start is refused before the end is looked at.  Floats, which Python would compare and subtract too, are
  not modelled: here they are refused like text.
\<close>

definition whole :: "pyval \<Rightarrow> int option" where
  "whole v = (case v of PyInt n \<Rightarrow> Some n | PyBool b \<Rightarrow> Some (if b then 1 else 0) | _ \<Rightarrow> None)"

definition pair_of :: "pyval \<Rightarrow> (pyval \<times> pyval) res" where
  "pair_of v = (let two = (\<lambda>xs. case xs of [a, b] \<Rightarrow> Inr (a, b) | _ \<Rightarrow> Inl (ValueError ''data_offsets'')) in
     case v of
       PyList xs \<Rightarrow> two xs
     | PyStr s \<Rightarrow> two (List.map (\<lambda>c. PyStr [c]) s)
     | PyDict d \<Rightarrow> two (List.map (\<lambda>(k, x). PyStr k) d)
     | _ \<Rightarrow> Inl (TypeError ''data_offsets''))"

definition offsets_of :: "pyval \<Rightarrow> (int \<times> int) res" where
  "offsets_of meta = rbind (opt_res (TypeError ''tensor metadata'') (py_dict meta)) (\<lambda>d. rbind (opt_res (KeyError ''data_offsets'') (map_of d ''data_offsets'')) (\<lambda>v.
     rbind (pair_of v) (\<lambda>(x, y). case whole x of
         None \<Rightarrow> Inl (TypeError ''data_offsets'')
       | Some a \<Rightarrow> (case whole y of
           Some b \<Rightarrow> Inr (a, b)
         | None \<Rightarrow> if a < 0 then Inr (a, a) else Inl (TypeError ''data_offsets'')))))"

definition tensor_size :: "shard \<Rightarrow> int \<Rightarrow> string \<times> pyval \<Rightarrow> (string \<times> int) res" where
  "tensor_size s n nm = rbind (offsets_of (snd nm)) (\<lambda>(a, b).
     if 0 \<le> a \<and> a \<le> b \<and> b \<le> shard_bytes s - 8 - n then Inr (fst nm, b - a)
     else Inl (ValueError (''invalid tensor offsets for '' @ fst nm @ '': '' @ shard_path s)))"

definition tensor_sizes :: "shard \<Rightarrow> (string \<times> int) list res" where
  "tensor_sizes s =
     (if length (length_field s) \<noteq> 8 then Inl (ValueError (''short safetensors header: '' @ shard_path s))
      else (let n = le_value (length_field s) in
        if n < 2 \<or> shard_bytes s - 8 < n then Inl (ValueError (''invalid safetensors header length: '' @ shard_path s))
        else (case header s of
          Inl e \<Rightarrow> Inl (ValueError e)
        | Inr v \<Rightarrow> rbind (opt_res (AttributeError ''items'') (py_dict v)) (\<lambda>d.
            map_res (tensor_size s n) (filter (\<lambda>(k, m). k \<noteq> ''__metadata__'') d)))))"

text \<open>\<open>EXPERT_RE.search\<close>: the layer and the expert in the name of a tensor.\<close>

definition after_number :: "string \<Rightarrow> (int \<times> string) option" where
  "after_number s = (let ds = takeWhile (\<lambda>c. digit_value c \<noteq> None) s in
     case int10 ds of None \<Rightarrow> None | Some n \<Rightarrow> Some (n, drop (length ds) s))"

definition after_text :: "string \<Rightarrow> string \<Rightarrow> string option" where
  "after_text p s = (if starts_with p s then Some (drop (length p) s) else None)"

definition expert_at :: "string \<Rightarrow> (int \<times> int) option" where
  "expert_at s = (case after_text ''model.layers.'' s of None \<Rightarrow> None | Some s \<Rightarrow>
     (case after_number s of None \<Rightarrow> None | Some (l, s) \<Rightarrow>
       (case after_text ''.mlp.experts.'' s of None \<Rightarrow> None | Some s \<Rightarrow>
         (case after_number s of None \<Rightarrow> None | Some (x, s) \<Rightarrow>
           (case after_text ''.'' s of None \<Rightarrow> None | Some _ \<Rightarrow> Some (l, x))))))"

fun expert_of :: "string \<Rightarrow> (int \<times> int) option" where
  "expert_of [] = None"
| "expert_of (c # cs) = (case expert_at (c # cs) of Some k \<Rightarrow> Some k | None \<Rightarrow> expert_of cs)"

definition add_tensor :: "int \<times> ((int \<times> int) \<times> int) list \<Rightarrow> string \<times> int \<Rightarrow> int \<times> ((int \<times> int) \<times> int) list" where
  "add_tensor acc t = (case expert_of (fst t) of
      None \<Rightarrow> (fst acc + snd t, snd acc)
    | Some k \<Rightarrow> (fst acc, dput k (dget_or (snd acc) k 0 + snd t) (snd acc)))"

definition add_layer :: "(int \<times> int list) list \<Rightarrow> (int \<times> int) \<times> int \<Rightarrow> (int \<times> int list) list" where
  "add_layer acc g = (case g of ((l, x), n) \<Rightarrow> dput l (dget_or acc l [] @ [n]) acc)"

text \<open>\<open>int(statistics.median(xs))\<close> of a nonempty list of integers; the mean of the middle pair is a float.\<close>

definition median_int :: "int list \<Rightarrow> int res" where
  "median_int xs = (let ys = sort xs; n = length ys in
     if odd n then Inr (ys ! (n div 2))
     else (case fl (of_int (ys ! (n div 2 - 1) + ys ! (n div 2)) / 2) of
         Fin r \<Rightarrow> Inr (rat_trunc r) | _ \<Rightarrow> Inl (OverflowError ''integer division result too large for a float'')))"

record model_info =
  info_path :: string
  shards :: nat
  model_bytes :: int
  dense_bytes :: int
  expert_bytes :: int
  expert_count :: nat
  expert_layers :: nat
  typical_expert_bytes :: int
  per_cap_bytes :: int
  config :: pyval

definition analyze_model :: "string \<Rightarrow> (string + pyval) option \<Rightarrow> shard list \<Rightarrow> model_info res" where
  "analyze_model path cfg found =
     (case cfg of
       None \<Rightarrow> Inl (ValueError (''missing config.json: '' @ path))
     | Some (Inl e) \<Rightarrow> Inl (ValueError e)
     | Some (Inr v) \<Rightarrow>
       (let ss = sort_key shard_path found in
        if ss = [] then Inl (ValueError (''no safetensors shards: '' @ path))
        else rbind (map_res tensor_sizes ss) (\<lambda>ts.
          let (dense, groups) = foldl add_tensor (0, []) (concat ts);
              layer_sizes = foldl add_layer [] groups in
          rbind (map_res (\<lambda>(l, ns). median_int ns) layer_sizes) (\<lambda>per_layer.
          rbind (if per_layer = [] then Inr 0 else median_int per_layer) (\<lambda>typical.
            Inr \<lparr>info_path = path, shards = length ss, model_bytes = sum_list (List.map shard_bytes ss), dense_bytes = dense,
              expert_bytes = sum_list (List.map snd groups), expert_count = length groups, expert_layers = length per_layer,
              typical_expert_bytes = typical, per_cap_bytes = sum_list per_layer, config = v\<rparr>)))))"

section \<open>The plan\<close>

record gpu =
  gpu_index :: int
  gpu_name :: string
  total_bytes :: int
  free_bytes :: int

record plan =
  plan_info :: model_info
  disk_available :: int
  ram_available :: int
  ram_budget :: int
  runtime_bytes :: int
  cache_bytes :: int
  cache_slots :: int
  devices :: "(gpu \<times> int) list"
  vram_budget :: int
  expert_capacity :: int
  warnings :: "string list"

definition cfg_int :: "model_info \<Rightarrow> string \<Rightarrow> int res" where
  "cfg_int i k = rbind (opt_res (AttributeError ''get'') (py_dict (config i))) (\<lambda>c. to_int (dget_or c k (PyInt 0)))"

text \<open>\<open>int(x * GB)\<close>, and \<open>a + n\<close> of a float and an integer.\<close>

definition gigabytes :: "pyfloat \<Rightarrow> int res" where
  "gigabytes x = opt_res (OverflowError ''cannot convert float infinity to integer'') (ftrunc (fmul x (fint GB)))"

definition add_int :: "int \<Rightarrow> pyfloat \<Rightarrow> pyfloat res" where
  "add_int n x = rbind (opt_res (OverflowError ''int too large to convert to float'') (float_of_int n)) (\<lambda>y. Inr (fadd x y))"

definition ram_of :: "pyfloat \<Rightarrow> int \<Rightarrow> int res" where
  "ram_of ram_gb available =
     rbind (if flt (Fin 0) ram_gb then gigabytes ram_gb else int_times_float available (lit (88 / 100))) (\<lambda>b.
       Inr (if b < 4 * GB then 8 * GB else b))"

definition runtime_of :: "model_info \<Rightarrow> int \<Rightarrow> int res" where
  "runtime_of i context =
     rbind (cfg_int i ''num_hidden_layers'') (\<lambda>layers. rbind (cfg_int i ''kv_lora_rank'') (\<lambda>rank. rbind (cfg_int i ''qk_rope_head_dim'') (\<lambda>rope.
     rbind (cfg_int i ''num_attention_heads'') (\<lambda>heads. rbind (cfg_int i ''qk_nope_head_dim'') (\<lambda>nope. rbind (cfg_int i ''v_head_dim'') (\<lambda>vdim.
       let kv = (layers + 1) * context * (rank + rope) * 4; buffer = context * heads * (nope + vdim) * 4;
           base = fadd (fmul (lit (12 / 10)) (fint GB)) (fmul (lit (25 / 10)) (fint GB)) in
       rbind (add_int (64 * typical_expert_bytes i) base) (\<lambda>x. rbind (add_int kv x) (\<lambda>x. rbind (add_int buffer x) (\<lambda>x.
         opt_res (OverflowError ''cannot convert float infinity to integer'') (ftrunc x))))))))))"

definition RESERVE :: int where
  "RESERVE = 2 * GB"

definition usable :: "gpu \<Rightarrow> int" where
  "usable g = max 0 (free_bytes g - RESERVE)"

definition plan_warnings :: "int \<Rightarrow> int list option \<Rightarrow> gpu list \<Rightarrow> int \<Rightarrow> int \<Rightarrow> string list" where
  "plan_warnings cap wanted gpus requested budget =
     (if cap < 1 then [''RAM budget cannot hold one expert slot per sparse layer''] else [])
     @ (case wanted of Some w \<Rightarrow> if length gpus \<noteq> length (remdups w) then [''one or more requested GPUs were not detected''] else [] | None \<Rightarrow> [])
     @ (if gpus \<noteq> [] \<and> budget < requested then [''VRAM tier was clamped by free VRAM or its required RAM backing''] else [])"

definition plan_tiers :: "model_info \<Rightarrow> pyfloat \<Rightarrow> int \<Rightarrow> int list option \<Rightarrow> pyfloat \<Rightarrow> int \<Rightarrow> int \<Rightarrow> gpu list \<Rightarrow> plan res" where
  "plan_tiers i ram_gb context wanted vram_gb memory disk found =
     (let gpus = (case wanted of None \<Rightarrow> found | Some w \<Rightarrow> filter (\<lambda>g. gpu_index g \<in> set w) found) in
      rbind (ram_of ram_gb memory) (\<lambda>budget. rbind (runtime_of i context) (\<lambda>runtime. rbind (cfg_int i ''n_routed_experts'') (\<lambda>experts.
      let cache = max 0 (budget - dense_bytes i - runtime); per_cap = per_cap_bytes i;
          cap = (if per_cap = 0 then 0 else cache div per_cap); cap = (if experts = 0 then cap else min cap experts);
          safe = sum_list (List.map usable gpus) in
      rbind (if flt (Fin 0) vram_gb then gigabytes vram_gb else Inr safe) (\<lambda>requested.
      let vram = min (min requested safe) cache in
      Inr \<lparr>plan_info = i, disk_available = disk, ram_available = memory, ram_budget = budget, runtime_bytes = runtime, cache_bytes = cache,
        cache_slots = cap, devices = List.map (\<lambda>g. (g, usable g)) gpus, vram_budget = vram,
        expert_capacity = (if typical_expert_bytes i = 0 then 0 else vram div typical_expert_bytes i),
        warnings = plan_warnings cap wanted gpus requested vram\<rparr>)))))"

definition build_plan :: "string \<Rightarrow> (string + pyval) option \<Rightarrow> shard list \<Rightarrow> pyfloat \<Rightarrow> int \<Rightarrow> int list option \<Rightarrow> pyfloat \<Rightarrow> int \<Rightarrow> int \<Rightarrow> gpu list \<Rightarrow> plan res" where
  "build_plan path cfg found ram_gb context wanted vram_gb memory disk gpus =
     rbind (analyze_model path cfg found) (\<lambda>i. plan_tiers i ram_gb context wanted vram_gb memory disk gpus)"

section \<open>What the engine is given\<close>

text \<open>\<open>f"{n / GB:.kf}"\<close>: the true quotient as a float, rounded half to even to \<open>k\<close> decimals.\<close>

definition fixed :: "nat \<Rightarrow> pyfloat \<Rightarrow> string" where
  "fixed k x = (case x of
      Fin r \<Rightarrow> (let (p, q) = quotient_of \<bar>r\<bar>; n = round_div (p * 10 ^ k) q; frac = str_of_int (n mod 10 ^ k) in
        (if r < 0 then ''-'' else []) @ str_of_int (n div 10 ^ k) @ ''.'' @ replicate (k - length frac) (CHR ''0'') @ frac)
    | PosInf \<Rightarrow> ''inf'' | NegInf \<Rightarrow> ''-inf'' | NaN \<Rightarrow> ''nan'')"

definition in_gb :: "nat \<Rightarrow> int \<Rightarrow> string" where
  "in_gb k n = fixed k (fl (of_int n / of_int GB))"

definition set_default :: "string \<Rightarrow> string \<Rightarrow> (string \<times> string) list \<Rightarrow> (string \<times> string) list" where
  "set_default k v d = (if map_of d k = None then d @ [(k, v)] else d)"

definition environment_for_plan :: "plan \<Rightarrow> (string \<times> string) list \<Rightarrow> bool \<Rightarrow> (string \<times> string) list" where
  "environment_for_plan p env cuda =
     (let r = set_default ''RAM_GB'' (in_gb 3 (ram_budget p)) env; ids = List.map (gpu_index \<circ> fst) (devices p) in
      if \<not> cuda \<or> ids = [] \<or> vram_budget p \<le> 0 \<or> dget_or r ''COLI_CUDA'' ''1'' = ''0'' then r
      else (let r = set_default ''COLI_CUDA'' ''1'' r;
                r = (if map_of r ''COLI_GPU'' = None \<and> map_of r ''COLI_GPUS'' = None
                     then r @ [(if length ids = 1 then ''COLI_GPU'' else ''COLI_GPUS'', str_join '','' (List.map str_of_int ids))] else r);
                r = set_default ''CUDA_EXPERT_GB'' (in_gb 3 (vram_budget p)) r in
            if dget_or r ''PIN'' [] \<noteq> [] then set_default ''PIN_GB'' (in_gb 3 (vram_budget p)) r else r))"

definition project_minimum_peak_bytes :: "plan \<Rightarrow> int" where
  "project_minimum_peak_bytes p = dense_bytes (plan_info p) + per_cap_bytes (plan_info p) + runtime_bytes p"

definition check_rss_ceiling :: "plan \<Rightarrow> pyfloat option \<Rightarrow> unit res" where
  "check_rss_ceiling p ceiling_gb = (case ceiling_gb of
      None \<Rightarrow> Inr ()
    | Some c \<Rightarrow>
        if fle c (Fin 0) then Inr ()
        else if flt (fmul c (fint GB)) (fint (project_minimum_peak_bytes p))
        then Inl (ValueError (''projected minimum peak '' @ in_gb 2 (project_minimum_peak_bytes p) @ '' GB exceeds the configured RAM ceiling '' @ fixed 2 c
          @ '' GB (dense '' @ in_gb 2 (dense_bytes (plan_info p)) @ '' GB + 1 expert slot/layer '' @ in_gb 2 (per_cap_bytes (plan_info p))
          @ '' GB + runtime slack '' @ in_gb 2 (runtime_bytes p)
          @ '' GB). Lower the dense bit-width (int4/int2, see tools/convert_fp8_to_int4.py --dtype-map), reduce --ctx, or raise the ceiling if this machine has more RAM than assumed.''))
        else Inr ())"

definition middle_dot :: string where
  "middle_dot = '' '' @ [char_of (183 :: nat)] @ '' ''"

definition format_bytes :: "int \<Rightarrow> string" where
  "format_bytes n = in_gb 1 n @ '' GB''"

definition format_plan :: "plan \<Rightarrow> string" where
  "format_plan p = (let i = plan_info p; dot = middle_dot in
     str_join [char_of (10 :: nat)]
       ([''model  '' @ str_of_int (int (shards i)) @ '' shards'' @ dot @ format_bytes (model_bytes i),
         ''disk   backing store'' @ dot @ format_bytes (disk_available p) @ '' free'',
         ''RAM    '' @ format_bytes (ram_budget p) @ '' budget'' @ dot @ format_bytes (dense_bytes i) @ '' dense'' @ dot @ format_bytes (runtime_bytes p)
           @ '' runtime'' @ dot @ ''cap '' @ str_of_int (cache_slots p) @ ''/layer'',
         (if devices p \<noteq> []
          then ''VRAM   '' @ format_bytes (vram_budget p) @ '' hot tier'' @ dot @ ''~'' @ str_of_int (expert_capacity p) @ '' experts'' @ dot
            @ str_join '', '' (List.map (\<lambda>(g, u). str_of_int (gpu_index g) @ '':'' @ gpu_name g) (devices p))
          else ''VRAM   no NVIDIA device detected'' @ dot @ ''CPU path'')]
        @ List.map (\<lambda>w. ''warn   '' @ w) (warnings p)))"

section \<open>What the analysis counts\<close>

lemma dput_sum: "sum_list (List.map snd (dput k (dget_or d k 0 + n) d)) = sum_list (List.map snd d) + (n :: int)"
  by (induction d) (auto simp: dget_or_def)

lemma add_tensors_sum:
  "fst (foldl add_tensor acc ts) + sum_list (List.map snd (snd (foldl add_tensor acc ts)))
     = fst acc + sum_list (List.map snd (snd acc)) + sum_list (List.map snd ts)"
proof (induction ts arbitrary: acc)
  case (Cons t ts)
  have "fst (add_tensor acc t) + sum_list (List.map snd (snd (add_tensor acc t))) = fst acc + sum_list (List.map snd (snd acc)) + snd t"
    by (simp add: add_tensor_def dput_sum split: option.split)
  with Cons.IH[of "add_tensor acc t"] show ?case by simp
qed simp

lemma dput_values: "list_all P (List.map snd d) \<Longrightarrow> P v \<Longrightarrow> list_all P (List.map snd (dput k v d))"
  by (induction d) auto

lemma dget_or_values: "list_all P (List.map snd d) \<Longrightarrow> P v \<Longrightarrow> P (dget_or d k v)"
  by (induction d) (auto simp: dget_or_def split: option.splits)

lemma add_tensors_nonneg:
  "list_all (\<lambda>t. 0 \<le> snd t) ts \<Longrightarrow> list_all ((\<le>) 0) (List.map snd (snd acc)) \<Longrightarrow> list_all ((\<le>) 0) (List.map snd (snd (foldl add_tensor acc ts)))"
proof (induction ts arbitrary: acc)
  case (Cons t ts)
  have "list_all ((\<le>) 0) (List.map snd (snd (add_tensor acc t)))"
    using Cons.prems dget_or_values[of "(\<le>) 0" "snd acc" 0]
    by (auto simp: add_tensor_def intro!: dput_values add_nonneg_nonneg split: option.split)
  with Cons show ?case by simp
qed simp

lemma add_layers_nonneg:
  "list_all ((\<le>) 0) (List.map snd gs) \<Longrightarrow> list_all (\<lambda>ns. ns \<noteq> [] \<and> list_all ((\<le>) 0) ns) (List.map snd acc)
    \<Longrightarrow> list_all (\<lambda>ns. ns \<noteq> [] \<and> list_all ((\<le>) (0 :: int)) ns) (List.map snd (foldl add_layer acc gs))"
proof (induction gs arbitrary: acc)
  case (Cons g gs)
  obtain l x n where g: "g = ((l, x), n)" by (metis prod.exhaust)
  have "list_all ((\<le>) 0) (dget_or acc l [])" 
    by (rule dget_or_values) (use Cons.prems(2) in \<open>auto simp: list_all_iff\<close>)
  then have "list_all (\<lambda>ns. ns \<noteq> [] \<and> list_all ((\<le>) 0) ns) (List.map snd (add_layer acc g))"
    using Cons.prems by (auto simp: g add_layer_def intro!: dput_values)
  with Cons show ?case by simp
qed simp

lemma median_nonneg: "median_int xs = Inr m \<Longrightarrow> list_all ((\<le>) 0) xs \<Longrightarrow> xs \<noteq> [] \<Longrightarrow> 0 \<le> m"
proof -
  assume m: "median_int xs = Inr m" and nn: "list_all ((\<le>) 0) xs" and ne: "xs \<noteq> []"
  have at: "0 \<le> sort xs ! i" if "i < length xs" for i
    using nn that nth_mem[of i "sort xs"] by (simp add: list_all_iff)
  have lt: "length xs div 2 < length xs" "length xs div 2 - 1 < length xs" using ne by (cases xs; simp)+
  show "0 \<le> m"
  proof (cases "odd (length xs)")
    case True
    with m have "m = sort xs ! (length xs div 2)" by (simp add: median_int_def Let_def)
    with at lt show ?thesis by simp
  next
    case False
    let ?q = "of_int (sort xs ! (length xs div 2 - 1) + sort xs ! (length xs div 2)) / 2 :: rat"
    obtain r where r: "fl ?q = Fin r" "m = rat_trunc r"
      using m False by (auto simp: median_int_def Let_def split: pyfloat.splits)
    have "0 \<le> ?q" using at[OF lt(1)] at[OF lt(2)] by simp
    from fl_nonneg[OF this] r show ?thesis by (simp add: rat_trunc_nonneg)
  qed
qed

lemma map_res_all2: "map_res f xs = Inr ys \<Longrightarrow> list_all2 (\<lambda>x y. f x = Inr y) xs ys"
  by (induction xs arbitrary: ys) auto

lemma tensor_sizes_nonneg: "tensor_sizes s = Inr ts \<Longrightarrow> list_all (\<lambda>t. 0 \<le> snd t) ts"
proof -
  assume "tensor_sizes s = Inr ts"
  then obtain n d where "map_res (tensor_size s n) d = Inr ts"
    by (auto simp: tensor_sizes_def Let_def split: if_splits sum.splits)
  then have "list_all2 (\<lambda>x y. tensor_size s n x = Inr y) d ts" by (rule map_res_all2)
  then show ?thesis
    by (induction rule: list_all2_induct) (auto simp: tensor_size_def split: if_splits prod.splits)
qed

lemma analyze_cases:
  assumes "analyze_model path cfg found = Inr i"
  obtains ts per_layer typical where "map_res tensor_sizes (sort_key shard_path found) = Inr ts"
    "map_res (\<lambda>(l, ns). median_int ns) (foldl add_layer [] (snd (foldl add_tensor (0, []) (concat ts)))) = Inr per_layer"
    "(if per_layer = [] then Inr 0 else median_int per_layer) = Inr typical"
    "dense_bytes i = fst (foldl add_tensor (0, []) (concat ts))"
    "expert_bytes i = sum_list (List.map snd (snd (foldl add_tensor (0, []) (concat ts))))"
    "typical_expert_bytes i = typical" "per_cap_bytes i = sum_list per_layer"
proof -
  from assms obtain v where v: "cfg = Some (Inr v)" "sort_key shard_path found \<noteq> []"
    by (cases cfg) (auto simp: analyze_model_def Let_def split: sum.splits if_splits)
  from assms obtain ts where ts: "map_res tensor_sizes (sort_key shard_path found) = Inr ts"
    unfolding analyze_model_def v(1) option.case sum.case Let_def if_not_P[OF v(2)] rbind_eq_Inr[of "map_res tensor_sizes (sort_key shard_path found)"] by blast
  define acc where "acc = foldl add_tensor (0, []) (concat ts)"
  obtain dense groups where acc: "acc = (dense, groups)" by (rule prod.exhaust)
  from assms obtain per_layer typical where parts: "map_res (\<lambda>(l, ns). median_int ns) (foldl add_layer [] groups) = Inr per_layer"
      "(if per_layer = [] then Inr 0 else median_int per_layer) = Inr typical"
    and i: "dense_bytes i = dense" "expert_bytes i = sum_list (List.map snd groups)" "typical_expert_bytes i = typical" "per_cap_bytes i = sum_list per_layer"
    unfolding analyze_model_def v(1) option.case sum.case Let_def if_not_P[OF v(2)] ts rbind.simps acc_def[symmetric] acc prod.case rbind_eq_Inr
    by (elim exE conjE) (force simp del: if_Inl_eq_Inr)
  show thesis by (rule that[OF ts, folded acc_def, unfolded acc fst_conv snd_conv]) (fact parts i)+
qed

lemma analysis_sizes:
  assumes "analyze_model path cfg found = Inr i"
  shows "0 \<le> per_cap_bytes i \<and> 0 \<le> typical_expert_bytes i"
proof -
  from assms obtain ts per_layer typical where ts: "map_res tensor_sizes (sort_key shard_path found) = Inr ts"
    and medians: "map_res (\<lambda>(l, ns). median_int ns) (foldl add_layer [] (snd (foldl add_tensor (0, []) (concat ts)))) = Inr per_layer"
    and typical: "(if per_layer = [] then Inr 0 else median_int per_layer) = Inr typical"
    and i: "typical_expert_bytes i = typical" "per_cap_bytes i = sum_list per_layer" by (rule analyze_cases)
  have "list_all (list_all (\<lambda>t. 0 \<le> snd t)) ts"
    using map_res_all2[OF ts] by (induction rule: list_all2_induct) (simp_all add: tensor_sizes_nonneg)
  then have "list_all (\<lambda>t. 0 \<le> snd t) (concat ts)" by (auto simp: list_all_iff)
  then have "list_all ((\<le>) 0) (List.map snd (snd (foldl add_tensor (0, []) (concat ts))))" by (intro add_tensors_nonneg) simp_all
  then have ok: "list_all (\<lambda>ns. ns \<noteq> [] \<and> list_all ((\<le>) 0) ns) (List.map snd (foldl add_layer [] (snd (foldl add_tensor (0, []) (concat ts)))))"
    by (intro add_layers_nonneg) simp_all
  from map_res_all2[OF medians] ok have nonneg: "list_all ((\<le>) 0) per_layer"
    by (induction rule: list_all2_induct) (auto intro: median_nonneg)
  then have "0 \<le> sum_list per_layer" by (intro sum_list_nonneg) (auto simp: list_all_iff)
  moreover have "0 \<le> typical" using typical nonneg by (auto intro: median_nonneg split: if_splits)
  ultimately show ?thesis using i by simp
qed

text \<open>
  The tensors of all shards are counted once each: what the analysis calls dense and what it gives the
  experts add up to the sizes in the headers, and none of its sizes is negative.
\<close>

theorem analysis_accounts_for_tensors:
  assumes "analyze_model path cfg found = Inr i"
  shows "(\<exists>ts. map_res tensor_sizes (sort_key shard_path found) = Inr ts \<and> dense_bytes i + expert_bytes i = sum_list (List.map snd (concat ts)))
    \<and> 0 \<le> per_cap_bytes i \<and> 0 \<le> typical_expert_bytes i"
proof -
  from assms obtain ts where ts: "map_res tensor_sizes (sort_key shard_path found) = Inr ts"
    and i: "dense_bytes i = fst (foldl add_tensor (0, []) (concat ts))"
      "expert_bytes i = sum_list (List.map snd (snd (foldl add_tensor (0, []) (concat ts))))" by (rule analyze_cases)
  have "dense_bytes i + expert_bytes i = sum_list (List.map snd (concat ts))"
    using add_tensors_sum[of "(0, [])" "concat ts"] i by simp
  then show ?thesis using ts analysis_sizes[OF assms] by blast
qed

section \<open>What a plan promises\<close>

lemma div_times_le: "0 \<le> d \<Longrightarrow> (if d = 0 then 0 else n div d) * d \<le> (if d = 0 then 0 else (n :: int))"
proof (cases "d = 0")
  case False
  assume "0 \<le> d"
  with False have "0 \<le> n mod d" by simp
  with div_mult_mod_eq[of n d] have "n div d * d \<le> n" by linarith
  with False show ?thesis by simp
qed simp

lemma tier_cases:
  assumes "plan_tiers i ram_gb context wanted vram_gb memory disk found = Inr p"
  obtains budget runtime experts requested where "ram_of ram_gb memory = Inr budget" "runtime_of i context = Inr runtime"
    "plan_info p = i" "ram_budget p = budget" "runtime_bytes p = runtime" "cache_bytes p = max 0 (budget - dense_bytes i - runtime)"
    "cache_slots p = (let cap = (if per_cap_bytes i = 0 then 0 else cache_bytes p div per_cap_bytes i) in if experts = 0 then cap else min cap experts)"
    "vram_budget p = min (min requested (sum_list (List.map snd (devices p)))) (cache_bytes p)"
    "expert_capacity p = (if typical_expert_bytes i = 0 then 0 else vram_budget p div typical_expert_bytes i)"
proof -
  define gpus where "gpus = (case wanted of None \<Rightarrow> found | Some w \<Rightarrow> filter (\<lambda>g. gpu_index g \<in> set w) found)"
  obtain budget runtime experts requested where parts: "ram_of ram_gb memory = Inr budget" "runtime_of i context = Inr runtime"
      "cfg_int i ''n_routed_experts'' = Inr experts"
      "(if flt (Fin 0) vram_gb then gigabytes vram_gb else Inr (sum_list (List.map usable gpus))) = Inr requested"
    using assms unfolding plan_tiers_def gpus_def[symmetric] Let_def rbind_eq_Inr by (elim exE conjE) blast
  have sums: "List.map snd (List.map (\<lambda>g. (g, usable g)) gpus) = List.map usable gpus" by simp
  note plan = assms[unfolded plan_tiers_def gpus_def[symmetric] Let_def parts rbind.simps parts(4)]
  from plan[symmetric] show thesis
    by (intro that[OF parts(1,2), of experts requested]) (simp_all only: sum.inject plan.simps sums Let_def)
qed

lemma plan_bounds:
  assumes "build_plan path cfg found ram_gb context wanted vram_gb memory disk gpus = Inr p"
  shows "cache_slots p * per_cap_bytes (plan_info p) \<le> cache_bytes p" (is ?slots)
    and "1 \<le> cache_slots p \<longrightarrow> project_minimum_peak_bytes p \<le> ram_budget p" (is ?fits)
proof -
  from assms obtain i where i: "analyze_model path cfg found = Inr i" and plan: "plan_tiers i ram_gb context wanted vram_gb memory disk gpus = Inr p"
    by (auto simp: build_plan_def)
  have nn: "0 \<le> per_cap_bytes i" using analysis_sizes[OF i] by simp
  from plan obtain budget runtime experts requested where ram: "ram_of ram_gb memory = Inr budget"
    and p: "plan_info p = i" "ram_budget p = budget" "runtime_bytes p = runtime" "cache_bytes p = max 0 (budget - dense_bytes i - runtime)"
    and slots: "cache_slots p = (let cap = (if per_cap_bytes i = 0 then 0 else cache_bytes p div per_cap_bytes i) in if experts = 0 then cap else min cap experts)"
    by (rule tier_cases)
  have slot: "cache_slots p * per_cap_bytes i \<le> cache_bytes p"
  proof -
    define c where "c = (if per_cap_bytes i = 0 then 0 else cache_bytes p div per_cap_bytes i)"
    have "c * per_cap_bytes i \<le> cache_bytes p"
      using div_times_le[OF nn, of "cache_bytes p"] p(4) by (auto simp: c_def split: if_splits)
    moreover have "cache_slots p \<le> c" using slots by (auto simp: Let_def c_def split: if_splits)
    ultimately show ?thesis using nn mult_right_mono[of "cache_slots p" c "per_cap_bytes i"] by linarith
  qed
  then show ?slots by (simp add: p)
  show ?fits
  proof
    assume one: "1 \<le> cache_slots p"
    then have pos: "0 < per_cap_bytes i" using nn slots by (cases "per_cap_bytes i = 0") (auto simp: Let_def split: if_splits)
    have "per_cap_bytes i \<le> cache_slots p * per_cap_bytes i" using one pos by simp
    with slot have "per_cap_bytes i \<le> cache_bytes p" by linarith
    with pos p(4) show "project_minimum_peak_bytes p \<le> ram_budget p" by (simp add: project_minimum_peak_bytes_def p(1-3))
  qed
qed

lemma plan_slot_fits:
  "build_plan path cfg found ram_gb context wanted vram_gb memory disk gpus = Inr p \<Longrightarrow> 1 \<le> cache_slots p \<Longrightarrow> project_minimum_peak_bytes p \<le> ram_budget p"
  using plan_bounds(2) by blast

text \<open>
  C39: a plan's expert cache is what the RAM budget leaves, its slots fit the cache and its VRAM tier is backed by
  the cache and by the usable memory of its devices, and holds its experts; a plan with at least one slot per
  layer never peaks, at the least, above its RAM budget.
\<close>

theorem plan_respects_budgets:
  assumes "build_plan path cfg found ram_gb context wanted vram_gb memory disk gpus = Inr p"
  shows "4 * GB \<le> ram_budget p \<and> 0 \<le> cache_bytes p
    \<and> (0 < cache_bytes p \<longrightarrow> dense_bytes (plan_info p) + runtime_bytes p + cache_bytes p = ram_budget p)
    \<and> cache_slots p * per_cap_bytes (plan_info p) \<le> cache_bytes p
    \<and> vram_budget p \<le> cache_bytes p \<and> vram_budget p \<le> sum_list (List.map snd (devices p))
    \<and> (0 \<le> vram_budget p \<longrightarrow> expert_capacity p * typical_expert_bytes (plan_info p) \<le> vram_budget p)
    \<and> (1 \<le> cache_slots p \<longrightarrow> project_minimum_peak_bytes p \<le> ram_budget p)"
proof -
  from assms obtain i where i: "analyze_model path cfg found = Inr i" and plan: "plan_tiers i ram_gb context wanted vram_gb memory disk gpus = Inr p"
    by (auto simp: build_plan_def)
  have nn: "0 \<le> typical_expert_bytes i" using analysis_sizes[OF i] by simp
  from plan obtain budget runtime experts requested where ram: "ram_of ram_gb memory = Inr budget"
    and p: "plan_info p = i" "ram_budget p = budget" "runtime_bytes p = runtime" "cache_bytes p = max 0 (budget - dense_bytes i - runtime)"
    and vram: "vram_budget p = min (min requested (sum_list (List.map snd (devices p)))) (cache_bytes p)"
    and cap: "expert_capacity p = (if typical_expert_bytes i = 0 then 0 else vram_budget p div typical_expert_bytes i)" by (rule tier_cases)
  have "4 * GB \<le> budget" using ram by (auto simp: ram_of_def GB_def split: if_splits)
  moreover have "0 \<le> vram_budget p \<longrightarrow> expert_capacity p * typical_expert_bytes i \<le> vram_budget p"
    using div_times_le[OF nn, of "vram_budget p"] by (auto simp: cap split: if_splits)
  ultimately show ?thesis using p vram plan_bounds[OF assms] by auto
qed

lemma set_default_keeps: "map_of d k = Some v \<Longrightarrow> map_of (set_default k' v' d) k = Some v"
  by (auto simp: set_default_def map_add_def)

text \<open>
  The environment of a plan never overrides a setting the user made, and with CUDA disabled or no devices it
  adds nothing but the RAM budget.
\<close>

theorem environment_keeps_settings:
  "(map_of env k = Some v \<longrightarrow> map_of (environment_for_plan p env cuda) k = Some v)
   \<and> (\<not> cuda \<or> devices p = [] \<longrightarrow> environment_for_plan p env cuda = set_default ''RAM_GB'' (in_gb 3 (ram_budget p)) env)"
proof -
  have "map_of (environment_for_plan p env cuda) k = Some v" if "map_of env k = Some v"
    using that unfolding environment_for_plan_def Let_def
    by (simp add: set_default_keeps map_add_def split: if_splits)
  then show ?thesis by (auto simp: environment_for_plan_def Let_def)
qed

text \<open>A budget of less than four gigabytes, also one the user asked for, becomes eight.\<close>

theorem small_ram_becomes_eight: "ram_of (Fin 2) memory = Inr (8 * GB)"
proof -
  have "gigabytes (Fin 2) = Inr 2000000000" by code_simp
  then show ?thesis by (simp add: ram_of_def GB_def)
qed

section \<open>A small model\<close>

definition small_shard :: shard where
  "small_shard = \<lparr>shard_path = ''s'', shard_bytes = 118, length_field = [100, 0, 0, 0, 0, 0, 0, 0], header = Inr (PyDict
     [(''model.layers.0.mlp.experts.0.w'', PyDict [(''data_offsets'', PyList [PyInt 0, PyInt 4])]), (''embed'', PyDict [(''data_offsets'', PyList [PyInt 4, PyInt 10])])])\<rparr>"

definition small_config :: "(string + pyval) option" where
  "small_config = Some (Inr (PyDict [(''num_hidden_layers'', PyInt 1)]))"

definition small_gpu :: gpu where
  "small_gpu = \<lparr>gpu_index = 0, gpu_name = ''g'', total_bytes = 8 * GB, free_bytes = 6 * GB\<rparr>"

definition small_plan :: "plan res" where
  "small_plan = build_plan ''m'' small_config [small_shard] (Fin 16) 10 None (Fin 0) 0 0 [small_gpu]"

theorem analysis_accounts_for_tensors_witness:
  "ok_with (analyze_model ''m'' small_config [small_shard]) (\<lambda>i. dense_bytes i + expert_bytes i = 10 \<and> 0 \<le> per_cap_bytes i)"
proof -
  have "ok_with (analyze_model ''m'' small_config [small_shard]) (\<lambda>i. True)" by code_simp
  then obtain i where i: "analyze_model ''m'' small_config [small_shard] = Inr i" by (auto elim: ok_withE)
  have "case map_res tensor_sizes (sort_key shard_path [small_shard]) of Inr ts \<Rightarrow> sum_list (List.map snd (concat ts)) = 10 | Inl e \<Rightarrow> False" by code_simp
  with analysis_accounts_for_tensors[OF i] show ?thesis by (auto simp: i ok_with_def)
qed

theorem plan_respects_budgets_witness:
  "ok_with small_plan (\<lambda>p. 1 \<le> cache_slots p \<and> project_minimum_peak_bytes p \<le> ram_budget p \<and> vram_budget p \<le> 4 * GB)"
proof -
  have "ok_with small_plan (\<lambda>p. 1 \<le> cache_slots p \<and> sum_list (List.map snd (devices p)) = 4 * GB)" by code_simp
  then obtain p where p: "small_plan = Inr p" "1 \<le> cache_slots p" "sum_list (List.map snd (devices p)) = 4 * GB" by (auto elim: ok_withE)
  from plan_respects_budgets[OF p(1)[unfolded small_plan_def]] p(2,3) show ?thesis by (auto simp: p(1) ok_with_def)
qed

theorem environment_keeps_settings_witness:
  "ok_with small_plan (\<lambda>p. map_of (environment_for_plan p [(''RAM_GB'', ''3'')] True) ''RAM_GB'' = Some ''3'')"
proof -
  have "ok_with small_plan (\<lambda>p. True)" by code_simp
  then obtain p where p: "small_plan = Inr p" by (auto elim: ok_withE)
  from environment_keeps_settings[of "[(''RAM_GB'', ''3'')]" "''RAM_GB''" "''3''" p True] show ?thesis by (simp add: p ok_with_def)
qed

end
