(* ===== verification/Doctor.thy ===== *)
theory Doctor
  imports Resource_Plan
begin

text \<open>
  The installation diagnostics of \<open>engine/c/doctor.py\<close>: the checks of the model directory, the engine, the
  accelerators and the plan, the verdict and the exit code.  What is found on the machine is a record.
\<close>

record found_host =
  model_name :: string
  is_dir :: bool
  readable :: bool
  writable :: bool
  config_file :: "(string + pyval) option"
  has_tokenizer :: bool
  shard_files :: "shard list"
  engine_name :: string
  engine_is_file :: bool
  engine_runs :: bool
  memory :: int
  disk :: int
  gpus_found :: "gpu list"
  cuda_linked :: bool
  cuda_missing :: bool

record check =
  check_id :: string
  check_status :: string
  summary :: string
  details :: "(string \<times> pyval) list"

definition plain_check :: "string \<Rightarrow> string \<Rightarrow> string \<Rightarrow> check" where
  "plain_check i s t = \<lparr>check_id = i, check_status = s, summary = t, details = []\<rparr>"

definition path_detail :: "string \<Rightarrow> (string \<times> pyval) list" where
  "path_detail p = [(''path'', PyStr p)]"

section \<open>Checks of the files\<close>

definition path_check :: "found_host \<Rightarrow> check" where
  "path_check h = (if is_dir h \<and> readable h then plain_check ''model.path'' ''pass'' ''model directory is readable''
     else if is_dir h then plain_check ''model.path'' ''fail'' ''model directory is not readable''
     else plain_check ''model.path'' ''fail'' ''model directory does not exist'')\<lparr>details := path_detail (model_name h)\<rparr>"

definition config_check :: "found_host \<Rightarrow> check" where
  "config_check h = (case config_file h of
      Some (Inr (PyDict d)) \<Rightarrow> plain_check ''model.config'' ''pass'' ''config.json is valid''
    | _ \<Rightarrow> plain_check ''model.config'' ''fail'' ''config.json is missing or invalid'')"

definition tokenizer_check :: "found_host \<Rightarrow> check" where
  "tokenizer_check h = (if has_tokenizer h then plain_check ''model.tokenizer'' ''pass'' ''tokenizer.json found''
     else plain_check ''model.tokenizer'' ''fail'' ''tokenizer.json is missing'')"

definition persistence_check :: "found_host \<Rightarrow> check" where
  "persistence_check h = (if is_dir h \<and> writable h then plain_check ''storage.persistence'' ''pass'' ''model directory can store usage and KV state''
     else if is_dir h then plain_check ''storage.persistence'' ''warn'' ''model directory is read-only; disable persistence or change permissions''
     else plain_check ''storage.persistence'' ''skip'' ''persistence requires a model directory'')"

definition engine_check :: "found_host \<Rightarrow> check" where
  "engine_check h = (if engine_is_file h \<and> engine_runs h then plain_check ''engine.binary'' ''pass'' ''engine executable is ready''
     else if engine_is_file h then plain_check ''engine.binary'' ''fail'' ''engine exists but is not executable''
     else plain_check ''engine.binary'' ''fail'' ''engine is not built'')\<lparr>details := path_detail (engine_name h)\<rparr>"

section \<open>Accelerators\<close>

definition indices :: "gpu list \<Rightarrow> pyval" where
  "indices gs = PyList (List.map (PyInt \<circ> gpu_index) gs)"

definition cuda_check :: "found_host \<Rightarrow> int list option \<Rightarrow> check" where
  "cuda_check h wanted =
     (let found = gpus_found h; chosen = (case wanted of None \<Rightarrow> found | Some w \<Rightarrow> filter (\<lambda>g. gpu_index g \<in> set w) found) in
      if wanted = Some [] then plain_check ''accelerator.cuda'' ''skip'' ''GPU use was explicitly disabled''
      else if (case wanted of None \<Rightarrow> False | Some w \<Rightarrow> length chosen \<noteq> length (remdups w))
      then (plain_check ''accelerator.cuda'' ''fail'' ''one or more requested GPUs were not detected'')\<lparr>details :=
          [(''requested'', PyList (List.map PyInt (the wanted))), (''detected'', indices found)]\<rparr>
      else if chosen \<noteq> [] \<and> cuda_missing h then plain_check ''accelerator.cuda'' ''fail'' ''CUDA runtime library is missing''
      else if chosen \<noteq> [] \<and> cuda_linked h
      then (plain_check ''accelerator.cuda'' ''pass'' ''CUDA engine and devices are available'')\<lparr>details := [(''devices'', indices chosen)]\<rparr>
      else if chosen \<noteq> []
      then (plain_check ''accelerator.cuda'' ''warn'' ''NVIDIA GPU detected but the engine is CPU-only'')\<lparr>details := [(''devices'', indices chosen)]\<rparr>
      else plain_check ''accelerator.cuda'' ''skip'' ''no NVIDIA GPU detected; CPU path is available'')"

text \<open>What is configured: nothing, a text, or a list of names; the environment has the last word when it is nothing.\<close>

datatype configured = Unset | Text string | Names "string list"

fun cut_commas :: "string \<Rightarrow> string list" where
  "cut_commas [] = [[]]"
| "cut_commas (c # cs) = (if c = CHR '','' then [] # cut_commas cs else (c # hd (cut_commas cs)) # tl (cut_commas cs))"

definition names_in :: "string \<Rightarrow> string list" where
  "names_in s = List.map (\<lambda>x. lower (strip x)) (filter (\<lambda>x. strip x \<noteq> []) (cut_commas s))"

record accelerators =
  configured_names :: "string list"
  configured_source :: string
  observed :: "(string \<times> string) list"
  observed_gpus :: "gpu list"
  claim_policy :: string

definition accelerator_states :: "string \<Rightarrow> configured \<Rightarrow> gpu list \<Rightarrow> accelerators" where
  "accelerator_states env_text c gs =
     \<lparr>configured_names = sort (remdups (case c of Unset \<Rightarrow> names_in env_text | Text s \<Rightarrow> names_in s | Names ns \<Rightarrow> ns)),
       configured_source = (if c = Unset then if strip env_text \<noteq> [] then ''environment'' else ''unset'' else ''argument''),
       observed = [(''cpu'', ''observed''), (''cuda'', if gs \<noteq> [] then ''observed'' else ''not-observed''), (''metal'', ''not-observed''), (''npu'', ''not-observed'')],
       observed_gpus = gs, claim_policy = ''configuration-never-proves-observation''\<rparr>"

section \<open>The report\<close>

definition shards_check :: "plan \<Rightarrow> check" where
  "shards_check p = (plain_check ''model.shards'' ''pass'' ''safetensors headers are valid'')\<lparr>details :=
     [(''shards'', PyInt (int (shards (plan_info p)))), (''model_bytes'', PyInt (model_bytes (plan_info p)))]\<rparr>"

definition disk_check :: "plan \<Rightarrow> check" where
  "disk_check p = (if disk_available p < GB then plain_check ''storage.disk'' ''warn'' ''less than 1 GB is free for runtime state''
     else plain_check ''storage.disk'' ''pass'' ''model backing store is available'')\<lparr>details :=
       [(''available_bytes'', PyInt (disk_available p)), (''model_bytes'', PyInt (model_bytes (plan_info p)))]\<rparr>"

definition ram_check :: "int \<Rightarrow> plan \<Rightarrow> check" where
  "ram_check available p = (if available = 0 then plain_check ''memory.ram'' ''warn'' ''available RAM could not be measured''
     else if available < ram_budget p then plain_check ''memory.ram'' ''fail'' ''planned RAM budget exceeds available memory''
     else if cache_slots p < 1 then plain_check ''memory.ram'' ''fail'' ''RAM budget cannot hold one expert slot per sparse layer''
     else plain_check ''memory.ram'' ''pass'' ''RAM budget is viable'')\<lparr>details :=
       [(''available_bytes'', PyInt available), (''budget_bytes'', PyInt (ram_budget p)), (''cache_slots_per_layer'', PyInt (cache_slots p))]\<rparr>"

definition placement_check :: "plan \<Rightarrow> check" where
  "placement_check p = (if warnings p \<noteq> [] then plain_check ''placement.plan'' ''warn'' (str_join ''; '' (warnings p))
     else plain_check ''placement.plan'' ''pass'' ''tier placement has no warnings'')"

definition error_text :: "py_exc \<Rightarrow> string" where
  "error_text e = (case e of KeyError k \<Rightarrow> repr_str k | _ \<Rightarrow> exc_message e)"

definition plan_failed :: "py_exc \<Rightarrow> check list" where
  "plan_failed e = [plain_check ''model.shards'' ''fail'' (error_text e), plain_check ''storage.disk'' ''skip'' ''storage check requires a valid model'',
     plain_check ''memory.ram'' ''skip'' ''RAM projection requires a valid model'', plain_check ''placement.plan'' ''skip'' ''placement requires a valid model'']"

text \<open>\<open>except (OSError, ValueError, KeyError)\<close>.\<close>

definition doctor_catches :: "py_exc \<Rightarrow> bool" where
  "doctor_catches e \<longleftrightarrow> is_os_error e \<or> is_value_error e \<or> (case e of KeyError _ \<Rightarrow> True | _ \<Rightarrow> False)"

record report =
  verdict :: string
  report_model :: string
  checks :: "check list"
  report_plan :: "plan option"
  report_accelerators :: accelerators

definition verdict_of :: "check list \<Rightarrow> string" where
  "verdict_of cs = (let ss = List.map check_status cs in
     if ''fail'' \<in> set ss then ''error'' else if ''warn'' \<in> set ss then ''warning'' else ''ok'')"

definition run_doctor :: "found_host \<Rightarrow> pyfloat \<Rightarrow> int \<Rightarrow> int list option \<Rightarrow> pyfloat \<Rightarrow> string \<Rightarrow> configured \<Rightarrow> report res" where
  "run_doctor h ram_gb context wanted vram_gb env_text conf =
     (let first = [path_check h, config_check h, tokenizer_check h, persistence_check h, engine_check h, cuda_check h wanted];
          finish = (\<lambda>cs p. Inr \<lparr>verdict = verdict_of (first @ cs), report_model = model_name h, checks = first @ cs, report_plan = p,
            report_accelerators = accelerator_states env_text conf (gpus_found h)\<rparr>) in
      case build_plan (model_name h) (config_file h) (shard_files h) ram_gb context wanted vram_gb (memory h) (disk h) (gpus_found h) of
        Inr p \<Rightarrow> finish [shards_check p, disk_check p, ram_check (memory h) p, placement_check p] (Some p)
      | Inl e \<Rightarrow> if doctor_catches e then finish (plan_failed e) None else Inl e)"

definition exit_code :: "report \<Rightarrow> int" where
  "exit_code r = (if verdict r = ''error'' then 1 else 0)"

text \<open>\<open>format_doctor\<close>: the status right-aligned in four columns, the name left-aligned in eighteen.\<close>

definition check_line :: "check \<Rightarrow> string" where
  "check_line c = (let icon = (if check_status c = ''pass'' then ''ok'' else check_status c) in
     ''['' @ replicate (4 - length icon) (CHR '' '') @ icon @ ''] '' @ check_id c @ replicate (18 - length (check_id c)) (CHR '' '') @ '' '' @ summary c)"

definition format_doctor :: "report \<Rightarrow> string" where
  "format_doctor r = str_join [char_of (10 :: nat)]
     ([''colibri doctor'' @ middle_dot @ report_model r] @ List.map check_line (checks r)
       @ (case report_plan r of None \<Rightarrow> [] | Some p \<Rightarrow> [[], format_plan p]) @ [[], ''result '' @ verdict r])"

definition parse_gpu_argument :: "string option \<Rightarrow> int list res" where
  "parse_gpu_argument v = (case v of
      None \<Rightarrow> Inr []
    | Some s \<Rightarrow> if lower (strip s) \<in> {[], ''none'', ''cpu''} then Inr []
        else map_res (\<lambda>x. opt_res (ValueError ''invalid literal for int()'') (int10 x)) (List.map strip (filter (\<lambda>x. strip x \<noteq> []) (cut_commas s))))"

section \<open>What a clean bill means\<close>

lemma verdict_ok: "verdict_of cs = ''ok'' \<longleftrightarrow> (\<forall>c \<in> set cs. check_status c \<noteq> ''fail'' \<and> check_status c \<noteq> ''warn'')"
  by (auto simp: verdict_of_def Let_def image_iff)

lemma verdict_error: "verdict_of cs = ''error'' \<longleftrightarrow> (\<exists>c \<in> set cs. check_status c = ''fail'')"
  by (auto simp: verdict_of_def Let_def image_iff)

lemma ram_check_pass:
  "check_status (ram_check a p) \<noteq> ''fail'' \<and> check_status (ram_check a p) \<noteq> ''warn'' \<Longrightarrow> ram_budget p \<le> a \<and> 1 \<le> cache_slots p"
  by (auto simp: ram_check_def plain_check_def split: if_splits)

lemma placement_check_pass: "check_status (placement_check p) \<noteq> ''warn'' \<Longrightarrow> warnings p = []"
  by (auto simp: placement_check_def plain_check_def split: if_splits)

lemma engine_check_pass: "check_status (engine_check h) \<noteq> ''fail'' \<Longrightarrow> engine_is_file h \<and> engine_runs h"
  by (auto simp: engine_check_def plain_check_def split: if_splits)

text \<open>
  C40: when the doctor reports \<open>ok\<close>, the engine can be run and there is a plan without warnings whose RAM budget
  the machine has, and the least the engine can take under the plan fits that budget.
\<close>

theorem ok_means_the_model_fits:
  assumes "run_doctor h ram_gb context wanted vram_gb env_text conf = Inr r" and "verdict r = ''ok''"
  shows "engine_is_file h \<and> engine_runs h \<and> exit_code r = 0
    \<and> (\<exists>p. report_plan r = Some p \<and> warnings p = [] \<and> 1 \<le> cache_slots p \<and> ram_budget p \<le> memory h \<and> project_minimum_peak_bytes p \<le> memory h)"
proof -
  let ?plan = "build_plan (model_name h) (config_file h) (shard_files h) ram_gb context wanted vram_gb (memory h) (disk h) (gpus_found h)"
  let ?first = "[path_check h, config_check h, tokenizer_check h, persistence_check h, engine_check h, cuda_check h wanted]"
  show ?thesis
  proof (cases ?plan)
    case (Inl e)
    with assms(1) have "verdict r = verdict_of (?first @ plan_failed e)" by (auto simp: run_doctor_def Let_def split: if_splits)
    with assms(2) have "verdict_of (?first @ plan_failed e) = ''ok''" by simp
    then have "\<forall>c \<in> set (?first @ plan_failed e). check_status c \<noteq> ''fail''" by (simp only: verdict_ok) blast
    moreover have "plain_check ''model.shards'' ''fail'' (error_text e) \<in> set (?first @ plan_failed e)" by (simp add: plan_failed_def)
    ultimately have "check_status (plain_check ''model.shards'' ''fail'' (error_text e)) \<noteq> ''fail''" by blast
    then show ?thesis by (simp add: plain_check_def)
  next
    case (Inr p)
    with assms(1) have r: "verdict r = verdict_of (?first @ [shards_check p, disk_check p, ram_check (memory h) p, placement_check p])" "report_plan r = Some p"
      by (auto simp: run_doctor_def Let_def)
    let ?cs = "?first @ [shards_check p, disk_check p, ram_check (memory h) p, placement_check p]"
    have "verdict_of ?cs = ''ok''" using assms(2) r(1) by simp
    note ok = this[unfolded verdict_ok, THEN bspec]
    have "ram_budget p \<le> memory h" "1 \<le> cache_slots p" using ram_check_pass[OF ok[of "ram_check (memory h) p"]] by simp_all
    moreover have "warnings p = []" using placement_check_pass[of p] ok[of "placement_check p"] by simp
    moreover have "engine_is_file h \<and> engine_runs h" using engine_check_pass[of h] ok[of "engine_check h"] by simp
    moreover have "project_minimum_peak_bytes p \<le> ram_budget p" by (rule plan_slot_fits[OF Inr \<open>1 \<le> cache_slots p\<close>])
    ultimately show ?thesis using r(2) assms(2) by (auto simp: exit_code_def)
  qed
qed

definition well_host :: found_host where
  "well_host = \<lparr>model_name = ''m'', is_dir = True, readable = True, writable = True, config_file = small_config, has_tokenizer = True,
     shard_files = [small_shard], engine_name = ''glm'', engine_is_file = True, engine_runs = True, memory = 16 * GB, disk = 9 * GB, gpus_found = [],
     cuda_linked = False, cuda_missing = False\<rparr>"

theorem ok_means_the_model_fits_witness:
  "ok_with (run_doctor well_host (Fin 12) 10 None (Fin 0) [] Unset) (\<lambda>r. verdict r = ''ok'' \<and> (\<exists>p. report_plan r = Some p \<and> project_minimum_peak_bytes p \<le> 16 * GB))"
proof -
  have "ok_with (run_doctor well_host (Fin 12) 10 None (Fin 0) [] Unset) (\<lambda>r. verdict r = ''ok'')" by code_simp
  then obtain r where r: "run_doctor well_host (Fin 12) 10 None (Fin 0) [] Unset = Inr r" "verdict r = ''ok''" by (rule ok_withE)
  have "memory well_host = 16 * GB" by (simp add: well_host_def)
  with ok_means_the_model_fits[OF r] obtain p where "report_plan r = Some p" "project_minimum_peak_bytes p \<le> 16 * GB" by auto
  with r show ?thesis by (auto simp: ok_with_def)
qed

end
