(* ===== verification/Spec2Isabelle.thy ===== *)
theory Spec2Isabelle
  imports Binary_Codec Session_Scheduler KV_Policy Residency Runtime_Config Fast_Policy Daemon_Safety Colibri
    Layout_Packing Turboquant Model_Store Sqtn Traversal Estimates Speculative Unified_Plan Promotion_Gates
    Kernel_Dispatch Model_Files Openai_Server Backend_Contract Litert_Models Catalog Resolver Distribution
    Dense_Stream Openai_Adapter Server_Manager Doctor
begin

text \<open>
  The Python side of ds4-simplicio-apple: the package \<open>src/local_data_plane\<close>, a persistent inference
  daemon with its planners, stores and gates, and the gateway, planner and package manager around the C
  engine in \<open>src/engine/c\<close>.

  \<^bold>\<open>The program.\<close>  A client talks to the daemon (\<open>daemon.py\<close>) in binary frames (\<open>binary.py\<close>).  The
  daemon loads models under handles, starts \<open>llama-server\<close> processes for them, generates text and
  answers the Runtime's requests through a bridge (\<open>runtime_bridge.py\<close>) that validates the request,
  runs it through \<open>generate\<close> and keeps the answer for a replay.  Around it stand the planners
  (placement, residency, runtime configuration, KV cache, traversal, estimates, speculation, kernels),
  the stores of model files (\<open>model_store.py\<close>, \<open>model_cache.py\<close>, \<open>mapped_loader.py\<close>,
  \<open>sqtn_format.py\<close>, \<open>layout_packing.py\<close>) and the gates an optimisation passes before it is used.

  Beside the daemon, \<open>openai_server.py\<close> of the engine serves the OpenAI interface over one engine
  process: a request passes authentication, parsing and the chat template, waits in the admission queue,
  runs one turn of the engine's line protocol, and its text passes the incremental decoder and the stop
  filter.  \<open>backend_contract.py\<close> leases backends and installs packages and models for them,
  \<open>resource_plan.py\<close> and \<open>doctor.py\<close> say whether a model fits a machine, and \<open>openai_adapter.py\<close> puts the
  daemon behind the same interface.

  \<^bold>\<open>Shared theories.\<close>
  \<^item> \<open>Py_Float\<close>: binary64 arithmetic with round-half-to-even, infinities and NaN.
  \<^item> \<open>Py_Base\<close>: exceptions as values of a sum, dynamically typed values (\<open>pyval\<close>), dictionaries in
    insertion order, \<open>sorted\<close>, \<open>max\<close>, conversions.
  \<^item> \<open>Bytes\<close>, \<open>Sha256\<close>, \<open>Base64\<close>, \<open>Py_Json\<close>: \<open>struct\<close>, UTF-8, CRC-32, SHA-256, Base64 and the canonical
    JSON text whose digest is an identity.
  \<^item> \<open>Interfaces\<close>: the locales the components share (a machine with an invariant, a dictionary, a
    self-delimiting encoding), each interpreted on the definitions of the components.

  \<^bold>\<open>Components.\<close>  Each theory holds the records, the operations in the order of the code and the
  lemmas of one or more modules.
  \<^item> \<open>Binary_Codec\<close> (\<open>binary.py\<close>): value codec, frame envelope and stream; round trip of a whole
    stream, limits of decoded values, detection of a corrupted byte.
  \<^item> \<open>Protocol\<close>, \<open>Profiles\<close>, \<open>Telemetry\<close>, \<open>Artifacts\<close>, \<open>Registry\<close>: response shapes, TurboQuant profiles
    and the quality gate, redacted receipts, immutable artifact pins, the catalogue of backends.
  \<^item> \<open>Runtime_Bridge\<close> (\<open>runtime_bridge.py\<close>): what is run and recorded, what is refused, what is replayed; once an
    answer is on record the daemon is not asked under its key again.
  \<^item> \<open>Daemon\<close> and \<open>Daemon_Safety\<close> (\<open>daemon.py\<close>): every request is one step, because \<open>handle\<close> holds the
    lock; invariants over all runs of requests.
  \<^item> \<open>Session_Scheduler\<close>, \<open>KV_Policy\<close>, \<open>Memory_Placement\<close>, \<open>Residency\<close>, \<open>Runtime_Config\<close>: admission and
    memory planning with their budgets; what a placement promises in each of its modes, and what it overlooks.
  \<^item> \<open>Fast_Policy\<close>, \<open>Speculative\<close>: the choice of a speculative strategy, of a speculative placement, of
    layer precisions and of worker threads.
  \<^item> \<open>Colibri\<close> (\<open>colibri.py\<close>): the LRU cache of expert shards and the streaming loop; the cache
    refines the list of the last distinct keys.
  \<^item> \<open>Layout_Packing\<close>, \<open>Turboquant\<close>, \<open>Sqtn\<close>: packed tensors and their cache, bit packing and packets,
    the manifest of a quantised tensor network.
  \<^item> \<open>Model_Store\<close>, \<open>Model_Files\<close>: content-addressed store, download cache, verified mappings.  A put carries the
    user's files as it hashes them and as it copies them, so they may change at any time.
  \<^item> \<open>Traversal\<close>, \<open>Estimates\<close>, \<open>Unified_Plan\<close>, \<open>Kernel_Dispatch\<close>, \<open>Promotion_Gates\<close>: block traversal,
    estimates that never guess, the unified plan, kernel selection and tuning, promotion gates.
  \<^item> \<open>Stop_Filter\<close>, \<open>Generation_Queue\<close>, \<open>Engine_Turn\<close>, \<open>Openai_Server\<close> (\<open>openai_server.py\<close>): the stop filter
    against its specification (over \<open>Substrings\<close>), the admission queue as steps of its threads (order over every
    interleaving, progress over every fair infinite execution), one turn of the engine, and the requests from
    authentication to the answer.
  \<^item> \<open>Chat_Templates\<close> (\<open>chat_templates.py\<close>): validation, detection and rendering of templates.
  \<^item> \<open>Backend_Contract\<close>, \<open>Litert\<close>, \<open>Litert_Models\<close> (\<open>backend_contract.py\<close>): admission and leases; packages
    and content-addressed models over the file tree of \<open>Fs_Paths\<close>, with verification and rollback.
  \<^item> \<open>Catalog\<close>, \<open>Resolver\<close>, \<open>Distribution\<close> (\<open>model_catalog.py\<close>, \<open>model_resolver.py\<close>, \<open>distribution.py\<close>): the trusted
    catalogue, the choice of a model for a text, and the staged installation of a version.
  \<^item> \<open>Dense_Stream\<close> (\<open>dense_stream.py\<close>): streaming of layers in slabs equals multiplication by the whole layers.
  \<^item> \<open>Openai_Adapter\<close>, \<open>Server_Manager\<close> (\<open>openai_adapter.py\<close>, \<open>server_manager.py\<close>): the adapter composed with
    the daemon of \<open>Daemon\<close>; the lifecycle of one server under failures, and the two that lose it.
  \<^item> \<open>Resource_Plan\<close>, \<open>Doctor\<close> (\<open>resource_plan.py\<close>, \<open>doctor.py\<close>): sizes, budgets and the verdict built on them.

  \<^bold>\<open>How state corresponds.\<close>  An object's attributes are a record; a method that changes them returns
  the new record next to its result.  A raised exception is \<open>Inl\<close> of an \<open>exc\<close>.  A directory is a
  dictionary from file names to contents; a file whose JSON is read back holds the JSON value.  The
  host (clock, files, processes, NumPy, the benchmark, the policy service) is a parameter: a record
  of functions or an argument.

  \<^bold>\<open>Bounds and fuel.\<close>  The loops are structural recursions or have a measure: nesting depth (at most
  32) for the decoder, the tile sizes for the tiling loop, the rows left for the slabs, the length of the
  path for the removal of empty directories, the length of the text for the regular expressions, whose
  repetition tries at most that many rounds since each round must consume.  A loop that waits for the
  outside (a turn of the engine, the readiness of a server) runs over the list of what it sees until its
  deadline, so it ends with that list.  No definition uses fuel that could run out.

  \<^bold>\<open>What is assumed.\<close>  Texts hold characters below 256 and are folded as ASCII; a file tree has no
  symbolic links; an effect either happens or raises, writes of finished temporary files are atomic (so the
  name \<open>active.tmp\<close> of \<open>distribution.py\<close> does not occur in the tree), a provider whose start fails leaves no
  process behind (the load of \<open>handle\<close> in \<open>daemon.py\<close>), and request targets are in origin form, a path after one slash.  The
  offsets of a tensor are whole numbers.  The quantiser of \<open>turboquant.py\<close> (rotation, norms, nearest
  centroids) is a parameter that returns arrays of the right shape.

  \<^bold>\<open>Not modelled.\<close>  The sockets and threads under the HTTP servers, the writing of receipts and the parsing
  of command lines (pure input and output); \<open>llama_cpp.py\<close>, whose effects are those of a binary the
  repository does not hold; the installer of \<open>turboquant_backend.py\<close>, which unpacks archives with symbolic
  links; \<open>hardware_topology.py\<close> and \<open>simd_validation.py\<close>, which read \<open>/sys\<close> and run compiled kernels; the
  numerics of NumPy and PyTorch and the conversion tools built on them; the scripts and benchmarks, which
  drive external programs; the C, C++, Metal and JavaScript parts of the repository.
\<close>

end
